(* ===== verification/Prelude.thy ===== *)
theory Prelude
  imports Main "HOL-Library.Word" "HOL-Library.FSet" "HOL-Library.Finite_Map"
begin

text \<open>
  Shared vocabulary of the development: the Go types that every component uses, the two ways a
  Go call can fail (a run-time panic and a returned error), the binary search of the Go
  standard library, and the generic facts on lists, finite maps and results that the component
  proofs rest on.

  Go values are modelled as follows.  An address and a hash are fixed-size byte arrays
  (\<^verbatim>\<open>[20]byte\<close>, \<^verbatim>\<open>[32]byte\<close>) and become words; the byte-wise comparison of two of them
  is the comparison of the words.  \<^verbatim>\<open>uint64\<close> is a 64-bit word, \<^verbatim>\<open>*big.Int\<close> an \<^typ>\<open>int\<close>, a
  possibly nil slice or pointer an option.
\<close>

type_synonym address = "160 word"
type_synonym hash = "256 word"
type_synonym u64 = "64 word"
type_synonym bytes = "8 word list"

subsection \<open>Panics, errors and results\<close>

datatype panic = NilDereference | IndexOutOfRange | DivisionByZero | Panic string

text \<open>A call that can both panic and return an error.\<close>

datatype failure = Panicked panic | Err string

text \<open>A call that can panic (or return an error) is a sum, the failure on the left.\<close>

primrec rbind :: "'e + 'a \<Rightarrow> ('a \<Rightarrow> 'e + 'b) \<Rightarrow> 'e + 'b" where
  "rbind (Inl e) f = Inl e"
| "rbind (Inr x) f = f x"

text \<open>Evaluation takes a bind as a case distinction, so that the rest is not evaluated before its argument is known.\<close>

lemma rbind_case [code_unfold]: "rbind m f = (case m of Inl e \<Rightarrow> Inl e | Inr x \<Rightarrow> f x)"
  by (cases m) simp_all

named_theorems result_simps \<open>rewrite rules that eliminate binds of results\<close>

lemma rbind_eq_Inr [simp, result_simps]: "rbind m f = Inr y \<longleftrightarrow> (\<exists>x. m = Inr x \<and> f x = Inr y)"
  by (cases m) auto

lemma rbind_eq_Inl [simp, result_simps]:
  "rbind m f = Inl e \<longleftrightarrow> m = Inl e \<or> (\<exists>x. m = Inr x \<and> f x = Inl e)"
  by (cases m) auto

lemma rbind_Inr [simp]: "rbind m Inr = m"
  by (cases m) auto

lemma rbind_assoc: "rbind (rbind m f) g = rbind m (\<lambda>x. rbind (f x) g)"
  by (cases m) auto

lemma rbind_cong [fundef_cong]:
  "m = m' \<Longrightarrow> (\<And>x. m' = Inr x \<Longrightarrow> f x = f' x) \<Longrightarrow> rbind m f = rbind m' f'"
  by (cases m') auto

text \<open>Embedding a call that can only panic, or only return an error.\<close>

definition panicking :: "panic + 'a \<Rightarrow> failure + 'a" where
  "panicking r = map_sum Panicked id r"

definition failing :: "string + 'a \<Rightarrow> failure + 'a" where
  "failing r = map_sum Err id r"

lemma panicking_simps [simp, result_simps]:
  "panicking (Inl p) = Inl (Panicked p)" "panicking (Inr x) = Inr x"
  "panicking r = Inr x \<longleftrightarrow> r = Inr x"
  by (auto simp: panicking_def map_sum_def split: sum.splits)

lemma failing_simps [simp, result_simps]:
  "failing (Inl e) = Inl (Err e)" "failing (Inr x) = Inr x" "failing r = Inr x \<longleftrightarrow> r = Inr x"
  by (auto simp: failing_def map_sum_def split: sum.splits)

subsection \<open>Running a list of steps\<close>

text \<open>A Go loop over a slice whose body may fail.\<close>

fun foldM :: "('a \<Rightarrow> 's \<Rightarrow> 'e + 's) \<Rightarrow> 'a list \<Rightarrow> 's \<Rightarrow> 'e + 's" where
  "foldM f [] s = Inr s"
| "foldM f (x # xs) s = rbind (f x s) (foldM f xs)"

lemma foldM_append: "foldM f (xs @ ys) s = rbind (foldM f xs s) (foldM f ys)"
  by (induction xs arbitrary: s) (simp_all add: rbind_assoc cong: rbind_cong)

lemma foldM_invariant:
  assumes "foldM f xs s = Inr t" and "P s"
    and "\<And>x s t. x \<in> set xs \<Longrightarrow> P s \<Longrightarrow> f x s = Inr t \<Longrightarrow> P t"
  shows "P t"
  using assms by (induction xs arbitrary: s) auto

lemma foldM_Inr:
  assumes "P s"
    and "\<And>x s. x \<in> set xs \<Longrightarrow> P s \<Longrightarrow> \<exists>t. f x s = Inr t \<and> P t"
  shows "\<exists>t. foldM f xs s = Inr t \<and> P t"
  using assms
proof (induction xs arbitrary: s)
  case Nil
  then show ?case by simp
next
  case (Cons x xs)
  from Cons.prems obtain t where t: "f x s = Inr t" "P t"
    by (meson list.set_intros(1))
  have "\<exists>u. foldM f xs t = Inr u \<and> P u"
    using t(2) Cons.prems(2) by (intro Cons.IH) auto
  with t show ?case by simp
qed

subsection \<open>The binary search of package sort\<close>

text \<open>
  \<^verbatim>\<open>sort.Search(n, f)\<close>: the loop \<^verbatim>\<open>for i < j { h := (i+j)/2; if !f(h) { i = h+1 } else { j = h } }\<close>,
  started with \<^verbatim>\<open>i, j := 0, n\<close>.
\<close>

function search_loop :: "(nat \<Rightarrow> bool) \<Rightarrow> nat \<Rightarrow> nat \<Rightarrow> nat" where
  "search_loop f i j =
     (if i < j
      then let h = (i + j) div 2 in if \<not> f h then search_loop f (h + 1) j else search_loop f i h
      else i)"
  by pat_completeness auto
termination
  by (relation "measure (\<lambda>(f, i, j). j - i)") auto

declare search_loop.simps [simp del]

definition sort_Search :: "nat \<Rightarrow> (nat \<Rightarrow> bool) \<Rightarrow> nat" where
  "sort_Search n f = search_loop f 0 n"

lemma search_loop_correct:
  assumes "\<forall>x y. x \<le> y \<and> y < n \<and> f x \<longrightarrow> f y" and "i \<le> j"
    and "\<forall>k<i. \<not> f k" and "\<forall>k. j \<le> k \<and> k < n \<longrightarrow> f k" and "j \<le> n"
  shows "search_loop f i j \<le> n \<and> (\<forall>k. k < search_loop f i j \<longrightarrow> \<not> f k) \<and>
    (\<forall>k. search_loop f i j \<le> k \<and> k < n \<longrightarrow> f k)"
  using assms
proof (induction f i j rule: search_loop.induct)
  case (1 f i j)
  let ?h = "(i + j) div 2"
  consider (stop) "\<not> i < j" | (right) "i < j" "\<not> f ?h" | (left) "i < j" "f ?h"
    by blast
  then show ?case
  proof cases
    case stop
    then have "search_loop f i j = i" by (simp add: search_loop.simps [of f i j])
    moreover have "i = j" using stop "1.prems"(2) by simp
    ultimately have "search_loop f i j = j" by (simp only:)
    with \<open>i = j\<close> "1.prems"(3-5) show ?thesis by (simp only:)
  next
    case right
    then have h: "?h < n" "?h + 1 \<le> j" using "1.prems"(5) by linarith+
    have below: "\<forall>k<?h + 1. \<not> f k"
    proof (intro allI impI)
      fix k assume "k < ?h + 1"
      then have "k \<le> ?h" by simp
      with "1.prems"(1) h(1) right(2) show "\<not> f k" by blast
    qed
    have "search_loop f (?h + 1) j \<le> n \<and>
        (\<forall>k. k < search_loop f (?h + 1) j \<longrightarrow> \<not> f k) \<and>
        (\<forall>k. search_loop f (?h + 1) j \<le> k \<and> k < n \<longrightarrow> f k)"
      by (rule "1.IH"(1) [OF right(1) refl right(2) "1.prems"(1) h(2) below "1.prems"(4,5)])
    moreover have "search_loop f i j = search_loop f (?h + 1) j"
      using right by (simp add: search_loop.simps [of f i j] Let_def)
    ultimately show ?thesis by metis
  next
    case left
    have above: "\<forall>k. ?h \<le> k \<and> k < n \<longrightarrow> f k"
      using "1.prems"(1) left(2) by blast
    have h: "i \<le> ?h" "?h \<le> n" using left(1) "1.prems"(5) by linarith+
    have "search_loop f i ?h \<le> n \<and>
        (\<forall>k. k < search_loop f i ?h \<longrightarrow> \<not> f k) \<and>
        (\<forall>k. search_loop f i ?h \<le> k \<and> k < n \<longrightarrow> f k)"
      using "1.IH"(2) [OF left(1) refl _ "1.prems"(1) h(1) "1.prems"(3) above h(2)] left(2) by blast
    moreover have "search_loop f i j = search_loop f i ?h"
      using left by (simp add: search_loop.simps [of f i j] Let_def)
    ultimately show ?thesis by metis
  qed
qed

lemma sort_Search_least:
  assumes "\<forall>x y. x \<le> y \<and> y < n \<and> f x \<longrightarrow> f y"
  shows "sort_Search n f \<le> n" and "k < sort_Search n f \<Longrightarrow> \<not> f k"
    and "sort_Search n f \<le> k \<Longrightarrow> k < n \<Longrightarrow> f k"
proof -
  have "search_loop f 0 n \<le> n \<and> (\<forall>k. k < search_loop f 0 n \<longrightarrow> \<not> f k) \<and>
      (\<forall>k. search_loop f 0 n \<le> k \<and> k < n \<longrightarrow> f k)"
    by (rule search_loop_correct [OF assms]) auto
  then show "sort_Search n f \<le> n" and "k < sort_Search n f \<Longrightarrow> \<not> f k"
    and "sort_Search n f \<le> k \<Longrightarrow> k < n \<Longrightarrow> f k"
    unfolding sort_Search_def by blast+
qed

subsection \<open>Finite maps\<close>

lemma fmupd_triv [simp]: "fmlookup m a = Some v \<Longrightarrow> fmupd a v m = m"
  by (rule fmap_ext) auto

lemma fmdrop_fmupd_new [simp]: "fmlookup m a = None \<Longrightarrow> fmdrop a (fmupd a v m) = m"
  by (rule fmap_ext) simp

end
