(* ===== verification/Access_List.thy ===== *)
theory Access_List
  imports Prelude
begin

text \<open>
  The per-transaction access list of EIP-2929 (\<^verbatim>\<open>x/evm/statedb/access_list.go\<close>).  The code keeps
  a map from addresses to an index into an array of slot sets, with index -1 for an address
  without slots.  The operations are translated with their index arithmetic and their panics.

  The lemmas show that the structure represents a set of addresses and a set of (address, slot)
  pairs, that the additions keep it well formed and change exactly those two sets, and that the
  deletions undo the additions exactly when they are performed in the reverse order, which is
  the only way the journal calls them.
\<close>

record accessList =
  addresses :: "(address, int) fmap"
  slots :: "hash fset list"

definition newAccessList :: accessList where
  "newAccessList = \<lparr>addresses = fmempty, slots = []\<rparr>"

definition ContainsAddress :: "accessList \<Rightarrow> address \<Rightarrow> bool" where
  "ContainsAddress al addr \<longleftrightarrow> fmlookup (addresses al) addr \<noteq> None"

text \<open>\<^verbatim>\<open>al.slots[idx]\<close>, which panics outside the array.\<close>

definition slots_at :: "accessList \<Rightarrow> int \<Rightarrow> panic + hash fset" where
  "slots_at al idx =
     (if 0 \<le> idx \<and> idx < int (length (slots al)) then Inr (slots al ! nat idx)
      else Inl IndexOutOfRange)"

definition Contains :: "accessList \<Rightarrow> address \<Rightarrow> hash \<Rightarrow> panic + (bool \<times> bool)" where
  "Contains al addr slot =
     (case fmlookup (addresses al) addr of
        None \<Rightarrow> Inr (False, False)
      | Some idx \<Rightarrow>
          if idx = -1 then Inr (True, False)
          else rbind (slots_at al idx) (\<lambda>slotmap. Inr (True, slot |\<in>| slotmap)))"

definition AddAddress :: "accessList \<Rightarrow> address \<Rightarrow> accessList \<times> bool" where
  "AddAddress al addr =
     (case fmlookup (addresses al) addr of
        Some _ \<Rightarrow> (al, False)
      | None \<Rightarrow> (al\<lparr>addresses := fmupd addr (-1) (addresses al)\<rparr>, True))"

definition AddSlot :: "accessList \<Rightarrow> address \<Rightarrow> hash \<Rightarrow> panic + (accessList \<times> bool \<times> bool)" where
  "AddSlot al addr slot =
     (let found = fmlookup (addresses al) addr in
      if found = None \<or> found = Some (-1)
      then Inr (al\<lparr>addresses := fmupd addr (int (length (slots al))) (addresses al),
                  slots := slots al @ [{|slot|}]\<rparr>, found = None, True)
      else rbind (slots_at al (the found)) (\<lambda>slotmap.
        if slot |\<notin>| slotmap
        then Inr (al\<lparr>slots := (slots al)[nat (the found) := finsert slot slotmap]\<rparr>, False, True)
        else Inr (al, False, False)))"

definition DeleteSlot :: "accessList \<Rightarrow> address \<Rightarrow> hash \<Rightarrow> panic + accessList" where
  "DeleteSlot al addr slot =
     (case fmlookup (addresses al) addr of
        None \<Rightarrow> Inl (Panic ''reverting slot change, address not present in list'')
      | Some idx \<Rightarrow>
          rbind (slots_at al idx) (\<lambda>slotmap.
            let slotmap' = slotmap |-| {|slot|};
                al' = al\<lparr>slots := (slots al)[nat idx := slotmap']\<rparr>
            in if slotmap' = {||}
               then Inr (al'\<lparr>slots := take (nat idx) (slots al'),
                            addresses := fmupd addr (-1) (addresses al')\<rparr>)
               else Inr al'))"

definition DeleteAddress :: "accessList \<Rightarrow> address \<Rightarrow> accessList" where
  "DeleteAddress al addr = al\<lparr>addresses := fmdrop addr (addresses al)\<rparr>"

subsection \<open>Well-formedness and the represented sets\<close>

definition al_inv :: "accessList \<Rightarrow> bool" where
  "al_inv al \<longleftrightarrow>
     (\<forall>a i. fmlookup (addresses al) a = Some i \<longrightarrow>
        i = -1 \<or> (0 \<le> i \<and> i < int (length (slots al)) \<and> slots al ! nat i \<noteq> {||})) \<and>
     (\<forall>a b i. fmlookup (addresses al) a = Some i \<and> fmlookup (addresses al) b = Some i \<and> i \<noteq> -1
        \<longrightarrow> a = b)"

definition al_addrs :: "accessList \<Rightarrow> address set" where
  "al_addrs al = fmdom' (addresses al)"

definition al_slots :: "accessList \<Rightarrow> (address \<times> hash) set" where
  "al_slots al =
     {(a, k). \<exists>i. fmlookup (addresses al) a = Some i \<and> i \<noteq> -1 \<and> k |\<in>| slots al ! nat i}"

lemmas al_defs = al_inv_def al_addrs_def al_slots_def slots_at_def fmlookup_dom'_iff

lemma al_invI:
  assumes "\<And>a i. fmlookup (addresses al) a = Some i \<Longrightarrow> i \<noteq> -1 \<Longrightarrow>
      0 \<le> i \<and> i < int (length (slots al)) \<and> slots al ! nat i \<noteq> {||}"
    and "\<And>a b i. fmlookup (addresses al) a = Some i \<Longrightarrow> fmlookup (addresses al) b = Some i \<Longrightarrow>
      i \<noteq> -1 \<Longrightarrow> a = b"
  shows "al_inv al"
  using assms unfolding al_inv_def by blast

lemma al_invD:
  assumes "al_inv al" and "fmlookup (addresses al) a = Some i" and "i \<noteq> -1"
  shows "0 \<le> i" and "i < int (length (slots al))" and "slots al ! nat i \<noteq> {||}"
    and "nat i < length (slots al)"
  using assms unfolding al_inv_def by fastforce+

lemma al_inv_inj:
  "al_inv al \<Longrightarrow> fmlookup (addresses al) a = Some i \<Longrightarrow> fmlookup (addresses al) b = Some i \<Longrightarrow>
    i \<noteq> -1 \<Longrightarrow> a = b"
  unfolding al_inv_def by blast

lemma slots_at_Inr [simp]:
  "al_inv al \<Longrightarrow> fmlookup (addresses al) a = Some i \<Longrightarrow> i \<noteq> -1 \<Longrightarrow>
    slots_at al i = Inr (slots al ! nat i)"
  by (auto simp: slots_at_def dest: al_invD)

lemma in_al_addrs_iff: "a \<in> al_addrs al \<longleftrightarrow> (\<exists>i. fmlookup (addresses al) a = Some i)"
  by (simp add: al_addrs_def fmlookup_dom'_iff)

lemma in_al_slots_iff:
  "(a, k) \<in> al_slots al \<longleftrightarrow>
    (\<exists>i. fmlookup (addresses al) a = Some i \<and> i \<noteq> -1 \<and> k |\<in>| slots al ! nat i)"
  by (simp add: al_slots_def)

lemma al_inv_newAccessList: "al_inv newAccessList"
  by (simp add: al_inv_def newAccessList_def)

lemma al_sets_newAccessList [simp]: "al_addrs newAccessList = {}" "al_slots newAccessList = {}"
  by (simp_all add: al_addrs_def al_slots_def newAccessList_def)

lemma ContainsAddress_iff: "ContainsAddress al a \<longleftrightarrow> a \<in> al_addrs al"
  by (auto simp: ContainsAddress_def in_al_addrs_iff)

lemma Contains_eq: "al_inv al \<Longrightarrow> Contains al a k = Inr (a \<in> al_addrs al, (a, k) \<in> al_slots al)"
  by (auto simp: Contains_def in_al_addrs_iff in_al_slots_iff split: option.splits)

subsection \<open>Additions\<close>

lemma AddAddress_refines:
  assumes "al_inv al" and "AddAddress al a = (al', changed)"
  shows "al_inv al'" and "al_addrs al' = insert a (al_addrs al)" and "al_slots al' = al_slots al"
    and "changed \<longleftrightarrow> a \<notin> al_addrs al"
proof -
  consider (old) i where "fmlookup (addresses al) a = Some i" "al' = al" "\<not> changed"
    | (new) "fmlookup (addresses al) a = None" "changed"
        "al' = al\<lparr>addresses := fmupd a (-1) (addresses al)\<rparr>"
    using assms(2) by (auto simp: AddAddress_def split: option.splits)
  note cases = this
  show "al_inv al'"
    by (rule cases) (auto simp: assms(1) dest: al_invD [OF assms(1)] al_inv_inj [OF assms(1)]
        intro!: al_invI split: if_splits)
  show "al_addrs al' = insert a (al_addrs al)" and "al_slots al' = al_slots al"
    and "changed \<longleftrightarrow> a \<notin> al_addrs al"
    by (rule cases; auto simp: in_al_addrs_iff in_al_slots_iff split: if_splits)+
qed

text \<open>The three ways \<^const>\<open>AddSlot\<close> changes a well-formed list.\<close>

lemma AddSlot_cases:
  assumes "al_inv al"
  obtains (fresh) "fmlookup (addresses al) a \<in> {None, Some (-1)}"
      "AddSlot al a k = Inr (al\<lparr>addresses := fmupd a (int (length (slots al))) (addresses al),
         slots := slots al @ [{|k|}]\<rparr>, fmlookup (addresses al) a = None, True)"
    | (extend) i where "fmlookup (addresses al) a = Some i" "i \<noteq> -1" "k |\<notin>| slots al ! nat i"
      "AddSlot al a k =
         Inr (al\<lparr>slots := (slots al)[nat i := finsert k (slots al ! nat i)]\<rparr>, False, True)"
    | (present) i where "fmlookup (addresses al) a = Some i" "i \<noteq> -1" "k |\<in>| slots al ! nat i"
      "AddSlot al a k = Inr (al, False, False)"
proof (cases "fmlookup (addresses al) a \<in> {None, Some (-1)}")
  case True
  then show ?thesis by (intro fresh) (auto simp: AddSlot_def)
next
  case False
  then obtain i where i: "fmlookup (addresses al) a = Some i" "i \<noteq> -1" by auto
  show ?thesis
  proof (cases "k |\<in>| slots al ! nat i")
    case True
    with assms i show ?thesis by (intro present) (auto simp: AddSlot_def)
  next
    case False
    with assms i show ?thesis by (intro extend) (auto simp: AddSlot_def)
  qed
qed

lemma AddSlot_al_inv:
  assumes inv: "al_inv al" and "AddSlot al a k = Inr (al', ac, sc)"
  shows "al_inv al'"
  using inv
proof (cases rule: AddSlot_cases [where a = a and k = k])
  case fresh
  with assms(2) have al': "addresses al' = fmupd a (int (length (slots al))) (addresses al)"
      "slots al' = slots al @ [{|k|}]" by auto
  show ?thesis
  proof (rule al_invI)
    fix b i assume "fmlookup (addresses al') b = Some i" "i \<noteq> -1"
    then show "0 \<le> i \<and> i < int (length (slots al')) \<and> slots al' ! nat i \<noteq> {||}"
      using al_invD [OF inv, of b i] by (auto simp: al' nth_append split: if_splits)
  next
    fix b c i assume "fmlookup (addresses al') b = Some i" "fmlookup (addresses al') c = Some i"
      "i \<noteq> -1"
    then show "b = c"
      using al_invD(2) [OF inv, of b i] al_invD(2) [OF inv, of c i] al_inv_inj [OF inv, of b i c]
      by (auto simp: al' split: if_splits)
  qed
next
  case (extend i)
  with assms(2) have al': "addresses al' = addresses al"
      "slots al' = (slots al)[nat i := finsert k (slots al ! nat i)]" by auto
  show ?thesis
  proof (rule al_invI)
    fix b j assume "fmlookup (addresses al') b = Some j" "j \<noteq> -1"
    then show "0 \<le> j \<and> j < int (length (slots al')) \<and> slots al' ! nat j \<noteq> {||}"
      using al_invD [OF inv, of b j] by (cases "nat j = nat i") (auto simp: al')
  qed (use al_inv_inj [OF inv] in \<open>auto simp: al'\<close>)
next
  case present
  with assms show ?thesis by simp
qed

lemma AddSlot_refines:
  assumes inv: "al_inv al" and "AddSlot al a k = Inr (al', ac, sc)"
  shows "al_addrs al' = insert a (al_addrs al)" and "al_slots al' = insert (a, k) (al_slots al)"
    and "ac \<longleftrightarrow> a \<notin> al_addrs al" and "sc \<longleftrightarrow> (a, k) \<notin> al_slots al"
proof -
  have "al_addrs al' = insert a (al_addrs al) \<and> (ac \<longleftrightarrow> a \<notin> al_addrs al) \<and>
      (sc \<longleftrightarrow> (a, k) \<notin> al_slots al) \<and>
      (\<forall>b l. (b, l) \<in> al_slots al' \<longleftrightarrow> (b, l) = (a, k) \<or> (b, l) \<in> al_slots al)"
    using inv
  proof (cases rule: AddSlot_cases [where a = a and k = k])
    case fresh
    with assms(2) have al': "addresses al' = fmupd a (int (length (slots al))) (addresses al)"
      "slots al' = slots al @ [{|k|}]" "ac = (fmlookup (addresses al) a = None)" "sc" by auto
    have "(b, l) \<in> al_slots al' \<longleftrightarrow> (b, l) = (a, k) \<or> (b, l) \<in> al_slots al" for b l
      using fresh(1) al_invD(4) [OF inv, of b] by (auto simp: in_al_slots_iff al' nth_append)
    then show ?thesis using al' fresh(1)
      by (auto simp: in_al_addrs_iff in_al_slots_iff split: if_splits)
  next
    case (extend i)
    with assms(2) have al': "addresses al' = addresses al"
      "slots al' = (slots al)[nat i := finsert k (slots al ! nat i)]" "\<not> ac" "sc" by auto
    have neq: "nat j \<noteq> nat i" if "fmlookup (addresses al) b = Some j" "j \<noteq> -1" "b \<noteq> a" for b j
      using that extend(1,2) al_inv_inj [OF inv, of b j a] al_invD(1) [OF inv, of b j]
        al_invD(1) [OF inv, of a i] by (auto simp: eq_nat_nat_iff)
    have "(b, l) \<in> al_slots al' \<longleftrightarrow> (b, l) = (a, k) \<or> (b, l) \<in> al_slots al" for b l
      using extend(1,2) al_invD(4) [OF inv extend(1,2)] neq [of b]
      by (cases "b = a") (auto simp: in_al_slots_iff al' nth_list_update)
    then show ?thesis using al' extend by (auto simp: in_al_addrs_iff in_al_slots_iff)
  next
    case present
    with assms show ?thesis by (auto simp: in_al_addrs_iff in_al_slots_iff)
  qed
  then show "al_addrs al' = insert a (al_addrs al)" "al_slots al' = insert (a, k) (al_slots al)"
    "ac \<longleftrightarrow> a \<notin> al_addrs al" "sc \<longleftrightarrow> (a, k) \<notin> al_slots al"
    by auto
qed

subsection \<open>Deletions undo additions\<close>

lemma DeleteAddress_AddAddress:
  "AddAddress al a = (al', True) \<Longrightarrow> DeleteAddress al' a = al"
  by (auto simp: AddAddress_def DeleteAddress_def split: option.splits)

text \<open>
  Undoing an addition in the order of the journal: the slot first and then, if the address was
  added with it, the address.
\<close>

lemma DeleteSlot_AddSlot:
  assumes inv: "al_inv al" and add: "AddSlot al a k = Inr (al', ac, True)"
  shows "rbind (DeleteSlot al' a k) (\<lambda>al. Inr (if ac then DeleteAddress al a else al)) = Inr al"
  using inv
proof (cases rule: AddSlot_cases [where a = a and k = k])
  case fresh
  with add show ?thesis
    by (auto simp: DeleteSlot_def DeleteAddress_def slots_at_def nth_append)
next
  case (extend i)
  have "finsert k (slots al ! nat i) |-| {|k|} = slots al ! nat i" using extend(3) by auto
  with extend add al_invD [OF inv extend(1,2)] show ?thesis
    by (auto simp: DeleteSlot_def slots_at_def)
next
  case present
  with add show ?thesis by simp
qed

end
