(* ===== verification/State_DB.thy ===== *)
theory State_DB
  imports Access_List
begin

text \<open>
  The journalled in-memory state of the EVM: \<^verbatim>\<open>x/evm/statedb/state_object.go\<close>,
  \<^verbatim>\<open>journal.go\<close>, \<^verbatim>\<open>statedb.go\<close> and \<^verbatim>\<open>interfaces.go\<close>.

  A \<^verbatim>\<open>*stateObject\<close> that is reachable from the program is always the object stored under its
  address in \<^verbatim>\<open>stateObjects\<close>, so a write through the pointer is a write to that map entry
  (\<open>withObject\<close>); the one pointer kept elsewhere, \<^verbatim>\<open>resetObjectChange.prev\<close>, is to an object
  that has just left the map and that nothing writes until the entry puts it back.

  Two things are parameters of the state: the \<open>Keeper\<close> (the Go interface of that name, with the
  store \<open>'k\<close> it reads through the context) and the hash function \<^verbatim>\<open>crypto.Keccak256\<close> of
  go-ethereum.  A code hash is always 32 bytes long here, so \<^verbatim>\<open>common.BytesToHash\<close> on it is the
  identity.
\<close>

section \<open>Data\<close>

record Account =
  Nonce :: u64
  Balance :: int
  CodeHash :: hash

text \<open>An \<^verbatim>\<open>Account\<close> value as \<^verbatim>\<open>newObject\<close> receives it: the pointer and the slice may be nil.\<close>

record AccountArg =
  argNonce :: u64
  argBalance :: "int option"
  argCodeHash :: "hash option"

record stateObject =
  account :: Account
  code :: "bytes option"
  originStorage :: "(hash, hash) fmap"
  dirtyStorage :: "(hash, hash) fmap"
  objAddress :: address
  dirtyCode :: bool
  suicided :: bool

text \<open>
  The \<^verbatim>\<open>Keeper\<close> interface.  \<open>ForEachStorage\<close> visits the pairs of a list until the callback
  returns false; \<open>SetState\<close> receives either nil or the 32 bytes of a hash.
\<close>

record 'k Keeper =
  kGetAccount :: "'k \<Rightarrow> address \<Rightarrow> AccountArg option"
  kGetState :: "'k \<Rightarrow> address \<Rightarrow> hash \<Rightarrow> hash"
  kGetCode :: "'k \<Rightarrow> hash \<Rightarrow> bytes option"
  kForEachStorage :: "'k \<Rightarrow> address \<Rightarrow> (hash \<times> hash) list"
  kSetAccount :: "'k \<Rightarrow> address \<Rightarrow> Account \<Rightarrow> string + 'k"
  kSetState :: "'k \<Rightarrow> address \<Rightarrow> hash \<Rightarrow> hash option \<Rightarrow> 'k"
  kSetCode :: "'k \<Rightarrow> hash \<Rightarrow> bytes option \<Rightarrow> 'k"
  kDeleteAccount :: "'k \<Rightarrow> address \<Rightarrow> string + 'k"

record Log =
  logAddress :: address
  logTopics :: "hash list"
  logData :: bytes
  logTxHash :: hash
  logBlockHash :: hash
  logTxIndex :: u64
  logIndex :: u64
  logBlockNumber :: u64
  logRemoved :: bool

record TxConfig =
  BlockHash :: hash
  TxHash :: hash
  TxIndex :: u64
  LogIndex :: u64

definition NewTxConfig :: "hash \<Rightarrow> hash \<Rightarrow> u64 \<Rightarrow> u64 \<Rightarrow> TxConfig" where
  "NewTxConfig bhash thash txIndex logIdx =
     \<lparr>BlockHash = bhash, TxHash = thash, TxIndex = txIndex, LogIndex = logIdx\<rparr>"

definition NewEmptyTxConfig :: "hash \<Rightarrow> TxConfig" where
  "NewEmptyTxConfig bhash = \<lparr>BlockHash = bhash, TxHash = 0, TxIndex = 0, LogIndex = 0\<rparr>"

datatype JournalEntry =
    createObjectChange address
  | resetObjectChange stateObject
  | suicideChange address bool int
  | balanceChange address int
  | nonceChange address u64
  | storageChange address hash hash
  | codeChange address "bytes option" hash
  | refundChange u64
  | addLogChange
  | accessListAddAccountChange address
  | accessListAddSlotChange address hash

record journal =
  entries :: "JournalEntry list"
  dirties :: "(address, int) fmap"

record revision =
  revId :: int
  journalIndex :: nat

record 'k StateDB =
  keeper :: "'k Keeper"
  ctx :: 'k
  Keccak256 :: "bytes \<Rightarrow> hash"
  jrnl :: journal
  validRevisions :: "revision list"
  nextRevisionID :: int
  stateObjects :: "(address, stateObject) fmap"
  txConfig :: TxConfig
  refund :: u64
  logs :: "Log list"
  accList :: accessList

section \<open>Accounts and state objects\<close>

definition emptyCodeHash :: "'k StateDB \<Rightarrow> hash" where
  "emptyCodeHash s = Keccak256 s []"

definition NewEmptyAccount :: "'k StateDB \<Rightarrow> Account" where
  "NewEmptyAccount s = \<lparr>Nonce = 0, Balance = 0, CodeHash = emptyCodeHash s\<rparr>"

definition IsContract :: "'k StateDB \<Rightarrow> Account \<Rightarrow> bool" where
  "IsContract s acct \<longleftrightarrow> CodeHash acct \<noteq> emptyCodeHash s"

text \<open>The zero value \<^verbatim>\<open>Account{}\<close>.\<close>

definition zeroAccount :: AccountArg where
  "zeroAccount = \<lparr>argNonce = 0, argBalance = None, argCodeHash = None\<rparr>"

definition SortedKeys :: "(hash, hash) fmap \<Rightarrow> hash list" where
  "SortedKeys storage = sorted_list_of_fset (fmdom storage)"

definition newObject :: "'k StateDB \<Rightarrow> address \<Rightarrow> AccountArg \<Rightarrow> stateObject" where
  "newObject db addr acct =
     \<lparr>account =
        \<lparr>Nonce = argNonce acct,
         Balance = (case argBalance acct of None \<Rightarrow> 0 | Some b \<Rightarrow> b),
         CodeHash = (case argCodeHash acct of None \<Rightarrow> emptyCodeHash db | Some h \<Rightarrow> h)\<rparr>,
      code = None, originStorage = fmempty, dirtyStorage = fmempty,
      objAddress = addr, dirtyCode = False, suicided = False\<rparr>"

definition so_empty :: "'k StateDB \<Rightarrow> stateObject \<Rightarrow> bool" where
  "so_empty db so \<longleftrightarrow>
     Nonce (account so) = 0 \<and> Balance (account so) = 0 \<and> CodeHash (account so) = emptyCodeHash db"

text \<open>A write through a \<^verbatim>\<open>*stateObject\<close> pointer.\<close>

definition withObject :: "'k StateDB \<Rightarrow> address \<Rightarrow> (stateObject \<Rightarrow> stateObject) \<Rightarrow> 'k StateDB" where
  "withObject s addr f =
     (case fmlookup (stateObjects s) addr of
        None \<Rightarrow> s
      | Some obj \<Rightarrow> s\<lparr>stateObjects := fmupd addr (f obj) (stateObjects s)\<rparr>)"

definition markSuicided :: "stateObject \<Rightarrow> stateObject" where
  "markSuicided so = so\<lparr>suicided := True\<rparr>"

definition setBalance :: "int \<Rightarrow> stateObject \<Rightarrow> stateObject" where
  "setBalance amount so = so\<lparr>account := (account so)\<lparr>Balance := amount\<rparr>\<rparr>"

definition setNonce :: "u64 \<Rightarrow> stateObject \<Rightarrow> stateObject" where
  "setNonce nonce so = so\<lparr>account := (account so)\<lparr>Nonce := nonce\<rparr>\<rparr>"

definition setCode :: "hash \<Rightarrow> bytes option \<Rightarrow> stateObject \<Rightarrow> stateObject" where
  "setCode codeHash c so =
     so\<lparr>code := c, account := (account so)\<lparr>CodeHash := codeHash\<rparr>, dirtyCode := True\<rparr>"

definition setState :: "hash \<Rightarrow> hash \<Rightarrow> stateObject \<Rightarrow> stateObject" where
  "setState key val so = so\<lparr>dirtyStorage := fmupd key val (dirtyStorage so)\<rparr>"

section \<open>The journal\<close>

definition newJournal :: journal where
  "newJournal = \<lparr>entries = [], dirties = fmempty\<rparr>"

fun Dirtied :: "JournalEntry \<Rightarrow> address option" where
  "Dirtied (createObjectChange a) = Some a"
| "Dirtied (resetObjectChange prev) = None"
| "Dirtied (suicideChange a prev prevbalance) = Some a"
| "Dirtied (balanceChange a prev) = Some a"
| "Dirtied (nonceChange a prev) = Some a"
| "Dirtied (storageChange a key prevalue) = Some a"
| "Dirtied (codeChange a prevcode prevhash) = Some a"
| "Dirtied (refundChange prev) = None"
| "Dirtied addLogChange = None"
| "Dirtied (accessListAddAccountChange a) = None"
| "Dirtied (accessListAddSlotChange a slot) = None"

text \<open>\<^verbatim>\<open>j.dirties[*addr]++\<close> and the decrement with the deletion at zero; a missing key reads 0.\<close>

definition dirties_inc :: "address option \<Rightarrow> (address, int) fmap \<Rightarrow> (address, int) fmap" where
  "dirties_inc d m =
     (case d of None \<Rightarrow> m
      | Some a \<Rightarrow> fmupd a ((case fmlookup m a of None \<Rightarrow> 0 | Some n \<Rightarrow> n) + 1) m)"

definition dirties_dec :: "address option \<Rightarrow> (address, int) fmap \<Rightarrow> (address, int) fmap" where
  "dirties_dec d m =
     (case d of None \<Rightarrow> m
      | Some a \<Rightarrow>
          let n = (case fmlookup m a of None \<Rightarrow> 0 | Some n \<Rightarrow> n) - 1
          in if n = 0 then fmdrop a m else fmupd a n m)"

definition j_append :: "'k StateDB \<Rightarrow> JournalEntry \<Rightarrow> 'k StateDB" where
  "j_append s entry =
     s\<lparr>jrnl := \<lparr>entries = entries (jrnl s) @ [entry],
               dirties = dirties_inc (Dirtied entry) (dirties (jrnl s))\<rparr>\<rparr>"

definition j_length :: "journal \<Rightarrow> nat" where
  "j_length j = length (entries j)"

definition sortedDirties :: "journal \<Rightarrow> address list" where
  "sortedDirties j = sorted_list_of_fset (fmdom (dirties j))"

section \<open>StateDB\<close>

definition New :: "'k \<Rightarrow> 'k Keeper \<Rightarrow> (bytes \<Rightarrow> hash) \<Rightarrow> TxConfig \<Rightarrow> 'k StateDB" where
  "New cx kp keccak cfg =
     \<lparr>keeper = kp, ctx = cx, Keccak256 = keccak, jrnl = newJournal, validRevisions = [],
      nextRevisionID = 0, stateObjects = fmempty, txConfig = cfg, refund = 0, logs = [],
      accList = newAccessList\<rparr>"

subsection \<open>Object lookup and creation\<close>

definition setStateObject :: "'k StateDB \<Rightarrow> stateObject \<Rightarrow> 'k StateDB" where
  "setStateObject s obj = s\<lparr>stateObjects := fmupd (objAddress obj) obj (stateObjects s)\<rparr>"

definition getStateObject :: "'k StateDB \<Rightarrow> address \<Rightarrow> 'k StateDB \<times> stateObject option" where
  "getStateObject s addr =
     (case fmlookup (stateObjects s) addr of
        Some obj \<Rightarrow> (s, Some obj)
      | None \<Rightarrow>
          (case kGetAccount (keeper s) (ctx s) addr of
             None \<Rightarrow> (s, None)
           | Some acct \<Rightarrow>
               let obj = newObject s addr acct in (setStateObject s obj, Some obj)))"

definition createObject ::
    "'k StateDB \<Rightarrow> address \<Rightarrow> 'k StateDB \<times> stateObject \<times> stateObject option" where
  "createObject s0 addr =
     (let (s, prev) = getStateObject s0 addr;
          newobj = newObject s addr zeroAccount;
          s' = (case prev of
                  None \<Rightarrow> j_append s (createObjectChange addr)
                | Some p \<Rightarrow> j_append s (resetObjectChange p))
      in (setStateObject s' newobj, newobj, prev))"

definition getOrNewStateObject :: "'k StateDB \<Rightarrow> address \<Rightarrow> 'k StateDB \<times> stateObject" where
  "getOrNewStateObject s addr =
     (case getStateObject s addr of
        (s', Some obj) \<Rightarrow> (s', obj)
      | (s', None) \<Rightarrow> let (s'', newobj, _) = createObject s' addr in (s'', newobj))"

definition CreateAccount :: "'k StateDB \<Rightarrow> address \<Rightarrow> 'k StateDB" where
  "CreateAccount s addr =
     (let (s', newObj, prev) = createObject s addr in
      case prev of
        None \<Rightarrow> s'
      | Some p \<Rightarrow> withObject s' addr (setBalance (Balance (account p))))"

subsection \<open>Reading through a state object\<close>

definition so_Code :: "'k StateDB \<Rightarrow> stateObject \<Rightarrow> 'k StateDB \<times> bytes option" where
  "so_Code s so =
     (case code so of
        Some c \<Rightarrow> (s, Some c)
      | None \<Rightarrow>
          if CodeHash (account so) = emptyCodeHash s then (s, None)
          else let c = kGetCode (keeper s) (ctx s) (CodeHash (account so))
               in (withObject s (objAddress so) (\<lambda>ob. ob\<lparr>code := c\<rparr>), c))"

text \<open>\<^verbatim>\<open>len\<close> of a possibly nil byte slice.\<close>

definition len_bytes :: "bytes option \<Rightarrow> nat" where
  "len_bytes c = (case c of None \<Rightarrow> 0 | Some bs \<Rightarrow> length bs)"

definition so_CodeSize :: "'k StateDB \<Rightarrow> stateObject \<Rightarrow> 'k StateDB \<times> nat" where
  "so_CodeSize s so = (let (s', c) = so_Code s so in (s', len_bytes c))"

definition so_GetCommittedState :: "'k StateDB \<Rightarrow> stateObject \<Rightarrow> hash \<Rightarrow> 'k StateDB \<times> hash" where
  "so_GetCommittedState s so key =
     (case fmlookup (originStorage so) key of
        Some v \<Rightarrow> (s, v)
      | None \<Rightarrow>
          let v = kGetState (keeper s) (ctx s) (objAddress so) key
          in (withObject s (objAddress so)
                (\<lambda>ob. ob\<lparr>originStorage := fmupd key v (originStorage ob)\<rparr>), v))"

definition so_GetState :: "'k StateDB \<Rightarrow> stateObject \<Rightarrow> hash \<Rightarrow> 'k StateDB \<times> hash" where
  "so_GetState s so key =
     (case fmlookup (dirtyStorage so) key of
        Some v \<Rightarrow> (s, v)
      | None \<Rightarrow> so_GetCommittedState s so key)"

subsection \<open>Journalled writes through a state object\<close>

definition so_SetBalance :: "'k StateDB \<Rightarrow> stateObject \<Rightarrow> int \<Rightarrow> 'k StateDB" where
  "so_SetBalance s so amount =
     withObject (j_append s (balanceChange (objAddress so) (Balance (account so))))
       (objAddress so) (setBalance amount)"

definition so_AddBalance :: "'k StateDB \<Rightarrow> stateObject \<Rightarrow> int \<Rightarrow> 'k StateDB" where
  "so_AddBalance s so amount =
     (if amount = 0 then s else so_SetBalance s so (Balance (account so) + amount))"

definition so_SubBalance :: "'k StateDB \<Rightarrow> stateObject \<Rightarrow> int \<Rightarrow> 'k StateDB" where
  "so_SubBalance s so amount =
     (if amount = 0 then s else so_SetBalance s so (Balance (account so) - amount))"

definition so_SetNonce :: "'k StateDB \<Rightarrow> stateObject \<Rightarrow> u64 \<Rightarrow> 'k StateDB" where
  "so_SetNonce s so nonce =
     withObject (j_append s (nonceChange (objAddress so) (Nonce (account so))))
       (objAddress so) (setNonce nonce)"

definition so_SetCode :: "'k StateDB \<Rightarrow> stateObject \<Rightarrow> hash \<Rightarrow> bytes option \<Rightarrow> 'k StateDB" where
  "so_SetCode s so codeHash c =
     (let (s', prevcode) = so_Code s so in
      withObject (j_append s' (codeChange (objAddress so) prevcode (CodeHash (account so))))
        (objAddress so) (setCode codeHash c))"

definition so_SetState :: "'k StateDB \<Rightarrow> stateObject \<Rightarrow> hash \<Rightarrow> hash \<Rightarrow> 'k StateDB" where
  "so_SetState s so key val =
     (let (s', prev) = so_GetState s so key in
      if prev = val then s'
      else withObject (j_append s' (storageChange (objAddress so) key prev))
             (objAddress so) (setState key val))"

subsection \<open>Getters\<close>

definition Exist :: "'k StateDB \<Rightarrow> address \<Rightarrow> 'k StateDB \<times> bool" where
  "Exist s addr = (let (s', so) = getStateObject s addr in (s', so \<noteq> None))"

definition Empty :: "'k StateDB \<Rightarrow> address \<Rightarrow> 'k StateDB \<times> bool" where
  "Empty s addr =
     (case getStateObject s addr of
        (s', None) \<Rightarrow> (s', True)
      | (s', Some so) \<Rightarrow> (s', so_empty s' so))"

definition GetBalance :: "'k StateDB \<Rightarrow> address \<Rightarrow> 'k StateDB \<times> int" where
  "GetBalance s addr =
     (case getStateObject s addr of
        (s', None) \<Rightarrow> (s', 0)
      | (s', Some so) \<Rightarrow> (s', Balance (account so)))"

definition GetNonce :: "'k StateDB \<Rightarrow> address \<Rightarrow> 'k StateDB \<times> u64" where
  "GetNonce s addr =
     (case getStateObject s addr of
        (s', None) \<Rightarrow> (s', 0)
      | (s', Some so) \<Rightarrow> (s', Nonce (account so)))"

definition GetCode :: "'k StateDB \<Rightarrow> address \<Rightarrow> 'k StateDB \<times> bytes option" where
  "GetCode s addr =
     (case getStateObject s addr of
        (s', None) \<Rightarrow> (s', None)
      | (s', Some so) \<Rightarrow> so_Code s' so)"

definition GetCodeSize :: "'k StateDB \<Rightarrow> address \<Rightarrow> 'k StateDB \<times> nat" where
  "GetCodeSize s addr =
     (case getStateObject s addr of
        (s', None) \<Rightarrow> (s', 0)
      | (s', Some so) \<Rightarrow> so_CodeSize s' so)"

definition GetCodeHash :: "'k StateDB \<Rightarrow> address \<Rightarrow> 'k StateDB \<times> hash" where
  "GetCodeHash s addr =
     (case getStateObject s addr of
        (s', None) \<Rightarrow> (s', 0)
      | (s', Some so) \<Rightarrow> (s', CodeHash (account so)))"

definition GetState :: "'k StateDB \<Rightarrow> address \<Rightarrow> hash \<Rightarrow> 'k StateDB \<times> hash" where
  "GetState s addr key =
     (case getStateObject s addr of
        (s', None) \<Rightarrow> (s', 0)
      | (s', Some so) \<Rightarrow> so_GetState s' so key)"

definition GetCommittedState :: "'k StateDB \<Rightarrow> address \<Rightarrow> hash \<Rightarrow> 'k StateDB \<times> hash" where
  "GetCommittedState s addr key =
     (case getStateObject s addr of
        (s', None) \<Rightarrow> (s', 0)
      | (s', Some so) \<Rightarrow> so_GetCommittedState s' so key)"

definition GetRefund :: "'k StateDB \<Rightarrow> u64" where
  "GetRefund s = refund s"

definition HasSuicided :: "'k StateDB \<Rightarrow> address \<Rightarrow> 'k StateDB \<times> bool" where
  "HasSuicided s addr =
     (case getStateObject s addr of
        (s', None) \<Rightarrow> (s', False)
      | (s', Some so) \<Rightarrow> (s', suicided so))"

text \<open>
  The pairs the callback of \<^verbatim>\<open>ForEachStorage\<close> receives, up to the first one it refuses.  A
  \<^verbatim>\<open>common.Hash\<close> has length 32, so the test \<^verbatim>\<open>len(value) > 0\<close> always holds.
\<close>

fun visited :: "(hash \<Rightarrow> hash \<Rightarrow> bool) \<Rightarrow> (hash \<times> hash) list \<Rightarrow> (hash \<times> hash) list" where
  "visited cb [] = []"
| "visited cb ((k, v) # kvs) = (k, v) # (if cb k v then visited cb kvs else [])"

definition ForEachStorage ::
    "'k StateDB \<Rightarrow> address \<Rightarrow> (hash \<Rightarrow> hash \<Rightarrow> bool) \<Rightarrow> 'k StateDB \<times> (hash \<times> hash) list" where
  "ForEachStorage s addr cb =
     (case getStateObject s addr of
        (s', None) \<Rightarrow> (s', [])
      | (s', Some so) \<Rightarrow>
          (s', visited cb
             (map (\<lambda>(k, v). (k, case fmlookup (dirtyStorage so) k of Some d \<Rightarrow> d | None \<Rightarrow> v))
                (kForEachStorage (keeper s') (ctx s') addr))))"

subsection \<open>Setters\<close>

definition AddLog :: "'k StateDB \<Rightarrow> Log \<Rightarrow> 'k StateDB" where
  "AddLog s0 log =
     (let s = j_append s0 addLogChange;
          log' = log\<lparr>logTxHash := TxHash (txConfig s), logBlockHash := BlockHash (txConfig s),
                     logTxIndex := TxIndex (txConfig s),
                     logIndex := LogIndex (txConfig s) + of_nat (length (logs s))\<rparr>
      in s\<lparr>logs := logs s @ [log']\<rparr>)"

definition AddRefund :: "'k StateDB \<Rightarrow> u64 \<Rightarrow> 'k StateDB" where
  "AddRefund s0 gas = (let s = j_append s0 (refundChange (refund s0)) in s\<lparr>refund := refund s + gas\<rparr>)"

definition SubRefund :: "'k StateDB \<Rightarrow> u64 \<Rightarrow> panic + 'k StateDB" where
  "SubRefund s0 gas =
     (let s = j_append s0 (refundChange (refund s0)) in
      if gas > refund s then Inl (Panic ''Refund counter below zero'')
      else Inr (s\<lparr>refund := refund s - gas\<rparr>))"

definition AddBalance :: "'k StateDB \<Rightarrow> address \<Rightarrow> int \<Rightarrow> 'k StateDB" where
  "AddBalance s addr amount =
     (let (s', so) = getOrNewStateObject s addr in so_AddBalance s' so amount)"

definition SubBalance :: "'k StateDB \<Rightarrow> address \<Rightarrow> int \<Rightarrow> 'k StateDB" where
  "SubBalance s addr amount =
     (let (s', so) = getOrNewStateObject s addr in so_SubBalance s' so amount)"

definition SetNonce :: "'k StateDB \<Rightarrow> address \<Rightarrow> u64 \<Rightarrow> 'k StateDB" where
  "SetNonce s addr nonce =
     (let (s', so) = getOrNewStateObject s addr in so_SetNonce s' so nonce)"

definition SetCode :: "'k StateDB \<Rightarrow> address \<Rightarrow> bytes option \<Rightarrow> 'k StateDB" where
  "SetCode s addr c =
     (let (s', so) = getOrNewStateObject s addr
      in so_SetCode s' so (Keccak256 s' (case c of None \<Rightarrow> [] | Some bs \<Rightarrow> bs)) c)"

definition SetState :: "'k StateDB \<Rightarrow> address \<Rightarrow> hash \<Rightarrow> hash \<Rightarrow> 'k StateDB" where
  "SetState s addr key val =
     (let (s', so) = getOrNewStateObject s addr in so_SetState s' so key val)"

definition Suicide :: "'k StateDB \<Rightarrow> address \<Rightarrow> 'k StateDB \<times> bool" where
  "Suicide s addr =
     (case getStateObject s addr of
        (s', None) \<Rightarrow> (s', False)
      | (s', Some so) \<Rightarrow>
          (withObject (j_append s' (suicideChange addr (suicided so) (Balance (account so))))
             addr (\<lambda>ob. setBalance 0 (markSuicided ob)), True))"

subsection \<open>Access list\<close>

definition AddAddressToAccessList :: "'k StateDB \<Rightarrow> address \<Rightarrow> 'k StateDB" where
  "AddAddressToAccessList s addr =
     (let (al, changed) = AddAddress (accList s) addr;
          s' = s\<lparr>accList := al\<rparr>
      in if changed then j_append s' (accessListAddAccountChange addr) else s')"

definition AddSlotToAccessList :: "'k StateDB \<Rightarrow> address \<Rightarrow> hash \<Rightarrow> panic + 'k StateDB" where
  "AddSlotToAccessList s addr slot =
     rbind (AddSlot (accList s) addr slot) (\<lambda>(al, addrMod, slotMod).
       let s1 = s\<lparr>accList := al\<rparr>;
           s2 = (if addrMod then j_append s1 (accessListAddAccountChange addr) else s1);
           s3 = (if slotMod then j_append s2 (accessListAddSlotChange addr slot) else s2)
       in Inr s3)"

definition AddressInAccessList :: "'k StateDB \<Rightarrow> address \<Rightarrow> bool" where
  "AddressInAccessList s addr = ContainsAddress (accList s) addr"

definition SlotInAccessList :: "'k StateDB \<Rightarrow> address \<Rightarrow> hash \<Rightarrow> panic + (bool \<times> bool)" where
  "SlotInAccessList s addr slot = Contains (accList s) addr slot"

text \<open>
  \<^verbatim>\<open>dst\<close> is nil for a contract creation; the transaction's access list is a list of addresses
  with their storage keys.
\<close>

definition PrepareAccessList ::
    "'k StateDB \<Rightarrow> address \<Rightarrow> address option \<Rightarrow> address list \<Rightarrow> (address \<times> hash list) list \<Rightarrow>
      panic + 'k StateDB" where
  "PrepareAccessList s sender dst precompiles al =
     (let s1 = AddAddressToAccessList s sender;
          s2 = (case dst of None \<Rightarrow> s1 | Some d \<Rightarrow> AddAddressToAccessList s1 d);
          s3 = fold (\<lambda>a s. AddAddressToAccessList s a) precompiles s2
      in foldM (\<lambda>(a, keys) s.
           foldM (\<lambda>key s. AddSlotToAccessList s a key) keys (AddAddressToAccessList s a)) al s3)"

subsection \<open>Snapshots and reverting\<close>

definition Snapshot :: "'k StateDB \<Rightarrow> 'k StateDB \<times> int" where
  "Snapshot s =
     (let i = nextRevisionID s
      in (s\<lparr>nextRevisionID := i + 1,
            validRevisions := validRevisions s @ [\<lparr>revId = i, journalIndex = j_length (jrnl s)\<rparr>]\<rparr>,
          i))"

text \<open>
  The \<^verbatim>\<open>Revert\<close> methods of the journal entries.  A write through the result of
  \<open>getStateObject\<close> dereferences nil when there is no object.
\<close>

definition onObject ::
    "'k StateDB \<Rightarrow> address \<Rightarrow> (stateObject \<Rightarrow> stateObject) \<Rightarrow> panic + 'k StateDB" where
  "onObject s addr f =
     (case getStateObject s addr of
        (s', None) \<Rightarrow> Inl NilDereference
      | (s', Some so) \<Rightarrow> Inr (withObject s' addr f))"

fun revertEntry :: "JournalEntry \<Rightarrow> 'k StateDB \<Rightarrow> panic + 'k StateDB" where
  "revertEntry (createObjectChange a) s = Inr (s\<lparr>stateObjects := fmdrop a (stateObjects s)\<rparr>)"
| "revertEntry (resetObjectChange prev) s = Inr (setStateObject s prev)"
| "revertEntry (suicideChange a prev prevbalance) s =
     (case getStateObject s a of
        (s', None) \<Rightarrow> Inr s'
      | (s', Some so) \<Rightarrow>
          Inr (withObject s' a (\<lambda>ob. setBalance prevbalance (ob\<lparr>suicided := prev\<rparr>))))"
| "revertEntry (balanceChange a prev) s = onObject s a (setBalance prev)"
| "revertEntry (nonceChange a prev) s = onObject s a (setNonce prev)"
| "revertEntry (codeChange a prevcode prevhash) s = onObject s a (setCode prevhash prevcode)"
| "revertEntry (storageChange a key prevalue) s = onObject s a (setState key prevalue)"
| "revertEntry (refundChange prev) s = Inr (s\<lparr>refund := prev\<rparr>)"
| "revertEntry addLogChange s =
     (if logs s = [] then Inl IndexOutOfRange else Inr (s\<lparr>logs := butlast (logs s)\<rparr>))"
| "revertEntry (accessListAddAccountChange a) s = Inr (s\<lparr>accList := DeleteAddress (accList s) a\<rparr>)"
| "revertEntry (accessListAddSlotChange a slot) s =
     rbind (DeleteSlot (accList s) a slot) (\<lambda>al. Inr (s\<lparr>accList := al\<rparr>))"

text \<open>One round of the loop of \<^verbatim>\<open>journal.Revert\<close>, and the loop, from the last entry down.\<close>

definition revertStep :: "JournalEntry \<Rightarrow> 'k StateDB \<Rightarrow> panic + 'k StateDB" where
  "revertStep e s =
     rbind (revertEntry e s) (\<lambda>s.
       Inr (s\<lparr>jrnl := (jrnl s)\<lparr>dirties := dirties_dec (Dirtied e) (dirties (jrnl s))\<rparr>\<rparr>))"

definition j_Revert :: "'k StateDB \<Rightarrow> nat \<Rightarrow> panic + 'k StateDB" where
  "j_Revert s snapshot =
     (if snapshot > length (entries (jrnl s)) then Inl IndexOutOfRange
      else rbind (foldM revertStep (rev (drop snapshot (entries (jrnl s)))) s) (\<lambda>s.
        Inr (s\<lparr>jrnl := (jrnl s)\<lparr>entries := take snapshot (entries (jrnl s))\<rparr>\<rparr>)))"

definition RevertToSnapshot :: "'k StateDB \<Rightarrow> int \<Rightarrow> panic + 'k StateDB" where
  "RevertToSnapshot s revid =
     (let vr = validRevisions s;
          idx = sort_Search (length vr) (\<lambda>i. revId (vr ! i) \<ge> revid)
      in if idx = length vr \<or> revId (vr ! idx) \<noteq> revid
         then Inl (Panic ''revision id cannot be reverted'')
         else rbind (j_Revert s (journalIndex (vr ! idx))) (\<lambda>s.
           Inr (s\<lparr>validRevisions := take idx (validRevisions s)\<rparr>)))"

subsection \<open>Commit\<close>

text \<open>\<^verbatim>\<open>errorsmod.Wrap(err, msg)\<close>.\<close>

definition wrapErr :: "string \<Rightarrow> string + 'a \<Rightarrow> failure + 'a" where
  "wrapErr msg r = (case r of Inl e \<Rightarrow> Inl (Err (msg @ '': '' @ e)) | Inr x \<Rightarrow> Inr x)"

definition commitStorage :: "'k Keeper \<Rightarrow> stateObject \<Rightarrow> 'k \<Rightarrow> 'k" where
  "commitStorage kp obj cx =
     fold (\<lambda>key cx.
         let val = the (fmlookup (dirtyStorage obj) key) in
         if val = (case fmlookup (originStorage obj) key of None \<Rightarrow> 0 | Some v \<Rightarrow> v) then cx
         else kSetState kp cx (objAddress obj) key (Some val))
       (SortedKeys (dirtyStorage obj)) cx"

definition commitObject :: "'k Keeper \<Rightarrow> stateObject \<Rightarrow> 'k \<Rightarrow> failure + 'k" where
  "commitObject kp obj cx =
     (if suicided obj
      then wrapErr ''failed to delete account'' (kDeleteAccount kp cx (objAddress obj))
      else
        let cx1 = (if code obj \<noteq> None \<and> dirtyCode obj
                   then kSetCode kp cx (CodeHash (account obj)) (code obj) else cx)
        in rbind (wrapErr ''failed to set account'' (kSetAccount kp cx1 (objAddress obj) (account obj)))
             (\<lambda>cx2. Inr (commitStorage kp obj cx2)))"

definition Commit :: "'k StateDB \<Rightarrow> failure + 'k StateDB" where
  "Commit s =
     foldM (\<lambda>addr s.
         case fmlookup (stateObjects s) addr of
           None \<Rightarrow> Inl (Panicked NilDereference)
         | Some obj \<Rightarrow> rbind (commitObject (keeper s) obj (ctx s)) (\<lambda>cx. Inr (s\<lparr>ctx := cx\<rparr>)))
       (sortedDirties (jrnl s)) s"

end
