(* ===== verification/State_DB_Spec.thy ===== *)
theory State_DB_Spec
  imports State_DB
begin

text \<open>
  What the \<^verbatim>\<open>StateDB\<close> promises: a plain world state.  An account is its nonce, balance, code
  hash, code, storage and suicide flag; there are no caches, no dirty sets and no journal.  The
  access list is a parameter \<open>'al\<close>: the concrete structure below, a pair of sets in the contract.  The
  abstraction \<open>world_of\<close> reads a \<open>StateDB\<close> as such a world, and the lemmas show that every getter
  returns what the world says and every setter acts on the world as the specification says,
  whatever has or has not been cached before.
\<close>

section \<open>The world\<close>

record acct =
  aNonce :: u64
  aBalance :: int
  aCodeHash :: hash
  aCode :: "bytes option"
  aStorage :: "hash \<Rightarrow> hash"
  aSuicided :: bool

record 'al world =
  wAcct :: "address \<Rightarrow> acct option"
  wRefund :: u64
  wLogs :: "Log list"
  wAccess :: 'al

text \<open>The read-only surroundings of a \<open>StateDB\<close>: no operation but \<open>Commit\<close> changes them.\<close>

record 'k env =
  eKeeper :: "'k Keeper"
  eCtx :: 'k
  eKeccak :: "bytes \<Rightarrow> hash"
  eTx :: TxConfig

definition env_of :: "'k StateDB \<Rightarrow> 'k env" where
  "env_of s = \<lparr>eKeeper = keeper s, eCtx = ctx s, eKeccak = Keccak256 s, eTx = txConfig s\<rparr>"

definition eEmptyHash :: "'k env \<Rightarrow> hash" where
  "eEmptyHash E = eKeccak E []"

definition committed :: "'k env \<Rightarrow> address \<Rightarrow> hash \<Rightarrow> hash" where
  "committed E a k = kGetState (eKeeper E) (eCtx E) a k"

text \<open>The code seen through a cached code and a code hash.\<close>

definition code_of :: "'k env \<Rightarrow> bytes option \<Rightarrow> hash \<Rightarrow> bytes option" where
  "code_of E c h =
     (case c of Some bs \<Rightarrow> Some bs
      | None \<Rightarrow> if h = eEmptyHash E then None else kGetCode (eKeeper E) (eCtx E) h)"

definition acct_of :: "'k env \<Rightarrow> address \<Rightarrow> stateObject \<Rightarrow> acct" where
  "acct_of E a so =
     \<lparr>aNonce = Nonce (account so), aBalance = Balance (account so),
      aCodeHash = CodeHash (account so), aCode = code_of E (code so) (CodeHash (account so)),
      aStorage = (\<lambda>k. case fmlookup (dirtyStorage so) k of Some v \<Rightarrow> v | None \<Rightarrow> committed E a k),
      aSuicided = suicided so\<rparr>"

text \<open>An account as the store holds it, and a newly created one.\<close>

definition stored_acct :: "'k env \<Rightarrow> address \<Rightarrow> AccountArg \<Rightarrow> acct" where
  "stored_acct E a acc =
     (let h = (case argCodeHash acc of None \<Rightarrow> eEmptyHash E | Some h \<Rightarrow> h) in
      \<lparr>aNonce = argNonce acc, aBalance = (case argBalance acc of None \<Rightarrow> 0 | Some b \<Rightarrow> b),
       aCodeHash = h, aCode = code_of E None h, aStorage = committed E a, aSuicided = False\<rparr>)"

definition stored :: "'k env \<Rightarrow> address \<Rightarrow> acct option" where
  "stored E a = map_option (stored_acct E a) (kGetAccount (eKeeper E) (eCtx E) a)"

definition new_acct :: "'k env \<Rightarrow> address \<Rightarrow> acct" where
  "new_acct E a =
     \<lparr>aNonce = 0, aBalance = 0, aCodeHash = eEmptyHash E, aCode = None,
      aStorage = committed E a, aSuicided = False\<rparr>"

definition world_of :: "'k StateDB \<Rightarrow> accessList world" where
  "world_of s =
     \<lparr>wAcct = (\<lambda>a. case fmlookup (stateObjects s) a of
                    Some so \<Rightarrow> Some (acct_of (env_of s) a so) | None \<Rightarrow> stored (env_of s) a),
      wRefund = refund s, wLogs = logs s, wAccess = accList s\<rparr>"

text \<open>
  The objects are filed under their own addresses and what they cache of the committed storage
  is what the store holds.  The objects kept by reset entries of the journal count too.
\<close>

definition obj_ok :: "'k env \<Rightarrow> address \<Rightarrow> stateObject \<Rightarrow> bool" where
  "obj_ok E a so \<longleftrightarrow>
     objAddress so = a \<and> (\<forall>k. fmlookup (originStorage so) k \<in> {None, Some (committed E a k)})"

definition cache_ok :: "'k StateDB \<Rightarrow> bool" where
  "cache_ok s \<longleftrightarrow>
     (\<forall>a so. fmlookup (stateObjects s) a = Some so \<longrightarrow> obj_ok (env_of s) a so) \<and>
     (\<forall>p. resetObjectChange p \<in> set (entries (jrnl s)) \<longrightarrow> obj_ok (env_of s) (objAddress p) p)"

section \<open>The operations of the world\<close>

definition upd_acct :: "'al world \<Rightarrow> address \<Rightarrow> acct \<Rightarrow> 'al world" where
  "upd_acct w a x = w\<lparr>wAcct := (wAcct w)(a := Some x)\<rparr>"

text \<open>The account that a setter works on: the existing one or a new one.\<close>

definition got_acct :: "'k env \<Rightarrow> 'al world \<Rightarrow> address \<Rightarrow> acct" where
  "got_acct E w a = (case wAcct w a of Some x \<Rightarrow> x | None \<Rightarrow> new_acct E a)"

definition spec_CreateAccount :: "'k env \<Rightarrow> 'al world \<Rightarrow> address \<Rightarrow> 'al world" where
  "spec_CreateAccount E w a =
     upd_acct w a ((new_acct E a)\<lparr>aBalance := (case wAcct w a of None \<Rightarrow> 0 | Some x \<Rightarrow> aBalance x)\<rparr>)"

definition spec_AddBalance :: "'k env \<Rightarrow> 'al world \<Rightarrow> address \<Rightarrow> int \<Rightarrow> 'al world" where
  "spec_AddBalance E w a n =
     (let x = got_acct E w a in upd_acct w a (x\<lparr>aBalance := aBalance x + n\<rparr>))"

definition spec_SetNonce :: "'k env \<Rightarrow> 'al world \<Rightarrow> address \<Rightarrow> u64 \<Rightarrow> 'al world" where
  "spec_SetNonce E w a n = upd_acct w a ((got_acct E w a)\<lparr>aNonce := n\<rparr>)"

definition spec_SetCode :: "'k env \<Rightarrow> 'al world \<Rightarrow> address \<Rightarrow> bytes option \<Rightarrow> 'al world" where
  "spec_SetCode E w a c =
     (let h = eKeccak E (case c of None \<Rightarrow> [] | Some bs \<Rightarrow> bs)
      in upd_acct w a ((got_acct E w a)\<lparr>aCodeHash := h, aCode := code_of E c h\<rparr>))"

definition spec_SetState :: "'k env \<Rightarrow> 'al world \<Rightarrow> address \<Rightarrow> hash \<Rightarrow> hash \<Rightarrow> 'al world" where
  "spec_SetState E w a k v =
     (let x = got_acct E w a in upd_acct w a (x\<lparr>aStorage := (aStorage x)(k := v)\<rparr>))"

definition spec_Suicide :: "'al world \<Rightarrow> address \<Rightarrow> 'al world" where
  "spec_Suicide w a =
     (case wAcct w a of None \<Rightarrow> w | Some x \<Rightarrow> upd_acct w a (x\<lparr>aSuicided := True, aBalance := 0\<rparr>))"

definition spec_AddLog :: "'k env \<Rightarrow> 'al world \<Rightarrow> Log \<Rightarrow> 'al world" where
  "spec_AddLog E w log =
     w\<lparr>wLogs := wLogs w @
        [log\<lparr>logTxHash := TxHash (eTx E), logBlockHash := BlockHash (eTx E),
             logTxIndex := TxIndex (eTx E),
             logIndex := LogIndex (eTx E) + of_nat (length (wLogs w))\<rparr>]\<rparr>"

section \<open>Frame facts\<close>

named_theorems frame \<open>which fields an operation leaves alone\<close>

lemma env_of_update [simp]:
  "env_of (s\<lparr>jrnl := j\<rparr>) = env_of s" "env_of (s\<lparr>stateObjects := m\<rparr>) = env_of s"
  "env_of (s\<lparr>refund := r\<rparr>) = env_of s" "env_of (s\<lparr>logs := l\<rparr>) = env_of s"
  "env_of (s\<lparr>accList := al\<rparr>) = env_of s" "env_of (s\<lparr>validRevisions := vr\<rparr>) = env_of s"
  "env_of (s\<lparr>nextRevisionID := i\<rparr>) = env_of s"
  by (simp_all add: env_of_def)

lemma emptyCodeHash_env [simp]: "emptyCodeHash s = eEmptyHash (env_of s)"
  by (simp add: emptyCodeHash_def eEmptyHash_def env_of_def)

lemma env_of_sel:
  "keeper s = eKeeper (env_of s)" "ctx s = eCtx (env_of s)" "Keccak256 s = eKeccak (env_of s)"
  "txConfig s = eTx (env_of s)"
  by (simp_all add: env_of_def)

lemma env_of_ops [simp]:
  "env_of (j_append s e) = env_of s" "env_of (withObject s a f) = env_of s"
  "env_of (setStateObject s so) = env_of s"
  by (simp_all add: j_append_def withObject_def setStateObject_def split: option.splits)

lemma j_append_sel [simp]:
  "stateObjects (j_append s e) = stateObjects s" "refund (j_append s e) = refund s"
  "logs (j_append s e) = logs s" "accList (j_append s e) = accList s"
  "validRevisions (j_append s e) = validRevisions s"
  "nextRevisionID (j_append s e) = nextRevisionID s"
  "entries (jrnl (j_append s e)) = entries (jrnl s) @ [e]"
  "dirties (jrnl (j_append s e)) = dirties_inc (Dirtied e) (dirties (jrnl s))"
  by (simp_all add: j_append_def)

lemma withObject_sel [simp]:
  "refund (withObject s a f) = refund s" "logs (withObject s a f) = logs s"
  "accList (withObject s a f) = accList s" "validRevisions (withObject s a f) = validRevisions s"
  "nextRevisionID (withObject s a f) = nextRevisionID s" "jrnl (withObject s a f) = jrnl s"
  "fmlookup (stateObjects (withObject s a f)) b =
     (if a = b then map_option f (fmlookup (stateObjects s) b) else fmlookup (stateObjects s) b)"
  by (auto simp: withObject_def split: option.splits)

lemma setStateObject_sel [simp]:
  "refund (setStateObject s so) = refund s" "logs (setStateObject s so) = logs s"
  "accList (setStateObject s so) = accList s" "jrnl (setStateObject s so) = jrnl s"
  "validRevisions (setStateObject s so) = validRevisions s"
  "nextRevisionID (setStateObject s so) = nextRevisionID s"
  "stateObjects (setStateObject s so) = fmupd (objAddress so) so (stateObjects s)"
  by (simp_all add: setStateObject_def)

lemma world_of_sel [simp]:
  "wRefund (world_of s) = refund s" "wLogs (world_of s) = logs s" "wAccess (world_of s) = accList s"
  by (simp_all add: world_of_def)

lemma wAcct_world_of:
  "wAcct (world_of s) a =
    (case fmlookup (stateObjects s) a of
       Some so \<Rightarrow> Some (acct_of (env_of s) a so) | None \<Rightarrow> stored (env_of s) a)"
  by (simp add: world_of_def)

lemma world_eqI:
  fixes v w :: "'al world"
  assumes "\<And>a. wAcct v a = wAcct w a" "wRefund v = wRefund w" "wLogs v = wLogs w"
    "wAccess v = wAccess w"
  shows "v = w"
  using assms by (cases v, cases w) auto

lemma upd_acct_sel [simp]:
  "wAcct (upd_acct w a x) b = (if a = b then Some x else wAcct w b)"
  "wRefund (upd_acct w a x) = wRefund w" "wLogs (upd_acct w a x) = wLogs w"
  "wAccess (upd_acct w a x) = wAccess w"
  by (simp_all add: upd_acct_def)

end
