(* ===== verification/State_DB_Refine.thy ===== *)
theory State_DB_Refine
  imports State_DB_Spec
begin

text \<open>
  Every operation of the \<open>StateDB\<close> is a sequence of two kinds of primitive steps: a cache step,
  which leaves the world and the journal alone, and a journalled step, which appends one entry
  whose \<open>Revert\<close> restores the world.  This theory proves that decomposition for each operation
  together with its effect on the world.
\<close>

section \<open>Primitive steps\<close>

text \<open>Every dirty slot of an object has its committed value cached.\<close>

definition obj_clean :: "stateObject \<Rightarrow> bool" where
  "obj_clean so \<longleftrightarrow> fmdom (dirtyStorage so) |\<subseteq>| fmdom (originStorage so)"

definition clean :: "'k StateDB \<Rightarrow> bool" where
  "clean s \<longleftrightarrow> (\<forall>a so. fmlookup (stateObjects s) a = Some so \<longrightarrow> obj_clean so)"

definition sane :: "'k StateDB \<Rightarrow> bool" where
  "sane s \<longleftrightarrow> cache_ok s \<and> clean s \<and> al_inv (accList s)"

text \<open>What reverting leaves behind: more objects and more cached values than there were.\<close>

definition obj_ext :: "stateObject \<Rightarrow> stateObject \<Rightarrow> bool" where
  "obj_ext so so' \<longleftrightarrow>
     fmdom (originStorage so) |\<subseteq>| fmdom (originStorage so') \<and>
     fmdom (dirtyStorage so') |\<subseteq>| fmdom (dirtyStorage so) |\<union>| fmdom (originStorage so')"

definition ext :: "'k StateDB \<Rightarrow> 'k StateDB \<Rightarrow> bool" where
  "ext s t \<longleftrightarrow>
     (\<forall>a so. fmlookup (stateObjects s) a = Some so \<longrightarrow>
        (\<exists>so'. fmlookup (stateObjects t) a = Some so' \<and> obj_ext so so')) \<and>
     (\<forall>a so'. fmlookup (stateObjects s) a = None \<and> fmlookup (stateObjects t) a = Some so' \<longrightarrow>
        obj_clean so')"

definition live :: "'k StateDB \<Rightarrow> address \<Rightarrow> bool" where
  "live s a \<longleftrightarrow> fmlookup (stateObjects s) a \<noteq> None"

definition same_frame :: "'k StateDB \<Rightarrow> 'k StateDB \<Rightarrow> bool" where
  "same_frame s t \<longleftrightarrow>
     env_of t = env_of s \<and> validRevisions t = validRevisions s \<and> nextRevisionID t = nextRevisionID s"

definition cache_step :: "'k StateDB \<Rightarrow> 'k StateDB \<Rightarrow> bool" where
  "cache_step s t \<longleftrightarrow>
     same_frame s t \<and> jrnl t = jrnl s \<and> world_of t = world_of s \<and> ext s t \<and> (sane s \<longrightarrow> sane t)"

definition journal_step :: "'k StateDB \<Rightarrow> JournalEntry \<Rightarrow> 'k StateDB \<Rightarrow> bool" where
  "journal_step s e t \<longleftrightarrow>
     same_frame s t \<and> jrnl t = jrnl (j_append s e) \<and> (sane s \<longrightarrow> sane t) \<and>
     (\<forall>a. Dirtied e = Some a \<longrightarrow> live t a) \<and> (\<forall>a. live s a \<longrightarrow> live t a) \<and>
     (sane s \<longrightarrow>
       (\<exists>u. revertEntry e t = Inr u \<and> same_frame s u \<and> world_of u = world_of s \<and> ext s u))"

inductive evolves :: "'k StateDB \<Rightarrow> 'k StateDB \<Rightarrow> bool" where
  evolves_refl: "evolves s s"
| evolves_cache: "evolves s t \<Longrightarrow> cache_step t u \<Longrightarrow> evolves s u"
| evolves_journal: "evolves s t \<Longrightarrow> journal_step t e u \<Longrightarrow> evolves s u"

lemma evolves_trans: "evolves t u \<Longrightarrow> evolves s t \<Longrightarrow> evolves s u"
  by (induction rule: evolves.induct) (auto intro: evolves.intros)

lemma cache_step_evolves: "cache_step s t \<Longrightarrow> evolves s t"
  by (rule evolves_cache [OF evolves_refl])

lemma journal_step_evolves: "journal_step s e t \<Longrightarrow> evolves s t"
  by (rule evolves_journal [OF evolves_refl])

lemma evolves_sane: "evolves s t \<Longrightarrow> sane s \<Longrightarrow> sane t"
  by (induction rule: evolves.induct) (auto simp: cache_step_def journal_step_def)

lemma same_frame_refl [simp]: "same_frame s s"
  by (simp add: same_frame_def)

lemma same_frame_trans: "same_frame s t \<Longrightarrow> same_frame t u \<Longrightarrow> same_frame s u"
  by (simp add: same_frame_def)

lemma evolves_frame: "evolves s t \<Longrightarrow> same_frame s t"
  by (induction rule: evolves.induct)
    (auto simp: cache_step_def journal_step_def intro: same_frame_trans)

lemma obj_ext_refl [simp]: "obj_ext so so"
  by (auto simp: obj_ext_def)

lemma ext_refl [simp]: "ext s s"
  by (auto simp: ext_def)

lemma obj_clean_newObject [simp]: "obj_clean (newObject s a acc)"
  by (simp add: obj_clean_def newObject_def)

lemma obj_ok_newObject [simp]: "obj_ok E a (newObject s a acc)"
  by (simp add: obj_ok_def newObject_def)

section \<open>Accounts of objects\<close>

lemma acct_of_newObject:
  "acct_of (env_of s) a (newObject s a acc) = stored_acct (env_of s) a acc"
  by (auto simp: acct_of_def newObject_def stored_acct_def Let_def split: option.split)

lemma acct_of_zero: "acct_of (env_of s) a (newObject s a zeroAccount) = new_acct (env_of s) a"
  by (simp add: acct_of_newObject stored_acct_def zeroAccount_def new_acct_def code_of_def)

lemma acct_of_set [simp]:
  "acct_of E a (setBalance n so) = (acct_of E a so)\<lparr>aBalance := n\<rparr>"
  "acct_of E a (setNonce m so) = (acct_of E a so)\<lparr>aNonce := m\<rparr>"
  "acct_of E a (setCode h c so) = (acct_of E a so)\<lparr>aCodeHash := h, aCode := code_of E c h\<rparr>"
  "acct_of E a (setState k v so) = (acct_of E a so)\<lparr>aStorage := (aStorage (acct_of E a so))(k := v)\<rparr>"
  "acct_of E a (so\<lparr>suicided := b\<rparr>) = (acct_of E a so)\<lparr>aSuicided := b\<rparr>"
  "acct_of E a (so\<lparr>originStorage := m'\<rparr>) = acct_of E a so"
  "acct_of E a (markSuicided so) = (acct_of E a so)\<lparr>aSuicided := True\<rparr>"
  by (auto simp: acct_of_def setBalance_def setNonce_def setCode_def setState_def markSuicided_def)

lemma acct_of_sel [simp]:
  "aNonce (acct_of E a so) = Nonce (account so)" "aBalance (acct_of E a so) = Balance (account so)"
  "aCodeHash (acct_of E a so) = CodeHash (account so)" "aSuicided (acct_of E a so) = suicided so"
  "aCode (acct_of E a so) = code_of E (code so) (CodeHash (account so))"
  by (simp_all add: acct_of_def)

lemma set_sel [simp]:
  "objAddress (setBalance n so) = objAddress so" "objAddress (setNonce m so) = objAddress so"
  "objAddress (setCode h c so) = objAddress so" "objAddress (setState k v so) = objAddress so"
  "objAddress (markSuicided so) = objAddress so"
  "originStorage (setBalance n so) = originStorage so" "originStorage (setNonce m so) = originStorage so"
  "originStorage (setCode h c so) = originStorage so" "originStorage (setState k v so) = originStorage so"
  "originStorage (markSuicided so) = originStorage so"
  "dirtyStorage (setBalance n so) = dirtyStorage so" "dirtyStorage (setNonce m so) = dirtyStorage so"
  "dirtyStorage (setCode h c so) = dirtyStorage so" "dirtyStorage (markSuicided so) = dirtyStorage so"
  "dirtyStorage (setState k v so) = fmupd k v (dirtyStorage so)"
  by (simp_all add: setBalance_def setNonce_def setCode_def setState_def markSuicided_def)

lemma objAddress_newObject [simp]: "objAddress (newObject s a acc) = a"
  by (simp add: newObject_def)

section \<open>Cache steps\<close>

lemma cache_ok_objs:
  assumes "cache_ok s" and "env_of t = env_of s" and "jrnl t = jrnl s"
    and "\<And>a so. fmlookup (stateObjects t) a = Some so \<Longrightarrow> obj_ok (env_of s) a so"
  shows "cache_ok t"
  using assms by (auto simp: cache_ok_def)

lemma getStateObject_result:
  assumes "getStateObject s a = (t, r)"
  shows "r = fmlookup (stateObjects t) a" and "map_option (acct_of (env_of s) a) r = wAcct (world_of s) a"
  using assms
  by (auto simp: getStateObject_def wAcct_world_of stored_def Let_def acct_of_newObject env_of_sel
      split: option.splits)

lemma getStateObject_cache_step:
  assumes "getStateObject s a = (t, r)"
  shows "cache_step s t"
proof (cases "t = s")
  case True
  then show ?thesis by (simp add: cache_step_def)
next
  case False
  with assms obtain acc where none: "fmlookup (stateObjects s) a = None"
      and acc: "kGetAccount (eKeeper (env_of s)) (eCtx (env_of s)) a = Some acc"
      and t: "t = setStateObject s (newObject s a acc)"
    by (auto simp: getStateObject_def Let_def env_of_sel split: option.splits)
  have "world_of t = world_of s"
    by (rule world_eqI)
      (auto simp: t wAcct_world_of none stored_def acc acct_of_newObject split: option.split)
  moreover have "ext s t" using none by (auto simp: ext_def t)
  moreover have "sane s \<longrightarrow> sane t"
    by (auto simp: sane_def clean_def cache_ok_def t)
  ultimately show ?thesis by (simp add: cache_step_def same_frame_def t)
qed

text \<open>A cache write to the live object: the code or a committed slot.\<close>

lemma withObject_cache_step:
  assumes so: "fmlookup (stateObjects s) a = Some so"
    and acct: "acct_of (env_of s) a (f so) = acct_of (env_of s) a so"
    and ext: "obj_ext so (f so)" and ok: "obj_ok (env_of s) a so \<Longrightarrow> obj_ok (env_of s) a (f so)"
    and cl: "obj_clean so \<Longrightarrow> obj_clean (f so)"
  shows "cache_step s (withObject s a f)"
proof -
  have "world_of (withObject s a f) = world_of s"
    by (rule world_eqI) (auto simp: wAcct_world_of so acct split: option.split)
  moreover have "sane s \<longrightarrow> sane (withObject s a f)"
    using so ok cl by (auto simp: sane_def clean_def cache_ok_def split: if_splits)
  moreover have "ext s (withObject s a f)"
    using so ext by (auto simp: ext_def)
  ultimately show ?thesis by (simp add: cache_step_def same_frame_def)
qed

lemma so_Code_cache_step:
  assumes so: "fmlookup (stateObjects s) a = Some so" and "objAddress so = a"
    and run: "so_Code s so = (t, c)"
  shows "cache_step s t" and "c = aCode (acct_of (env_of s) a so)"
    and "\<exists>so'. fmlookup (stateObjects t) a = Some so' \<and> account so' = account so \<and>
      acct_of (env_of s) a so' = acct_of (env_of s) a so"
proof -
  let ?h = "CodeHash (account so)"
  let ?c = "kGetCode (eKeeper (env_of s)) (eCtx (env_of s)) ?h"
  consider (cached) "t = s" "c = code_of (env_of s) (code so) ?h"
    | (load) "code so = None" "?h \<noteq> eEmptyHash (env_of s)" "c = ?c"
        "t = withObject s a (\<lambda>ob. ob\<lparr>code := ?c\<rparr>)"
    using run assms(2) by (auto simp: so_Code_def code_of_def Let_def env_of_sel
        split: option.splits if_splits)
  note cases = this
  have same: "acct_of (env_of s) a (so\<lparr>code := ?c\<rparr>) = acct_of (env_of s) a so"
    if "code so = None" "?h \<noteq> eEmptyHash (env_of s)"
    using that by (auto simp: acct_of_def code_of_def split: option.splits)
  show "cache_step s t"
  proof (rule cases)
    assume "code so = None" "?h \<noteq> eEmptyHash (env_of s)" "t = withObject s a (\<lambda>ob. ob\<lparr>code := ?c\<rparr>)"
    then show ?thesis
      using withObject_cache_step [OF so, of "\<lambda>ob. ob\<lparr>code := ?c\<rparr>"] same
      by (simp add: obj_ext_def obj_ok_def obj_clean_def)
  qed (simp add: cache_step_def)
  show "c = aCode (acct_of (env_of s) a so)"
    by (rule cases) (auto simp: code_of_def)
  show "\<exists>so'. fmlookup (stateObjects t) a = Some so' \<and> account so' = account so \<and>
      acct_of (env_of s) a so' = acct_of (env_of s) a so"
    by (rule cases) (use so same in auto)
qed

lemma so_GetCommittedState_cache_step:
  assumes so: "fmlookup (stateObjects s) a = Some so" and ok: "obj_ok (env_of s) a so"
    and run: "so_GetCommittedState s so k = (t, v)"
  shows "cache_step s t" and "v = committed (env_of s) a k"
    and "\<exists>so'. fmlookup (stateObjects t) a = Some so' \<and> account so' = account so \<and>
      acct_of (env_of s) a so' = acct_of (env_of s) a so \<and> k |\<in>| fmdom (originStorage so') \<and>
      dirtyStorage so' = dirtyStorage so"
proof -
  have a: "objAddress so = a" using ok by (simp add: obj_ok_def)
  let ?f = "\<lambda>ob. ob\<lparr>originStorage := fmupd k (committed (env_of s) a k) (originStorage ob)\<rparr>"
  consider (cached) "t = s" "fmlookup (originStorage so) k = Some v"
    | (load) "v = committed (env_of s) a k" "t = withObject s a ?f"
  proof (cases "fmlookup (originStorage so) k")
    case None
    with a have "so_GetCommittedState s so k = (withObject s a ?f, committed (env_of s) a k)"
      by (simp add: so_GetCommittedState_def Let_def committed_def env_of_def)
    from trans [OF this [symmetric] run] have "committed (env_of s) a k = v" "withObject s a ?f = t"
      unfolding prod.inject by blast+
    then show ?thesis by (rule load [OF sym sym])
  next
    case (Some v')
    with run have "t = s" "v' = v" by (simp_all add: so_GetCommittedState_def)
    with Some show ?thesis using cached by simp
  qed
  note cases = this
  show "cache_step s t"
  proof (rule cases)
    assume t: "t = withObject s a ?f"
    show ?thesis
      unfolding t by (rule withObject_cache_step [OF so]) (auto simp: obj_ext_def obj_ok_def obj_clean_def)
  qed (simp add: cache_step_def)
  show "v = committed (env_of s) a k"
  proof (rule cases)
    assume "fmlookup (originStorage so) k = Some v"
    moreover have "fmlookup (originStorage so) k \<in> {None, Some (committed (env_of s) a k)}"
      using ok by (simp add: obj_ok_def)
    ultimately show ?thesis by simp
  qed
  show "\<exists>so'. fmlookup (stateObjects t) a = Some so' \<and> account so' = account so \<and>
      acct_of (env_of s) a so' = acct_of (env_of s) a so \<and> k |\<in>| fmdom (originStorage so') \<and>
      dirtyStorage so' = dirtyStorage so"
    by (rule cases) (use so in \<open>auto simp: fmlookup_dom_iff\<close>)
qed

lemma so_GetState_cache_step:
  assumes so: "fmlookup (stateObjects s) a = Some so" and ok: "obj_ok (env_of s) a so"
    and run: "so_GetState s so k = (t, v)"
  shows "cache_step s t" and "v = aStorage (acct_of (env_of s) a so) k"
    and "\<exists>so'. fmlookup (stateObjects t) a = Some so' \<and> account so' = account so \<and>
      acct_of (env_of s) a so' = acct_of (env_of s) a so \<and>
      (obj_clean so \<longrightarrow> k |\<in>| fmdom (originStorage so'))"
proof -
  have "cache_step s t \<and> v = aStorage (acct_of (env_of s) a so) k \<and>
    (\<exists>so'. fmlookup (stateObjects t) a = Some so' \<and> account so' = account so \<and>
      acct_of (env_of s) a so' = acct_of (env_of s) a so \<and>
      (obj_clean so \<longrightarrow> k |\<in>| fmdom (originStorage so')))"
  proof (cases "fmlookup (dirtyStorage so) k")
    case None
    with run have "so_GetCommittedState s so k = (t, v)" by (simp add: so_GetState_def)
    from so_GetCommittedState_cache_step [OF so ok this] None show ?thesis
      by (auto simp: acct_of_def)
  next
    case (Some d)
    with run so show ?thesis
      by (auto simp: so_GetState_def acct_of_def cache_step_def obj_clean_def fmlookup_dom_iff
          dest: fsubsetD [of _ _ k])
  qed
  then show "cache_step s t" "v = aStorage (acct_of (env_of s) a so) k"
    "\<exists>so'. fmlookup (stateObjects t) a = Some so' \<and> account so' = account so \<and>
      acct_of (env_of s) a so' = acct_of (env_of s) a so \<and>
      (obj_clean so \<longrightarrow> k |\<in>| fmdom (originStorage so'))"
    by blast+
qed

section \<open>Journalled steps\<close>

lemma world_of_cong:
  assumes "stateObjects u = stateObjects s" and "env_of u = env_of s" and "refund u = refund s"
    and "logs u = logs s" and "accList u = accList s"
  shows "world_of u = world_of s"
  using assms by (simp add: world_of_def cong: option.case_cong)

lemma onObject_live:
  "fmlookup (stateObjects s) a = Some so \<Longrightarrow> onObject s a f = Inr (withObject s a f)"
  by (simp add: onObject_def getStateObject_def)

text \<open>A journalled write to a live object.\<close>

lemma object_journal_step:
  fixes s :: "'k StateDB"
  assumes so: "fmlookup (stateObjects s) a = Some so" and d: "Dirtied e = Some a"
    and rev: "\<And>x so'. fmlookup (stateObjects x) a = Some so' \<Longrightarrow>
      revertEntry e (x :: 'k StateDB) = Inr (withObject x a g)"
    and acct: "acct_of (env_of s) a (g (f so)) = acct_of (env_of s) a so"
    and ext: "obj_clean so \<Longrightarrow> obj_ext so (g (f so))"
    and ok: "obj_ok (env_of s) a so \<Longrightarrow> obj_ok (env_of s) a (f so)"
    and cl: "obj_clean so \<Longrightarrow> obj_clean (f so)"
  shows "journal_step s e (withObject (j_append s e) a f)"
proof -
  let ?t = "withObject (j_append s e) a f"
  let ?u = "withObject ?t a g"
  have "revertEntry e ?t = Inr ?u" by (rule rev [of _ "f so"]) (simp add: so)
  moreover have "world_of ?u = world_of s"
    by (rule world_eqI) (auto simp: wAcct_world_of so acct split: option.split)
  moreover have "sane s \<Longrightarrow> ext s ?u" using so ext by (auto simp: ext_def sane_def clean_def)
  moreover have "sane s \<longrightarrow> sane ?t"
  proof
    assume s: "sane s"
    have "resetObjectChange p \<noteq> e" for p using d by auto
    with s so ok cl show "sane ?t"
      by (auto simp: sane_def clean_def cache_ok_def split: if_splits)
  qed
  moreover have "live ?t a" using so by (simp add: live_def)
  ultimately show ?thesis using d
    by (auto simp: journal_step_def same_frame_def live_def j_append_def)
qed

text \<open>A journalled step that does not touch the objects.\<close>

lemma plain_journal_step:
  assumes "stateObjects t = stateObjects s" and "jrnl t = jrnl (j_append s e)" and "same_frame s t"
    and "Dirtied e = None" and "\<And>p. e \<noteq> resetObjectChange p"
    and "sane s \<Longrightarrow> al_inv (accList t)"
    and "sane s \<Longrightarrow>
      \<exists>u. revertEntry e t = Inr u \<and> same_frame s u \<and> world_of u = world_of s \<and>
        stateObjects u = stateObjects s"
  shows "journal_step s e t"
  using assms
  by (auto simp: journal_step_def live_def ext_def sane_def clean_def cache_ok_def same_frame_def
      j_append_def)

lemma create_journal_step:
  assumes none: "fmlookup (stateObjects s) a = None" and ok: "obj_ok (env_of s) a so" "obj_clean so"
    and t: "t = setStateObject (j_append s (createObjectChange a)) so"
  shows "journal_step s (createObjectChange a) t"
proof -
  have a: "objAddress so = a" using ok(1) by (simp add: obj_ok_def)
  let ?u = "t\<lparr>stateObjects := fmdrop a (stateObjects t)\<rparr>"
  have objs: "stateObjects ?u = stateObjects s" using none by (simp add: t a)
  have "world_of ?u = world_of s"
    by (rule world_of_cong [OF objs]) (simp_all add: t)
  moreover have "sane s \<longrightarrow> sane t" using ok a
    by (auto simp: sane_def clean_def cache_ok_def t)
  ultimately show ?thesis
    using objs a by (auto simp: journal_step_def same_frame_def live_def ext_def t j_append_def)
qed

lemma reset_journal_step:
  assumes p: "fmlookup (stateObjects s) a = Some p" and ok: "obj_ok (env_of s) a so" "obj_clean so"
    and t: "t = setStateObject (j_append s (resetObjectChange p)) so"
  shows "journal_step s (resetObjectChange p) t"
proof -
  have a: "objAddress so = a" using ok(1) by (simp add: obj_ok_def)
  let ?u = "setStateObject t p"
  have "sane s \<longrightarrow> world_of ?u = world_of s \<and> ext s ?u"
  proof
    assume "sane s"
    with p have "objAddress p = a" by (auto simp: sane_def cache_ok_def obj_ok_def)
    then have objs: "stateObjects ?u = stateObjects s" using p by (simp add: t a)
    have "world_of ?u = world_of s"
      by (rule world_of_cong [OF objs]) (simp_all add: t)
    with objs show "world_of ?u = world_of s \<and> ext s ?u" by (auto simp: ext_def)
  qed
  moreover have "sane s \<longrightarrow> sane t" using ok a p
    by (auto simp: sane_def clean_def cache_ok_def obj_ok_def t)
  ultimately show ?thesis
    using a by (auto simp: journal_step_def same_frame_def live_def t j_append_def)
qed

section \<open>The operations\<close>

lemma upd_acct_triv [simp]: "wAcct w a = Some x \<Longrightarrow> upd_acct w a x = w"
  by (rule world_eqI) auto

lemma upd_acct_twice [simp]: "upd_acct (upd_acct w a x) a y = upd_acct w a y"
  by (rule world_eqI) auto

lemma world_of_j_append [simp]: "world_of (j_append s e) = world_of s"
  by (rule world_of_cong) simp_all

lemma world_of_withObject:
  "fmlookup (stateObjects s) a = Some so \<Longrightarrow>
    world_of (withObject s a f) = upd_acct (world_of s) a (acct_of (env_of s) a (f so))"
  by (rule world_eqI) (auto simp: wAcct_world_of split: option.split)

lemma world_of_setStateObject:
  "world_of (setStateObject s so) =
    upd_acct (world_of s) (objAddress so) (acct_of (env_of s) (objAddress so) so)"
  by (rule world_eqI) (auto simp: wAcct_world_of split: option.split)

lemma wAcct_live:
  "fmlookup (stateObjects s) a = Some so \<Longrightarrow> wAcct (world_of s) a = Some (acct_of (env_of s) a so)"
  by (simp add: wAcct_world_of)

lemma sane_obj_ok: "sane s \<Longrightarrow> fmlookup (stateObjects s) a = Some so \<Longrightarrow> obj_ok (env_of s) a so"
  by (simp add: sane_def cache_ok_def)

lemma sane_obj_clean: "sane s \<Longrightarrow> fmlookup (stateObjects s) a = Some so \<Longrightarrow> obj_clean so"
  by (simp add: sane_def clean_def)

lemma cache_step_facts:
  assumes "cache_step s t"
  shows "env_of t = env_of s" and "world_of t = world_of s" and "evolves s t" and "jrnl t = jrnl s"
    and "sane s \<Longrightarrow> sane t"
  using assms cache_step_evolves by (auto simp: cache_step_def same_frame_def)

lemma getStateObject_None:
  assumes "getStateObject s a = (t, None)"
  shows "t = s" and "fmlookup (stateObjects s) a = None" and "wAcct (world_of s) a = None"
  using assms
  by (auto simp: getStateObject_def wAcct_world_of stored_def env_of_sel Let_def split: option.splits)

lemma getStateObject_Some:
  assumes "getStateObject s a = (t, Some so)"
  shows "fmlookup (stateObjects t) a = Some so" and "cache_step s t"
    and "wAcct (world_of s) a = Some (acct_of (env_of s) a so)"
  using getStateObject_result [OF assms] getStateObject_cache_step [OF assms]
  by (simp_all add: eq_commute [of "Some so"] eq_commute [of "Some (acct_of (env_of s) a so)"])

text \<open>\<open>createObject\<close>: a new object, journalled as a creation or as a reset.\<close>

lemma createObject_evolves:
  assumes "sane s" and run: "createObject s a = (t, so, prev)"
  shows "evolves s t" and "fmlookup (stateObjects t) a = Some so"
    and "acct_of (env_of s) a so = new_acct (env_of s) a"
    and "world_of t = upd_acct (world_of s) a (new_acct (env_of s) a)"
    and "map_option (acct_of (env_of s) a) prev = wAcct (world_of s) a"
proof -
  obtain u where get: "getStateObject s a = (u, prev)"
    using run by (auto simp: createObject_def Let_def split: prod.splits)
  note step = cache_step_facts [OF getStateObject_cache_step [OF get]]
  have so: "so = newObject u a zeroAccount" and
    t: "t = setStateObject (case prev of None \<Rightarrow> j_append u (createObjectChange a)
          | Some p \<Rightarrow> j_append u (resetObjectChange p)) so"
    using run get by (auto simp: createObject_def Let_def)
  have new: "acct_of (env_of u) a so = new_acct (env_of u) a"
    by (simp add: so acct_of_zero)
  have "evolves u t"
  proof (cases prev)
    case None
    with get have "fmlookup (stateObjects u) a = None" using getStateObject_None by blast
    then show ?thesis
      using create_journal_step [of u a so t] journal_step_evolves None by (simp add: so t)
  next
    case (Some p)
    with get have "fmlookup (stateObjects u) a = Some p" using getStateObject_Some by blast
    then show ?thesis
      using reset_journal_step [of u a p so t] journal_step_evolves Some by (simp add: so t)
  qed
  then show "evolves s t" using step(3) by (rule evolves_trans)
  show "fmlookup (stateObjects t) a = Some so" by (simp add: t so)
  show "acct_of (env_of s) a so = new_acct (env_of s) a" using new step(1) by simp
  show "world_of t = upd_acct (world_of s) a (new_acct (env_of s) a)"
    using step(1,2) new by (cases prev) (simp_all add: t so world_of_setStateObject)
  show "map_option (acct_of (env_of s) a) prev = wAcct (world_of s) a"
    using getStateObject_result(2) [OF get] .
qed

lemma getOrNewStateObject_evolves:
  assumes "sane s" and run: "getOrNewStateObject s a = (t, so)"
  shows "evolves s t" and "fmlookup (stateObjects t) a = Some so"
    and "acct_of (env_of s) a so = got_acct (env_of s) (world_of s) a"
    and "world_of t = upd_acct (world_of s) a (got_acct (env_of s) (world_of s) a)"
proof -
  obtain u r where get: "getStateObject s a = (u, r)" by fastforce
  have "evolves s t \<and> fmlookup (stateObjects t) a = Some so \<and>
    acct_of (env_of s) a so = got_acct (env_of s) (world_of s) a \<and>
    world_of t = upd_acct (world_of s) a (got_acct (env_of s) (world_of s) a)"
  proof (cases r)
    case None
    note none = getStateObject_None [OF get [unfolded None]]
    obtain p where "createObject s a = (t, so, p)"
      using run get None none(1)
      by (auto simp: getOrNewStateObject_def Let_def split: prod.splits)
    from createObject_evolves [OF assms(1) this] none(3) show ?thesis
      by (simp add: got_acct_def)
  next
    case (Some x)
    note some = getStateObject_Some [OF get [unfolded Some]]
    have "u = t" "x = so" using run get Some by (auto simp: getOrNewStateObject_def)
    with some cache_step_facts [OF some(2)] show ?thesis
      by (simp add: got_acct_def)
  qed
  then show "evolves s t" "fmlookup (stateObjects t) a = Some so"
    "acct_of (env_of s) a so = got_acct (env_of s) (world_of s) a"
    "world_of t = upd_acct (world_of s) a (got_acct (env_of s) (world_of s) a)" by blast+
qed

text \<open>
  The shape all setters share: get or create the object, then a journalled write to it whose
  revert is \<open>g\<close>.
\<close>

lemma setter_evolves:
  fixes s t :: "'k StateDB"
  assumes sane: "sane s" and ev: "evolves s t" and so: "fmlookup (stateObjects t) a = Some so"
    and d: "Dirtied e = Some a"
    and rev: "\<And>x so'. fmlookup (stateObjects x) a = Some so' \<Longrightarrow>
      revertEntry e (x :: 'k StateDB) = Inr (withObject x a g)"
    and acct: "acct_of (env_of t) a (g (f so)) = acct_of (env_of t) a so"
    and ext: "obj_clean so \<Longrightarrow> obj_ext so (g (f so))"
    and ok: "obj_ok (env_of t) a so \<Longrightarrow> obj_ok (env_of t) a (f so)"
    and cl: "obj_clean so \<Longrightarrow> obj_clean (f so)"
  shows "evolves s (withObject (j_append t e) a f)"
    and "world_of (withObject (j_append t e) a f) =
      upd_acct (world_of t) a (acct_of (env_of t) a (f so))"
proof -
  have "journal_step t e (withObject (j_append t e) a f)"
    by (rule object_journal_step [where g = g and f = f, OF so d]) (fact rev acct ext ok cl)+
  then show "evolves s (withObject (j_append t e) a f)" by (rule evolves_journal [OF ev])
  show "world_of (withObject (j_append t e) a f) =
      upd_acct (world_of t) a (acct_of (env_of t) a (f so))"
    using so by (simp add: world_of_withObject)
qed

lemma evolves_env: "evolves s t \<Longrightarrow> env_of t = env_of s"
  using evolves_frame [of s t] by (simp add: same_frame_def)

lemma evolves_objAddress:
  "sane s \<Longrightarrow> evolves s t \<Longrightarrow> fmlookup (stateObjects t) a = Some so \<Longrightarrow> objAddress so = a"
  using evolves_sane [of s t] sane_obj_ok [of t a so] by (simp add: obj_ok_def)

lemma so_SetBalance_evolves:
  assumes "sane s" and ev: "evolves s t" and so: "fmlookup (stateObjects t) a = Some so"
  shows "evolves s (so_SetBalance t so n)"
    and "world_of (so_SetBalance t so n) =
      upd_acct (world_of t) a ((acct_of (env_of t) a so)\<lparr>aBalance := n\<rparr>)"
proof -
  let ?e = "balanceChange a (Balance (account so))"
  have eq: "so_SetBalance t so n = withObject (j_append t ?e) a (setBalance n)"
    by (simp add: so_SetBalance_def evolves_objAddress [OF assms])
  have acct: "acct_of E a (setBalance (Balance (account so)) (setBalance n so)) = acct_of E a so" for E
    by (simp add: acct_of_def setBalance_def)
  note set = setter_evolves [OF assms, of ?e "setBalance (Balance (account so))" "setBalance n"]
  show "evolves s (so_SetBalance t so n)" unfolding eq
    by (rule set(1)) (simp_all add: onObject_live acct obj_ext_def obj_ok_def obj_clean_def)
  show "world_of (so_SetBalance t so n) =
      upd_acct (world_of t) a ((acct_of (env_of t) a so)\<lparr>aBalance := n\<rparr>)" unfolding eq
    by (subst set(2)) (simp_all add: onObject_live acct obj_ext_def obj_ok_def obj_clean_def)
qed

lemma so_SetNonce_evolves:
  assumes "sane s" and ev: "evolves s t" and so: "fmlookup (stateObjects t) a = Some so"
  shows "evolves s (so_SetNonce t so n)"
    and "world_of (so_SetNonce t so n) =
      upd_acct (world_of t) a ((acct_of (env_of t) a so)\<lparr>aNonce := n\<rparr>)"
proof -
  let ?e = "nonceChange a (Nonce (account so))"
  have eq: "so_SetNonce t so n = withObject (j_append t ?e) a (setNonce n)"
    by (simp add: so_SetNonce_def evolves_objAddress [OF assms])
  have acct: "acct_of E a (setNonce (Nonce (account so)) (setNonce n so)) = acct_of E a so" for E
    by (simp add: acct_of_def setNonce_def)
  note set = setter_evolves [OF assms, of ?e "setNonce (Nonce (account so))" "setNonce n"]
  show "evolves s (so_SetNonce t so n)" unfolding eq
    by (rule set(1)) (simp_all add: onObject_live acct obj_ext_def obj_ok_def obj_clean_def)
  show "world_of (so_SetNonce t so n) =
      upd_acct (world_of t) a ((acct_of (env_of t) a so)\<lparr>aNonce := n\<rparr>)" unfolding eq
    by (subst set(2)) (simp_all add: onObject_live acct obj_ext_def obj_ok_def obj_clean_def)
qed

lemma code_of_idem: "code_of E (code_of E c h) h = code_of E c h"
  by (auto simp: code_of_def split: option.splits)

lemma so_SetCode_evolves:
  assumes sane: "sane s" and ev: "evolves s t" and so: "fmlookup (stateObjects t) a = Some so"
  shows "evolves s (so_SetCode t so h c)"
    and "world_of (so_SetCode t so h c) = upd_acct (world_of t) a
      ((acct_of (env_of t) a so)\<lparr>aCodeHash := h, aCode := code_of (env_of t) c h\<rparr>)"
proof -
  obtain u pc where run: "so_Code t so = (u, pc)" by fastforce
  note addr = evolves_objAddress [OF assms]
  note rd = so_Code_cache_step [OF so addr run] cache_step_facts [OF so_Code_cache_step(1) [OF so addr run]]
  obtain so' where so': "fmlookup (stateObjects u) a = Some so'" "account so' = account so"
    "acct_of (env_of t) a so' = acct_of (env_of t) a so" using rd(3) by blast
  let ?ph = "CodeHash (account so)"
  let ?e = "codeChange a pc ?ph"
  have eq: "so_SetCode t so h c = withObject (j_append u ?e) a (setCode h c)"
    by (simp add: so_SetCode_def run addr)
  have acct: "acct_of (env_of u) a (setCode ?ph pc (setCode h c so')) = acct_of (env_of u) a so'"
    using so'(2,3) rd(2) rd(4) by (simp add: code_of_idem)
  have ev': "evolves s u" by (rule evolves_trans [OF rd(6) ev])
  note set = setter_evolves [OF sane ev' so'(1), of ?e "setCode ?ph pc" "setCode h c"]
  show "evolves s (so_SetCode t so h c)" unfolding eq
    by (rule set(1)) (simp_all only: acct, simp_all add: onObject_live obj_ext_def obj_ok_def obj_clean_def)
  show "world_of (so_SetCode t so h c) = upd_acct (world_of t) a
      ((acct_of (env_of t) a so)\<lparr>aCodeHash := h, aCode := code_of (env_of t) c h\<rparr>)"
    unfolding eq using so' rd(4,5) by (simp add: world_of_withObject)
qed

lemma so_SetState_evolves:
  assumes sane: "sane s" and ev: "evolves s t" and so: "fmlookup (stateObjects t) a = Some so"
  shows "evolves s (so_SetState t so k v)"
    and "world_of (so_SetState t so k v) = upd_acct (world_of t) a
      ((acct_of (env_of t) a so)\<lparr>aStorage := (aStorage (acct_of (env_of t) a so))(k := v)\<rparr>)"
proof -
  obtain u pv where run: "so_GetState t so k = (u, pv)" by fastforce
  note sanet = evolves_sane [OF ev sane]
  note ok = sane_obj_ok [OF sanet so] and cl = sane_obj_clean [OF sanet so]
  note addr = evolves_objAddress [OF assms]
  note rd = so_GetState_cache_step [OF so ok run] cache_step_facts [OF so_GetState_cache_step(1) [OF so ok run]]
  obtain so' where so': "fmlookup (stateObjects u) a = Some so'"
    "acct_of (env_of t) a so' = acct_of (env_of t) a so" "k |\<in>| fmdom (originStorage so')"
    using rd(3) cl by blast
  have ev': "evolves s u" by (rule evolves_trans [OF rd(6) ev])
  have "evolves s (so_SetState t so k v) \<and> world_of (so_SetState t so k v) = upd_acct (world_of t) a
      ((acct_of (env_of t) a so)\<lparr>aStorage := (aStorage (acct_of (env_of t) a so))(k := v)\<rparr>)"
  proof (cases "pv = v")
    case True
    then have "so_SetState t so k v = u" by (simp add: so_SetState_def run)
    moreover have "(aStorage (acct_of (env_of t) a so))(k := v) = aStorage (acct_of (env_of t) a so)"
      using rd(2) True by (simp add: fun_upd_idem)
    ultimately show ?thesis using ev' rd(5) wAcct_live [OF so] by simp
  next
    case False
    let ?e = "storageChange a k pv"
    have eq: "so_SetState t so k v = withObject (j_append u ?e) a (setState k v)"
      using False by (simp add: so_SetState_def run addr)
    have acct: "acct_of (env_of u) a (setState k pv (setState k v so')) = acct_of (env_of u) a so'"
      using so'(2) rd(2) rd(4) by (simp add: fun_upd_idem)
    note set = setter_evolves [OF sane ev' so'(1), of ?e "setState k pv" "setState k v"]
    have "evolves s (so_SetState t so k v)" unfolding eq
      using so'(3)
      by (intro set(1)) (simp_all only: acct, auto simp: onObject_live obj_ext_def obj_ok_def obj_clean_def)
    moreover have "world_of (so_SetState t so k v) = upd_acct (world_of t) a
      ((acct_of (env_of t) a so)\<lparr>aStorage := (aStorage (acct_of (env_of t) a so))(k := v)\<rparr>)"
      unfolding eq using so' rd(4,5) by (simp add: world_of_withObject)
    ultimately show ?thesis by simp
  qed
  then show "evolves s (so_SetState t so k v)"
    "world_of (so_SetState t so k v) = upd_acct (world_of t) a
      ((acct_of (env_of t) a so)\<lparr>aStorage := (aStorage (acct_of (env_of t) a so))(k := v)\<rparr>)" by simp_all
qed

subsection \<open>Setters of the StateDB\<close>

lemma AddBalance_refines:
  assumes "sane s"
  shows "evolves s (AddBalance s a n)"
    and "world_of (AddBalance s a n) = spec_AddBalance (env_of s) (world_of s) a n"
proof -
  obtain t so where get: "getOrNewStateObject s a = (t, so)" by fastforce
  note got = getOrNewStateObject_evolves [OF assms get]
  note set = so_SetBalance_evolves [OF assms got(1,2)] and env = evolves_env [OF got(1)]
  show "evolves s (AddBalance s a n)"
    using got(1) set(1) by (simp add: AddBalance_def get so_AddBalance_def)
  show "world_of (AddBalance s a n) = spec_AddBalance (env_of s) (world_of s) a n"
    using got(3,4) set(2) env
    by (auto simp: AddBalance_def get so_AddBalance_def spec_AddBalance_def Let_def
        simp flip: acct_of_sel(2) [of "env_of s" a])
qed

lemma SubBalance_refines:
  assumes "sane s"
  shows "evolves s (SubBalance s a n)"
    and "world_of (SubBalance s a n) = spec_AddBalance (env_of s) (world_of s) a (- n)"
proof -
  obtain t so where get: "getOrNewStateObject s a = (t, so)" by fastforce
  note got = getOrNewStateObject_evolves [OF assms get]
  note set = so_SetBalance_evolves [OF assms got(1,2)] and env = evolves_env [OF got(1)]
  show "evolves s (SubBalance s a n)"
    using got(1) set(1) by (simp add: SubBalance_def get so_SubBalance_def)
  show "world_of (SubBalance s a n) = spec_AddBalance (env_of s) (world_of s) a (- n)"
    using got(3,4) set(2) env
    by (auto simp: SubBalance_def get so_SubBalance_def spec_AddBalance_def Let_def
        simp flip: acct_of_sel(2) [of "env_of s" a])
qed

lemma SetNonce_refines:
  assumes "sane s"
  shows "evolves s (SetNonce s a n)"
    and "world_of (SetNonce s a n) = spec_SetNonce (env_of s) (world_of s) a n"
proof -
  obtain t so where get: "getOrNewStateObject s a = (t, so)" by fastforce
  note got = getOrNewStateObject_evolves [OF assms get]
  note set = so_SetNonce_evolves [OF assms got(1,2)] and env = evolves_env [OF got(1)]
  show "evolves s (SetNonce s a n)" using set(1) by (simp add: SetNonce_def get)
  show "world_of (SetNonce s a n) = spec_SetNonce (env_of s) (world_of s) a n"
    using got(3,4) set(2) env by (simp add: SetNonce_def get spec_SetNonce_def)
qed

lemma SetCode_refines:
  assumes "sane s"
  shows "evolves s (SetCode s a c)"
    and "world_of (SetCode s a c) = spec_SetCode (env_of s) (world_of s) a c"
proof -
  obtain t so where get: "getOrNewStateObject s a = (t, so)" by fastforce
  note got = getOrNewStateObject_evolves [OF assms get]
  note set = so_SetCode_evolves [OF assms got(1,2)] and env = evolves_env [OF got(1)]
  show "evolves s (SetCode s a c)" using set(1) by (simp add: SetCode_def get)
  show "world_of (SetCode s a c) = spec_SetCode (env_of s) (world_of s) a c"
    using got(3,4) set(2) env by (simp add: SetCode_def get spec_SetCode_def Let_def env_of_sel)
qed

lemma SetState_refines:
  assumes "sane s"
  shows "evolves s (SetState s a k v)"
    and "world_of (SetState s a k v) = spec_SetState (env_of s) (world_of s) a k v"
proof -
  obtain t so where get: "getOrNewStateObject s a = (t, so)" by fastforce
  note got = getOrNewStateObject_evolves [OF assms get]
  note set = so_SetState_evolves [OF assms got(1,2)] and env = evolves_env [OF got(1)]
  show "evolves s (SetState s a k v)" using set(1) by (simp add: SetState_def get)
  show "world_of (SetState s a k v) = spec_SetState (env_of s) (world_of s) a k v"
    using got(3,4) set(2) env by (simp add: SetState_def get spec_SetState_def Let_def)
qed

lemma Suicide_refines:
  assumes sane: "sane s" and run: "Suicide s a = (t, r)"
  shows "evolves s t" and "world_of t = spec_Suicide (world_of s) a"
    and "r \<longleftrightarrow> wAcct (world_of s) a \<noteq> None"
proof -
  obtain u ob where get: "getStateObject s a = (u, ob)" by fastforce
  have "evolves s t \<and> world_of t = spec_Suicide (world_of s) a \<and> (r \<longleftrightarrow> wAcct (world_of s) a \<noteq> None)"
  proof (cases ob)
    case None
    note none = getStateObject_None [OF get [unfolded None]]
    with run get None show ?thesis
      by (simp add: Suicide_def spec_Suicide_def evolves_refl)
  next
    case (Some so)
    note some = getStateObject_Some [OF get [unfolded Some]]
    note step = cache_step_facts [OF some(2)]
    let ?e = "suicideChange a (suicided so) (Balance (account so))"
    let ?g = "\<lambda>ob. setBalance (Balance (account so)) (ob\<lparr>suicided := suicided so\<rparr>)"
    let ?f = "\<lambda>ob. setBalance 0 (markSuicided ob)"
    have eq: "t = withObject (j_append u ?e) a ?f" "r"
      using run get Some by (auto simp: Suicide_def)
    have acct: "acct_of E a (?g (?f so)) = acct_of E a so" for E
      by (simp add: acct_of_def setBalance_def markSuicided_def)
    have rev: "revertEntry ?e x = Inr (withObject x a ?g)"
      if "fmlookup (stateObjects x) a = Some so'" for x :: "'a StateDB" and so'
      using that by (simp add: getStateObject_def)
    note set = setter_evolves [OF sane step(3) some(1), of ?e ?g ?f]
    have "evolves s t" unfolding eq
      by (rule set(1)) (simp_all only: rev acct, simp_all add: obj_ext_def obj_ok_def obj_clean_def)
    moreover have "world_of t = spec_Suicide (world_of s) a"
      using some step(1,2) by (simp add: eq spec_Suicide_def world_of_withObject)
    ultimately show ?thesis using eq(2) some(3) by simp
  qed
  then show "evolves s t" "world_of t = spec_Suicide (world_of s) a"
    "r \<longleftrightarrow> wAcct (world_of s) a \<noteq> None" by blast+
qed

text \<open>
  \<open>CreateAccount\<close> carries the balance over to the reset object with a direct write: the write is
  part of the reset as far as the journal is concerned.
\<close>

lemma CreateAccount_refines:
  assumes "sane s"
  shows "evolves s (CreateAccount s a)"
    and "world_of (CreateAccount s a) = spec_CreateAccount (env_of s) (world_of s) a"
proof -
  obtain u prev where get: "getStateObject s a = (u, prev)" by fastforce
  note step = cache_step_facts [OF getStateObject_cache_step [OF get]]
  let ?so = "newObject u a zeroAccount"
  have "evolves s (CreateAccount s a) \<and>
    world_of (CreateAccount s a) = spec_CreateAccount (env_of s) (world_of s) a"
  proof (cases prev)
    case None
    note none = getStateObject_None [OF get [unfolded None]]
    have eq: "createObject s a = (CreateAccount s a, ?so, None)"
      using get None by (simp add: CreateAccount_def createObject_def Let_def)
    have "new_acct (env_of s) a = (new_acct (env_of s) a)\<lparr>aBalance := 0\<rparr>"
      by (simp add: new_acct_def)
    with createObject_evolves [OF assms eq] none show ?thesis
      by (simp add: spec_CreateAccount_def)
  next
    case (Some p)
    note some = getStateObject_Some [OF get [unfolded Some]]
    let ?so' = "setBalance (Balance (account p)) ?so"
    have eq: "CreateAccount s a = setStateObject (j_append u (resetObjectChange p)) ?so'"
      using get Some
      by (simp add: CreateAccount_def createObject_def Let_def withObject_def setStateObject_def)
    have "obj_ok (env_of u) a ?so'" "obj_clean ?so'"
      using obj_ok_newObject [of "env_of u" a u zeroAccount] obj_clean_newObject [of u a zeroAccount]
      by (simp_all add: obj_ok_def obj_clean_def)
    from reset_journal_step [OF some(1) this eq] step(3)
    have "evolves s (CreateAccount s a)" using evolves_journal by blast
    moreover have "world_of (CreateAccount s a) = spec_CreateAccount (env_of s) (world_of s) a"
      using some(3) step(1,2) acct_of_zero [of u a]
      by (simp add: eq world_of_setStateObject spec_CreateAccount_def)
    ultimately show ?thesis by blast
  qed
  then show "evolves s (CreateAccount s a)"
    "world_of (CreateAccount s a) = spec_CreateAccount (env_of s) (world_of s) a" by blast+
qed

lemma sane_al_inv: "sane s \<Longrightarrow> al_inv (accList s)"
  by (simp add: sane_def)

lemma AddLog_refines:
  "evolves s (AddLog s l)" "world_of (AddLog s l) = spec_AddLog (env_of s) (world_of s) l"
proof -
  have "journal_step s addLogChange (AddLog s l)"
    by (rule plain_journal_step)
      (auto simp: AddLog_def Let_def same_frame_def sane_al_inv intro!: world_of_cong)
  then show "evolves s (AddLog s l)" by (rule journal_step_evolves)
  show "world_of (AddLog s l) = spec_AddLog (env_of s) (world_of s) l"
    by (rule world_eqI)
      (auto simp: AddLog_def Let_def spec_AddLog_def wAcct_world_of env_of_sel split: option.split)
qed

lemma refund_journal_step:
  "journal_step s (refundChange (refund s)) ((j_append s (refundChange (refund s)))\<lparr>refund := r\<rparr>)"
  by (rule plain_journal_step) (auto simp: same_frame_def sane_al_inv intro!: world_of_cong)

lemma world_of_refund: "world_of (s\<lparr>refund := r\<rparr>) = (world_of s)\<lparr>wRefund := r\<rparr>"
  by (rule world_eqI) (auto simp: wAcct_world_of split: option.split)

lemma AddRefund_refines:
  "evolves s (AddRefund s g)" "world_of (AddRefund s g) = (world_of s)\<lparr>wRefund := refund s + g\<rparr>"
  using journal_step_evolves [OF refund_journal_step [of s "refund s + g"]]
  by (simp_all add: AddRefund_def Let_def world_of_refund)

lemma SubRefund_refines:
  assumes "SubRefund s g = Inr t"
  shows "evolves s t" "world_of t = (world_of s)\<lparr>wRefund := refund s - g\<rparr>" "g \<le> refund s"
  using assms journal_step_evolves [OF refund_journal_step [of s "refund s - g"]]
  by (auto simp: SubRefund_def Let_def world_of_refund split: if_splits)

subsection \<open>The access list\<close>

lemma world_of_accList: "world_of (s\<lparr>accList := al\<rparr>) = (world_of s)\<lparr>wAccess := al\<rparr>"
  by (rule world_eqI) (auto simp: wAcct_world_of split: option.split)

lemma AddAddressToAccessList_refines:
  assumes "sane s"
  shows "evolves s (AddAddressToAccessList s a)"
    and "world_of (AddAddressToAccessList s a) =
      (world_of s)\<lparr>wAccess := fst (AddAddress (accList s) a)\<rparr>"
proof -
  obtain al ch where add: "AddAddress (accList s) a = (al, ch)" by fastforce
  show "evolves s (AddAddressToAccessList s a)"
  proof (cases ch)
    case True
    have "journal_step s (accessListAddAccountChange a)
        (j_append (s\<lparr>accList := al\<rparr>) (accessListAddAccountChange a))"
      using add True DeleteAddress_AddAddress AddAddress_refines(1) [OF _ add]
      by (intro plain_journal_step)
        (auto simp: same_frame_def sane_al_inv j_append_def intro!: world_of_cong)
    with True add show ?thesis
      using journal_step_evolves by (simp add: AddAddressToAccessList_def)
  next
    case False
    with add have "s\<lparr>accList := al\<rparr> = s" by (auto simp: AddAddress_def split: option.splits)
    with False add show ?thesis by (simp add: AddAddressToAccessList_def evolves_refl)
  qed
  show "world_of (AddAddressToAccessList s a) =
      (world_of s)\<lparr>wAccess := fst (AddAddress (accList s) a)\<rparr>"
    by (simp add: AddAddressToAccessList_def add Let_def world_of_accList)
qed

lemma AddSlot_AddAddress:
  "AddSlot (fst (AddAddress al a)) a k =
    map_sum id (\<lambda>(al', ac, sc). (al', False, sc)) (AddSlot al a k)"
  by (auto simp: AddSlot_def AddAddress_def Let_def rbind_def slots_at_def split: option.split sum.split)

text \<open>Adding a slot of an absent address is adding the address and then the slot.\<close>

lemma AddSlotToAccessList_split:
  assumes "fmlookup (addresses (accList s)) a = None"
  shows "AddSlotToAccessList s a k = AddSlotToAccessList (AddAddressToAccessList s a) a k"
  using assms
  by (simp add: AddSlotToAccessList_def AddAddressToAccessList_def AddAddress_def AddSlot_def
      Let_def j_append_def)

lemma AddSlotToAccessList_refines:
  assumes "sane s"
  shows "\<exists>t al. AddSlotToAccessList s a k = Inr t \<and> evolves s t \<and>
    AddSlot (accList s) a k = Inr (al, a \<notin> al_addrs (accList s), (a, k) \<notin> al_slots (accList s)) \<and>
    world_of t = (world_of s)\<lparr>wAccess := al\<rparr>"
proof -
  have present: "\<exists>t al. AddSlotToAccessList s a k = Inr t \<and> evolves s t \<and>
      AddSlot (accList s) a k = Inr (al, False, (a, k) \<notin> al_slots (accList s)) \<and>
      world_of t = (world_of s)\<lparr>wAccess := al\<rparr>"
    if sane: "sane s" and a: "a \<in> al_addrs (accList s)" for s :: "'a StateDB"
  proof -
    note inv = sane_al_inv [OF sane]
    obtain al ac sc where add: "AddSlot (accList s) a k = Inr (al, ac, sc)"
      by (rule AddSlot_cases [OF inv, of a k]) auto
    note ref = AddSlot_refines [OF inv add] AddSlot_al_inv [OF inv add]
    let ?s = "s\<lparr>accList := al\<rparr>"
    let ?t = "if sc then j_append ?s (accessListAddSlotChange a k) else ?s"
    have t: "AddSlotToAccessList s a k = Inr ?t"
      using a ref(3) by (simp add: AddSlotToAccessList_def add)
    have "evolves s ?t"
    proof (cases sc)
      case True
      have "journal_step s (accessListAddSlotChange a k) (j_append ?s (accessListAddSlotChange a k))"
        using a ref DeleteSlot_AddSlot [OF inv, of a k al ac] add True
        by (intro plain_journal_step)
          (auto simp: same_frame_def j_append_def result_simps intro!: world_of_cong)
      then show ?thesis using True journal_step_evolves by simp
    next
      case False
      then have "?s = s" using add
        by (auto simp: AddSlot_def Let_def result_simps split: if_splits)
      then show ?thesis using False by (simp add: evolves_refl)
    qed
    then show ?thesis using t add ref a by (auto simp: world_of_accList)
  qed
  show ?thesis
  proof (cases "a \<in> al_addrs (accList s)")
    case True
    then show ?thesis using present [OF assms] by simp
  next
    case False
    then have none: "fmlookup (addresses (accList s)) a = None" by (auto simp: in_al_addrs_iff)
    note add = AddAddressToAccessList_refines [OF assms, of a]
    let ?u = "AddAddressToAccessList s a"
    have u: "sane ?u" using evolves_sane [OF add(1) assms] .
    have accu: "accList ?u = fst (AddAddress (accList s) a)"
      using arg_cong [OF add(2), of wAccess] by simp
    note ref = AddAddress_refines [OF sane_al_inv [OF assms] prod.collapse [symmetric], of a]
    have "a \<in> al_addrs (accList ?u)" by (simp add: accu ref)
    from present [OF u this] obtain t al where t: "AddSlotToAccessList ?u a k = Inr t" "evolves ?u t"
      "AddSlot (accList ?u) a k = Inr (al, False, (a, k) \<notin> al_slots (accList ?u))"
      "world_of t = (world_of ?u)\<lparr>wAccess := al\<rparr>" by blast
    have "AddSlot (accList s) a k = Inr (al, True, True)"
      using t(3) none unfolding accu AddSlot_AddAddress by (simp add: AddSlot_def Let_def)
    then show ?thesis
      using t add False none in_al_slots_iff [of a k "accList s"] evolves_trans [OF t(2) add(1)]
      by (auto simp: AddSlotToAccessList_split)
  qed
qed

end
