(* ===== verification/State_DB_Undo.thy ===== *)
theory State_DB_Undo
  imports State_DB_Refine
begin

text \<open>
  Reverting the journal.  \<open>arevert\<close> is what a journal entry does to the world when it is
  reverted; the concrete \<open>revertEntry\<close> refines it whatever the caches hold.  \<open>db_inv\<close> is the
  invariant of the \<open>StateDB\<close>: it is kept by every operation and by \<open>RevertToSnapshot\<close>.
\<close>

section \<open>Reverting an entry in the world\<close>

definition on_acct :: "accessList world \<Rightarrow> address \<Rightarrow> (acct \<Rightarrow> acct) \<Rightarrow> panic + accessList world" where
  "on_acct w a f =
     (case wAcct w a of None \<Rightarrow> Inl NilDereference | Some x \<Rightarrow> Inr (upd_acct w a (f x)))"

fun arevert :: "'k env \<Rightarrow> JournalEntry \<Rightarrow> accessList world \<Rightarrow> panic + accessList world" where
  "arevert E (createObjectChange a) w = Inr (w\<lparr>wAcct := (wAcct w)(a := stored E a)\<rparr>)"
| "arevert E (resetObjectChange p) w =
     Inr (upd_acct w (objAddress p) (acct_of E (objAddress p) p))"
| "arevert E (suicideChange a b n) w =
     Inr (case wAcct w a of None \<Rightarrow> w
          | Some x \<Rightarrow> upd_acct w a (x\<lparr>aSuicided := b, aBalance := n\<rparr>))"
| "arevert E (balanceChange a n) w = on_acct w a (\<lambda>x. x\<lparr>aBalance := n\<rparr>)"
| "arevert E (nonceChange a n) w = on_acct w a (\<lambda>x. x\<lparr>aNonce := n\<rparr>)"
| "arevert E (codeChange a c h) w = on_acct w a (\<lambda>x. x\<lparr>aCodeHash := h, aCode := code_of E c h\<rparr>)"
| "arevert E (storageChange a k v) w = on_acct w a (\<lambda>x. x\<lparr>aStorage := (aStorage x)(k := v)\<rparr>)"
| "arevert E (refundChange r) w = Inr (w\<lparr>wRefund := r\<rparr>)"
| "arevert E addLogChange w =
     (if wLogs w = [] then Inl IndexOutOfRange else Inr (w\<lparr>wLogs := butlast (wLogs w)\<rparr>))"
| "arevert E (accessListAddAccountChange a) w = Inr (w\<lparr>wAccess := DeleteAddress (wAccess w) a\<rparr>)"
| "arevert E (accessListAddSlotChange a k) w =
     rbind (DeleteSlot (wAccess w) a k) (\<lambda>al. Inr (w\<lparr>wAccess := al\<rparr>))"

lemma onObject_sim:
  assumes "\<And>so. acct_of (env_of s) a (f so) = g (acct_of (env_of s) a so)"
  shows "map_sum id world_of (onObject s a f) = on_acct (world_of s) a g"
proof -
  obtain t r where get: "getStateObject s a = (t, r)" by fastforce
  note step = cache_step_facts [OF getStateObject_cache_step [OF get]]
  show ?thesis
  proof (cases r)
    case None
    then show ?thesis
      using get getStateObject_None [OF get [unfolded None]] by (simp add: onObject_def on_acct_def)
  next
    case (Some so)
    then show ?thesis
      using get getStateObject_Some [OF get [unfolded Some]] step(1,2) assms
      by (simp add: onObject_def on_acct_def world_of_withObject)
  qed
qed

lemma world_of_logs: "world_of (s\<lparr>logs := l\<rparr>) = (world_of s)\<lparr>wLogs := l\<rparr>"
  by (rule world_eqI) (auto simp: wAcct_world_of split: option.split)

lemma world_of_fmdrop:
  "world_of (s\<lparr>stateObjects := fmdrop a (stateObjects s)\<rparr>) =
    (world_of s)\<lparr>wAcct := (wAcct (world_of s))(a := stored (env_of s) a)\<rparr>"
  by (rule world_eqI) (auto simp: wAcct_world_of split: option.split)

lemma suicide_sim:
  "map_sum id world_of (revertEntry (suicideChange a b n) s) =
    arevert (env_of s) (suicideChange a b n) (world_of s)"
proof -
  obtain t r where get: "getStateObject s a = (t, r)" by fastforce
  note step = cache_step_facts [OF getStateObject_cache_step [OF get]]
  show ?thesis
  proof (cases r)
    case None
    then show ?thesis using get getStateObject_None [OF get [unfolded None]] by simp
  next
    case (Some so)
    then show ?thesis
      using get getStateObject_Some [OF get [unfolded Some]] step(1,2)
      by (simp add: world_of_withObject)
  qed
qed

lemma revertEntry_sim: "map_sum id world_of (revertEntry e s) = arevert (env_of s) e (world_of s)"
proof (cases e)
  case (suicideChange a b n)
  then show ?thesis using suicide_sim by blast
next
  case (storageChange a k v)
  have "map_sum id world_of (onObject s a (setState k v)) =
      on_acct (world_of s) a (\<lambda>x. x\<lparr>aStorage := (aStorage x)(k := v)\<rparr>)"
    by (rule onObject_sim) simp
  then show ?thesis by (simp add: storageChange)
next
  case (accessListAddSlotChange a k)
  then show ?thesis by (cases "DeleteSlot (accList s) a k") (simp_all add: world_of_accList)
qed (simp_all add: world_of_fmdrop world_of_setStateObject onObject_sim world_of_refund world_of_logs
  world_of_accList)

lemma revertEntry_Inr:
  assumes "arevert (env_of s) e (world_of s) = Inr w"
  obtains u where "revertEntry e s = Inr u" "world_of u = w"
  using assms revertEntry_sim [of e s] by (cases "revertEntry e s") auto

section \<open>What reverting leaves alone\<close>

lemma getStateObject_frame:
  assumes "getStateObject s a = (t, r)"
  shows "same_frame s t" "jrnl t = jrnl s"
  using getStateObject_cache_step [OF assms] by (simp_all add: cache_step_def)

lemma revertEntry_frame:
  assumes "revertEntry e s = Inr u"
  shows "same_frame s u \<and> jrnl u = jrnl s"
proof -
  have on: "same_frame s u \<and> jrnl u = jrnl s" if "onObject s a f = Inr u" for a f
    using that getStateObject_frame [of s a]
    by (cases "getStateObject s a") (auto simp: onObject_def same_frame_def split: option.splits)
  show ?thesis
  proof (cases e)
    case (suicideChange a b n)
    then show ?thesis using assms getStateObject_frame [of s a]
      by (cases "getStateObject s a") (auto simp: same_frame_def split: option.splits)
  qed (use assms on in \<open>auto simp: same_frame_def result_simps split: if_splits\<close>)
qed

definition objs_ok :: "'k StateDB \<Rightarrow> bool" where
  "objs_ok s \<longleftrightarrow> (\<forall>a so. fmlookup (stateObjects s) a = Some so \<longrightarrow> obj_ok (env_of s) a so)"

lemma obj_ok_cong:
  "objAddress so' = objAddress so \<Longrightarrow> originStorage so' = originStorage so \<Longrightarrow>
    obj_ok E a so' = obj_ok E a so"
  by (simp add: obj_ok_def)

lemma objs_ok_withObject:
  assumes "objs_ok s" and "\<And>so. objAddress (f so) = objAddress so"
    and "\<And>so. originStorage (f so) = originStorage so"
  shows "objs_ok (withObject s a f)"
  using assms by (auto simp: objs_ok_def obj_ok_cong [of "f _"] split: if_splits)

lemma objs_ok_getStateObject:
  assumes "objs_ok s" and "getStateObject s a = (t, r)"
  shows "objs_ok t"
  using assms by (auto simp: getStateObject_def objs_ok_def Let_def split: option.splits if_splits)

lemma objs_ok_onObject:
  assumes "objs_ok s" and "onObject s a f = Inr u" and "\<And>so. objAddress (f so) = objAddress so"
    and "\<And>so. originStorage (f so) = originStorage so"
  shows "objs_ok u"
  using assms objs_ok_getStateObject [OF assms(1), of a]
  by (cases "getStateObject s a") (auto simp: onObject_def intro: objs_ok_withObject split: option.splits)

lemma revertEntry_objs_ok:
  assumes ok: "objs_ok s" and run: "revertEntry e s = Inr u"
    and reset: "\<And>p. e = resetObjectChange p \<Longrightarrow> obj_ok (env_of s) (objAddress p) p"
  shows "objs_ok u"
proof (cases e)
  case (suicideChange a b n)
  then show ?thesis using run objs_ok_getStateObject [OF ok, of a]
    by (cases "getStateObject s a") (auto intro: objs_ok_withObject split: option.splits)
next
  case (resetObjectChange p)
  then show ?thesis using run ok reset by (auto simp: objs_ok_def split: if_splits)
qed (use run ok objs_ok_onObject [OF ok] in
  \<open>auto simp: result_simps objs_ok_def [of "_\<lparr>stateObjects := _\<rparr>"] objs_ok_def [of "_\<lparr>refund := _\<rparr>"]
    objs_ok_def [of "_\<lparr>logs := _\<rparr>"] objs_ok_def [of "_\<lparr>accList := _\<rparr>"] objs_ok_def [of s]
    split: if_splits\<close>)

section \<open>Reverting is monotone in the caches\<close>

lemma extI:
  assumes "\<And>a so. fmlookup (stateObjects s) a = Some so \<Longrightarrow>
      \<exists>so'. fmlookup (stateObjects t) a = Some so' \<and> obj_ext so so'"
    and "\<And>a so'. fmlookup (stateObjects s) a = None \<Longrightarrow> fmlookup (stateObjects t) a = Some so' \<Longrightarrow>
      obj_clean so'"
  shows "ext s t"
  using assms unfolding ext_def by blast

lemma extD:
  assumes "ext s t"
  shows "fmlookup (stateObjects s) a = Some so \<Longrightarrow>
      \<exists>so'. fmlookup (stateObjects t) a = Some so' \<and> obj_ext so so'"
    and "fmlookup (stateObjects s) a = None \<Longrightarrow> fmlookup (stateObjects t) a = Some so' \<Longrightarrow>
      obj_clean so'"
  using assms by (auto simp: ext_def)

lemma ext_cong:
  "ext s t \<Longrightarrow> stateObjects s' = stateObjects s \<Longrightarrow> stateObjects t' = stateObjects t \<Longrightarrow> ext s' t'"
  by (simp add: ext_def)

lemma obj_ext_new: "obj_clean so' \<Longrightarrow> obj_ext (newObject s a acc) so'"
  by (simp add: obj_ext_def obj_clean_def newObject_def)

lemma obj_ext_clean: "obj_ext so so' \<Longrightarrow> obj_clean so \<Longrightarrow> obj_clean so'"
  unfolding obj_ext_def obj_clean_def by blast

lemma obj_ext_set:
  "obj_ext so so' \<Longrightarrow> obj_ext (setBalance n so) (setBalance n so')"
  "obj_ext so so' \<Longrightarrow> obj_ext (setNonce m so) (setNonce m so')"
  "obj_ext so so' \<Longrightarrow> obj_ext (setCode h c so) (setCode h c so')"
  "obj_ext so so' \<Longrightarrow> obj_ext (setState k v so) (setState k v so')"
  by (auto simp: obj_ext_def)

lemma world_accList: "world_of s' = world_of s \<Longrightarrow> accList s' = accList s"
  by (metis world_of_sel(3))

lemma ext_clean:
  assumes "ext s t" and "clean s"
  shows "clean t"
  unfolding clean_def
proof (intro allI impI)
  fix a so' assume so': "fmlookup (stateObjects t) a = Some so'"
  show "obj_clean so'"
  proof (cases "fmlookup (stateObjects s) a")
    case None
    then show ?thesis using extD(2) [OF assms(1) _ so'] by simp
  next
    case (Some so)
    then have "obj_clean so" using assms(2) by (simp add: clean_def)
    moreover have "obj_ext so so'" using extD(1) [OF assms(1) Some] so' by auto
    ultimately show ?thesis using obj_ext_clean by blast
  qed
qed

lemma ext_live: "ext s t \<Longrightarrow> live s a \<Longrightarrow> live t a"
  by (auto simp: live_def dest: extD(1))

lemma getStateObject_mono:
  assumes ext: "ext s s'" and env: "env_of s' = env_of s"
    and get: "getStateObject s a = (t, r)" "getStateObject s' a = (t', r')"
  shows "ext t t'" and "r \<noteq> None \<Longrightarrow> r' \<noteq> None"
proof -
  have kp: "keeper s' = keeper s" "ctx s' = ctx s" using env by (simp_all add: env_of_def)
  have new: "newObject s' a acc = newObject s a acc" for acc
    using env by (auto simp: newObject_def split: option.split)
  have "ext t t' \<and> (r \<noteq> None \<longrightarrow> r' \<noteq> None)"
  proof (cases "fmlookup (stateObjects s) a")
    case (Some so)
    with extD(1) [OF ext Some] obtain so' where "fmlookup (stateObjects s') a = Some so'" by blast
    with Some get have "t = s" "t' = s'" "r' = Some so'" by (simp_all add: getStateObject_def)
    with ext show ?thesis by simp
  next
    case none: None
    show ?thesis
    proof (cases "fmlookup (stateObjects s') a")
      case (Some so')
      note cl = extD(2) [OF ext none Some]
      have "ext t s'" using get(1) none Some ext cl
        by (auto simp: getStateObject_def Let_def ext_def obj_ext_new split: option.splits if_splits)
      moreover have "t' = s'" "r' = Some so'" using get Some by (simp_all add: getStateObject_def)
      ultimately show ?thesis by simp
    next
      case None
      with get none ext show ?thesis
        by (auto simp: getStateObject_def Let_def ext_def kp new split: option.splits if_splits)
    qed
  qed
  then show "ext t t'" "r \<noteq> None \<Longrightarrow> r' \<noteq> None" by blast+
qed

lemma withObject_mono:
  assumes ext: "ext s s'" and f: "\<And>so so'. obj_ext so so' \<Longrightarrow> obj_ext (f so) (f so')"
    and "live s a \<or> (\<forall>so. obj_clean so \<longrightarrow> obj_clean (f so))"
  shows "ext (withObject s a f) (withObject s' a f)"
proof (rule extI)
  fix b so assume "fmlookup (stateObjects (withObject s a f)) b = Some so"
  then show "\<exists>so'. fmlookup (stateObjects (withObject s' a f)) b = Some so' \<and> obj_ext so so'"
    using extD(1) [OF ext, of b] f by (fastforce split: if_splits)
next
  fix b so' assume "fmlookup (stateObjects (withObject s a f)) b = None"
    "fmlookup (stateObjects (withObject s' a f)) b = Some so'"
  then show "obj_clean so'"
    using extD(2) [OF ext, of b] assms(3) by (auto simp: live_def split: if_splits)
qed

lemma onObject_mono:
  assumes ext: "ext s s'" and env: "env_of s' = env_of s"
    and f: "\<And>so so'. obj_ext so so' \<Longrightarrow> obj_ext (f so) (f so')"
    and run: "onObject s a f = Inr u" and run': "onObject s' a f = Inr u'"
  shows "ext u u'"
proof -
  obtain t r t' r' where get: "getStateObject s a = (t, r)" "getStateObject s' a = (t', r')"
    by fastforce
  note mono = getStateObject_mono [OF ext env get]
  have "live t a" and u: "u = withObject t a f" "u' = withObject t' a f"
    using run run' get getStateObject_Some(1) [of s a t]
    by (auto simp: onObject_def live_def split: option.splits)
  then show ?thesis using withObject_mono [OF mono(1) f] by simp
qed

lemma suicide_revert:
  "revertEntry (suicideChange a b n) s =
    Inr (withObject (fst (getStateObject s a)) a (\<lambda>ob. setBalance n (ob\<lparr>suicided := b\<rparr>)))"
proof (cases "getStateObject s a")
  case (Pair t r)
  then show ?thesis
    using getStateObject_None(1,2) [of s a t] by (cases r) (simp_all add: withObject_def)
qed

lemma revertEntry_mono:
  assumes ext: "ext s s'" and env: "env_of s' = env_of s"
    and run: "revertEntry e s = Inr u" and run': "revertEntry e s' = Inr u'"
  shows "ext u u'"
proof (cases e)
  case (createObjectChange a)
  then have "u = s\<lparr>stateObjects := fmdrop a (stateObjects s)\<rparr>"
    "u' = s'\<lparr>stateObjects := fmdrop a (stateObjects s')\<rparr>" using run run' by auto
  then show ?thesis using ext by (auto simp: ext_def)
next
  case (resetObjectChange p)
  then have "u = setStateObject s p" "u' = setStateObject s' p" using run run' by auto
  then show ?thesis using ext by (auto simp: ext_def)
next
  case (suicideChange a b n)
  obtain t r t' r' where get: "getStateObject s a = (t, r)" "getStateObject s' a = (t', r')"
    by fastforce
  note mono = getStateObject_mono [OF ext env get]
  let ?f = "\<lambda>ob. setBalance n (ob\<lparr>suicided := b\<rparr>)"
  have "u = withObject t a ?f" "u' = withObject t' a ?f"
    using run run' get by (simp_all add: suicideChange suicide_revert del: revertEntry.simps)
  then show ?thesis
    using withObject_mono [OF mono(1), of ?f a] by (simp add: obj_ext_def obj_clean_def)
next
  case (balanceChange a n)
  then show ?thesis using run run' onObject_mono [OF ext env obj_ext_set(1)] by simp
next
  case (nonceChange a n)
  then show ?thesis using run run' onObject_mono [OF ext env obj_ext_set(2)] by simp
next
  case (codeChange a c h)
  then show ?thesis using run run' onObject_mono [OF ext env obj_ext_set(3)] by simp
next
  case (storageChange a k v)
  then show ?thesis using run run' onObject_mono [OF ext env obj_ext_set(4)] by simp
next
  case (accessListAddSlotChange a k)
  then have "stateObjects u = stateObjects s" "stateObjects u' = stateObjects s'"
    using run run' by (auto simp: result_simps)
  then show ?thesis by (rule ext_cong [OF ext])
next
  case addLogChange
  then have "stateObjects u = stateObjects s" "stateObjects u' = stateObjects s'"
    using run run' by (auto split: if_splits)
  then show ?thesis by (rule ext_cong [OF ext])
next
  case (refundChange r)
  then show ?thesis using run run' by (auto intro: ext_cong [OF ext])
next
  case (accessListAddAccountChange a)
  then show ?thesis using run run' by (auto intro: ext_cong [OF ext])
qed

section \<open>The invariant\<close>

definition dirtied :: "JournalEntry list \<Rightarrow> address set" where
  "dirtied es = {a. \<exists>e\<in>set es. Dirtied e = Some a}"

definition state_ok :: "'k StateDB \<Rightarrow> bool" where
  "state_ok s \<longleftrightarrow> clean s \<and> al_inv (accList s)"

text \<open>
  The state is well formed and has an object for every dirty address, now and after reverting
  any number of entries (the list is the journal from its end).
\<close>

fun good :: "JournalEntry list \<Rightarrow> 'k StateDB \<Rightarrow> bool" where
  "good [] s \<longleftrightarrow> state_ok s"
| "good (e # es) s \<longleftrightarrow>
     state_ok s \<and> (\<forall>a\<in>dirtied (e # es). live s a) \<and> (\<forall>u. revertEntry e s = Inr u \<longrightarrow> good es u)"

lemma good_state_ok: "good es s \<Longrightarrow> state_ok s"
  by (cases es) simp_all

lemma good_live: "good es s \<Longrightarrow> a \<in> dirtied es \<Longrightarrow> live s a"
  by (cases es) (auto simp: dirtied_def)

lemma good_mono:
  assumes "good es s" and "ext s s'" and "world_of s' = world_of s" and "env_of s' = env_of s"
  shows "good es s'"
  using assms
proof (induction es arbitrary: s s')
  case Nil
  then show ?case
    using ext_clean [OF Nil(2)] world_accList [OF Nil(3)] by (simp add: state_ok_def)
next
  case (Cons e es)
  have ok: "state_ok s'" using Cons.prems ext_clean [OF Cons.prems(2)]
      world_accList [OF Cons.prems(3)] by (simp add: state_ok_def)
  have "good es u'" if u': "revertEntry e s' = Inr u'" for u'
  proof -
    have "arevert (env_of s) e (world_of s) = Inr (world_of u')"
      using revertEntry_sim [of e s'] u' Cons.prems(3,4) by simp
    then obtain u where u: "revertEntry e s = Inr u" "world_of u = world_of u'"
      by (rule revertEntry_Inr)
    have "env_of u' = env_of u"
      using revertEntry_frame [OF u'] revertEntry_frame [OF u(1)] Cons.prems(4)
      by (simp add: same_frame_def)
    with Cons.IH [of u u'] u revertEntry_mono [OF Cons.prems(2,4) u(1) u'] Cons.prems(1)
    show ?thesis by simp
  qed
  with ok Cons.prems(1) ext_live [OF Cons.prems(2)] show ?case by simp
qed

lemma evolves_good:
  assumes "evolves s t" and "sane s" and "good (rev (entries (jrnl s))) s"
  shows "good (rev (entries (jrnl t))) t"
  using assms
proof (induction rule: evolves.induct)
  case (evolves_cache s t u)
  then have "good (rev (entries (jrnl t))) t" by simp
  then show ?case using evolves_cache(2)
    by (auto simp: cache_step_def same_frame_def intro: good_mono)
next
  case (evolves_journal s t e u)
  then have g: "good (rev (entries (jrnl t))) t" and "sane t" by (simp_all add: evolves_sane)
  with evolves_journal(2) obtain v where v: "revertEntry e u = Inr v" "same_frame t v"
      "world_of v = world_of t" "ext t v" and "sane u" "jrnl u = jrnl (j_append t e)"
    and lv: "\<And>a. Dirtied e = Some a \<Longrightarrow> live u a" "\<And>a. live t a \<Longrightarrow> live u a"
    by (auto simp: journal_step_def)
  moreover have "good (rev (entries (jrnl t))) v"
    using good_mono [OF g v(4,3)] v(2) by (simp add: same_frame_def)
  moreover have "live u a" if "a \<in> dirtied (e # rev (entries (jrnl t)))" for a
    using that lv good_live [OF g, of a] by (auto simp: dirtied_def)
  ultimately show ?case by (simp add: sane_def state_ok_def)
qed

text \<open>The dirty counters count the entries of each address.\<close>

definition dirt_count :: "(address, int) fmap \<Rightarrow> JournalEntry list \<Rightarrow> bool" where
  "dirt_count d es \<longleftrightarrow>
     (\<forall>a. fmlookup d a =
        (let n = length (filter (\<lambda>e. Dirtied e = Some a) es) in if n = 0 then None else Some (int n)))"

lemma dirt_countD:
  "dirt_count d es \<Longrightarrow>
    fmlookup d a =
      (let n = length (filter (\<lambda>e. Dirtied e = Some a) es) in if n = 0 then None else Some (int n))"
  by (simp add: dirt_count_def)

lemma dirt_count_append: "dirt_count d es \<Longrightarrow> dirt_count (dirties_inc (Dirtied e) d) (es @ [e])"
  unfolding dirt_count_def
  by (cases "Dirtied e") (auto simp: dirties_inc_def Let_def split: option.split)

lemma dirt_count_revert: "dirt_count d (es @ [e]) \<Longrightarrow> dirt_count (dirties_dec (Dirtied e) d) es"
  unfolding dirt_count_def
  by (cases "Dirtied e") (auto simp: dirties_dec_def Let_def filter_empty_conv split: option.split)

lemma dirt_count_dom: "dirt_count d es \<Longrightarrow> fset (fmdom d) = dirtied es"
  by (rule set_eqI)
    (auto simp: fmlookup_dom_iff dirtied_def filter_empty_conv Let_def dirt_countD split: if_splits)

lemma world_of_jrnl [simp]: "world_of (s\<lparr>jrnl := j\<rparr>) = world_of s"
  by (rule world_of_cong) simp_all

definition revisions_ok :: "'k StateDB \<Rightarrow> bool" where
  "revisions_ok s \<longleftrightarrow>
     sorted_wrt (\<lambda>r r'. revId r < revId r' \<and> journalIndex r \<le> journalIndex r') (validRevisions s) \<and>
     (\<forall>r\<in>set (validRevisions s).
        revId r < nextRevisionID s \<and> journalIndex r \<le> length (entries (jrnl s)))"

definition db_inv :: "'k StateDB \<Rightarrow> bool" where
  "db_inv s \<longleftrightarrow>
     cache_ok s \<and> good (rev (entries (jrnl s))) s \<and>
     dirt_count (dirties (jrnl s)) (entries (jrnl s)) \<and> revisions_ok s"

lemma db_inv_sane: "db_inv s \<Longrightarrow> sane s"
  using good_state_ok by (auto simp: db_inv_def sane_def state_ok_def)

lemma db_inv_New: "db_inv (New cx kp keccak cfg)"
  by (simp add: db_inv_def New_def newJournal_def cache_ok_def state_ok_def clean_def
      al_inv_newAccessList dirt_count_def revisions_ok_def)

lemma evolves_entries:
  assumes "evolves s t"
  shows "\<exists>es. entries (jrnl t) = entries (jrnl s) @ es"
  using assms by (induction rule: evolves.induct) (auto simp: cache_step_def journal_step_def)

lemma evolves_dirt_count:
  assumes "evolves s t" and "dirt_count (dirties (jrnl s)) (entries (jrnl s))"
  shows "dirt_count (dirties (jrnl t)) (entries (jrnl t))"
  using assms
  by (induction rule: evolves.induct) (auto simp: cache_step_def journal_step_def dirt_count_append)

lemma evolves_db_inv:
  assumes ev: "evolves s t" and inv: "db_inv s"
  shows "db_inv t"
proof -
  note sane = db_inv_sane [OF inv]
  have "cache_ok t" using evolves_sane [OF ev sane] by (simp add: sane_def)
  moreover have "revisions_ok t"
    using evolves_frame [OF ev] evolves_entries [OF ev] inv
    by (auto simp: db_inv_def revisions_ok_def same_frame_def)
  ultimately show ?thesis
    using inv evolves_good [OF ev sane] evolves_dirt_count [OF ev] by (simp add: db_inv_def)
qed

section \<open>RevertToSnapshot\<close>

text \<open>The world that the entries after index \<open>n\<close> lead back to.\<close>

definition undone :: "nat \<Rightarrow> 'k StateDB \<Rightarrow> accessList world \<Rightarrow> bool" where
  "undone n s w \<longleftrightarrow>
     n \<le> length (entries (jrnl s)) \<and>
     foldM (arevert (env_of s)) (rev (drop n (entries (jrnl s)))) (world_of s) = Inr w"

lemma undone_now: "undone (length (entries (jrnl s))) s (world_of s)"
  by (simp add: undone_def)

lemma evolves_undone:
  assumes "evolves s t" and "sane s" and "undone n s w"
  shows "undone n t w"
  using assms
proof (induction rule: evolves.induct)
  case (evolves_cache s t u)
  then show ?case by (simp add: cache_step_def same_frame_def undone_def)
next
  case (evolves_journal s t e u)
  then have "undone n t w" and "sane t" by (simp_all add: evolves_sane)
  with evolves_journal(2) obtain v where v: "revertEntry e u = Inr v" "world_of v = world_of t"
      and u: "jrnl u = jrnl (j_append t e)" "env_of u = env_of t"
    by (auto simp: journal_step_def same_frame_def)
  have "arevert (env_of u) e (world_of u) = Inr (world_of t)"
    using revertEntry_sim [of e u] v by simp
  with \<open>undone n t w\<close> u show ?case by (simp add: undone_def)
qed

text \<open>The loop of \<open>journal.Revert\<close>.\<close>

lemma revertSteps:
  assumes "good (L @ M) s" and "objs_ok s" and "dirt_count (dirties (jrnl s)) (rev M @ rev L)"
    and "\<And>p. resetObjectChange p \<in> set L \<Longrightarrow> obj_ok (env_of s) (objAddress p) p"
    and "foldM (arevert (env_of s)) L (world_of s) = Inr w"
  shows "\<exists>u. foldM revertStep L s = Inr u \<and> world_of u = w \<and> same_frame s u \<and> good M u \<and> objs_ok u \<and>
    entries (jrnl u) = entries (jrnl s) \<and> dirt_count (dirties (jrnl u)) (rev M)"
  using assms
proof (induction L arbitrary: s)
  case Nil
  then show ?case by simp
next
  case (Cons e L)
  obtain w' where w': "arevert (env_of s) e (world_of s) = Inr w'"
    "foldM (arevert (env_of s)) L w' = Inr w"
    using Cons.prems(5) by (auto simp: result_simps)
  obtain u where u: "revertEntry e s = Inr u" "world_of u = w'" using revertEntry_Inr [OF w'(1)] .
  note fr = revertEntry_frame [OF u(1)]
  let ?v = "u\<lparr>jrnl := (jrnl u)\<lparr>dirties := dirties_dec (Dirtied e) (dirties (jrnl u))\<rparr>\<rparr>"
  have step: "revertStep e s = Inr ?v" using u(1) by (simp add: revertStep_def)
  have wv: "world_of ?v = w'" using u(2) by simp
  have env: "env_of ?v = env_of s" using fr by (simp add: same_frame_def)
  have "good (L @ M) u" using Cons.prems(1) u(1) by simp
  then have "good (L @ M) ?v" by (rule good_mono) (simp_all add: ext_cong [OF ext_refl] wv u(2))
  moreover have "objs_ok ?v"
    using revertEntry_objs_ok [OF Cons.prems(2) u(1)] Cons.prems(4) by (simp add: objs_ok_def)
  moreover have "dirt_count (dirties (jrnl ?v)) (rev M @ rev L)"
    using dirt_count_revert [of "dirties (jrnl u)" "rev M @ rev L" e] Cons.prems(3) fr by simp
  ultimately obtain x where "foldM revertStep L ?v = Inr x" "world_of x = w" "same_frame ?v x"
    "good M x" "objs_ok x" "entries (jrnl x) = entries (jrnl ?v)" "dirt_count (dirties (jrnl x)) (rev M)"
    using Cons.IH [of ?v] Cons.prems(4) w'(2) unfolding env wv by auto
  then show ?case using step fr by (auto simp: same_frame_def)
qed

lemma j_Revert_correct:
  assumes inv: "db_inv s" and un: "undone n s w"
  shows "\<exists>u. j_Revert s n = Inr u \<and> world_of u = w \<and> same_frame s u \<and> cache_ok u \<and>
    good (rev (entries (jrnl u))) u \<and> entries (jrnl u) = take n (entries (jrnl s)) \<and>
    dirt_count (dirties (jrnl u)) (entries (jrnl u))"
proof -
  let ?es = "entries (jrnl s)"
  have n: "n \<le> length ?es" using un by (simp add: undone_def)
  have split: "rev (drop n ?es) @ rev (take n ?es) = rev ?es" by (simp flip: rev_append)
  have "good (rev (drop n ?es) @ rev (take n ?es)) s" using inv by (simp add: split db_inv_def)
  moreover have "objs_ok s" using inv by (simp add: db_inv_def cache_ok_def objs_ok_def)
  moreover have "obj_ok (env_of s) (objAddress p) p" if "resetObjectChange p \<in> set (rev (drop n ?es))" for p
    using inv that by (auto simp: db_inv_def cache_ok_def dest: in_set_dropD)
  moreover have "dirt_count (dirties (jrnl s)) (rev (rev (take n ?es)) @ rev (rev (drop n ?es)))"
    using inv by (simp add: db_inv_def)
  ultimately obtain u where u: "foldM revertStep (rev (drop n ?es)) s = Inr u" "world_of u = w"
    "same_frame s u" "good (rev (take n ?es)) u" "objs_ok u" "entries (jrnl u) = ?es"
    "dirt_count (dirties (jrnl u)) (take n ?es)"
    using revertSteps [of "rev (drop n ?es)" "rev (take n ?es)" s w] un unfolding undone_def by auto
  let ?v = "u\<lparr>jrnl := (jrnl u)\<lparr>entries := take n ?es\<rparr>\<rparr>"
  have "j_Revert s n = Inr ?v" using n u by (simp add: j_Revert_def)
  moreover have wv: "world_of ?v = w" using u(2) by simp
  moreover have "same_frame s ?v" using u(3) by (simp add: same_frame_def)
  moreover have "cache_ok ?v"
    using u(3,5) inv
    by (auto simp: cache_ok_def objs_ok_def db_inv_def same_frame_def dest: in_set_takeD)
  moreover have "good (rev (take n ?es)) ?v"
    by (rule good_mono [OF u(4)]) (simp_all add: ext_cong [OF ext_refl] wv u(2))
  ultimately show ?thesis using u(7) by auto
qed

end
