(* ===== verification/State_DB_Sim.thy ===== *)
theory State_DB_Sim
  imports State_DB_Undo
begin

text \<open>
  The contract of the \<open>StateDB\<close>: a snapshot is a copy of the whole world, reverting puts the copy
  back, and the access list is a pair of sets.  Every sequence of calls of the interface
  \<^verbatim>\<open>vm.StateDB\<close> gives the results and the panics of the contract.
\<close>

section \<open>Getters\<close>

definition empty_acct :: "'k env \<Rightarrow> acct \<Rightarrow> bool" where
  "empty_acct E x \<longleftrightarrow> aNonce x = 0 \<and> aBalance x = 0 \<and> aCodeHash x = eEmptyHash E"

definition seen :: "'r \<Rightarrow> (acct \<Rightarrow> 'r) \<Rightarrow> 'al world \<Rightarrow> address \<Rightarrow> 'r" where
  "seen d f w a = (case wAcct w a of None \<Rightarrow> d | Some x \<Rightarrow> f x)"

definition reads :: "'k StateDB \<Rightarrow> 'k StateDB \<times> 'r \<Rightarrow> 'r \<Rightarrow> bool" where
  "reads s p v \<longleftrightarrow> evolves s (fst p) \<and> world_of (fst p) = world_of s \<and> snd p = v"

lemma readsI: "cache_step s (fst p) \<Longrightarrow> snd p = v \<Longrightarrow> reads s p v"
  using cache_step_facts [of s "fst p"] by (simp add: reads_def)

lemma cache_step_trans: "cache_step s t \<Longrightarrow> evolves t u \<Longrightarrow> world_of u = world_of t \<Longrightarrow>
    evolves s u \<and> world_of u = world_of s"
  using cache_step_facts(2,3) [of s t] evolves_trans by metis

text \<open>All getters look the object up and read it.\<close>

lemma getter_reads:
  assumes sane: "sane s"
    and some: "\<And>t so. getStateObject s a = (t, Some so) \<Longrightarrow> sane t \<Longrightarrow> env_of t = env_of s \<Longrightarrow>
      fmlookup (stateObjects t) a = Some so \<Longrightarrow> reads t (f t so) (g (acct_of (env_of s) a so))"
  shows "reads s (case getStateObject s a of (t, None) \<Rightarrow> (t, d) | (t, Some so) \<Rightarrow> f t so)
    (seen d g (world_of s) a)"
proof -
  obtain t r where get: "getStateObject s a = (t, r)" by fastforce
  note step = cache_step_facts [OF getStateObject_cache_step [OF get]]
  show ?thesis
  proof (cases r)
    case None
    then show ?thesis using get getStateObject_None [OF get [unfolded None]]
      by (simp add: reads_def seen_def evolves_refl)
  next
    case (Some so)
    note so = getStateObject_Some [OF get [unfolded Some]]
    have "reads t (f t so) (g (acct_of (env_of s) a so))"
      using some [OF get [unfolded Some] step(5) [OF sane] step(1) so(1)] .
    then show ?thesis using get Some so(3) cache_step_trans [OF so(2)]
      by (auto simp: reads_def seen_def)
  qed
qed

lemma reads_refl: "snd p = v \<Longrightarrow> fst p = t \<Longrightarrow> reads t p v"
  by (simp add: reads_def evolves_refl)

lemma Exist_reads: "reads s (Exist s a) (seen False (\<lambda>x. True) (world_of s) a)"
proof -
  obtain t r where get: "getStateObject s a = (t, r)" by fastforce
  have "wAcct (world_of s) a = map_option (acct_of (env_of s) a) r"
    using getStateObject_result(2) [OF get] by simp
  then show ?thesis using get getStateObject_cache_step [OF get]
    by (intro readsI) (simp_all add: Exist_def seen_def split: option.split)
qed

lemma Empty_reads: "sane s \<Longrightarrow> reads s (Empty s a) (seen True (empty_acct (env_of s)) (world_of s) a)"
  unfolding Empty_def
  by (rule getter_reads) (simp_all add: reads_def evolves_refl so_empty_def empty_acct_def)

lemma GetBalance_reads: "sane s \<Longrightarrow> reads s (GetBalance s a) (seen 0 aBalance (world_of s) a)"
  unfolding GetBalance_def by (rule getter_reads) (simp_all add: reads_refl)

lemma GetNonce_reads: "sane s \<Longrightarrow> reads s (GetNonce s a) (seen 0 aNonce (world_of s) a)"
  unfolding GetNonce_def by (rule getter_reads) (simp_all add: reads_refl)

lemma GetCodeHash_reads: "sane s \<Longrightarrow> reads s (GetCodeHash s a) (seen 0 aCodeHash (world_of s) a)"
  unfolding GetCodeHash_def by (rule getter_reads) (simp_all add: reads_refl)

lemma HasSuicided_reads: "sane s \<Longrightarrow> reads s (HasSuicided s a) (seen False aSuicided (world_of s) a)"
  unfolding HasSuicided_def by (rule getter_reads) (simp_all add: reads_refl)

lemma sane_objAddress: "sane s \<Longrightarrow> fmlookup (stateObjects s) a = Some so \<Longrightarrow> objAddress so = a"
  using sane_obj_ok [of s a so] by (simp add: obj_ok_def)

lemma so_Code_reads:
  assumes "sane t" and "fmlookup (stateObjects t) a = Some so"
  shows "reads t (so_Code t so) (aCode (acct_of (env_of t) a so))"
  using so_Code_cache_step(1,2) [OF assms(2) sane_objAddress [OF assms] prod.collapse [symmetric]]
  by (rule readsI)

lemma GetCode_reads: "sane s \<Longrightarrow> reads s (GetCode s a) (seen None aCode (world_of s) a)"
  unfolding GetCode_def
proof (rule getter_reads)
  fix t so assume "sane t" "fmlookup (stateObjects t) a = Some so" "env_of t = env_of s"
  then show "reads t (so_Code t so) (aCode (acct_of (env_of s) a so))"
    using so_Code_reads [of t a so] by simp
qed

lemma GetCodeSize_reads:
  "sane s \<Longrightarrow> reads s (GetCodeSize s a) (seen 0 (\<lambda>x. len_bytes (aCode x)) (world_of s) a)"
  unfolding GetCodeSize_def
proof (rule getter_reads)
  fix t so assume "sane t" "fmlookup (stateObjects t) a = Some so" "env_of t = env_of s"
  then show "reads t (so_CodeSize t so) (len_bytes (aCode (acct_of (env_of s) a so)))"
    using so_Code_reads [of t a so] by (cases "so_Code t so") (simp add: so_CodeSize_def reads_def)
qed

lemma so_GetState_reads:
  assumes "sane t" and "fmlookup (stateObjects t) a = Some so"
  shows "reads t (so_GetState t so k) (aStorage (acct_of (env_of t) a so) k)"
  using so_GetState_cache_step(1,2) [OF assms(2) sane_obj_ok [OF assms] prod.collapse [symmetric]]
  by (rule readsI)

lemma GetState_reads: "sane s \<Longrightarrow> reads s (GetState s a k) (seen 0 (\<lambda>x. aStorage x k) (world_of s) a)"
  unfolding GetState_def
proof (rule getter_reads)
  fix t so assume "sane t" "fmlookup (stateObjects t) a = Some so" "env_of t = env_of s"
  then show "reads t (so_GetState t so k) (aStorage (acct_of (env_of s) a so) k)"
    using so_GetState_reads [of t a so k] by simp
qed

lemma GetCommittedState_reads:
  "sane s \<Longrightarrow>
    reads s (GetCommittedState s a k) (seen 0 (\<lambda>x. committed (env_of s) a k) (world_of s) a)"
  unfolding GetCommittedState_def
proof (rule getter_reads)
  fix t so assume a: "sane t" "fmlookup (stateObjects t) a = Some so" "env_of t = env_of s"
  then show "reads t (so_GetCommittedState t so k) (committed (env_of s) a k)"
    using so_GetCommittedState_cache_step(1,2)
      [OF a(2) sane_obj_ok [OF a(1,2)] prod.collapse [symmetric]]
    by (intro readsI) simp_all
qed

section \<open>The access list as two sets\<close>

type_synonym access = "address set \<times> (address \<times> hash) set"

definition abs_world :: "accessList world \<Rightarrow> access world" where
  "abs_world w =
     \<lparr>wAcct = wAcct w, wRefund = wRefund w, wLogs = wLogs w,
      wAccess = (al_addrs (wAccess w), al_slots (wAccess w))\<rparr>"

definition allow :: "address set \<Rightarrow> (address \<times> hash) set \<Rightarrow> access world \<Rightarrow> access world" where
  "allow A K w = w\<lparr>wAccess := (A \<union> fst (wAccess w), K \<union> snd (wAccess w))\<rparr>"

lemma allow_allow [simp]: "allow A K (allow B L w) = allow (A \<union> B) (K \<union> L) w"
  by (simp add: allow_def Un_assoc)

lemma abs_world_access:
  "abs_world (w\<lparr>wAccess := al\<rparr>) = (abs_world w)\<lparr>wAccess := (al_addrs al, al_slots al)\<rparr>"
  by (simp add: abs_world_def)

lemma wAccess_abs_world [simp]:
  "wAccess (abs_world (world_of s)) = (al_addrs (accList s), al_slots (accList s))"
  by (simp add: abs_world_def)

lemma AddAddressToAccessList_allows:
  assumes "sane s"
  shows "abs_world (world_of (AddAddressToAccessList s a)) = allow {a} {} (abs_world (world_of s))"
  using AddAddressToAccessList_refines(2) [OF assms, of a]
    AddAddress_refines(2,3) [OF sane_al_inv [OF assms] prod.collapse [symmetric], of a]
  by (simp add: abs_world_access allow_def)

lemma AddSlotToAccessList_allows:
  assumes "sane s"
  shows "\<exists>t. AddSlotToAccessList s a k = Inr t \<and> evolves s t \<and>
    abs_world (world_of t) = allow {a} {(a, k)} (abs_world (world_of s))"
proof -
  obtain t al where t: "AddSlotToAccessList s a k = Inr t" "evolves s t"
    "AddSlot (accList s) a k = Inr (al, a \<notin> al_addrs (accList s), (a, k) \<notin> al_slots (accList s))"
    "world_of t = (world_of s)\<lparr>wAccess := al\<rparr>"
    using AddSlotToAccessList_refines [OF assms, of a k] by blast
  with AddSlot_refines(1,2) [OF sane_al_inv [OF assms] t(3)] show ?thesis
    by (simp add: abs_world_access allow_def)
qed

lemma AddAddresses_allow:
  assumes "sane s"
  shows "evolves s (fold (\<lambda>a s. AddAddressToAccessList s a) xs s) \<and>
    abs_world (world_of (fold (\<lambda>a s. AddAddressToAccessList s a) xs s)) =
      allow (set xs) {} (abs_world (world_of s))"
  using assms
proof (induction xs arbitrary: s)
  case Nil
  then show ?case by (simp add: evolves_refl allow_def)
next
  case (Cons x xs)
  note add = AddAddressToAccessList_refines(1) [OF Cons.prems, of x]
  from Cons.IH [OF evolves_sane [OF add Cons.prems]] evolves_trans [OF _ add]
  show ?case by (simp add: AddAddressToAccessList_allows [OF Cons.prems] Un_commute)
qed

lemma AddSlots_allow:
  assumes "sane s"
  shows "\<exists>t. foldM (\<lambda>k s. AddSlotToAccessList s a k) ks s = Inr t \<and> evolves s t \<and>
    abs_world (world_of t) =
      allow (if ks = [] then {} else {a}) ({a} \<times> set ks) (abs_world (world_of s))"
  using assms
proof (induction ks arbitrary: s)
  case Nil
  then show ?case by (simp add: evolves_refl allow_def)
next
  case (Cons k ks)
  obtain u where u: "AddSlotToAccessList s a k = Inr u" "evolves s u"
    "abs_world (world_of u) = allow {a} {(a, k)} (abs_world (world_of s))"
    using AddSlotToAccessList_allows [OF Cons.prems] by blast
  obtain t where t: "foldM (\<lambda>k s. AddSlotToAccessList s a k) ks u = Inr t" "evolves u t"
    "abs_world (world_of t) =
      allow (if ks = [] then {} else {a}) ({a} \<times> set ks) (abs_world (world_of u))"
    using Cons.IH [OF evolves_sane [OF u(2) Cons.prems]] by blast
  have "{a} \<times> set ks \<union> {(a, k)} = {a} \<times> set (k # ks)" by auto
  with u t evolves_trans [OF t(2) u(2)] show ?case by (simp add: Un_commute)
qed

lemma PrepareTuples_allow:
  assumes "sane s"
  shows "\<exists>t. foldM (\<lambda>(a, keys) s.
        foldM (\<lambda>key s. AddSlotToAccessList s a key) keys (AddAddressToAccessList s a)) al s = Inr t \<and>
    evolves s t \<and>
    abs_world (world_of t) =
      allow (fst ` set al) {(a, k). \<exists>ks. (a, ks) \<in> set al \<and> k \<in> set ks} (abs_world (world_of s))"
  using assms
proof (induction al arbitrary: s)
  case Nil
  then show ?case by (simp add: evolves_refl allow_def)
next
  case (Cons p al)
  obtain a ks where p: "p = (a, ks)" by fastforce
  let ?s = "AddAddressToAccessList s a"
  note add = AddAddressToAccessList_refines(1) [OF Cons.prems, of a]
  note s = evolves_sane [OF add Cons.prems]
  obtain u where u: "foldM (\<lambda>k s. AddSlotToAccessList s a k) ks ?s = Inr u" "evolves ?s u"
    "abs_world (world_of u) =
      allow (if ks = [] then {} else {a}) ({a} \<times> set ks) (abs_world (world_of ?s))"
    using AddSlots_allow [OF s] by blast
  obtain t where t: "foldM (\<lambda>(a, keys) s.
        foldM (\<lambda>key s. AddSlotToAccessList s a key) keys (AddAddressToAccessList s a)) al u = Inr t"
    "evolves u t" "abs_world (world_of t) =
      allow (fst ` set al) {(a, k). \<exists>ks. (a, ks) \<in> set al \<and> k \<in> set ks} (abs_world (world_of u))"
    using Cons.IH [OF evolves_sane [OF u(2) s]] by blast
  let ?K = "\<lambda>al. {(a, k). \<exists>ks. (a, ks) \<in> set al \<and> k \<in> set ks} :: (address \<times> hash) set"
  have "evolves s t" using evolves_trans [OF t(2) evolves_trans [OF u(2) add]] .
  moreover have "?K al \<union> {a} \<times> set ks = ?K (p # al)" by (auto simp: p)
  moreover have "fst ` set al \<union> ((if ks = [] then {} else {a}) \<union> {a}) = fst ` set (p # al)"
    by (auto simp: p)
  ultimately show ?case
    using t(1,3) u(1,3) AddAddressToAccessList_allows [OF Cons.prems, of a] by (simp add: p)
qed

definition prepared_addrs :: "address \<Rightarrow> address option \<Rightarrow> address list \<Rightarrow> (address \<times> hash list) list \<Rightarrow> address set" where
  "prepared_addrs sender dst precompiles al =
     insert sender (set_option dst \<union> set precompiles \<union> fst ` set al)"

definition prepared_slots :: "(address \<times> hash list) list \<Rightarrow> (address \<times> hash) set" where
  "prepared_slots al = {(a, k). \<exists>ks. (a, ks) \<in> set al \<and> k \<in> set ks}"

lemma PrepareAccessList_allows:
  assumes "sane s"
  shows "\<exists>t. PrepareAccessList s sender dst pre al = Inr t \<and> evolves s t \<and>
    abs_world (world_of t) =
      allow (prepared_addrs sender dst pre al) (prepared_slots al) (abs_world (world_of s))"
proof -
  let ?xs = "sender # (case dst of None \<Rightarrow> [] | Some d \<Rightarrow> [d]) @ pre"
  let ?u = "fold (\<lambda>a s. AddAddressToAccessList s a) ?xs s"
  have eq: "PrepareAccessList s sender dst pre al = foldM (\<lambda>(a, keys) s.
        foldM (\<lambda>key s. AddSlotToAccessList s a key) keys (AddAddressToAccessList s a)) al ?u"
    by (simp add: PrepareAccessList_def Let_def split: option.split)
  note u = AddAddresses_allow [OF assms, of ?xs]
  obtain t where t: "foldM (\<lambda>(a, keys) s.
        foldM (\<lambda>key s. AddSlotToAccessList s a key) keys (AddAddressToAccessList s a)) al ?u = Inr t"
    "evolves ?u t" "abs_world (world_of t) =
      allow (fst ` set al) {(a, k). \<exists>ks. (a, ks) \<in> set al \<and> k \<in> set ks} (abs_world (world_of ?u))"
    using PrepareTuples_allow [of ?u] evolves_sane [OF conjunct1 [OF u] assms] by blast
  have "fst ` set al \<union> set ?xs = prepared_addrs sender dst pre al"
    by (auto simp: prepared_addrs_def split: option.splits)
  then show ?thesis
    using t u evolves_trans [OF t(2) conjunct1 [OF u]] by (simp add: eq prepared_slots_def)
qed

section \<open>Snapshots\<close>

lemma world_of_revisions [simp]:
  "world_of (s\<lparr>validRevisions := vr\<rparr>) = world_of s" "world_of (s\<lparr>nextRevisionID := n\<rparr>) = world_of s"
  by (rule world_of_cong; simp)+

lemma revision_unique:
  assumes "revisions_ok s" and "i < length (validRevisions s)" "j < length (validRevisions s)"
    and "revId (validRevisions s ! i) = revId (validRevisions s ! j)"
  shows "i = j"
proof (rule ccontr)
  assume "i \<noteq> j"
  then consider "i < j" | "j < i" by linarith
  then show False
    by cases (use assms sorted_wrt_nth_less in \<open>fastforce simp: revisions_ok_def\<close>)+
qed

lemma search_revision:
  fixes rid :: int
  assumes "revisions_ok s"
  defines "vr \<equiv> validRevisions s"
  defines "idx \<equiv> sort_Search (length vr) (\<lambda>i. revId (vr ! i) \<ge> rid)"
  shows "i < length vr \<Longrightarrow> revId (vr ! i) = rid \<Longrightarrow> idx = i"
    and "rid \<notin> revId ` set vr \<Longrightarrow> idx = length vr \<or> revId (vr ! idx) \<noteq> rid"
proof -
  have mono: "revId (vr ! x) \<le> revId (vr ! y)" if "x \<le> y" "y < length vr" for x y
    using assms(1) that sorted_wrt_nth_less [of _ vr x y]
    by (cases "x = y") (fastforce simp: revisions_ok_def vr_def)+
  have "\<forall>x y. x \<le> y \<and> y < length vr \<and> revId (vr ! x) \<ge> rid \<longrightarrow> revId (vr ! y) \<ge> rid"
    using mono order_trans by blast
  note least = sort_Search_least [OF this, folded idx_def]
  show "idx = i" if i: "i < length vr" "revId (vr ! i) = rid"
  proof -
    have "idx \<le> i" using least(2) [of i] i by (meson leI order_refl)
    moreover have "rid \<le> revId (vr ! idx)" using least(3) [of idx] \<open>idx \<le> i\<close> i by simp
    then have "revId (vr ! idx) = rid" using mono [of idx i] \<open>idx \<le> i\<close> i by simp
    ultimately show ?thesis using revision_unique [OF assms(1)] i by (simp add: vr_def)
  qed
  show "idx = length vr \<or> revId (vr ! idx) \<noteq> rid" if "rid \<notin> revId ` set vr"
    using that least(1) by (cases "idx = length vr") auto
qed

lemma undone_take:
  assumes "undone n s w" and "undone m s v" and "m \<le> n"
    and "entries (jrnl u) = take n (entries (jrnl s))" "world_of u = w" "env_of u = env_of s"
  shows "undone m u v"
proof -
  let ?es = "entries (jrnl s)"
  have "drop m ?es = drop m (take n ?es) @ drop n ?es"
    using assms(1,3) append_take_drop_id [of n ?es, symmetric] drop_append [of m "take n ?es" "drop n ?es"]
    by (simp add: undone_def min_def)
  with assms show ?thesis by (simp add: undone_def foldM_append)
qed

lemma RevertToSnapshot_correct:
  assumes inv: "db_inv s" and i: "i < length (validRevisions s)" "revId (validRevisions s ! i) = rid"
    and un: "undone (journalIndex (validRevisions s ! i)) s w"
  shows "\<exists>u. RevertToSnapshot s rid = Inr u \<and> world_of u = w \<and> db_inv u \<and> env_of u = env_of s \<and>
    validRevisions u = take i (validRevisions s) \<and> nextRevisionID u = nextRevisionID s \<and>
    (\<forall>m v. m \<le> journalIndex (validRevisions s ! i) \<and> undone m s v \<longrightarrow> undone m u v) \<and>
    (\<forall>j<i. journalIndex (validRevisions s ! j) \<le> journalIndex (validRevisions s ! i))"
proof -
  let ?vr = "validRevisions s" and ?n = "journalIndex (validRevisions s ! i)"
  have rok: "revisions_ok s" using inv by (simp add: db_inv_def)
  obtain u where u: "j_Revert s ?n = Inr u" "world_of u = w" "same_frame s u" "cache_ok u"
    "good (rev (entries (jrnl u))) u" "entries (jrnl u) = take ?n (entries (jrnl s))"
    "dirt_count (dirties (jrnl u)) (entries (jrnl u))"
    using j_Revert_correct [OF inv un] by blast
  let ?v = "u\<lparr>validRevisions := take i (validRevisions u)\<rparr>"
  have vr: "validRevisions u = ?vr" "env_of u = env_of s" using u(3) by (simp_all add: same_frame_def)
  have run: "RevertToSnapshot s rid = Inr ?v"
    using search_revision(1) [OF rok i] i u(1) by (simp add: RevertToSnapshot_def Let_def vr)
  have wv: "world_of ?v = w" using u(2) by simp
  have idx: "journalIndex (?vr ! j) \<le> ?n" if "j < i" for j
    using that i rok sorted_wrt_nth_less [of _ ?vr j i] by (fastforce simp: revisions_ok_def)
  have "revisions_ok ?v"
  proof -
    have "journalIndex r \<le> length (entries (jrnl u)) \<and> revId r < nextRevisionID u"
      if r: "r \<in> set (take i ?vr)" for r
    proof -
      obtain j where j: "j < i" "r = ?vr ! j" using r by (auto simp: in_set_conv_nth)
      have "r \<in> set ?vr" using j i by simp
      then show ?thesis using idx [OF j(1)] rok u(3,6) j(2)
        by (simp add: revisions_ok_def same_frame_def)
    qed
    then show ?thesis using rok by (auto simp: revisions_ok_def vr sorted_wrt_take)
  qed
  moreover have "cache_ok ?v" using u(4) by (simp add: cache_ok_def)
  moreover have "good (rev (entries (jrnl ?v))) ?v"
    by (rule good_mono [of _ u]) (simp_all add: u(5) ext_cong [OF ext_refl] wv u(2))
  ultimately have "db_inv ?v" using u(7) by (simp add: db_inv_def)
  moreover have "undone m ?v v" if "m \<le> ?n" "undone m s v" for m v
    by (rule undone_take [OF un that(2,1)]) (simp_all add: u(2,6) vr)
  ultimately show ?thesis using run wv vr u(3) idx by (auto simp: same_frame_def)
qed

lemma RevertToSnapshot_invalid:
  assumes "db_inv s" and "rid \<notin> revId ` set (validRevisions s)"
  shows "RevertToSnapshot s rid = Inl (Panic ''revision id cannot be reverted'')"
  using search_revision(2) [of s rid] assms
  by (auto simp: RevertToSnapshot_def Let_def db_inv_def)

section \<open>The contract\<close>

text \<open>The calls of the interface, with the values they return.\<close>

datatype call =
    CCreateAccount address
  | CSubBalance address int
  | CAddBalance address int
  | CGetBalance address
  | CGetNonce address
  | CSetNonce address u64
  | CGetCodeHash address
  | CGetCode address
  | CSetCode address "bytes option"
  | CGetCodeSize address
  | CAddRefund u64
  | CSubRefund u64
  | CGetRefund
  | CGetCommittedState address hash
  | CGetState address hash
  | CSetState address hash hash
  | CSuicide address
  | CHasSuicided address
  | CExist address
  | CEmpty address
  | CPrepareAccessList address "address option" "address list" "(address \<times> hash list) list"
  | CAddressInAccessList address
  | CSlotInAccessList address hash
  | CAddAddressToAccessList address
  | CAddSlotToAccessList address hash
  | CRevertToSnapshot int
  | CSnapshot
  | CAddLog Log

datatype reply =
    RUnit | RBool bool | RBools bool bool | RInt int | RU64 u64 | RLen nat | RHash hash
  | RBytes "bytes option"

definition finished :: "'s \<Rightarrow> panic + ('s \<times> reply)" where
  "finished s = Inr (s, RUnit)"

definition answer :: "('r \<Rightarrow> reply) \<Rightarrow> 's \<times> 'r \<Rightarrow> panic + ('s \<times> reply)" where
  "answer f p = Inr (fst p, f (snd p))"

definition attempt :: "panic + 's \<Rightarrow> panic + ('s \<times> reply)" where
  "attempt r = rbind r finished"

fun exec :: "call \<Rightarrow> 'k StateDB \<Rightarrow> panic + ('k StateDB \<times> reply)" where
  "exec (CCreateAccount a) s = finished (CreateAccount s a)"
| "exec (CSubBalance a n) s = finished (SubBalance s a n)"
| "exec (CAddBalance a n) s = finished (AddBalance s a n)"
| "exec (CGetBalance a) s = answer RInt (GetBalance s a)"
| "exec (CGetNonce a) s = answer RU64 (GetNonce s a)"
| "exec (CSetNonce a n) s = finished (SetNonce s a n)"
| "exec (CGetCodeHash a) s = answer RHash (GetCodeHash s a)"
| "exec (CGetCode a) s = answer RBytes (GetCode s a)"
| "exec (CSetCode a c) s = finished (SetCode s a c)"
| "exec (CGetCodeSize a) s = answer RLen (GetCodeSize s a)"
| "exec (CAddRefund g) s = finished (AddRefund s g)"
| "exec (CSubRefund g) s = attempt (SubRefund s g)"
| "exec CGetRefund s = answer RU64 (s, GetRefund s)"
| "exec (CGetCommittedState a k) s = answer RHash (GetCommittedState s a k)"
| "exec (CGetState a k) s = answer RHash (GetState s a k)"
| "exec (CSetState a k v) s = finished (SetState s a k v)"
| "exec (CSuicide a) s = answer RBool (Suicide s a)"
| "exec (CHasSuicided a) s = answer RBool (HasSuicided s a)"
| "exec (CExist a) s = answer RBool (Exist s a)"
| "exec (CEmpty a) s = answer RBool (Empty s a)"
| "exec (CPrepareAccessList sender dst pre al) s = attempt (PrepareAccessList s sender dst pre al)"
| "exec (CAddressInAccessList a) s = answer RBool (s, AddressInAccessList s a)"
| "exec (CSlotInAccessList a k) s =
     rbind (SlotInAccessList s a k) (\<lambda>(p, q). Inr (s, RBools p q))"
| "exec (CAddAddressToAccessList a) s = finished (AddAddressToAccessList s a)"
| "exec (CAddSlotToAccessList a k) s = attempt (AddSlotToAccessList s a k)"
| "exec (CRevertToSnapshot i) s = attempt (RevertToSnapshot s i)"
| "exec CSnapshot s = answer RInt (Snapshot s)"
| "exec (CAddLog l) s = finished (AddLog s l)"

text \<open>The contract's state: the world and the copies taken so far, oldest first.\<close>

record contract =
  now :: "access world"
  copies :: "(int \<times> access world) list"
  nextCopy :: int

definition on_world :: "contract \<Rightarrow> access world \<Rightarrow> panic + (contract \<times> reply)" where
  "on_world S w = finished (S\<lparr>now := w\<rparr>)"

definition tell :: "contract \<Rightarrow> reply \<Rightarrow> panic + (contract \<times> reply)" where
  "tell S r = Inr (S, r)"

fun spec_exec :: "'k env \<Rightarrow> call \<Rightarrow> contract \<Rightarrow> panic + (contract \<times> reply)" where
  "spec_exec E (CCreateAccount a) S = on_world S (spec_CreateAccount E (now S) a)"
| "spec_exec E (CSubBalance a n) S = on_world S (spec_AddBalance E (now S) a (- n))"
| "spec_exec E (CAddBalance a n) S = on_world S (spec_AddBalance E (now S) a n)"
| "spec_exec E (CGetBalance a) S = tell S (RInt (seen 0 aBalance (now S) a))"
| "spec_exec E (CGetNonce a) S = tell S (RU64 (seen 0 aNonce (now S) a))"
| "spec_exec E (CSetNonce a n) S = on_world S (spec_SetNonce E (now S) a n)"
| "spec_exec E (CGetCodeHash a) S = tell S (RHash (seen 0 aCodeHash (now S) a))"
| "spec_exec E (CGetCode a) S = tell S (RBytes (seen None aCode (now S) a))"
| "spec_exec E (CSetCode a c) S = on_world S (spec_SetCode E (now S) a c)"
| "spec_exec E (CGetCodeSize a) S = tell S (RLen (seen 0 (\<lambda>x. len_bytes (aCode x)) (now S) a))"
| "spec_exec E (CAddRefund g) S = on_world S ((now S)\<lparr>wRefund := wRefund (now S) + g\<rparr>)"
| "spec_exec E (CSubRefund g) S =
     (if g > wRefund (now S) then Inl (Panic ''Refund counter below zero'')
      else on_world S ((now S)\<lparr>wRefund := wRefund (now S) - g\<rparr>))"
| "spec_exec E CGetRefund S = tell S (RU64 (wRefund (now S)))"
| "spec_exec E (CGetCommittedState a k) S =
     tell S (RHash (seen 0 (\<lambda>x. committed E a k) (now S) a))"
| "spec_exec E (CGetState a k) S = tell S (RHash (seen 0 (\<lambda>x. aStorage x k) (now S) a))"
| "spec_exec E (CSetState a k v) S = on_world S (spec_SetState E (now S) a k v)"
| "spec_exec E (CSuicide a) S =
     Inr (S\<lparr>now := spec_Suicide (now S) a\<rparr>, RBool (wAcct (now S) a \<noteq> None))"
| "spec_exec E (CHasSuicided a) S = tell S (RBool (seen False aSuicided (now S) a))"
| "spec_exec E (CExist a) S = tell S (RBool (seen False (\<lambda>x. True) (now S) a))"
| "spec_exec E (CEmpty a) S = tell S (RBool (seen True (empty_acct E) (now S) a))"
| "spec_exec E (CPrepareAccessList sender dst pre al) S =
     on_world S (allow (prepared_addrs sender dst pre al) (prepared_slots al) (now S))"
| "spec_exec E (CAddressInAccessList a) S = tell S (RBool (a \<in> fst (wAccess (now S))))"
| "spec_exec E (CSlotInAccessList a k) S =
     tell S (RBools (a \<in> fst (wAccess (now S))) ((a, k) \<in> snd (wAccess (now S))))"
| "spec_exec E (CAddAddressToAccessList a) S = on_world S (allow {a} {} (now S))"
| "spec_exec E (CAddSlotToAccessList a k) S = on_world S (allow {a} {(a, k)} (now S))"
| "spec_exec E (CRevertToSnapshot i) S =
     (case map_of (copies S) i of
        None \<Rightarrow> Inl (Panic ''revision id cannot be reverted'')
      | Some w \<Rightarrow> finished (S\<lparr>now := w, copies := takeWhile (\<lambda>(j, _). j \<noteq> i) (copies S)\<rparr>))"
| "spec_exec E CSnapshot S =
     Inr (S\<lparr>copies := copies S @ [(nextCopy S, now S)], nextCopy := nextCopy S + 1\<rparr>,
          RInt (nextCopy S))"
| "spec_exec E (CAddLog l) S = on_world S (spec_AddLog E (now S) l)"

text \<open>A sequence of calls with the replies collected; a panic ends it.\<close>

fun calls :: "(call \<Rightarrow> 's \<Rightarrow> panic + ('s \<times> reply)) \<Rightarrow> call list \<Rightarrow> 's \<Rightarrow> panic + ('s \<times> reply list)" where
  "calls ex [] s = Inr (s, [])"
| "calls ex (c # cs) s =
     rbind (ex c s) (\<lambda>(s, r). rbind (calls ex cs s) (\<lambda>(s, rs). Inr (s, r # rs)))"

definition new_world :: "'k env \<Rightarrow> access world" where
  "new_world E = \<lparr>wAcct = stored E, wRefund = 0, wLogs = [], wAccess = ({}, {})\<rparr>"

definition new_contract :: "'k env \<Rightarrow> contract" where
  "new_contract E = \<lparr>now = new_world E, copies = [], nextCopy = 0\<rparr>"

section \<open>The simulation\<close>

text \<open>The whole journal leads back to the accounts of the store.\<close>

definition rooted :: "'k StateDB \<Rightarrow> bool" where
  "rooted s \<longleftrightarrow> (\<exists>w. undone 0 s w \<and> wAcct w = stored (env_of s))"

definition sim :: "'k env \<Rightarrow> 'k StateDB \<Rightarrow> contract \<Rightarrow> bool" where
  "sim E s S \<longleftrightarrow>
     env_of s = E \<and> db_inv s \<and> rooted s \<and>
     abs_world (world_of s) = now S \<and> nextRevisionID s = nextCopy S \<and>
     list_all2 (\<lambda>r (i, W). revId r = i \<and> (\<exists>w. undone (journalIndex r) s w \<and> abs_world w = W))
       (validRevisions s) (copies S)"

definition agrees ::
    "'k env \<Rightarrow> panic + ('k StateDB \<times> reply) \<Rightarrow> panic + (contract \<times> reply) \<Rightarrow> bool" where
  "agrees E = rel_sum (=) (rel_prod (sim E) (=))"

lemma abs_world_sel [simp]:
  "wAcct (abs_world w) = wAcct w" "wRefund (abs_world w) = wRefund w" "wLogs (abs_world w) = wLogs w"
  by (simp_all add: abs_world_def)

lemma abs_world_update [simp]:
  "abs_world (upd_acct w a x) = upd_acct (abs_world w) a x"
  "abs_world (w\<lparr>wRefund := r\<rparr>) = (abs_world w)\<lparr>wRefund := r\<rparr>"
  "abs_world (w\<lparr>wLogs := l\<rparr>) = (abs_world w)\<lparr>wLogs := l\<rparr>"
  by (simp_all add: abs_world_def upd_acct_def)

lemma abs_world_read [simp]:
  "got_acct E (abs_world w) a = got_acct E w a" "seen d f (abs_world w) a = seen d f w a"
  by (simp_all add: got_acct_def seen_def)

lemma abs_world_spec:
  "abs_world (spec_CreateAccount E w a) = spec_CreateAccount E (abs_world w) a"
  "abs_world (spec_AddBalance E w a n) = spec_AddBalance E (abs_world w) a n"
  "abs_world (spec_SetNonce E w a m) = spec_SetNonce E (abs_world w) a m"
  "abs_world (spec_SetCode E w a c) = spec_SetCode E (abs_world w) a c"
  "abs_world (spec_SetState E w a k v) = spec_SetState E (abs_world w) a k v"
  "abs_world (spec_Suicide w a) = spec_Suicide (abs_world w) a"
  "abs_world (spec_AddLog E w l) = spec_AddLog E (abs_world w) l"
  by (simp_all add: spec_CreateAccount_def spec_AddBalance_def spec_SetNonce_def spec_SetCode_def
      spec_SetState_def spec_Suicide_def spec_AddLog_def Let_def split: option.split)

lemma sim_evolves:
  assumes sim: "sim E s S" and ev: "evolves s t" and w: "abs_world (world_of t) = w"
  shows "sim E t (S\<lparr>now := w\<rparr>)"
proof -
  have inv: "db_inv s" and env: "env_of s = E" using sim by (simp_all add: sim_def)
  note fr = evolves_frame [OF ev]
  have "list_all2 (\<lambda>r (i, W). revId r = i \<and> (\<exists>w. undone (journalIndex r) t w \<and> abs_world w = W))
      (validRevisions s) (copies S)"
    using sim evolves_undone [OF ev db_inv_sane [OF inv]]
    by (auto simp: sim_def elim!: list_all2_mono)
  moreover have "rooted t"
    using sim fr evolves_undone [OF ev db_inv_sane [OF inv]]
    by (auto simp: sim_def rooted_def same_frame_def)
  ultimately show ?thesis
    using sim fr w evolves_db_inv [OF ev inv] by (simp add: sim_def same_frame_def)
qed

lemma sim_inv:
  assumes "sim E s S"
  shows "db_inv s" "sane s" "env_of s = E" "now S = abs_world (world_of s)" "rooted s"
  using assms db_inv_sane by (auto simp: sim_def)

lemma finished_agrees:
  "sim E s S \<Longrightarrow> evolves s t \<Longrightarrow> abs_world (world_of t) = w \<Longrightarrow>
    agrees E (finished t) (on_world S w)"
  by (simp add: agrees_def finished_def on_world_def sim_evolves)

lemma answer_agrees:
  assumes "sim E s S" and "reads s p v" and "r = f v"
  shows "agrees E (answer f p) (tell S r)"
proof -
  have p: "evolves s (fst p)" "world_of (fst p) = world_of s" "snd p = v"
    using assms(2) by (simp_all add: reads_def)
  have "sim E (fst p) (S\<lparr>now := now S\<rparr>)"
    by (rule sim_evolves [OF assms(1) p(1)]) (simp add: p(2) sim_inv(4) [OF assms(1)])
  then show ?thesis using p(3) assms(3) by (simp add: agrees_def answer_def tell_def)
qed

lemma Suicide_agrees:
  assumes sim: "sim E s S"
  shows "agrees E (exec (CSuicide a) s) (spec_exec E (CSuicide a) S)"
proof -
  obtain t r where run: "Suicide s a = (t, r)" by fastforce
  note ref = Suicide_refines [OF sim_inv(2) [OF sim] run]
  have "sim E t (S\<lparr>now := spec_Suicide (now S) a\<rparr>)"
    by (rule sim_evolves [OF sim ref(1)]) (simp add: ref(2) abs_world_spec sim_inv(4) [OF sim])
  then show ?thesis
    using ref(3) by (simp add: run answer_def agrees_def sim_inv(4) [OF sim])
qed

lemma Snapshot_agrees:
  assumes sim: "sim E s S"
  shows "agrees E (exec CSnapshot s) (spec_exec E CSnapshot S)"
proof -
  obtain t i where run: "Snapshot s = (t, i)" by fastforce
  have t: "i = nextRevisionID s" "nextRevisionID t = i + 1"
      "validRevisions t = validRevisions s @ [\<lparr>revId = i, journalIndex = length (entries (jrnl s))\<rparr>]"
      "jrnl t = jrnl s" "stateObjects t = stateObjects s" "world_of t = world_of s" "env_of t = env_of s"
      "accList t = accList s"
    using run by (auto simp: Snapshot_def Let_def j_length_def)
  note inv = sim_inv(1) [OF sim]
  have un: "undone n t w \<longleftrightarrow> undone n s w" for n w by (simp add: undone_def t)
  have "db_inv t"
  proof -
    have "cache_ok t" using inv by (simp add: db_inv_def cache_ok_def t)
    moreover have "good (rev (entries (jrnl t))) t"
    proof (rule good_mono [of _ s])
      show "good (rev (entries (jrnl t))) s" using inv by (simp add: db_inv_def t)
      show "ext s t" by (rule ext_cong [OF ext_refl [of s]]) (simp_all add: t)
    qed (simp_all add: t)
    moreover have "revisions_ok t"
      using inv by (auto simp: db_inv_def revisions_ok_def t sorted_wrt_append)
    ultimately show ?thesis using inv by (simp add: db_inv_def t)
  qed
  moreover have "list_all2 (\<lambda>r (i, W). revId r = i \<and> (\<exists>w. undone (journalIndex r) t w \<and> abs_world w = W))
      (validRevisions t) (copies S @ [(nextCopy S, now S)])"
    unfolding t(3) un using sim undone_now [of s] t(1)
    by (intro list_all2_appendI) (auto simp: sim_def)
  ultimately have "sim E t (S\<lparr>copies := copies S @ [(nextCopy S, now S)], nextCopy := nextCopy S + 1\<rparr>)"
    using sim by (auto simp: sim_def rooted_def un t(1,2,6,7))
  then show ?thesis using sim by (simp add: run answer_def agrees_def t(1) sim_def)
qed

lemma map_of_nth_first:
  assumes "i < length xs" and "fst (xs ! i) = k" and "\<And>j. j < i \<Longrightarrow> fst (xs ! j) \<noteq> k"
  shows "map_of xs k = Some (snd (xs ! i))" and "takeWhile (\<lambda>(j, _). j \<noteq> k) xs = take i xs"
proof -
  show "map_of xs k = Some (snd (xs ! i))" using assms
  proof (induction xs arbitrary: i)
    case (Cons x xs)
    show ?case
    proof (cases i)
      case 0
      then show ?thesis using Cons.prems by (cases x) simp
    next
      case (Suc i')
      have "fst x \<noteq> k" using Cons.prems(3) [of 0] Suc by simp
      moreover have "fst (xs ! j) \<noteq> k" if "j < i'" for j
        using Cons.prems(3) [of "Suc j"] Suc that by simp
      ultimately show ?thesis using Cons.IH [of i'] Cons.prems Suc by (cases x) simp
    qed
  qed simp
  show "takeWhile (\<lambda>(j, _). j \<noteq> k) xs = take i xs"
    using assms by (intro takeWhile_eq_take_P_nth) (auto simp: case_prod_beta)
qed

lemma RevertToSnapshot_agrees:
  assumes sim: "sim E s S"
  shows "agrees E (exec (CRevertToSnapshot i) s) (spec_exec E (CRevertToSnapshot i) S)"
proof -
  note inv = sim_inv(1) [OF sim]
  let ?vr = "validRevisions s"
  have len: "length (copies S) = length ?vr" using sim by (auto simp: sim_def dest: list_all2_lengthD)
  have nth: "revId (?vr ! j) = fst (copies S ! j) \<and>
      (\<exists>w. undone (journalIndex (?vr ! j)) s w \<and> abs_world w = snd (copies S ! j))"
    if "j < length ?vr" for j
    using sim that by (auto simp: sim_def list_all2_conv_all_nth case_prod_beta)
  show ?thesis
  proof (cases "i \<in> revId ` set ?vr")
    case True
    then obtain n where n: "n < length ?vr" "revId (?vr ! n) = i" by (auto simp: in_set_conv_nth)
    obtain w where w: "undone (journalIndex (?vr ! n)) s w" "abs_world w = snd (copies S ! n)"
      using nth [OF n(1)] by blast
    obtain u where u: "RevertToSnapshot s i = Inr u" "world_of u = w" "db_inv u" "env_of u = env_of s"
      "validRevisions u = take n ?vr" "nextRevisionID u = nextRevisionID s"
      "\<And>m v. m \<le> journalIndex (?vr ! n) \<Longrightarrow> undone m s v \<Longrightarrow> undone m u v"
      "\<And>j. j < n \<Longrightarrow> journalIndex (?vr ! j) \<le> journalIndex (?vr ! n)"
      using RevertToSnapshot_correct [OF inv n w(1)] by blast
    have first: "fst (copies S ! j) \<noteq> i" if "j < n" for j
      using that n nth [of j] revision_unique [of s j n] inv by (auto simp: db_inv_def)
    note cp = map_of_nth_first [of n "copies S" i] 
    have copy: "map_of (copies S) i = Some (abs_world w)"
      "takeWhile (\<lambda>(j, _). j \<noteq> i) (copies S) = take n (copies S)"
      using cp n nth [OF n(1)] first len w(2) by simp_all
    have "list_all2 (\<lambda>r (i, W). revId r = i \<and> (\<exists>w. undone (journalIndex r) u w \<and> abs_world w = W))
        (take n ?vr) (take n (copies S))"
      unfolding list_all2_conv_all_nth
    proof (intro conjI allI impI)
      fix j assume "j < length (take n ?vr)"
      then have j: "j < n" "j < length ?vr" by simp_all
      then show "case take n (copies S) ! j of (i, W) \<Rightarrow> revId (take n ?vr ! j) = i \<and>
          (\<exists>w. undone (journalIndex (take n ?vr ! j)) u w \<and> abs_world w = W)"
        using nth [OF j(2)] u(7) [OF u(8) [OF j(1)]] by (auto simp: case_prod_beta)
    qed (simp add: len)
    moreover have "rooted u" using sim_inv(5) [OF sim] u(4,7) by (auto simp: rooted_def)
    ultimately have "sim E u (S\<lparr>now := abs_world w, copies := take n (copies S)\<rparr>)"
      using u sim by (simp add: sim_def)
    then show ?thesis using u(1) copy by (simp add: attempt_def finished_def agrees_def)
  next
    case False
    moreover have "map fst (copies S) = map revId ?vr"
      by (rule nth_equalityI) (use len nth in simp_all)
    ultimately have "i \<notin> fst ` set (copies S)" by (metis list.set_map)
    then have "map_of (copies S) i = None" by (simp add: map_of_eq_None_iff)
    then show ?thesis using RevertToSnapshot_invalid [OF inv False]
      by (simp add: attempt_def agrees_def)
  qed
qed

lemma attempt_agrees:
  assumes "sim E s S" and "\<exists>t. r = Inr t \<and> evolves s t \<and> abs_world (world_of t) = w"
  shows "agrees E (attempt r) (on_world S w)"
  using assms(2) finished_agrees [OF assms(1)] by (auto simp: attempt_def)

lemma SubRefund_agrees:
  assumes sim: "sim E s S"
  shows "agrees E (exec (CSubRefund g) s) (spec_exec E (CSubRefund g) S)"
proof (cases "SubRefund s g")
  case (Inl p)
  then show ?thesis
    by (auto simp: SubRefund_def Let_def attempt_def agrees_def sim_inv(4) [OF sim] split: if_splits)
next
  case (Inr t)
  note ref = SubRefund_refines [OF Inr]
  have "agrees E (finished t) (on_world S ((now S)\<lparr>wRefund := wRefund (now S) - g\<rparr>))"
    by (rule finished_agrees [OF sim ref(1)]) (simp add: ref(2) sim_inv(4) [OF sim])
  then show ?thesis using ref(3) Inr sim_inv(4) [OF sim] by (simp add: attempt_def leD)
qed

lemma SlotInAccessList_agrees:
  assumes sim: "sim E s S"
  shows "agrees E (exec (CSlotInAccessList a k) s) (spec_exec E (CSlotInAccessList a k) S)"
  using sim sim_inv(4) [OF sim] Contains_eq [OF sane_al_inv [OF sim_inv(2) [OF sim]], of a k]
  by (simp add: SlotInAccessList_def agrees_def tell_def)

lemma exec_agrees:
  assumes sim: "sim E s S"
  shows "agrees E (exec c s) (spec_exec E c S)"
proof -
  note [simp] = abs_world_spec
  note s = sim_inv [OF sim]
  note set = finished_agrees [OF sim] and get = answer_agrees [OF sim] and att = attempt_agrees [OF sim]
  show ?thesis
  proof (cases c)
    case (CCreateAccount a)
    then show ?thesis using CreateAccount_refines [OF s(2), of a] s(3,4) by (simp add: set)
  next
    case (CSubBalance a n)
    then show ?thesis using SubBalance_refines [OF s(2), of a n] s(3,4) by (simp add: set)
  next
    case (CAddBalance a n)
    then show ?thesis using AddBalance_refines [OF s(2), of a n] s(3,4) by (simp add: set)
  next
    case (CSetNonce a n)
    then show ?thesis using SetNonce_refines [OF s(2), of a n] s(3,4) by (simp add: set)
  next
    case (CSetCode a c)
    then show ?thesis using SetCode_refines [OF s(2), of a c] s(3,4) by (simp add: set)
  next
    case (CSetState a k v)
    then show ?thesis using SetState_refines [OF s(2), of a k v] s(3,4) by (simp add: set)
  next
    case (CAddLog l)
    then show ?thesis using AddLog_refines [of s l] s(3,4) by (simp add: set)
  next
    case (CAddRefund g)
    then show ?thesis using AddRefund_refines [of s g] s(4) by (simp add: set)
  next
    case (CAddAddressToAccessList a)
    then show ?thesis
      using AddAddressToAccessList_refines(1) [OF s(2)] AddAddressToAccessList_allows [OF s(2)] s(4)
      by (simp add: set)
  next
    case (CAddSlotToAccessList a k)
    then show ?thesis using att [OF AddSlotToAccessList_allows [OF s(2)]] s(4) by simp
  next
    case (CPrepareAccessList x1 x2 x3 x4)
    then show ?thesis using att [OF PrepareAccessList_allows [OF s(2)]] s(4) by simp
  next
    case (CGetBalance a)
    then show ?thesis using get [OF GetBalance_reads [OF s(2)]] s(4) by simp
  next
    case (CGetNonce a)
    then show ?thesis using get [OF GetNonce_reads [OF s(2)]] s(4) by simp
  next
    case (CGetCodeHash a)
    then show ?thesis using get [OF GetCodeHash_reads [OF s(2)]] s(4) by simp
  next
    case (CGetCode a)
    then show ?thesis using get [OF GetCode_reads [OF s(2)]] s(4) by simp
  next
    case (CGetCodeSize a)
    then show ?thesis using get [OF GetCodeSize_reads [OF s(2)]] s(4) by simp
  next
    case (CGetState a k)
    then show ?thesis using get [OF GetState_reads [OF s(2)]] s(4) by simp
  next
    case (CGetCommittedState a k)
    then show ?thesis using get [OF GetCommittedState_reads [OF s(2)]] s(3,4) by simp
  next
    case (CHasSuicided a)
    then show ?thesis using get [OF HasSuicided_reads [OF s(2)]] s(4) by simp
  next
    case (CExist a)
    then show ?thesis using get [OF Exist_reads] s(4) by simp
  next
    case (CEmpty a)
    then show ?thesis using get [OF Empty_reads [OF s(2)]] s(3,4) by simp
  next
    case CGetRefund
    then show ?thesis using get [OF reads_refl [of "(s, refund s)" "refund s" s]] s(4)
      by (simp add: GetRefund_def)
  next
    case (CAddressInAccessList a)
    then show ?thesis using get [OF reads_refl [of "(s, a \<in> al_addrs (accList s))" _ s]] s(4)
      by (simp add: AddressInAccessList_def ContainsAddress_iff)
  qed (use sim in \<open>simp_all only: SubRefund_agrees Suicide_agrees SlotInAccessList_agrees
      RevertToSnapshot_agrees Snapshot_agrees\<close>)
qed

lemma calls_agree:
  assumes "sim E s S"
  shows "rel_sum (=) (rel_prod (sim E) (=)) (calls exec cs s) (calls (spec_exec E) cs S)"
  using assms
proof (induction cs arbitrary: s S)
  case Nil
  then show ?case by simp
next
  case (Cons c cs)
  have step: "rel_sum (=) (rel_prod (sim E) (=)) (exec c s) (spec_exec E c S)"
    using exec_agrees [OF Cons.prems] by (simp add: agrees_def)
  then show ?case
  proof (cases rule: rel_sum.cases)
    case (2 p q)
    then have "rel_sum (=) (rel_prod (sim E) (=)) (calls exec cs (fst p)) (calls (spec_exec E) cs (fst q))"
      by (intro Cons.IH) (simp add: rel_prod_sel)
    then show ?thesis using 2
      by (cases rule: rel_sum.cases) (auto simp: rel_prod_sel case_prod_beta)
  qed simp
qed

lemma sim_New:
  "sim (env_of (New cx kp keccak cfg)) (New cx kp keccak cfg) (new_contract (env_of (New cx kp keccak cfg)))"
proof -
  let ?s = "New cx kp keccak cfg"
  have "abs_world (world_of ?s) = new_world (env_of ?s)"
    unfolding new_world_def abs_world_def world_of_def by (simp add: New_def)
  moreover have "rooted ?s"
    by (auto simp: rooted_def undone_def New_def newJournal_def wAcct_world_of)
  ultimately show ?thesis
    using db_inv_New by (auto simp: sim_def new_contract_def New_def)
qed

lemma sim_reached:
  assumes "calls exec cs (New cx kp keccak cfg) = Inr (s, rs)"
  shows "\<exists>S. sim (env_of (New cx kp keccak cfg)) s S"
  using calls_agree [OF sim_New, of cx kp keccak cfg cs] assms
  by (cases rule: rel_sum.cases) (auto simp: rel_prod_sel)

text \<open>
  C1.  The \<open>StateDB\<close> implements its contract.  Any sequence of calls of the \<^verbatim>\<open>vm.StateDB\<close> interface on
  a new \<open>StateDB\<close>, over any keeper, gives the replies of the specification in which a snapshot is
  a copy of the world and a revert restores the copy, panics exactly when the specification does
  and with the same message, and ends in a state that reads as the specification's world.  So
  the object cache, the dirty storage, the journal and its revert entries are invisible.
\<close>

theorem statedb_implements_contract:
  "let s0 = New cx kp keccak cfg in
    map_sum id (map_prod (\<lambda>s. abs_world (world_of s)) id) (calls exec cs s0) =
    map_sum id (map_prod now id) (calls (spec_exec (env_of s0)) cs (new_contract (env_of s0)))"
  using calls_agree [OF sim_New, of cx kp keccak cfg cs] unfolding Let_def
  by (cases rule: rel_sum.cases) (auto simp: rel_prod_sel sim_def)

end
