(* ===== verification/State_DB_Commit.thy ===== *)
theory State_DB_Commit
  imports State_DB_Sim
begin

text \<open>
  Committing a \<open>StateDB\<close> to the store.  The locale \<open>statedb_keeper\<close> is the contract of the
  \<^verbatim>\<open>statedb.Keeper\<close> interface that \<open>Commit\<close> relies on: reads after writes, one address at a time.
  Inside it, \<open>Commit\<close> leaves in the store what the world of the \<open>StateDB\<close> says for every dirty
  address and touches nothing else.
\<close>

section \<open>Addresses the journal does not mention\<close>

definition resets :: "JournalEntry list \<Rightarrow> address set" where
  "resets es = {objAddress p | p. resetObjectChange p \<in> set es}"

lemma arevert_other:
  assumes "arevert E e w = Inr w'" and "Dirtied e \<noteq> Some a" and "a \<notin> resets [e]"
  shows "wAcct w' a = wAcct w a"
  using assms
  by (cases e) (auto simp: on_acct_def result_simps resets_def split: option.splits if_splits)

lemma foldM_arevert_other:
  assumes "foldM (arevert E) es w = Inr w'" and "a \<notin> dirtied es" and "a \<notin> resets es"
  shows "wAcct w' a = wAcct w a"
  using assms
proof (induction es arbitrary: w)
  case (Cons e es)
  then obtain v where v: "arevert E e w = Inr v" "foldM (arevert E) es v = Inr w'"
    by (auto simp: result_simps)
  have "wAcct v a = wAcct w a"
    using arevert_other [OF v(1)] Cons.prems(2,3) by (auto simp: dirtied_def resets_def)
  moreover have "a \<notin> dirtied es" "a \<notin> resets es"
    using Cons.prems(2,3) by (auto simp: dirtied_def resets_def)
  ultimately show ?case using Cons.IH [OF v(2)] by simp
qed simp

text \<open>Such an address reads as the store says.\<close>

lemma untouched_stored:
  assumes "rooted s" and "a \<notin> dirtied (entries (jrnl s))" and "a \<notin> resets (entries (jrnl s))"
  shows "wAcct (world_of s) a = stored (env_of s) a"
proof -
  let ?es = "entries (jrnl s)"
  obtain w where w: "foldM (arevert (env_of s)) (rev ?es) (world_of s) = Inr w"
    "wAcct w = stored (env_of s)"
    using assms(1) by (auto simp: rooted_def undone_def)
  have "a \<notin> dirtied (rev ?es)" "a \<notin> resets (rev ?es)"
    using assms(2,3) by (simp_all add: dirtied_def resets_def)
  from foldM_arevert_other [OF w(1) this] w(2) show ?thesis by simp
qed

section \<open>Commit and nil objects\<close>

lemma commitObject_no_panic: "commitObject kp so cx \<noteq> Inl (Panicked p)"
  by (auto simp: commitObject_def wrapErr_def Let_def rbind_def split: sum.splits if_splits)

lemma Commit_no_panic:
  assumes inv: "db_inv s"
  shows "Commit s \<noteq> Inl (Panicked p)"
proof -
  have loop: "foldM (\<lambda>addr s.
         case fmlookup (stateObjects s) addr of
           None \<Rightarrow> Inl (Panicked NilDereference)
         | Some obj \<Rightarrow> rbind (commitObject (keeper s) obj (ctx s)) (\<lambda>cx. Inr (s\<lparr>ctx := cx\<rparr>))) L t
       \<noteq> Inl (Panicked p)"
    if "\<forall>a\<in>set L. live t a" for L and t :: "'a StateDB"
    using that
  proof (induction L arbitrary: t)
    case (Cons a L)
    then obtain so where so: "fmlookup (stateObjects t) a = Some so" by (auto simp: live_def)
    have "\<forall>b\<in>set L. live (t\<lparr>ctx := cx\<rparr>) b" for cx using Cons.prems by (simp add: live_def)
    then show ?case using so commitObject_no_panic [of "keeper t" so "ctx t"] Cons.IH
      by (cases "commitObject (keeper t) so (ctx t)") simp_all
  qed simp
  have "\<forall>a\<in>set (sortedDirties (jrnl s)). live s a"
    using inv dirt_count_dom [of "dirties (jrnl s)" "entries (jrnl s)"]
      good_live [of "rev (entries (jrnl s))" s]
    by (auto simp: sortedDirties_def db_inv_def dirtied_def sorted_list_of_fset.rep_eq)
  from loop [OF this] show ?thesis by (simp add: Commit_def)
qed

section \<open>The contract of the keeper\<close>

definition arg_of :: "Account \<Rightarrow> AccountArg" where
  "arg_of acc =
     \<lparr>argNonce = Nonce acc, argBalance = Some (Balance acc), argCodeHash = Some (CodeHash acc)\<rparr>"

text \<open>What the store holds at an address.\<close>

definition at :: "'k Keeper \<Rightarrow> 'k \<Rightarrow> address \<Rightarrow> AccountArg option \<times> (hash \<Rightarrow> hash)" where
  "at kp cx a = (kGetAccount kp cx a, kGetState kp cx a)"

locale statedb_keeper =
  fixes kp :: "'k Keeper"
    and H :: "bytes \<Rightarrow> hash"
    and store_ok :: "'k \<Rightarrow> bool"
    and codeless :: "'k \<Rightarrow> address \<Rightarrow> bool"
  assumes SetAccount_law:
      "store_ok cx \<Longrightarrow> kSetAccount kp cx a acc = Inr cx' \<Longrightarrow>
        (codeless cx a \<longrightarrow> CodeHash acc = H []) \<Longrightarrow>
        store_ok cx' \<and> at kp cx' b = (if b = a then (Some (arg_of acc), kGetState kp cx a) else at kp cx b) \<and>
        (codeless cx' b \<longrightarrow> codeless cx b)"
    and DeleteAccount_law:
      "store_ok cx \<Longrightarrow> kDeleteAccount kp cx a = Inr cx' \<Longrightarrow>
        store_ok cx' \<and> at kp cx' b = (if b = a then (None, \<lambda>_. 0) else at kp cx b) \<and>
        (codeless cx' b \<longrightarrow> codeless cx b)"
    and SetState_law:
      "store_ok cx \<Longrightarrow> kGetAccount kp cx a \<noteq> None \<Longrightarrow> cx' = kSetState kp cx a k (Some v) \<Longrightarrow>
        store_ok cx' \<and>
        at kp cx' b = (if b = a then (kGetAccount kp cx a, (kGetState kp cx a)(k := v)) else at kp cx b) \<and>
        (codeless cx' b \<longrightarrow> codeless cx b)"
    and SetCode_law:
      "store_ok cx \<Longrightarrow> cx' = kSetCode kp cx h c \<Longrightarrow>
        store_ok cx' \<and> at kp cx' b = at kp cx b \<and> (codeless cx' b \<longrightarrow> codeless cx b)"
begin

text \<open>A step of \<open>Commit\<close> on address \<open>a\<close>: it leaves \<open>x\<close> there and nothing else changes.\<close>

definition leaves :: "'k \<Rightarrow> 'k \<Rightarrow> address \<Rightarrow> AccountArg option \<times> (hash \<Rightarrow> hash) \<Rightarrow> bool" where
  "leaves cx cx' a x \<longleftrightarrow>
     store_ok cx' \<and> at kp cx' a = x \<and> (\<forall>b. b \<noteq> a \<longrightarrow> at kp cx' b = at kp cx b) \<and>
     (\<forall>b. codeless cx' b \<longrightarrow> codeless cx b)"

lemma leaves_trans: "leaves cx cx1 a x \<Longrightarrow> leaves cx1 cx2 a y \<Longrightarrow> leaves cx cx2 a y"
  by (simp add: leaves_def)

lemma leaves_refl: "store_ok cx \<Longrightarrow> leaves cx cx a (at kp cx a)"
  by (simp add: leaves_def)

lemma commitKeys_leaves:
  assumes "store_ok cx" and "kGetAccount kp cx a \<noteq> None" and "distinct ks"
    and "\<And>k. k \<in> set ks \<Longrightarrow> old k = kGetState kp cx a k"
  shows "leaves cx
    (fold (\<lambda>k cx. if new k = old k then cx else kSetState kp cx a k (Some (new k))) ks cx) a
    (kGetAccount kp cx a, \<lambda>k. if k \<in> set ks then new k else kGetState kp cx a k)"
  using assms
proof (induction ks arbitrary: cx)
  case Nil
  then show ?case using leaves_refl [of cx a] by (simp add: at_def)
next
  case (Cons k ks)
  define cx1 where "cx1 = (if new k = old k then cx else kSetState kp cx a k (Some (new k)))"
  have step: "leaves cx cx1 a (kGetAccount kp cx a, (kGetState kp cx a)(k := new k))"
  proof (cases "new k = old k")
    case True
    then have "(kGetState kp cx a)(k := new k) = kGetState kp cx a"
      using Cons.prems(4) by auto
    then show ?thesis using True leaves_refl [OF Cons.prems(1), of a] by (simp add: at_def cx1_def)
  next
    case False
    then show ?thesis using SetState_law [OF Cons.prems(1,2) refl] by (simp add: leaves_def cx1_def)
  qed
  then have at: "kGetAccount kp cx1 a = kGetAccount kp cx a"
    "kGetState kp cx1 a = (kGetState kp cx a)(k := new k)" "store_ok cx1"
    by (simp_all add: leaves_def at_def)
  have "old l = kGetState kp cx1 a l" if "l \<in> set ks" for l
    unfolding at using that Cons.prems(3,4) by auto
  note ih = Cons.IH [OF at(3) _ _ this]
  have "(\<lambda>l. if l \<in> set ks then new l else kGetState kp cx1 a l) =
      (\<lambda>l. if l \<in> set (k # ks) then new l else kGetState kp cx a l)" unfolding at by auto
  then show ?case using leaves_trans [OF step ih] Cons.prems(2,3) by (simp add: at(1) flip: cx1_def)
qed

lemma commitStorage_leaves:
  assumes "store_ok cx" and "kGetAccount kp cx (objAddress so) \<noteq> None" and "obj_clean so"
    and orig: "\<And>k. fmlookup (originStorage so) k \<in> {None, Some (kGetState kp cx (objAddress so) k)}"
  shows "leaves cx (commitStorage kp so cx) (objAddress so)
    (kGetAccount kp cx (objAddress so),
     \<lambda>k. case fmlookup (dirtyStorage so) k of Some v \<Rightarrow> v | None \<Rightarrow> kGetState kp cx (objAddress so) k)"
proof -
  let ?a = "objAddress so"
  let ?new = "\<lambda>k. the (fmlookup (dirtyStorage so) k)"
  let ?old = "\<lambda>k. case fmlookup (originStorage so) k of None \<Rightarrow> 0 | Some v \<Rightarrow> v"
  have keys: "set (SortedKeys (dirtyStorage so)) = fset (fmdom (dirtyStorage so))"
    "distinct (SortedKeys (dirtyStorage so))"
    by (simp_all add: SortedKeys_def sorted_list_of_fset.rep_eq)
  have "?old k = kGetState kp cx ?a k" if "k \<in> set (SortedKeys (dirtyStorage so))" for k
  proof -
    have "k |\<in>| fmdom (originStorage so)" using that keys(1) assms(3) by (auto simp: obj_clean_def)
    then show ?thesis using orig [of k] by (auto simp: fmlookup_dom_iff)
  qed
  note leave = commitKeys_leaves [OF assms(1,2) keys(2) this, where new = ?new]
  have "(\<lambda>k. if k \<in> set (SortedKeys (dirtyStorage so)) then ?new k else kGetState kp cx ?a k) =
      (\<lambda>k. case fmlookup (dirtyStorage so) k of Some v \<Rightarrow> v | None \<Rightarrow> kGetState kp cx ?a k)"
    unfolding keys by (auto simp: fmlookup_dom_iff split: option.split)
  then show ?thesis using leave by (simp add: commitStorage_def Let_def)
qed

text \<open>What the store should hold for an object after \<open>Commit\<close>.\<close>

definition target :: "'k \<Rightarrow> stateObject \<Rightarrow> AccountArg option \<times> (hash \<Rightarrow> hash)" where
  "target cx so =
     (if suicided so then (None, \<lambda>_. 0)
      else (Some (arg_of (account so)),
            \<lambda>k. case fmlookup (dirtyStorage so) k of Some v \<Rightarrow> v
                | None \<Rightarrow> kGetState kp cx (objAddress so) k))"

lemma commitObject_leaves:
  assumes ok: "store_ok cx" and cl: "obj_clean so"
    and orig: "\<And>k. fmlookup (originStorage so) k \<in> {None, Some (kGetState kp cx (objAddress so) k)}"
    and code: "\<not> suicided so \<and> codeless cx (objAddress so) \<longrightarrow> CodeHash (account so) = H []"
    and run: "commitObject kp so cx = Inr cx'"
  shows "leaves cx cx' (objAddress so) (target cx so)"
proof (cases "suicided so")
  case True
  then have "kDeleteAccount kp cx (objAddress so) = Inr cx'"
    using run by (auto simp: commitObject_def wrapErr_def split: sum.splits)
  from DeleteAccount_law [OF ok this] True show ?thesis by (simp add: leaves_def target_def)
next
  case False
  let ?a = "objAddress so"
  let ?cx1 = "if code so \<noteq> None \<and> dirtyCode so
    then kSetCode kp cx (CodeHash (account so)) (code so) else cx"
  have one: "leaves cx ?cx1 ?a (at kp cx ?a)"
    using leaves_refl [OF ok] SetCode_law [OF ok refl] by (simp add: leaves_def)
  obtain cx2 where two: "kSetAccount kp ?cx1 ?a (account so) = Inr cx2"
      and three: "cx' = commitStorage kp so cx2"
    using run False
    by (auto simp: commitObject_def wrapErr_def Let_def result_simps split: sum.splits if_splits)
  have at1: "at kp ?cx1 ?a = at kp cx ?a" and ok1: "store_ok ?cx1"
    using one unfolding leaves_def by blast+
  have "codeless ?cx1 ?a \<longrightarrow> CodeHash (account so) = H []"
    using one code False unfolding leaves_def by blast
  note law = SetAccount_law [OF ok1 two this]
  have st: "kGetState kp ?cx1 ?a = kGetState kp cx ?a" using at1 by (simp add: at_def)
  have two': "leaves ?cx1 cx2 ?a (Some (arg_of (account so)), kGetState kp cx ?a)"
    using law unfolding st by (simp add: leaves_def)
  then have at2: "kGetAccount kp cx2 ?a = Some (arg_of (account so))"
    "kGetState kp cx2 ?a = kGetState kp cx ?a" "store_ok cx2"
    by (simp_all add: leaves_def at_def)
  have "leaves cx2 cx' ?a (target cx so)"
    using commitStorage_leaves [OF at2(3) _ cl, unfolded at2(1,2)] orig False
    by (simp add: three target_def)
  then show ?thesis using leaves_trans [OF leaves_trans [OF one two']] by blast
qed

text \<open>The loop of \<open>Commit\<close>.\<close>

definition committable :: "'k StateDB \<Rightarrow> address \<Rightarrow> stateObject \<Rightarrow> bool" where
  "committable s a so \<longleftrightarrow>
     fmlookup (stateObjects s) a = Some so \<and> objAddress so = a \<and> obj_clean so \<and>
     (\<forall>k. fmlookup (originStorage so) k \<in> {None, Some (kGetState kp (ctx s) a k)}) \<and>
     (\<not> suicided so \<and> codeless (ctx s) a \<longrightarrow> CodeHash (account so) = H [])"

definition commitStep :: "address \<Rightarrow> 'k StateDB \<Rightarrow> failure + 'k StateDB" where
  "commitStep a s =
     (case fmlookup (stateObjects s) a of
        None \<Rightarrow> Inl (Panicked NilDereference)
      | Some obj \<Rightarrow> rbind (commitObject (keeper s) obj (ctx s)) (\<lambda>cx. Inr (s\<lparr>ctx := cx\<rparr>)))"

lemma commitStep_live:
  "fmlookup (stateObjects s) a = Some so \<Longrightarrow>
    commitStep a s = rbind (commitObject (keeper s) so (ctx s)) (\<lambda>cx. Inr (s\<lparr>ctx := cx\<rparr>))"
  by (simp add: commitStep_def)

lemma commit_loop:
  assumes "keeper s = kp" and "store_ok (ctx s)" and "distinct L"
    and "\<And>a. a \<in> set L \<Longrightarrow> committable s a (obj a)" and "foldM commitStep L s = Inr s'"
  shows "s' = s\<lparr>ctx := ctx s'\<rparr> \<and> store_ok (ctx s') \<and>
    (\<forall>a. at kp (ctx s') a = (if a \<in> set L then target (ctx s) (obj a) else at kp (ctx s) a))"
  using assms
proof (induction L arbitrary: s)
  case Nil
  then show ?case by simp
next
  case (Cons a L)
  have ca: "committable s a (obj a)" using Cons.prems(4) by simp
  then have a: "objAddress (obj a) = a" by (simp add: committable_def)
  obtain cx where cx: "commitObject kp (obj a) (ctx s) = Inr cx" "foldM commitStep L (s\<lparr>ctx := cx\<rparr>) = Inr s'"
    using Cons.prems(1,5) commitStep_live [of s a "obj a"] ca
    by (cases "commitObject kp (obj a) (ctx s)") (simp_all add: committable_def)
  have lv: "leaves (ctx s) cx a (target (ctx s) (obj a))"
    using commitObject_leaves [OF Cons.prems(2) _ _ _ cx(1)] ca by (simp add: committable_def)
  have other: "kGetState kp cx b = kGetState kp (ctx s) b" if "b \<noteq> a" for b
    using lv that by (simp add: leaves_def at_def)
  have cb: "committable (s\<lparr>ctx := cx\<rparr>) b (obj b)" "target cx (obj b) = target (ctx s) (obj b)"
    if "b \<in> set L" for b
  proof -
    have ne: "b \<noteq> a" using that Cons.prems(3) by auto
    moreover have cs: "committable s b (obj b)" using Cons.prems(4) that by simp
    moreover have "codeless cx b \<Longrightarrow> codeless (ctx s) b" using lv by (simp add: leaves_def)
    ultimately show "committable (s\<lparr>ctx := cx\<rparr>) b (obj b)"
      using other [OF ne] unfolding committable_def by auto
    have "objAddress (obj b) = b" using cs by (simp add: committable_def)
    then show "target cx (obj b) = target (ctx s) (obj b)"
      using other [OF ne] by (simp add: target_def cong: option.case_cong)
  qed
  have "store_ok cx" using lv by (simp add: leaves_def)
  from Cons.IH [OF _ _ _ _ cx(2)] cb(1) this Cons.prems(1,3)
  have ih: "s' = (s\<lparr>ctx := cx\<rparr>)\<lparr>ctx := ctx s'\<rparr>" "store_ok (ctx s')"
    "at kp (ctx s') b = (if b \<in> set L then target cx (obj b) else at kp cx b)" for b
    by simp_all
  have "at kp (ctx s') b = (if b \<in> set (a # L) then target (ctx s) (obj b) else at kp (ctx s) b)" for b
    using ih(3) [of b] cb(2) lv Cons.prems(3) by (auto simp: leaves_def)
  then show ?case using ih(1,2) by simp
qed

text \<open>An account as \<open>Commit\<close> leaves it in the store.\<close>

definition persisted :: "acct \<Rightarrow> AccountArg option \<times> (hash \<Rightarrow> hash)" where
  "persisted x =
     (if aSuicided x then (None, \<lambda>_. 0)
      else (Some \<lparr>argNonce = aNonce x, argBalance = Some (aBalance x), argCodeHash = Some (aCodeHash x)\<rparr>,
            aStorage x))"

lemma target_persisted:
  "keeper s = kp \<Longrightarrow> objAddress so = a \<Longrightarrow>
    target (ctx s) so = persisted (acct_of (env_of s) a so)"
  by (auto simp: target_def persisted_def acct_of_def arg_of_def committed_def env_of_def
      intro!: ext split: option.split)

definition code_ok :: "'k StateDB \<Rightarrow> bool" where
  "code_ok s \<longleftrightarrow>
     (\<forall>a x. wAcct (world_of s) a = Some x \<and> \<not> aSuicided x \<and> codeless (ctx s) a \<longrightarrow> aCodeHash x = H [])"

lemma Commit_correct:
  assumes inv: "db_inv s" and kp: "keeper s = kp" and ok: "store_ok (ctx s)" and code: "code_ok s"
    and run: "Commit s = Inr s'"
  shows "s' = s\<lparr>ctx := ctx s'\<rparr>" and "store_ok (ctx s')"
    and "a \<in> dirtied (entries (jrnl s)) \<Longrightarrow>
      \<exists>x. wAcct (world_of s) a = Some x \<and> at kp (ctx s') a = persisted x"
    and "a \<notin> dirtied (entries (jrnl s)) \<Longrightarrow> at kp (ctx s') a = at kp (ctx s) a"
proof -
  let ?L = "sortedDirties (jrnl s)"
  let ?obj = "\<lambda>a. the (fmlookup (stateObjects s) a)"
  have L: "distinct ?L" "set ?L = dirtied (entries (jrnl s))"
    using inv dirt_count_dom [of "dirties (jrnl s)" "entries (jrnl s)"]
    by (simp_all add: sortedDirties_def db_inv_def sorted_list_of_fset.rep_eq)
  have live: "fmlookup (stateObjects s) b = Some (?obj b)" if "b \<in> set ?L" for b
    using inv good_live [of "rev (entries (jrnl s))" s b] that
    by (auto simp: db_inv_def live_def L dirtied_def)
  have com: "committable s b (?obj b)" if "b \<in> set ?L" for b
  proof -
    note so = live [OF that] and sane = db_inv_sane [OF inv]
    have "obj_ok (env_of s) b (?obj b)" "obj_clean (?obj b)"
      using sane_obj_ok [OF sane so] sane_obj_clean [OF sane so] .
    moreover have "wAcct (world_of s) b = Some (acct_of (env_of s) b (?obj b))"
      using wAcct_live [OF so] .
    then have "\<not> suicided (?obj b) \<and> codeless (ctx s) b \<longrightarrow> CodeHash (account (?obj b)) = H []"
      using code [unfolded code_ok_def, rule_format, of b "acct_of (env_of s) b (?obj b)"] by simp
    ultimately show ?thesis
      using so kp unfolding committable_def obj_ok_def committed_def by (simp add: env_of_def)
  qed
  have "foldM commitStep ?L s = Inr s'" using run by (simp add: Commit_def commitStep_def [abs_def])
  note loop = commit_loop [OF kp ok L(1) com this]
  from loop show "s' = s\<lparr>ctx := ctx s'\<rparr>" "store_ok (ctx s')"
    and "a \<notin> dirtied (entries (jrnl s)) \<Longrightarrow> at kp (ctx s') a = at kp (ctx s) a"
    by (simp_all add: L(2))
  assume a: "a \<in> dirtied (entries (jrnl s))"
  then have "at kp (ctx s') a = target (ctx s) (?obj a)"
    using loop by (simp add: L(2))
  moreover have "objAddress (?obj a) = a" using com a by (simp add: L(2) committable_def)
  ultimately show "\<exists>x. wAcct (world_of s) a = Some x \<and> at kp (ctx s') a = persisted x"
    using target_persisted [OF kp, of "?obj a" a] wAcct_live [OF live, of a] a by (simp add: L(2))
qed

end

end
