(* ===== verification/Sdk.thy ===== *)
theory Sdk
  imports Prelude
begin

text \<open>
  The parts of the Cosmos SDK that the modules call.  They are not part of this repository, so
  they are parameters: records of operations that the definitions take as arguments.  The locales
  state the documented behaviour the proofs rely on.  The reference instances at the end of each
  section show that the laws can be met; they are complete implementations over maps from
  denominations to amounts and from addresses to accounts.
\<close>

section \<open>Signed 64-bit arithmetic\<close>

text \<open>An \<^verbatim>\<open>int64\<close> is an \<^typ>\<open>int\<close> in the range; addition and subtraction wrap around.\<close>

definition wrap64 :: "int \<Rightarrow> int" where
  "wrap64 x = (x + 2 ^ 63) mod 2 ^ 64 - 2 ^ 63"

definition add64 :: "int \<Rightarrow> int \<Rightarrow> int" where
  "add64 x y = wrap64 (x + y)"

definition sub64 :: "int \<Rightarrow> int \<Rightarrow> int" where
  "sub64 x y = wrap64 (x - y)"

definition in64 :: "int \<Rightarrow> bool" where
  "in64 x \<longleftrightarrow> - (2 ^ 63) \<le> x \<and> x < 2 ^ 63"

lemma wrap64_id [simp]: "in64 x \<Longrightarrow> wrap64 x = x"
  by (simp add: wrap64_def in64_def)

lemma in64_wrap64 [simp]: "in64 (wrap64 x)"
proof -
  have "0 \<le> (x + 2 ^ 63) mod 2 ^ 64" "(x + 2 ^ 63) mod 2 ^ 64 < 2 ^ 64" by simp_all
  then show ?thesis by (simp add: wrap64_def in64_def)
qed

lemma add64_id [simp]: "in64 (x + y) \<Longrightarrow> add64 x y = x + y"
  by (simp add: add64_def)

lemma sub64_id [simp]: "in64 (x - y) \<Longrightarrow> sub64 x y = x - y"
  by (simp add: sub64_def)

lemma in64_between: "in64 a \<Longrightarrow> in64 b \<Longrightarrow> a \<le> x \<Longrightarrow> x \<le> b \<Longrightarrow> in64 x"
  by (simp add: in64_def)

section \<open>Coins\<close>

text \<open>
  \<^verbatim>\<open>sdk.Coins\<close>: a set of positive amounts of denominations.  \<open>AmountOf\<close> reads it, \<open>CSub\<close> panics
  when the result would be negative, a nil slice is an empty set, and a set without coins has
  length 0.  \<open>RawCoins\<close> is a slice literal, which is not normalised.
\<close>

record 'c Coins =
  AmountOf :: "'c \<Rightarrow> string \<Rightarrow> int"
  NewCoins :: "(string \<times> int) list \<Rightarrow> 'c"
  RawCoins :: "(string \<times> int) list \<Rightarrow> 'c"
  NilCoins :: 'c
  CAdd :: "'c \<Rightarrow> 'c \<Rightarrow> 'c"
  CSub :: "'c \<Rightarrow> 'c \<Rightarrow> panic + 'c"
  CMin :: "'c \<Rightarrow> 'c \<Rightarrow> 'c"
  IsAllLTE :: "'c \<Rightarrow> 'c \<Rightarrow> bool"
  IsZero :: "'c \<Rightarrow> bool"
  IsNil :: "'c \<Rightarrow> bool"
  IsEmpty :: "'c \<Rightarrow> bool"
  IsValid :: "'c \<Rightarrow> bool"
  IsAllPositive :: "'c \<Rightarrow> bool"

definition NoCoins :: "'c Coins \<Rightarrow> 'c" where
  "NoCoins C = NewCoins C []"

definition coin_total :: "(string \<times> int) list \<Rightarrow> string \<Rightarrow> int" where
  "coin_total cs d = sum_list (map snd (filter (\<lambda>c. fst c = d) cs))"

locale sdk_coins =
  fixes C :: "'c Coins"
  assumes AmountOf_nonneg: "0 \<le> AmountOf C x d"
    and AmountOf_NewCoins: "(\<And>c. c \<in> set cs \<Longrightarrow> 0 \<le> snd c) \<Longrightarrow> AmountOf C (NewCoins C cs) d = coin_total cs d"
    and AmountOf_RawCoins: "0 \<le> n \<Longrightarrow> AmountOf C (RawCoins C [(e, n)]) d = (if d = e then n else 0)"
    and AmountOf_Nil: "AmountOf C (NilCoins C) d = 0"
    and AmountOf_Add: "AmountOf C (CAdd C x y) d = AmountOf C x d + AmountOf C y d"
    and Sub_ok: "(\<And>d. AmountOf C y d \<le> AmountOf C x d) \<Longrightarrow>
      \<exists>z. CSub C x y = Inr z \<and> (\<forall>d. AmountOf C z d = AmountOf C x d - AmountOf C y d)"
    and Sub_panic: "AmountOf C x d < AmountOf C y d \<Longrightarrow> \<exists>p. CSub C x y = Inl p"
    and AmountOf_Min: "AmountOf C (CMin C x y) d = min (AmountOf C x d) (AmountOf C y d)"
    and IsAllLTE_iff: "IsAllLTE C x y \<longleftrightarrow> (\<forall>d. AmountOf C x d \<le> AmountOf C y d)"
    and IsZero_iff: "IsZero C x \<longleftrightarrow> (\<forall>d. AmountOf C x d = 0)"
    and IsNil_zero: "IsNil C x \<Longrightarrow> AmountOf C x d = 0"
    and IsEmpty_iff: "IsEmpty C x \<longleftrightarrow> (\<forall>d. AmountOf C x d = 0)"
    and IsAllPositive_iff: "IsAllPositive C x \<longleftrightarrow> (\<exists>d. 0 < AmountOf C x d)"
begin

lemma AmountOf_NoCoins: "AmountOf C (NoCoins C) d = 0"
  using AmountOf_NewCoins [of "[]"] by (simp add: NoCoins_def coin_total_def)

lemma Sub_Inr:
  assumes "CSub C x y = Inr z"
  shows "AmountOf C z d = AmountOf C x d - AmountOf C y d" and "AmountOf C y d \<le> AmountOf C x d"
proof -
  have le: "AmountOf C y d' \<le> AmountOf C x d'" for d'
    using assms Sub_panic [of x d' y] by force
  from le show "AmountOf C y d \<le> AmountOf C x d" .
  show "AmountOf C z d = AmountOf C x d - AmountOf C y d"
    using Sub_ok [OF le] assms by auto
qed

lemmas amount_simps =
  AmountOf_Nil AmountOf_Add AmountOf_Min AmountOf_NoCoins

end

subsection \<open>Reference instance: lists of natural amounts\<close>

type_synonym amounts = "(string \<times> nat) list"

definition ref_amount :: "amounts \<Rightarrow> string \<Rightarrow> nat" where
  "ref_amount m d = sum_list (map snd (filter (\<lambda>c. fst c = d) m))"

definition ref_denoms :: "amounts \<Rightarrow> string list" where
  "ref_denoms m = remdups (map fst m)"

definition ref_pointwise :: "(nat \<Rightarrow> nat \<Rightarrow> nat) \<Rightarrow> amounts \<Rightarrow> amounts \<Rightarrow> amounts" where
  "ref_pointwise f m n = map (\<lambda>d. (d, f (ref_amount m d) (ref_amount n d))) (ref_denoms (m @ n))"

definition ref_below :: "amounts \<Rightarrow> amounts \<Rightarrow> bool" where
  "ref_below m n \<longleftrightarrow> list_all (\<lambda>d. ref_amount m d \<le> ref_amount n d) (ref_denoms m)"

definition ref_coins :: "amounts Coins" where
  "ref_coins =
     \<lparr>AmountOf = (\<lambda>m d. int (ref_amount m d)),
      NewCoins = map (map_prod id nat),
      RawCoins = map (map_prod id nat),
      NilCoins = [],
      CAdd = (@),
      CSub = (\<lambda>m n. if ref_below n m then Inr (filter (\<lambda>c. 0 < snd c) (ref_pointwise (-) m n)) else Inl (Panic ''negative coin amount'')),
      CMin = ref_pointwise min,
      IsAllLTE = ref_below,
      IsZero = (\<lambda>m. ref_below m []),
      IsNil = (\<lambda>m. m = []),
      IsEmpty = (\<lambda>m. ref_below m []),
      IsValid = (\<lambda>_. True),
      IsAllPositive = (\<lambda>m. \<not> ref_below m [])\<rparr>"

lemma ref_amount_absent: "d \<notin> fst ` set m \<Longrightarrow> ref_amount m d = 0"
  by (force simp: ref_amount_def intro!: sum_list_0 [THEN trans, rotated])

lemma ref_amount_Cons: "ref_amount (c # m) d = (if fst c = d then snd c else 0) + ref_amount m d"
  by (simp add: ref_amount_def)

lemma ref_amount_append: "ref_amount (m @ n) d = ref_amount m d + ref_amount n d"
  by (simp add: ref_amount_def)

lemma ref_amount_map_distinct:
  "distinct ds \<Longrightarrow> ref_amount (map (\<lambda>d. (d, f d)) ds) d = (if d \<in> set ds then f d else 0)"
  by (induction ds) (auto simp: ref_amount_Cons ref_amount_def)

lemma ref_amount_pointwise:
  "f 0 0 = 0 \<Longrightarrow> ref_amount (ref_pointwise f m n) d = f (ref_amount m d) (ref_amount n d)"
  using ref_amount_absent [of d m] ref_amount_absent [of d n]
  by (auto simp: ref_pointwise_def ref_denoms_def ref_amount_map_distinct image_Un)

lemma ref_amount_filter [simp]: "ref_amount (filter (\<lambda>c. 0 < snd c) m) d = ref_amount m d"
  by (induction m) (simp_all add: ref_amount_def)

lemma ref_amount_Nil [simp]: "ref_amount [] d = 0"
  by (simp add: ref_amount_def)

lemma ref_below_iff: "ref_below m n \<longleftrightarrow> (\<forall>d. ref_amount m d \<le> ref_amount n d)"
proof
  assume "ref_below m n"
  then have "ref_amount m d \<le> ref_amount n d" if "d \<in> fst ` set m" for d
    using that by (auto simp: ref_below_def ref_denoms_def list_all_iff)
  moreover have "ref_amount m d \<le> ref_amount n d" if "d \<notin> fst ` set m" for d
    using ref_amount_absent [OF that] by simp
  ultimately show "\<forall>d. ref_amount m d \<le> ref_amount n d" by blast
qed (simp add: ref_below_def list_all_iff)

lemma ref_amount_NewCoins:
  "(\<And>c. c \<in> set cs \<Longrightarrow> 0 \<le> snd c) \<Longrightarrow> int (ref_amount (map (map_prod id nat) cs) d) = coin_total cs d"
  by (induction cs) (auto simp: ref_amount_def coin_total_def)

interpretation ref_coins: sdk_coins ref_coins
proof unfold_locales
  fix cs :: "(string \<times> int) list" and d
  assume "\<And>c. c \<in> set cs \<Longrightarrow> 0 \<le> snd c"
  then show "AmountOf ref_coins (NewCoins ref_coins cs) d = coin_total cs d"
    using ref_amount_NewCoins by (simp add: ref_coins_def)
next
  fix x y :: amounts
  assume le: "\<And>d. AmountOf ref_coins y d \<le> AmountOf ref_coins x d"
  then show "\<exists>z. CSub ref_coins x y = Inr z \<and>
      (\<forall>d. AmountOf ref_coins z d = AmountOf ref_coins x d - AmountOf ref_coins y d)"
    by (auto simp: ref_coins_def ref_below_iff ref_amount_pointwise of_nat_diff)
next
  fix x y :: amounts and d
  assume "AmountOf ref_coins x d < AmountOf ref_coins y d"
  then have "\<not> ref_below y x" unfolding ref_below_iff by (auto simp: ref_coins_def not_le)
  then show "\<exists>p. CSub ref_coins x y = Inl p" by (simp add: ref_coins_def)
qed (auto simp: ref_coins_def ref_below_iff ref_amount_pointwise ref_amount_append ref_amount_Cons of_nat_min)

end
