(* ===== verification/Vesting_Schedule.thy ===== *)
theory Vesting_Schedule
  imports Sdk
begin

text \<open>
  Vesting and lockup schedules (\<^verbatim>\<open>x/vesting/types/schedule.go\<close> and \<^verbatim>\<open>utils.go\<close>).  A schedule is a start
  time and a list of periods; the coins of a period are released at its end.

  The Go loops walk over the two period slices with one index each; here the slices are consumed
  from the front.  The lemmas give every function its meaning as an operation on step functions of
  time: reading evaluates the function, the disjunction adds two of them and the conjunction
  takes their minimum.
\<close>

section \<open>Definitions\<close>

record 'c Period =
  Length :: int
  Amount :: 'c

definition Min64 :: "int \<Rightarrow> int \<Rightarrow> int" where
  "Min64 i j = (if i < j then i else j)"

definition Max64 :: "int \<Rightarrow> int \<Rightarrow> int" where
  "Max64 i j = (if i > j then i else j)"

definition coinEq :: "'c Coins \<Rightarrow> 'c \<Rightarrow> 'c \<Rightarrow> bool" where
  "coinEq C a b \<longleftrightarrow> IsAllLTE C a b \<and> IsAllLTE C b a"

fun readLoop :: "'c Coins \<Rightarrow> int \<Rightarrow> int \<Rightarrow> 'c \<Rightarrow> 'c Period list \<Rightarrow> 'c" where
  "readLoop C readTime elapsedTime coins [] = coins"
| "readLoop C readTime elapsedTime coins (period # ps) =
     (if readTime < add64 elapsedTime (Length period) then coins
      else readLoop C readTime (add64 elapsedTime (Length period)) (CAdd C coins (Amount period)) ps)"

definition ReadSchedule :: "'c Coins \<Rightarrow> int \<Rightarrow> int \<Rightarrow> 'c Period list \<Rightarrow> 'c \<Rightarrow> int \<Rightarrow> 'c" where
  "ReadSchedule C startTime endTime periods totalCoins readTime =
     (if readTime \<le> startTime then NoCoins C
      else if readTime \<ge> endTime then totalCoins
      else readLoop C readTime startTime (NoCoins C) periods)"

fun countLoop :: "int \<Rightarrow> int \<Rightarrow> nat \<Rightarrow> 'c Period list \<Rightarrow> nat" where
  "countLoop readTime elapsedTime n [] = n"
| "countLoop readTime elapsedTime n (period # ps) =
     (if readTime < add64 elapsedTime (Length period) then n
      else countLoop readTime (add64 elapsedTime (Length period)) (n + 1) ps)"

definition ReadPastPeriodCount :: "int \<Rightarrow> int \<Rightarrow> 'c Period list \<Rightarrow> int \<Rightarrow> nat" where
  "ReadPastPeriodCount startTime endTime periods readTime =
     (if readTime \<le> startTime then 0
      else if readTime \<ge> endTime then length periods
      else countLoop readTime startTime 0 periods)"

text \<open>\<^verbatim>\<open>emit\<close>: append an output period and move the time of the last event.\<close>

definition emit :: "int \<Rightarrow> 'c \<Rightarrow> int \<times> 'c Period list \<Rightarrow> int \<times> 'c Period list" where
  "emit nextTime coins st =
     (nextTime, snd st @ [\<lparr>Length = sub64 nextTime (fst st), Amount = coins\<rparr>])"

fun disjunctRest :: "int \<Rightarrow> 'c Period list \<Rightarrow> int \<times> 'c Period list \<Rightarrow> int \<times> 'c Period list" where
  "disjunctRest timePeriod [] st = st"
| "disjunctRest timePeriod (p # ps) st =
     (let nextPeriod = add64 timePeriod (Length p)
      in disjunctRest nextPeriod ps (emit nextPeriod (Amount p) st))"

fun disjunctLoop ::
    "'c Coins \<Rightarrow> int \<Rightarrow> int \<Rightarrow> 'c Period list \<Rightarrow> 'c Period list \<Rightarrow> int \<times> 'c Period list \<Rightarrow> int \<times> 'c Period list" where
  "disjunctLoop C timeA timeB (a # as) (b # bs) st =
     (let nextA = add64 timeA (Length a); nextB = add64 timeB (Length b) in
      if nextA < nextB then disjunctLoop C nextA timeB as (b # bs) (emit nextA (Amount a) st)
      else if nextA > nextB then disjunctLoop C timeA nextB (a # as) bs (emit nextB (Amount b) st)
      else disjunctLoop C nextA nextA as bs (emit nextA (CAdd C (Amount a) (Amount b)) st))"
| "disjunctLoop C timeA timeB as bs st = disjunctRest timeB bs (disjunctRest timeA as st)"

definition DisjunctPeriods ::
    "'c Coins \<Rightarrow> int \<Rightarrow> int \<Rightarrow> 'c Period list \<Rightarrow> 'c Period list \<Rightarrow> int \<times> int \<times> 'c Period list" where
  "DisjunctPeriods C startTimePeriodsA startTimePeriodsB periodsA periodsB =
     (let startTime = Min64 startTimePeriodsA startTimePeriodsB
      in (startTime,
          disjunctLoop C startTimePeriodsA startTimePeriodsB periodsA periodsB (startTime, [])))"

text \<open>The variables that the closures of \<^verbatim>\<open>ConjunctPeriods\<close> share.\<close>

record 'c conj =
  out :: "int \<times> 'c Period list"
  emitted :: 'c
  totalA :: 'c
  totalB :: 'c

definition emitDiff :: "'c Coins \<Rightarrow> int \<Rightarrow> 'c conj \<Rightarrow> panic + 'c conj" where
  "emitDiff C nextTime st =
     (let m = CMin C (totalA st) (totalB st) in
      if IsAllLTE C (emitted st) m
      then rbind (CSub C m (emitted st)) (\<lambda>diff.
        if \<not> IsZero C diff
        then Inr (st\<lparr>out := emit nextTime diff (out st), emitted := CAdd C (emitted st) diff\<rparr>)
        else Inr st)
      else Inr st)"

definition consumeA :: "'c Coins \<Rightarrow> int \<Rightarrow> 'c Period \<Rightarrow> 'c conj \<Rightarrow> panic + 'c conj" where
  "consumeA C nextTime a st = emitDiff C nextTime (st\<lparr>totalA := CAdd C (totalA st) (Amount a)\<rparr>)"

definition consumeB :: "'c Coins \<Rightarrow> int \<Rightarrow> 'c Period \<Rightarrow> 'c conj \<Rightarrow> panic + 'c conj" where
  "consumeB C nextTime b st = emitDiff C nextTime (st\<lparr>totalB := CAdd C (totalB st) (Amount b)\<rparr>)"

definition consumeBoth :: "'c Coins \<Rightarrow> int \<Rightarrow> 'c Period \<Rightarrow> 'c Period \<Rightarrow> 'c conj \<Rightarrow> panic + 'c conj" where
  "consumeBoth C nextTime a b st =
     emitDiff C nextTime (st\<lparr>totalA := CAdd C (totalA st) (Amount a),
                            totalB := CAdd C (totalB st) (Amount b)\<rparr>)"

fun conjunctRest ::
    "(int \<Rightarrow> 'c Period \<Rightarrow> 'c conj \<Rightarrow> panic + 'c conj) \<Rightarrow> int \<Rightarrow> 'c Period list \<Rightarrow> 'c conj \<Rightarrow> panic + 'c conj" where
  "conjunctRest consume timePeriods [] st = Inr st"
| "conjunctRest consume timePeriods (p # ps) st =
     (let nextPeriod = add64 timePeriods (Length p)
      in rbind (consume nextPeriod p st) (conjunctRest consume nextPeriod ps))"

fun conjunctLoop ::
    "'c Coins \<Rightarrow> int \<Rightarrow> int \<Rightarrow> 'c Period list \<Rightarrow> 'c Period list \<Rightarrow> 'c conj \<Rightarrow> panic + 'c conj" where
  "conjunctLoop C timeA timeB (a # as) (b # bs) st =
     (let nextA = add64 timeA (Length a); nextB = add64 timeB (Length b) in
      if nextA < nextB then rbind (consumeA C nextA a st) (conjunctLoop C nextA timeB as (b # bs))
      else if nextA > nextB then rbind (consumeB C nextB b st) (conjunctLoop C timeA nextB (a # as) bs)
      else rbind (consumeBoth C nextA a b st) (conjunctLoop C nextA nextA as bs))"
| "conjunctLoop C timeA timeB as bs st =
     rbind (conjunctRest (consumeA C) timeA as st) (conjunctRest (consumeB C) timeB bs)"

definition ConjunctPeriods ::
    "'c Coins \<Rightarrow> int \<Rightarrow> int \<Rightarrow> 'c Period list \<Rightarrow> 'c Period list \<Rightarrow> panic + (int \<times> int \<times> 'c Period list)" where
  "ConjunctPeriods C startTimePeriodA startTimePeriodB periodsA periodsB =
     (let startTime = Min64 startTimePeriodA startTimePeriodB;
          none = NoCoins C;
          st = \<lparr>out = (startTime, []), emitted = none, totalA = none, totalB = none\<rparr>
      in rbind (conjunctLoop C startTimePeriodA startTimePeriodB periodsA periodsB st)
           (\<lambda>st. Inr (startTime, out st)))"

text \<open>\<^verbatim>\<open>Periods.TotalLength\<close> and \<^verbatim>\<open>Periods.TotalAmount\<close> of the SDK.\<close>

record 'c Periods =
  TotalLength :: "'c Period list \<Rightarrow> int"
  TotalAmount :: "'c Period list \<Rightarrow> 'c"

text \<open>The update of the first period, in the slice of the caller.\<close>

fun extendFirst :: "int \<Rightarrow> 'c Period list \<Rightarrow> 'c Period list" where
  "extendFirst n [] = []"
| "extendFirst n (p # ps) = p\<lparr>Length := add64 (Length p) n\<rparr> # ps"

definition AlignSchedules ::
    "'c Periods \<Rightarrow> int \<Rightarrow> int \<Rightarrow> 'c Period list \<Rightarrow> 'c Period list \<Rightarrow> int \<times> int \<times> 'c Period list \<times> 'c Period list" where
  "AlignSchedules P startTimePeriodA startTimePeriodB periodsA periodsB =
     (let startTime = Min64 startTimePeriodA startTimePeriodB;
          as = extendFirst (sub64 startTimePeriodA startTime) periodsA;
          bs = extendFirst (sub64 startTimePeriodB startTime) periodsB;
          endTime = Max64 (add64 startTime (TotalLength P as)) (add64 startTime (TotalLength P bs))
      in (startTime, endTime, as, bs))"

section \<open>Schedules as step functions\<close>

text \<open>The amount released up to and including a time, and in total.\<close>

fun cum :: "'c Coins \<Rightarrow> int \<Rightarrow> 'c Period list \<Rightarrow> int \<Rightarrow> string \<Rightarrow> int" where
  "cum C s [] t d = 0"
| "cum C s (p # ps) t d =
     (if s + Length p \<le> t then AmountOf C (Amount p) d else 0) + cum C (s + Length p) ps t d"

definition span :: "'c Period list \<Rightarrow> int" where
  "span ps = sum_list (map Length ps)"

definition total :: "'c Coins \<Rightarrow> 'c Period list \<Rightarrow> string \<Rightarrow> int" where
  "total C ps d = sum_list (map (\<lambda>p. AmountOf C (Amount p) d) ps)"

text \<open>The events lie in the range of non-negative \<^verbatim>\<open>int64\<close> times, in order.\<close>

fun fits :: "int \<Rightarrow> 'c Period list \<Rightarrow> bool" where
  "fits s [] \<longleftrightarrow> 0 \<le> s \<and> s < 2 ^ 63"
| "fits s (p # ps) \<longleftrightarrow> 0 \<le> s \<and> 0 \<le> Length p \<and> fits (s + Length p) ps"

lemma fits_nonneg: "fits s ps \<Longrightarrow> 0 \<le> s"
  by (cases ps) auto

lemma fits_less: "fits s ps \<Longrightarrow> s < 2 ^ 63"
  by (induction s ps rule: fits.induct) auto

lemma fits_iff: "fits s ps \<longleftrightarrow> 0 \<le> s \<and> (\<forall>p\<in>set ps. 0 \<le> Length p) \<and> s + span ps < 2 ^ 63"
proof (induction s ps rule: fits.induct)
  case (2 s p ps)
  have "0 \<le> span ps" if "\<forall>p\<in>set ps. 0 \<le> Length p"
    using that by (auto simp: span_def intro!: sum_list_nonneg)
  then show ?case using 2 by (auto simp: span_def algebra_simps)
qed (simp add: span_def)

lemma span_nonneg: "fits s ps \<Longrightarrow> 0 \<le> span ps"
  by (auto simp: fits_iff span_def intro!: sum_list_nonneg)

lemma fits_end: "fits s ps \<Longrightarrow> in64 (s + span ps)"
  using span_nonneg [of s ps] by (auto simp: fits_iff in64_def)

lemma fits_next: "fits s (p # ps) \<Longrightarrow> add64 s (Length p) = s + Length p"
  by (auto simp: in64_def dest: fits_nonneg fits_less)

lemma diff_fits [simp]: "0 \<le> a \<Longrightarrow> a < 2 ^ 63 \<Longrightarrow> 0 \<le> b \<Longrightarrow> b < 2 ^ 63 \<Longrightarrow> sub64 a b = a - b"
  by (auto simp: in64_def)

lemma cum_before: "fits s ps \<Longrightarrow> t < s \<Longrightarrow> cum C s ps t d = 0"
  by (induction s ps rule: fits.induct) auto

lemma cum_after: "fits s ps \<Longrightarrow> s + span ps \<le> t \<Longrightarrow> cum C s ps t d = total C ps d"
proof (induction s ps rule: fits.induct)
  case (2 s p ps)
  have "0 \<le> span ps" using 2(2) by (auto simp: fits_iff span_def intro!: sum_list_nonneg)
  then show ?case using 2 by (auto simp: span_def total_def)
qed (simp add: total_def)

lemma cum_append: "cum C s (ps @ qs) t d = cum C s ps t d + cum C (s + span ps) qs t d"
  by (induction ps arbitrary: s) (simp_all add: span_def add.assoc)

lemma total_append [simp]: "total C (ps @ qs) d = total C ps d + total C qs d"
  by (simp add: total_def)

lemma total_Nil [simp]: "total C [] d = 0"
  by (simp add: total_def)

lemma total_Cons [simp]: "total C (p # ps) d = AmountOf C (Amount p) d + total C ps d"
  by (simp add: total_def)

lemma span_simps [simp]: "span [] = 0" "span (p # ps) = Length p + span ps"
  "span (ps @ qs) = span ps + span qs"
  by (simp_all add: span_def)

lemma fits_take: "fits s ps \<Longrightarrow> fits s (take n ps)"
proof (induction s ps arbitrary: n rule: fits.induct)
  case (1 s)
  then show ?case by simp
next
  case (2 s p ps)
  then show ?case using fits_less [of "s + Length p" ps] by (cases n) auto
qed

context sdk_coins
begin

lemma cum_nonneg: "0 \<le> cum C s ps t d"
  by (induction ps arbitrary: s) (auto simp: AmountOf_nonneg)

lemma total_nonneg: "0 \<le> total C ps d"
  by (induction ps) (auto simp: AmountOf_nonneg)

lemma cum_le_total: "cum C s ps t d \<le> total C ps d"
  by (induction ps arbitrary: s) (auto simp: AmountOf_nonneg add_mono add_increasing)

lemma cum_mono: "t \<le> t' \<Longrightarrow> cum C s ps t d \<le> cum C s ps t' d"
  by (induction ps arbitrary: s) (auto simp: AmountOf_nonneg add_mono add_increasing)

section \<open>Reading\<close>

lemma readLoop_cum:
  assumes "fits s ps"
  shows "AmountOf C (readLoop C t s c ps) d = AmountOf C c d + cum C s ps t d"
  using assms
proof (induction ps arbitrary: s c)
  case (Cons p ps)
  have fit: "fits (s + Length p) ps" using Cons.prems by simp
  show ?case
  proof (cases "t < s + Length p")
    case True
    then show ?thesis using fits_next [OF Cons.prems] cum_before [OF fit True] by simp
  next
    case False
    then show ?thesis using fits_next [OF Cons.prems] Cons.IH [OF fit] by (simp add: AmountOf_Add)
  qed
qed simp

lemma ReadSchedule_amount:
  assumes "fits s ps"
  shows "AmountOf C (ReadSchedule C s e ps tot t) d =
    (if t \<le> s then 0 else if e \<le> t then AmountOf C tot d else cum C s ps t d)"
  using readLoop_cum [OF assms] by (simp add: ReadSchedule_def AmountOf_NoCoins)

end

lemma countLoop_le: "countLoop t s n ps \<le> n + length ps"
proof (induction ps arbitrary: s n)
  case (Cons p ps)
  show ?case using Cons.IH [of "add64 s (Length p)" "n + 1"] by simp
qed simp

lemma countLoop_acc: "countLoop t s (n + m) ps = n + countLoop t s m ps"
proof (induction ps arbitrary: s m)
  case (Cons p ps)
  show ?case using Cons.IH [of "add64 s (Length p)" "m + 1"] by (simp add: add.assoc)
qed simp

lemma countLoop_take:
  assumes "fits s ps"
  shows "cum C s ps t d = total C (take (countLoop t s 0 ps) ps) d"
  using assms
proof (induction ps arbitrary: s)
  case (Cons p ps)
  have fit: "fits (s + Length p) ps" using Cons.prems by simp
  show ?case
  proof (cases "t < s + Length p")
    case True
    then show ?thesis using fits_next [OF Cons.prems] cum_before [OF fit True] by simp
  next
    case False
    then show ?thesis using fits_next [OF Cons.prems] Cons.IH [OF fit] countLoop_acc [of t "s + Length p" 1 0 ps]
      by simp
  qed
qed simp

lemma ReadPastPeriodCount_le: "ReadPastPeriodCount s e ps t \<le> length ps"
  using countLoop_le [of t s 0 ps] by (simp add: ReadPastPeriodCount_def)

text \<open>The next event of a schedule is not before a time.\<close>

fun due :: "int \<Rightarrow> int \<Rightarrow> 'c Period list \<Rightarrow> bool" where
  "due time s [] \<longleftrightarrow> True"
| "due time s (p # ps) \<longleftrightarrow> time \<le> s + Length p"

lemma due_start: "fits s ps \<Longrightarrow> time \<le> s \<Longrightarrow> due time s ps"
  by (cases ps) auto

lemma due_mono: "due time s ps \<Longrightarrow> time' \<le> time \<Longrightarrow> due time' s ps"
  by (cases ps) auto

lemma cum_due: "fits s ps \<Longrightarrow> due n s ps \<Longrightarrow> t < n \<Longrightarrow> cum C s ps t d = 0"
  using cum_before [of _ _ t C d] by (cases ps) auto

section \<open>The disjunction adds\<close>

lemma disjunctRest_cum:
  assumes "fits s ps" and "due (fst st) s ps" and "0 \<le> fst st" and "fst st < 2 ^ 63"
  shows "\<exists>out. disjunctRest s ps st = (fst st + span out, snd st @ out) \<and> fits (fst st) out \<and>
    (\<forall>t d. cum C (fst st) out t d = cum C s ps t d) \<and> (\<forall>d. total C out d = total C ps d)"
  using assms
proof (induction ps arbitrary: s st)
  case Nil
  then show ?case by (intro exI [of _ "[]"]) simp
next
  case (Cons p ps)
  let ?n = "s + Length p"
  have fit: "fits ?n ps" using Cons.prems by simp
  note bounds = fits_nonneg [OF fit] fits_less [OF fit]
  let ?q = "\<lparr>Length = ?n - fst st, Amount = Amount p\<rparr>"
  have "emit ?n (Amount p) st = (?n, snd st @ [?q])"
    using bounds Cons.prems(3,4) by (simp add: emit_def)
  moreover obtain out where "disjunctRest ?n ps (?n, snd st @ [?q]) = (?n + span out, (snd st @ [?q]) @ out)"
    "fits ?n out" "\<And>t d. cum C ?n out t d = cum C ?n ps t d" "\<And>d. total C out d = total C ps d"
    using Cons.IH [OF fit, of "(?n, snd st @ [?q])"] due_start [OF fit order_refl] bounds by auto
  ultimately show ?case
    using fits_next [OF Cons.prems(1)] Cons.prems(2,3) by (intro exI [of _ "?q # out"]) (simp add: Let_def)
qed

lemma emit_cum:
  assumes "0 \<le> n" "n < 2 ^ 63" "0 \<le> fst st" "fst st \<le> n"
    and "r = (n + span out', snd (emit n c st) @ out')" and "fits n out'"
  shows "\<exists>out. r = (fst st + span out, snd st @ out) \<and> fits (fst st) out \<and>
    (\<forall>t d. cum C (fst st) out t d = (if n \<le> t then AmountOf C c d else 0) + cum C n out' t d) \<and>
    (\<forall>d. total C out d = AmountOf C c d + total C out' d)"
  using assms by (intro exI [of _ "\<lparr>Length = n - fst st, Amount = c\<rparr> # out'"]) (simp add: emit_def)

lemma fst_emit [simp]: "fst (emit n c st) = n"
  by (simp add: emit_def)

lemma disjunctLoop_cum:
  assumes "sdk_coins C" and "fits sA as" and "fits sB bs" and "0 \<le> fst st" and "fst st < 2 ^ 63"
    and "due (fst st) sA as" and "due (fst st) sB bs"
  shows "\<exists>out. disjunctLoop C sA sB as bs st = (fst st + span out, snd st @ out) \<and> fits (fst st) out \<and>
    (\<forall>t d. cum C (fst st) out t d = cum C sA as t d + cum C sB bs t d) \<and>
    (\<forall>d. total C out d = total C as d + total C bs d)"
  using assms
proof (induction C sA sB as bs st rule: disjunctLoop.induct [case_names both noA noB])
  case (both C sA sB a as b bs st)
  let ?a = "sA + Length a" and ?b = "sB + Length b"
  have fa: "fits ?a as" and fb: "fits ?b bs" using both(5,6) by simp_all
  note na = fits_next [OF both(5)] and nb = fits_next [OF both(6)]
  note ba = fits_nonneg [OF fa] fits_less [OF fa] and bb = fits_nonneg [OF fb] fits_less [OF fb]
  have da: "fst st \<le> ?a" and db: "fst st \<le> ?b" using both.prems(6,7) by simp_all
  consider "?a < ?b" | "?b < ?a" | "?a = ?b" by linarith
  then show ?case
  proof cases
    case 1
    obtain out where out: "disjunctLoop C ?a sB as (b # bs) (emit ?a (Amount a) st) =
        (?a + span out, snd (emit ?a (Amount a) st) @ out)" "fits ?a out"
      "\<And>t d. cum C ?a out t d = cum C ?a as t d + cum C sB (b # bs) t d"
      "\<And>d. total C out d = total C as d + total C (b # bs) d"
      using both.IH(1) [OF na [symmetric] nb [symmetric]] 1 both.prems fa ba due_start [OF fa order_refl] by auto
    from emit_cum [OF ba both.prems(4) da out(1,2), of C] obtain out' where out':
      "disjunctLoop C ?a sB as (b # bs) (emit ?a (Amount a) st) = (fst st + span out', snd st @ out')" "fits (fst st) out'"
      "\<And>t d. cum C (fst st) out' t d = (if ?a \<le> t then AmountOf C (Amount a) d else 0) + cum C ?a out t d"
      "\<And>d. total C out' d = AmountOf C (Amount a) d + total C out d" by blast
    show ?thesis
      using out' out(3,4) 1 by (intro exI [of _ out']) (simp add: Let_def na nb)
  next
    case 2
    obtain out where out: "disjunctLoop C sA ?b (a # as) bs (emit ?b (Amount b) st) =
        (?b + span out, snd (emit ?b (Amount b) st) @ out)" "fits ?b out"
      "\<And>t d. cum C ?b out t d = cum C sA (a # as) t d + cum C ?b bs t d"
      "\<And>d. total C out d = total C (a # as) d + total C bs d"
      using both.IH(2) [OF na [symmetric] nb [symmetric]] 2 both.prems fb bb due_start [OF fb order_refl] by auto
    from emit_cum [OF bb both.prems(4) db out(1,2), of C] obtain out' where out':
      "disjunctLoop C sA ?b (a # as) bs (emit ?b (Amount b) st) = (fst st + span out', snd st @ out')" "fits (fst st) out'"
      "\<And>t d. cum C (fst st) out' t d = (if ?b \<le> t then AmountOf C (Amount b) d else 0) + cum C ?b out t d"
      "\<And>d. total C out' d = AmountOf C (Amount b) d + total C out d" by blast
    show ?thesis
      using out' out(3,4) 2 by (intro exI [of _ out']) (simp add: Let_def na nb)
  next
    case 3
    let ?c = "CAdd C (Amount a) (Amount b)"
    obtain out where out: "disjunctLoop C ?a ?a as bs (emit ?a ?c st) = (?a + span out, snd (emit ?a ?c st) @ out)"
      "fits ?a out" "\<And>t d. cum C ?a out t d = cum C ?a as t d + cum C ?a bs t d"
      "\<And>d. total C out d = total C as d + total C bs d"
      using both.IH(3) [OF na [symmetric] nb [symmetric]] 3 both.prems fa fb ba due_start [OF fa order_refl] due_start [OF fb order_refl] by auto
    from emit_cum [OF ba both.prems(4) da out(1,2), of C] obtain out' where out':
      "disjunctLoop C ?a ?a as bs (emit ?a ?c st) = (fst st + span out', snd st @ out')" "fits (fst st) out'"
      "\<And>t d. cum C (fst st) out' t d = (if ?a \<le> t then AmountOf C ?c d else 0) + cum C ?a out t d"
      "\<And>d. total C out' d = AmountOf C ?c d + total C out d" by blast
    show ?thesis
      using out' out(3,4) 3 by (intro exI [of _ out']) (simp add: Let_def na nb sdk_coins.AmountOf_Add [OF both.prems(1)])
  qed
next
  case (noA C sA sB bs st)
  then show ?case using disjunctRest_cum [of sB bs st C] by simp
next
  case (noB C sA sB as st)
  then show ?case using disjunctRest_cum [of sA as st C] by simp
qed

lemma DisjunctPeriods_cum:
  assumes "sdk_coins C" and "fits sA as" and "fits sB bs"
  shows "\<exists>out. DisjunctPeriods C sA sB as bs = (min sA sB, min sA sB + span out, out) \<and>
    fits (min sA sB) out \<and> (\<forall>t d. cum C (min sA sB) out t d = cum C sA as t d + cum C sB bs t d) \<and>
    (\<forall>d. total C out d = total C as d + total C bs d)"
proof -
  have eq: "DisjunctPeriods C sA sB as bs = (min sA sB, disjunctLoop C sA sB as bs (min sA sB, []))"
    by (simp add: DisjunctPeriods_def Min64_def min_def Let_def)
  have "0 \<le> min sA sB" "min sA sB < 2 ^ 63"
    using fits_nonneg [OF assms(2)] fits_nonneg [OF assms(3)] fits_less [OF assms(2)] by auto
  then show ?thesis
    using disjunctLoop_cum [OF assms, of "(min sA sB, [])"] due_start [OF assms(2), of "min sA sB"]
      due_start [OF assms(3), of "min sA sB"] by (simp add: eq)
qed

section \<open>The conjunction takes the minimum\<close>

context sdk_coins
begin

definition minimal :: "'c conj \<Rightarrow> bool" where
  "minimal st \<longleftrightarrow>
     (\<forall>d. AmountOf C (emitted st) d = min (AmountOf C (totalA st) d) (AmountOf C (totalB st) d))"

lemma emitDiff_out:
  assumes le: "\<And>d. AmountOf C (emitted st) d \<le> min (AmountOf C (totalA st) d) (AmountOf C (totalB st) d)"
    and n: "0 \<le> fst (out st)" "fst (out st) \<le> n" "n < 2 ^ 63"
  obtains st' qs where "emitDiff C n st = Inr st'" "minimal st'" "totalA st' = totalA st" "totalB st' = totalB st"
    "out st' = (fst (out st) + span qs, snd (out st) @ qs)" "fits (fst (out st)) qs"
    "fst (out st) + span qs \<le> n"
    "\<And>t d. cum C (fst (out st)) qs t d =
       (if n \<le> t then AmountOf C (emitted st') d - AmountOf C (emitted st) d else 0)"
proof -
  let ?m = "CMin C (totalA st) (totalB st)"
  have lte: "IsAllLTE C (emitted st) ?m" using le by (simp add: IsAllLTE_iff AmountOf_Min)
  then obtain z where z: "CSub C ?m (emitted st) = Inr z"
    "\<And>d. AmountOf C z d = AmountOf C ?m d - AmountOf C (emitted st) d"
    using Sub_ok [of "emitted st" ?m] IsAllLTE_iff by blast
  show thesis
  proof (cases "IsZero C z")
    case True
    then have eq: "AmountOf C (emitted st) d = AmountOf C ?m d" for d
      using z(2) [of d] by (simp add: IsZero_iff)
    show thesis
      by (rule that [of st "[]"])
        (use True z(1) lte eq n in \<open>simp_all add: emitDiff_def minimal_def AmountOf_Min\<close>)
  next
    case False
    let ?st = "st\<lparr>out := emit n z (out st), emitted := CAdd C (emitted st) z\<rparr>"
    have out: "emit n z (out st) = (n, snd (out st) @ [\<lparr>Length = n - fst (out st), Amount = z\<rparr>])"
      using n by (simp add: emit_def)
    show thesis
      by (rule that [of ?st "[\<lparr>Length = n - fst (out st), Amount = z\<rparr>]"])
        (use False z lte n in \<open>simp_all add: emitDiff_def minimal_def AmountOf_Min AmountOf_Add out\<close>)
  qed
qed

text \<open>
  What a run from \<open>st\<close> achieves: it appends periods that take the emitted amount to the minimum of
  the two step functions \<open>fA\<close> and \<open>fB\<close> at every time.
\<close>

definition conj_post ::
    "'c conj \<Rightarrow> (int \<Rightarrow> string \<Rightarrow> int) \<Rightarrow> (int \<Rightarrow> string \<Rightarrow> int) \<Rightarrow> panic + 'c conj \<Rightarrow> bool" where
  "conj_post st fA fB r \<longleftrightarrow>
     (\<exists>st' qs. r = Inr st' \<and> out st' = (fst (out st) + span qs, snd (out st) @ qs) \<and>
        fits (fst (out st)) qs \<and>
        (\<forall>t d. AmountOf C (emitted st) d + cum C (fst (out st)) qs t d = min (fA t d) (fB t d)))"

lemma conj_post_step:
  assumes min: "minimal st0" and n: "0 \<le> fst (out st0)" "fst (out st0) \<le> n" "n < 2 ^ 63"
    and st: "emitted st = emitted st0" "out st = out st0"
      "\<And>d. AmountOf C (totalA st0) d \<le> AmountOf C (totalA st) d"
      "\<And>d. AmountOf C (totalB st0) d \<le> AmountOf C (totalB st) d"
    and k: "\<And>st'. minimal st' \<Longrightarrow> totalA st' = totalA st \<Longrightarrow> totalB st' = totalB st \<Longrightarrow>
      0 \<le> fst (out st') \<Longrightarrow> fst (out st') \<le> n \<Longrightarrow> conj_post st' gA gB (k st')"
    and after: "\<And>t d. n \<le> t \<Longrightarrow> fA t d = gA t d \<and> fB t d = gB t d"
    and before: "\<And>t d. t < n \<Longrightarrow> fA t d = AmountOf C (totalA st0) d \<and> fB t d = AmountOf C (totalB st0) d \<and>
      gA t d = AmountOf C (totalA st) d \<and> gB t d = AmountOf C (totalB st) d"
  shows "conj_post st0 fA fB (rbind (emitDiff C n st) k)"
proof -
  let ?\<tau> = "fst (out st0)"
  have "AmountOf C (emitted st) d \<le> min (AmountOf C (totalA st) d) (AmountOf C (totalB st) d)" for d
    using min st(1) st(3,4) [of d] by (auto simp: minimal_def min_def)
  from emitDiff_out [OF this, of n] n obtain st' qs where one: "emitDiff C n st = Inr st'" "minimal st'"
    "totalA st' = totalA st" "totalB st' = totalB st" "out st' = (?\<tau> + span qs, snd (out st0) @ qs)"
    "fits ?\<tau> qs" "?\<tau> + span qs \<le> n"
    "\<And>t d. cum C ?\<tau> qs t d = (if n \<le> t then AmountOf C (emitted st') d - AmountOf C (emitted st0) d else 0)"
    unfolding st by metis
  have "0 \<le> span qs" using one(6) by (auto simp: fits_iff span_def intro!: sum_list_nonneg)
  with k [OF one(2-4)] one(5,7) n obtain st2 rs where two: "k st' = Inr st2"
    "out st2 = (?\<tau> + span qs + span rs, (snd (out st0) @ qs) @ rs)" "fits (?\<tau> + span qs) rs"
    "\<And>t d. AmountOf C (emitted st') d + cum C (?\<tau> + span qs) rs t d = min (gA t d) (gB t d)"
    unfolding conj_post_def by auto
  have "AmountOf C (emitted st0) d + cum C ?\<tau> (qs @ rs) t d = min (fA t d) (fB t d)" for t d
  proof (cases "n \<le> t")
    case True
    then show ?thesis using after one(8) two(4) [where t = t and d = d] by (simp add: cum_append)
  next
    case False
    then have "cum C (?\<tau> + span qs) rs t d = 0"
      using before [of t d] two(4) [where t = t and d = d] one(2-4) by (simp add: minimal_def)
    then show ?thesis using False before [of t d] one(8) min by (simp add: cum_append minimal_def)
  qed
  moreover have "fits ?\<tau> (qs @ rs)" using one(6) two(3) by (auto simp: fits_iff)
  ultimately show ?thesis
    unfolding conj_post_def using one(1) two(1,2) by (intro exI [of _ st2] exI [of _ "qs @ rs"]) simp
qed

lemma conjunctRestA_post:
  assumes "fits s ps" and "due (fst (out st)) s ps" and "minimal st" and "0 \<le> fst (out st)" "fst (out st) < 2 ^ 63"
  shows "conj_post st (\<lambda>t d. AmountOf C (totalA st) d + cum C s ps t d)
    (\<lambda>t d. AmountOf C (totalB st) d) (conjunctRest (consumeA C) s ps st)"
  using assms
proof (induction ps arbitrary: s st)
  case Nil
  then show ?case
    unfolding conj_post_def by (intro exI [of _ st] exI [of _ "[]"]) (simp add: minimal_def)
next
  case (Cons p ps)
  let ?n = "s + Length p" and ?st = "st\<lparr>totalA := CAdd C (totalA st) (Amount p)\<rparr>"
  have fit: "fits ?n ps" using Cons.prems(1) by simp
  have "conj_post st (\<lambda>t d. AmountOf C (totalA st) d + cum C s (p # ps) t d)
      (\<lambda>t d. AmountOf C (totalB st) d) (rbind (emitDiff C ?n ?st) (conjunctRest (consumeA C) ?n ps))"
  proof (rule conj_post_step [OF Cons.prems(3,4)])
    fix st' assume st': "minimal st'" "totalA st' = totalA ?st" "totalB st' = totalB ?st"
      "0 \<le> fst (out st')" "fst (out st') \<le> ?n"
    show "conj_post st' (\<lambda>t d. AmountOf C (totalA ?st) d + cum C ?n ps t d)
        (\<lambda>t d. AmountOf C (totalB ?st) d) (conjunctRest (consumeA C) ?n ps st')"
      using Cons.IH [OF fit _ st'(1,4)] st' due_start [OF fit] fits_less [OF fit] by simp
  qed (use Cons.prems(2) fits_less [OF fit] cum_before [OF fit] in
      \<open>auto simp: AmountOf_Add AmountOf_nonneg\<close>)
  then show ?case using fits_next [OF Cons.prems(1)] by (simp add: consumeA_def [of C ?n p st] Let_def)
qed

lemma conjunctRestB_post:
  assumes "fits s ps" and "due (fst (out st)) s ps" and "minimal st" and "0 \<le> fst (out st)" "fst (out st) < 2 ^ 63"
  shows "conj_post st (\<lambda>t d. AmountOf C (totalA st) d)
    (\<lambda>t d. AmountOf C (totalB st) d + cum C s ps t d) (conjunctRest (consumeB C) s ps st)"
  using assms
proof (induction ps arbitrary: s st)
  case Nil
  then show ?case
    unfolding conj_post_def by (intro exI [of _ st] exI [of _ "[]"]) (simp add: minimal_def)
next
  case (Cons p ps)
  let ?n = "s + Length p" and ?st = "st\<lparr>totalB := CAdd C (totalB st) (Amount p)\<rparr>"
  have fit: "fits ?n ps" using Cons.prems(1) by simp
  have "conj_post st (\<lambda>t d. AmountOf C (totalA st) d) (\<lambda>t d. AmountOf C (totalB st) d + cum C s (p # ps) t d)
      (rbind (emitDiff C ?n ?st) (conjunctRest (consumeB C) ?n ps))"
  proof (rule conj_post_step [OF Cons.prems(3,4)])
    fix st' assume st': "minimal st'" "totalA st' = totalA ?st" "totalB st' = totalB ?st"
      "0 \<le> fst (out st')" "fst (out st') \<le> ?n"
    show "conj_post st' (\<lambda>t d. AmountOf C (totalA ?st) d)
        (\<lambda>t d. AmountOf C (totalB ?st) d + cum C ?n ps t d) (conjunctRest (consumeB C) ?n ps st')"
      using Cons.IH [OF fit _ st'(1,4)] st' due_start [OF fit] fits_less [OF fit] by simp
  qed (use Cons.prems(2) fits_less [OF fit] cum_before [OF fit] in
      \<open>auto simp: AmountOf_Add AmountOf_nonneg\<close>)
  then show ?case using fits_next [OF Cons.prems(1)] by (simp add: consumeB_def [of C ?n p st] Let_def)
qed

lemma conjunctLoop_post:
  assumes "fits sA as" and "fits sB bs" and "due (fst (out st)) sA as" and "due (fst (out st)) sB bs"
    and "minimal st" and "0 \<le> fst (out st)" and "fst (out st) < 2 ^ 63"
  shows "conj_post st (\<lambda>t d. AmountOf C (totalA st) d + cum C sA as t d)
    (\<lambda>t d. AmountOf C (totalB st) d + cum C sB bs t d) (conjunctLoop C sA sB as bs st)"
  using assms
proof (induction "length as + length bs" arbitrary: sA sB as bs st rule: less_induct)
  case less
  show ?case
  proof (cases "as = [] \<or> bs = []")
    case True
    then show ?thesis
      using conjunctRestA_post [OF less(2,4,6-8)] conjunctRestB_post [OF less(3,5,6-8)]
      by (cases as; cases bs) (auto cong: rbind_cong)
  next
    case False
    then obtain a as' b bs' where as: "as = a # as'" and bs: "bs = b # bs'" by (meson list.exhaust)
    let ?a = "sA + Length a" and ?b = "sB + Length b"
    have fa: "fits ?a as'" and fb: "fits ?b bs'" using less(2,3) as bs by simp_all
    have na: "add64 sA (Length a) = ?a" and nb: "add64 sB (Length b) = ?b"
      using fits_next less(2,3) as bs by blast+
    have da: "fst (out st) \<le> ?a" and db: "fst (out st) \<le> ?b" using less(4,5) as bs by simp_all
    note la = fits_less [OF fa] and lb = fits_less [OF fb]
    note za = cum_before [OF fa] and zb = cum_before [OF fb]
    consider "?a < ?b" | "?b < ?a" | "?a = ?b" by linarith
    then show ?thesis
    proof cases
      case 1
      let ?st = "st\<lparr>totalA := CAdd C (totalA st) (Amount a)\<rparr>"
      have "conj_post st (\<lambda>t d. AmountOf C (totalA st) d + cum C sA as t d)
        (\<lambda>t d. AmountOf C (totalB st) d + cum C sB bs t d)
        (rbind (emitDiff C ?a ?st) (conjunctLoop C ?a sB as' bs))"
      proof (rule conj_post_step [OF less(6,7) da la])
        fix st' assume st': "minimal st'" "totalA st' = totalA ?st" "totalB st' = totalB ?st"
          "0 \<le> fst (out st')" "fst (out st') \<le> ?a"
        have d: "due (fst (out st')) sB bs" using st'(5) 1 bs by simp
        have "fst (out st') < 2 ^ 63" using st'(5) la by linarith
        from less(1) [of as' bs ?a sB st', OF _ fa less(3) due_start [OF fa st'(5)] d st'(1,4) this] as
        show "conj_post st' (\<lambda>t d. AmountOf C (totalA ?st) d + cum C ?a as' t d)
            (\<lambda>t d. AmountOf C (totalB ?st) d + cum C sB bs t d) (conjunctLoop C ?a sB as' bs st')"
          unfolding st'(2,3) by simp
      qed (use 1 za zb in \<open>auto simp: as bs AmountOf_Add AmountOf_nonneg\<close>)
      then show ?thesis using 1 na nb by (simp add: as bs consumeA_def [of C ?a a st] Let_def)
    next
      case 2
      let ?st = "st\<lparr>totalB := CAdd C (totalB st) (Amount b)\<rparr>"
      have "conj_post st (\<lambda>t d. AmountOf C (totalA st) d + cum C sA as t d)
        (\<lambda>t d. AmountOf C (totalB st) d + cum C sB bs t d)
        (rbind (emitDiff C ?b ?st) (conjunctLoop C sA ?b as bs'))"
      proof (rule conj_post_step [OF less(6,7) db lb])
        fix st' assume st': "minimal st'" "totalA st' = totalA ?st" "totalB st' = totalB ?st"
          "0 \<le> fst (out st')" "fst (out st') \<le> ?b"
        have d: "due (fst (out st')) sA as" using st'(5) 2 as by simp
        have "fst (out st') < 2 ^ 63" using st'(5) lb by linarith
        from less(1) [of as bs' sA ?b st', OF _ less(2) fb d due_start [OF fb st'(5)] st'(1,4) this] bs
        show "conj_post st' (\<lambda>t d. AmountOf C (totalA ?st) d + cum C sA as t d)
            (\<lambda>t d. AmountOf C (totalB ?st) d + cum C ?b bs' t d) (conjunctLoop C sA ?b as bs' st')"
          unfolding st'(2,3) by simp
      qed (use 2 za zb in \<open>auto simp: as bs AmountOf_Add AmountOf_nonneg\<close>)
      then show ?thesis using 2 na nb by (simp add: as bs consumeB_def [of C ?b b st] Let_def)
    next
      case 3
      let ?st = "st\<lparr>totalA := CAdd C (totalA st) (Amount a), totalB := CAdd C (totalB st) (Amount b)\<rparr>"
      have fb': "fits ?a bs'" using fb 3 by simp
      have "conj_post st (\<lambda>t d. AmountOf C (totalA st) d + cum C sA as t d)
        (\<lambda>t d. AmountOf C (totalB st) d + cum C sB bs t d)
        (rbind (emitDiff C ?a ?st) (conjunctLoop C ?a ?a as' bs'))"
      proof (rule conj_post_step [OF less(6,7) da la])
        fix st' assume st': "minimal st'" "totalA st' = totalA ?st" "totalB st' = totalB ?st"
          "0 \<le> fst (out st')" "fst (out st') \<le> ?a"
        have "fst (out st') < 2 ^ 63" using st'(5) la by linarith
        from less(1) [of as' bs' ?a ?a st', OF _ fa fb' due_start [OF fa st'(5)] due_start [OF fb' st'(5)]
            st'(1,4) this] as bs
        show "conj_post st' (\<lambda>t d. AmountOf C (totalA ?st) d + cum C ?a as' t d)
            (\<lambda>t d. AmountOf C (totalB ?st) d + cum C ?a bs' t d) (conjunctLoop C ?a ?a as' bs' st')"
          unfolding st'(2,3) by simp
      qed (use 3 za zb in \<open>auto simp: as bs AmountOf_Add AmountOf_nonneg\<close>)
      then show ?thesis using 3 na nb by (simp add: as bs consumeBoth_def Let_def)
    qed
  qed
qed

lemma ConjunctPeriods_cum:
  assumes "fits sA as" and "fits sB bs"
  shows "\<exists>qs. ConjunctPeriods C sA sB as bs = Inr (min sA sB, min sA sB + span qs, qs) \<and>
    fits (min sA sB) qs \<and>
    (\<forall>t d. cum C (min sA sB) qs t d = min (cum C sA as t d) (cum C sB bs t d))"
proof -
  let ?s = "min sA sB"
  let ?st = "\<lparr>out = (?s, []), emitted = NoCoins C, totalA = NoCoins C, totalB = NoCoins C\<rparr>"
  have eq: "ConjunctPeriods C sA sB as bs =
      rbind (conjunctLoop C sA sB as bs ?st) (\<lambda>st. Inr (?s, out st))"
    by (simp add: ConjunctPeriods_def Min64_def min_def Let_def)
  have "0 \<le> ?s" "?s < 2 ^ 63"
    using fits_nonneg [OF assms(1)] fits_nonneg [OF assms(2)] fits_less [OF assms(1)] by auto
  with conjunctLoop_post [OF assms, of ?st] due_start [OF assms(1), of ?s] due_start [OF assms(2), of ?s]
  show ?thesis by (auto simp: eq conj_post_def minimal_def AmountOf_NoCoins)
qed

end

section \<open>The period library\<close>

locale sdk_periods = sdk_coins C for C :: "'c Coins" +
  fixes P :: "'c Periods"
  assumes TotalLength_span: "fits 0 ps \<Longrightarrow> TotalLength P ps = span ps"
    and TotalAmount_total: "AmountOf C (TotalAmount P ps) d = total C ps d"

definition ref_periods :: "amounts Periods" where
  "ref_periods =
     \<lparr>TotalLength = (\<lambda>ps. fold (\<lambda>p n. add64 n (Length p)) ps 0),
      TotalAmount = (\<lambda>ps. concat (map Amount ps))\<rparr>"

lemma fold_length: "fits n ps \<Longrightarrow> fold (\<lambda>p n. add64 n (Length p)) ps n = n + span ps"
proof (induction ps arbitrary: n)
  case (Cons p ps)
  have "fits (n + Length p) ps" using Cons.prems by simp
  from Cons.IH [OF this] fits_next [OF Cons.prems] show ?case by simp
qed simp

interpretation ref_periods: sdk_periods ref_coins ref_periods
proof unfold_locales
  fix ps :: "amounts Period list" and d
  show "AmountOf ref_coins (TotalAmount ref_periods ps) d = total ref_coins ps d"
    by (induction ps) (simp_all add: ref_periods_def ref_coins_def ref_amount_append)
qed (simp add: ref_periods_def fold_length)

text \<open>A prefix of a schedule is the schedule capped at the prefix's total.\<close>

context sdk_coins
begin

lemma cum_take:
  assumes "fits s ps"
  shows "cum C s (take n ps) t d = min (cum C s ps t d) (total C (take n ps) d)"
  using assms
proof (induction ps arbitrary: s n)
  case (Cons p ps)
  have fit: "fits (s + Length p) ps" using Cons.prems by simp
  show ?case
  proof (cases n)
    case 0
    then show ?thesis using cum_nonneg [of s "p # ps" t d] by simp
  next
    case (Suc m)
    show ?thesis
    proof (cases "s + Length p \<le> t")
      case True
      then show ?thesis using Suc Cons.IH [OF fit, of m] by simp
    next
      case False
      then show ?thesis
        using Suc cum_before [OF fit] cum_before [OF fits_take [OF fit]]
          AmountOf_nonneg [of "Amount p" d] total_nonneg [of "take m ps" d] by simp
    qed
  qed
qed simp

end

section \<open>Properties\<close>

text \<open>
  C24.  Merging two schedules with \<^verbatim>\<open>DisjunctPeriods\<close> adds them: the result starts at the earlier
  start, ends at the sum of its lengths, has only lengths that are not negative, and at every time
  has released, in every denomination, exactly what the two schedules have released together.
\<close>

theorem disjunct_adds:
  assumes "sdk_coins C" and "fits sA as" and "fits sB bs"
  shows "\<exists>out. DisjunctPeriods C sA sB as bs = (min sA sB, min sA sB + span out, out) \<and>
    fits (min sA sB) out \<and> (\<forall>t d. cum C (min sA sB) out t d = cum C sA as t d + cum C sB bs t d)"
  using DisjunctPeriods_cum [OF assms] by blast

theorem disjunct_adds_witness:
  "\<exists>out. DisjunctPeriods ref_coins 10 20 [\<lparr>Length = 5, Amount = [(''a'', 3)]\<rparr>] [\<lparr>Length = 0, Amount = [(''a'', 4)]\<rparr>] =
      (10, 10 + span out, out) \<and> cum ref_coins 10 out 17 ''a'' = 3 \<and> cum ref_coins 10 out 20 ''a'' = 7"
  using disjunct_adds [OF ref_coins.sdk_coins_axioms, of 10 "[\<lparr>Length = 5, Amount = [(''a'', 3)]\<rparr>]"
      20 "[\<lparr>Length = 0, Amount = [(''a'', 4)]\<rparr>]"]
  by (auto simp: ref_coins_def ref_amount_def)

text \<open>
  C23.  \<^verbatim>\<open>ConjunctPeriods\<close> takes the minimum of two schedules: it never panics on schedules in
  range, and at every time its result has released, in every denomination, the smaller of the
  two released amounts.
\<close>

theorem conjunct_takes_min:
  assumes "sdk_coins C" and "fits sA as" and "fits sB bs"
  shows "\<exists>out. ConjunctPeriods C sA sB as bs = Inr (min sA sB, min sA sB + span out, out) \<and>
    fits (min sA sB) out \<and> (\<forall>t d. cum C (min sA sB) out t d = min (cum C sA as t d) (cum C sB bs t d))"
  using sdk_coins.ConjunctPeriods_cum [OF assms] by blast

theorem conjunct_takes_min_witness:
  "\<exists>out. ConjunctPeriods ref_coins 10 20 [\<lparr>Length = 5, Amount = [(''a'', 3)]\<rparr>] [\<lparr>Length = 0, Amount = [(''a'', 4)]\<rparr>] =
      Inr (10, 10 + span out, out) \<and> cum ref_coins 10 out 17 ''a'' = 0 \<and> cum ref_coins 10 out 20 ''a'' = 3"
  using conjunct_takes_min [OF ref_coins.sdk_coins_axioms, of 10 "[\<lparr>Length = 5, Amount = [(''a'', 3)]\<rparr>]"
      20 "[\<lparr>Length = 0, Amount = [(''a'', 4)]\<rparr>]"]
  by (auto simp: ref_coins_def ref_amount_def)

text \<open>
  Reading a schedule: nothing before or at the start, everything from the end time on, and
  in between the sum of the periods whose end has been reached.
\<close>

theorem read_schedule:
  assumes "sdk_coins C" and "fits s ps"
  shows "AmountOf C (ReadSchedule C s e ps tot t) d =
    (if t \<le> s then 0 else if e \<le> t then AmountOf C tot d else cum C s ps t d)"
  using sdk_coins.ReadSchedule_amount [OF assms] .

theorem read_schedule_witness:
  "AmountOf ref_coins (ReadSchedule ref_coins 10 30 [\<lparr>Length = 5, Amount = [(''a'', 3)]\<rparr>, \<lparr>Length = 15, Amount = [(''a'', 9)]\<rparr>]
      [(''a'', 12)] 16) ''a'' = 3"
  using read_schedule [OF ref_coins.sdk_coins_axioms,
      of 10 "[\<lparr>Length = 5, Amount = [(''a'', 3)]\<rparr>, \<lparr>Length = 15, Amount = [(''a'', 9)]\<rparr>]" 30 "[(''a'', 12)]" 16 "''a''"]
  by (simp add: ref_coins_def ref_amount_def)

end
