(* ===== verification/Vesting_Account.thy ===== *)
theory Vesting_Account
  imports Vesting_Schedule
begin

text \<open>
  Clawback vesting accounts (\<^verbatim>\<open>x/vesting/types/clawback_vesting_account.go\<close>): the account record, what
  is vested, unlocked and locked at a time, validation, and the computation of a clawback.

  A \<^verbatim>\<open>time.Time\<close> is its number of nanoseconds since 1970.  The base account and the base vesting
  account are the protobuf messages of the SDK; their methods are parameters.
\<close>

section \<open>Definitions\<close>

definition Unix :: "int \<Rightarrow> int" where
  "Unix t = t div 1000000000"

definition timeUnix :: "int \<Rightarrow> int" where
  "timeUnix sec = sec * 1000000000"

record BaseAccount =
  baAddress :: address
  PubKey :: "bytes option"
  AccountNumber :: u64
  Sequence :: u64

record 'c BaseVestingAccount =
  baseAccount :: BaseAccount
  OriginalVesting :: 'c
  DelegatedFree :: 'c
  DelegatedVesting :: 'c
  EndTime :: int

record 'c ClawbackVestingAccount =
  base :: "'c BaseVestingAccount"
  FunderAddress :: string
  StartTime :: int
  LockupPeriods :: "'c Period list"
  VestingPeriods :: "'c Period list"

text \<open>The methods of \<^verbatim>\<open>BaseVestingAccount\<close>.\<close>

record 'c BaseVesting =
  LockedCoinsFromVesting :: "'c BaseVestingAccount \<Rightarrow> 'c \<Rightarrow> 'c"
  BaseTrackDelegation :: "'c BaseVestingAccount \<Rightarrow> 'c \<Rightarrow> 'c \<Rightarrow> 'c \<Rightarrow> panic + 'c BaseVestingAccount"
  BaseValidate :: "'c BaseVestingAccount \<Rightarrow> string option"

definition NewClawbackVestingAccount ::
    "'c Coins \<Rightarrow> 'c Periods \<Rightarrow> BaseAccount \<Rightarrow> string \<Rightarrow> 'c \<Rightarrow> int \<Rightarrow> 'c Period list \<Rightarrow> 'c Period list \<Rightarrow>
      'c ClawbackVestingAccount" where
  "NewClawbackVestingAccount C P baseAcc funder originalVesting startTime lockupPeriods vestingPeriods =
     (let (_, endTime, lp, vp) = AlignSchedules P (Unix startTime) (Unix startTime) lockupPeriods vestingPeriods
      in \<lparr>base = \<lparr>baseAccount = baseAcc, OriginalVesting = originalVesting,
                   DelegatedFree = NilCoins C, DelegatedVesting = NilCoins C, EndTime = endTime\<rparr>,
          FunderAddress = funder, StartTime = startTime, LockupPeriods = lp, VestingPeriods = vp\<rparr>)"

definition GetStartTime :: "'c ClawbackVestingAccount \<Rightarrow> int" where
  "GetStartTime va = Unix (StartTime va)"

definition GetUnlockedOnly :: "'c Coins \<Rightarrow> 'c ClawbackVestingAccount \<Rightarrow> int \<Rightarrow> 'c" where
  "GetUnlockedOnly C va blockTime =
     ReadSchedule C (GetStartTime va) (EndTime (base va)) (LockupPeriods va) (OriginalVesting (base va))
       (Unix blockTime)"

definition GetVestedOnly :: "'c Coins \<Rightarrow> 'c ClawbackVestingAccount \<Rightarrow> int \<Rightarrow> 'c" where
  "GetVestedOnly C va blockTime =
     ReadSchedule C (GetStartTime va) (EndTime (base va)) (VestingPeriods va) (OriginalVesting (base va))
       (Unix blockTime)"

definition GetVestedCoins :: "'c Coins \<Rightarrow> 'c ClawbackVestingAccount \<Rightarrow> int \<Rightarrow> 'c" where
  "GetVestedCoins C va blockTime =
     (let coins = CMin C (GetUnlockedOnly C va blockTime) (GetVestedOnly C va blockTime)
      in if IsZero C coins then NilCoins C else coins)"

definition GetVestingCoins :: "'c Coins \<Rightarrow> 'c ClawbackVestingAccount \<Rightarrow> int \<Rightarrow> panic + 'c" where
  "GetVestingCoins C va blockTime = CSub C (OriginalVesting (base va)) (GetVestedCoins C va blockTime)"

definition LockedCoins :: "'c Coins \<Rightarrow> 'c BaseVesting \<Rightarrow> 'c ClawbackVestingAccount \<Rightarrow> int \<Rightarrow> panic + 'c" where
  "LockedCoins C B va blockTime =
     rbind (GetVestingCoins C va blockTime) (\<lambda>v. Inr (LockedCoinsFromVesting B (base va) v))"

definition TrackDelegation ::
    "'c Coins \<Rightarrow> 'c BaseVesting \<Rightarrow> 'c ClawbackVestingAccount \<Rightarrow> int \<Rightarrow> 'c \<Rightarrow> 'c \<Rightarrow>
      panic + 'c ClawbackVestingAccount" where
  "TrackDelegation C B va blockTime balance amount =
     rbind (GetVestingCoins C va blockTime) (\<lambda>v.
       rbind (BaseTrackDelegation B (base va) balance v amount) (\<lambda>b. Inr (va\<lparr>base := b\<rparr>)))"

definition GetVestingPeriods :: "'c ClawbackVestingAccount \<Rightarrow> 'c Period list" where
  "GetVestingPeriods va = VestingPeriods va"

text \<open>The two loops of \<^verbatim>\<open>Validate\<close>: the end of a schedule and its total.\<close>

definition scheduleEnd :: "int \<Rightarrow> 'c Period list \<Rightarrow> int" where
  "scheduleEnd start ps = fold (\<lambda>p e. add64 e (Length p)) ps start"

definition scheduleCoins :: "'c Coins \<Rightarrow> 'c Period list \<Rightarrow> 'c" where
  "scheduleCoins C ps = fold (\<lambda>p c. CAdd C c (Amount p)) ps (NoCoins C)"

definition Validate :: "'c Coins \<Rightarrow> 'c BaseVesting \<Rightarrow> 'c ClawbackVestingAccount \<Rightarrow> string option" where
  "Validate C B va =
     (if GetStartTime va \<ge> EndTime (base va) then Some ''vesting start-time must be before end-time''
      else if scheduleEnd (GetStartTime va) (LockupPeriods va) > EndTime (base va)
      then Some ''lockup schedule extends beyond account end time''
      else if \<not> coinEq C (scheduleCoins C (LockupPeriods va)) (OriginalVesting (base va))
      then Some ''original vesting coins does not match the sum of all coins in lockup periods''
      else if scheduleEnd (GetStartTime va) (VestingPeriods va) > EndTime (base va)
      then Some ''vesting schedule exteds beyond account end time''
      else if \<not> coinEq C (scheduleCoins C (VestingPeriods va)) (OriginalVesting (base va))
      then Some ''original vesting coins does not match the sum of all coins in vesting periods''
      else BaseValidate B (base va))"

definition GetLockedOnly :: "'c Coins \<Rightarrow> 'c ClawbackVestingAccount \<Rightarrow> int \<Rightarrow> panic + 'c" where
  "GetLockedOnly C va blockTime = CSub C (OriginalVesting (base va)) (GetUnlockedOnly C va blockTime)"

definition GetUnvestedOnly :: "'c Coins \<Rightarrow> 'c ClawbackVestingAccount \<Rightarrow> int \<Rightarrow> panic + 'c" where
  "GetUnvestedOnly C va blockTime =
     rbind (CSub C (OriginalVesting (base va)) (GetVestedOnly C va blockTime)) (\<lambda>totalUnvested.
       Inr (if IsNil C totalUnvested then NoCoins C else totalUnvested))"

definition GetPassedPeriodCount :: "'c ClawbackVestingAccount \<Rightarrow> int \<Rightarrow> nat" where
  "GetPassedPeriodCount va blockTime =
     ReadPastPeriodCount (GetStartTime va) (EndTime (base va)) (VestingPeriods va) (Unix blockTime)"

definition ComputeClawback ::
    "'c Coins \<Rightarrow> 'c Periods \<Rightarrow> 'c ClawbackVestingAccount \<Rightarrow> int \<Rightarrow> panic + ('c ClawbackVestingAccount \<times> 'c)" where
  "ComputeClawback C P va clawbackTime =
     (if clawbackTime < GetStartTime va then Inr (va, NoCoins C)
      else
        let totalVested = GetVestedOnly C va (timeUnix clawbackTime) in
        rbind (GetUnvestedOnly C va (timeUnix clawbackTime)) (\<lambda>totalUnvested.
          let passedPeriodID = GetPassedPeriodCount va (timeUnix clawbackTime);
              newVestingPeriods = take passedPeriodID (VestingPeriods va);
              newVestingEnd = add64 (GetStartTime va) (TotalLength P newVestingPeriods);
              capPeriods = [\<lparr>Length = 0, Amount = totalVested\<rparr>]
          in rbind (ConjunctPeriods C (GetStartTime va) (GetStartTime va) (LockupPeriods va) capPeriods)
               (\<lambda>(_, newLockingEnd, newLockupPeriods).
                 Inr (va\<lparr>base := (base va)\<lparr>OriginalVesting := totalVested,
                                        EndTime := Max64 newVestingEnd newLockingEnd\<rparr>,
                         LockupPeriods := newLockupPeriods,
                         VestingPeriods := newVestingPeriods\<rparr>,
                      totalUnvested))))"

definition HasLockedCoins :: "'c Coins \<Rightarrow> 'c ClawbackVestingAccount \<Rightarrow> int \<Rightarrow> panic + bool" where
  "HasLockedCoins C va blockTime = rbind (GetLockedOnly C va blockTime) (\<lambda>c. Inr (\<not> IsZero C c))"

section \<open>Well-formed accounts\<close>

definition va_ok :: "'c Coins \<Rightarrow> 'c ClawbackVestingAccount \<Rightarrow> bool" where
  "va_ok C va \<longleftrightarrow>
     fits (GetStartTime va) (LockupPeriods va) \<and> fits (GetStartTime va) (VestingPeriods va) \<and>
     GetStartTime va + span (LockupPeriods va) \<le> EndTime (base va) \<and>
     GetStartTime va + span (VestingPeriods va) \<le> EndTime (base va) \<and>
     (\<forall>d. total C (LockupPeriods va) d = AmountOf C (OriginalVesting (base va)) d) \<and>
     (\<forall>d. total C (VestingPeriods va) d = AmountOf C (OriginalVesting (base va)) d)"

lemma Unix_timeUnix [simp]: "Unix (timeUnix t) = t"
  by (simp add: Unix_def timeUnix_def)

lemma Unix_mono: "t \<le> t' \<Longrightarrow> Unix t \<le> Unix t'"
  by (simp add: Unix_def zdiv_mono1)

lemma scheduleEnd_span: "fits s ps \<Longrightarrow> scheduleEnd s ps = s + span ps"
proof (induction ps arbitrary: s)
  case (Cons p ps)
  have "fits (s + Length p) ps" using Cons.prems by simp
  from Cons.IH [OF this] fits_next [OF Cons.prems] show ?case
    by (simp add: scheduleEnd_def)
qed (simp add: scheduleEnd_def)

context sdk_coins
begin

lemma scheduleCoins_total: "AmountOf C (scheduleCoins C ps) d = total C ps d"
proof -
  have "AmountOf C (fold (\<lambda>p c. CAdd C c (Amount p)) ps c) d = AmountOf C c d + total C ps d" for c
    by (induction ps arbitrary: c) (simp_all add: AmountOf_Add)
  then show ?thesis by (simp add: scheduleCoins_def AmountOf_NoCoins)
qed

lemma coinEq_iff: "coinEq C x y \<longleftrightarrow> (\<forall>d. AmountOf C x d = AmountOf C y d)"
  by (auto simp: coinEq_def IsAllLTE_iff intro: antisym)

text \<open>An accepted account whose periods are in range is well formed.\<close>

lemma Validate_va_ok:
  assumes "Validate C B va = None" and "fits (GetStartTime va) (LockupPeriods va)"
    and "fits (GetStartTime va) (VestingPeriods va)"
  shows "va_ok C va"
  using assms
  by (auto simp: Validate_def va_ok_def scheduleEnd_span coinEq_iff scheduleCoins_total
      split: if_splits)

lemma GetVestedOnly_amount:
  assumes "va_ok C va"
  shows "AmountOf C (GetVestedOnly C va t) d =
    (if Unix t \<le> GetStartTime va then 0 else cum C (GetStartTime va) (VestingPeriods va) (Unix t) d)"
  using assms ReadSchedule_amount [of "GetStartTime va" "VestingPeriods va"]
    cum_after [of "GetStartTime va" "VestingPeriods va" "Unix t" C d]
  by (auto simp: va_ok_def GetVestedOnly_def)

lemma GetUnlockedOnly_amount:
  assumes "va_ok C va"
  shows "AmountOf C (GetUnlockedOnly C va t) d =
    (if Unix t \<le> GetStartTime va then 0 else cum C (GetStartTime va) (LockupPeriods va) (Unix t) d)"
  using assms ReadSchedule_amount [of "GetStartTime va" "LockupPeriods va"]
    cum_after [of "GetStartTime va" "LockupPeriods va" "Unix t" C d]
  by (auto simp: va_ok_def GetUnlockedOnly_def)

lemma vested_bounds:
  assumes "va_ok C va"
  shows "0 \<le> AmountOf C (GetVestedOnly C va t) d"
    and "AmountOf C (GetVestedOnly C va t) d \<le> AmountOf C (OriginalVesting (base va)) d"
    and "AmountOf C (GetUnlockedOnly C va t) d \<le> AmountOf C (OriginalVesting (base va)) d"
    and "t \<le> t' \<Longrightarrow> AmountOf C (GetVestedOnly C va t) d \<le> AmountOf C (GetVestedOnly C va t') d"
    and "t \<le> t' \<Longrightarrow> AmountOf C (GetUnlockedOnly C va t) d \<le> AmountOf C (GetUnlockedOnly C va t') d"
proof -
  have tot: "total C (VestingPeriods va) d = AmountOf C (OriginalVesting (base va)) d"
    "total C (LockupPeriods va) d = AmountOf C (OriginalVesting (base va)) d"
    using assms by (simp_all add: va_ok_def)
  show "0 \<le> AmountOf C (GetVestedOnly C va t) d" by (rule AmountOf_nonneg)
  show "AmountOf C (GetVestedOnly C va t) d \<le> AmountOf C (OriginalVesting (base va)) d"
    "AmountOf C (GetUnlockedOnly C va t) d \<le> AmountOf C (OriginalVesting (base va)) d"
    using cum_le_total [of "GetStartTime va" "VestingPeriods va" "Unix t" d]
      cum_le_total [of "GetStartTime va" "LockupPeriods va" "Unix t" d] tot AmountOf_nonneg
    by (simp_all add: GetVestedOnly_amount [OF assms] GetUnlockedOnly_amount [OF assms])
  assume "t \<le> t'"
  then show "AmountOf C (GetVestedOnly C va t) d \<le> AmountOf C (GetVestedOnly C va t') d"
    "AmountOf C (GetUnlockedOnly C va t) d \<le> AmountOf C (GetUnlockedOnly C va t') d"
    using Unix_mono [of t t'] cum_mono [of "Unix t" "Unix t'"] cum_nonneg
    by (auto simp: GetVestedOnly_amount [OF assms] GetUnlockedOnly_amount [OF assms])
qed

lemma GetVestedCoins_amount:
  "AmountOf C (GetVestedCoins C va t) d =
    min (AmountOf C (GetUnlockedOnly C va t) d) (AmountOf C (GetVestedOnly C va t) d)"
  by (auto simp: GetVestedCoins_def Let_def AmountOf_Min AmountOf_Nil IsZero_iff)

lemma GetVestingCoins_ok:
  assumes "va_ok C va"
  shows "\<exists>v. GetVestingCoins C va t = Inr v \<and>
    (\<forall>d. AmountOf C v d = AmountOf C (OriginalVesting (base va)) d -
       min (AmountOf C (GetUnlockedOnly C va t) d) (AmountOf C (GetVestedOnly C va t) d))"
proof -
  have "AmountOf C (GetVestedCoins C va t) d \<le> AmountOf C (OriginalVesting (base va)) d" for d
    using vested_bounds(2,3) [OF assms, of t d] by (simp add: GetVestedCoins_amount)
  from Sub_ok [OF this] show ?thesis by (simp add: GetVestingCoins_def GetVestedCoins_amount)
qed

lemma GetUnvestedOnly_ok:
  assumes "va_ok C va"
  shows "\<exists>v. GetUnvestedOnly C va t = Inr v \<and>
    (\<forall>d. AmountOf C v d = AmountOf C (OriginalVesting (base va)) d - AmountOf C (GetVestedOnly C va t) d)"
proof -
  obtain z where z: "CSub C (OriginalVesting (base va)) (GetVestedOnly C va t) = Inr z"
    "\<And>d. AmountOf C z d = AmountOf C (OriginalVesting (base va)) d - AmountOf C (GetVestedOnly C va t) d"
    using Sub_ok [OF vested_bounds(2) [OF assms], of t] by blast
  show ?thesis
  proof (cases "IsNil C z")
    case True
    then show ?thesis using z IsNil_zero [OF True] by (simp add: GetUnvestedOnly_def AmountOf_NoCoins)
  next
    case False
    then show ?thesis using z by (simp add: GetUnvestedOnly_def)
  qed
qed

end

section \<open>Clawback\<close>

context sdk_periods
begin

lemma passed_total:
  assumes "va_ok C va"
  shows "total C (take (GetPassedPeriodCount va t) (VestingPeriods va)) d = AmountOf C (GetVestedOnly C va t) d"
  using assms ReadSchedule_amount [of "GetStartTime va" "VestingPeriods va"]
    countLoop_take [of "GetStartTime va" "VestingPeriods va" C "Unix t" d]
  by (auto simp: va_ok_def GetVestedOnly_def GetPassedPeriodCount_def ReadPastPeriodCount_def)

lemma fits_0: "fits s ps \<Longrightarrow> fits 0 ps"
  by (auto simp: fits_iff)

lemma capped_lockup:
  assumes "fits s ps" and "\<And>d. AmountOf C c d \<le> total C ps d"
  shows "\<exists>qs. ConjunctPeriods C s s ps [\<lparr>Length = 0, Amount = c\<rparr>] = Inr (s, s + span qs, qs) \<and>
    fits s qs \<and> (\<forall>t d. s \<le> t \<longrightarrow> cum C s qs t d = min (cum C s ps t d) (AmountOf C c d)) \<and>
    (\<forall>d. total C qs d = AmountOf C c d)"
proof -
  let ?cap = "[\<lparr>Length = 0, Amount = c\<rparr>]"
  have "fits s ?cap" using assms(1) fits_nonneg fits_less by fastforce
  from ConjunctPeriods_cum [OF assms(1) this] obtain qs where
    qs: "ConjunctPeriods C s s ps ?cap = Inr (s, s + span qs, qs)" "fits s qs"
      "\<And>t d. cum C s qs t d = min (cum C s ps t d) (cum C s ?cap t d)" by auto
  have cap: "cum C s qs t d = min (cum C s ps t d) (AmountOf C c d)" if "s \<le> t" for t d
    using qs(3) [of t d] that by simp
  have "total C qs d = AmountOf C c d" for d
  proof -
    let ?t = "max s (max (s + span qs) (s + span ps))"
    have "total C qs d = cum C s qs ?t d" using cum_after [OF qs(2), of ?t C d] by simp
    also have "\<dots> = min (total C ps d) (AmountOf C c d)"
      using cap [of ?t d] cum_after [OF assms(1), of ?t C d] by simp
    finally show ?thesis using assms(2) [of d] by simp
  qed
  with qs cap show ?thesis by blast
qed

lemma ComputeClawback_ok:
  assumes ok: "va_ok C va" and T: "GetStartTime va \<le> T"
  defines "tv \<equiv> GetVestedOnly C va (timeUnix T)"
  shows "\<exists>va' claw. ComputeClawback C P va T = Inr (va', claw) \<and> va_ok C va' \<and>
    GetStartTime va' = GetStartTime va \<and> OriginalVesting (base va') = tv \<and>
    baseAccount (base va') = baseAccount (base va) \<and> FunderAddress va' = FunderAddress va \<and>
    (\<forall>d. AmountOf C claw d + AmountOf C tv d = AmountOf C (OriginalVesting (base va)) d) \<and>
    (\<forall>t d. AmountOf C (GetVestedOnly C va' t) d = min (AmountOf C (GetVestedOnly C va t) d) (AmountOf C tv d)) \<and>
    (\<forall>t d. AmountOf C (GetUnlockedOnly C va' t) d = min (AmountOf C (GetUnlockedOnly C va t) d) (AmountOf C tv d))"
proof -
  let ?s = "GetStartTime va"
  define vp where "vp = take (GetPassedPeriodCount va (timeUnix T)) (VestingPeriods va)"
  have fv: "fits ?s (VestingPeriods va)" and fl: "fits ?s (LockupPeriods va)"
    and tl: "\<And>d. total C (LockupPeriods va) d = AmountOf C (OriginalVesting (base va)) d"
    using ok by (simp_all add: va_ok_def)
  have vp: "fits ?s vp" "\<And>d. total C vp d = AmountOf C tv d"
    using fits_take [OF fv] passed_total [OF ok] by (simp_all add: vp_def tv_def)
  obtain claw where claw: "GetUnvestedOnly C va (timeUnix T) = Inr claw"
    "\<And>d. AmountOf C claw d = AmountOf C (OriginalVesting (base va)) d - AmountOf C tv d"
    using GetUnvestedOnly_ok [OF ok] unfolding tv_def by blast
  obtain qs where qs: "ConjunctPeriods C ?s ?s (LockupPeriods va) [\<lparr>Length = 0, Amount = tv\<rparr>] = Inr (?s, ?s + span qs, qs)"
    "fits ?s qs" "\<And>t d. ?s \<le> t \<Longrightarrow> cum C ?s qs t d = min (cum C ?s (LockupPeriods va) t d) (AmountOf C tv d)"
    "\<And>d. total C qs d = AmountOf C tv d"
    using capped_lockup [OF fl, of tv] vested_bounds(2) [OF ok, of "timeUnix T"] tl unfolding tv_def by metis
  have ends: "add64 ?s (TotalLength P vp) = ?s + span vp"
    using fits_end [OF vp(1)] TotalLength_span [OF fits_0 [OF vp(1)]] by simp
  let ?va = "va\<lparr>base := (base va)\<lparr>OriginalVesting := tv, EndTime := Max64 (?s + span vp) (?s + span qs)\<rparr>,
    LockupPeriods := qs, VestingPeriods := vp\<rparr>"
  have run: "ComputeClawback C P va T = Inr (?va, claw)"
    using T claw(1) qs(1) ends
    by (simp add: ComputeClawback_def Let_def flip: tv_def vp_def)
  have s: "GetStartTime ?va = ?s" by (simp add: GetStartTime_def)
  have ok': "va_ok C ?va"
    unfolding va_ok_def s using vp qs by (auto simp: Max64_def)
  have "AmountOf C (GetVestedOnly C ?va t) d = min (AmountOf C (GetVestedOnly C va t) d) (AmountOf C tv d)" for t d
    using cum_take [OF fv, of "GetPassedPeriodCount va (timeUnix T)" "Unix t" d] vp(2) AmountOf_nonneg [of tv d]
    by (simp add: GetVestedOnly_amount [OF ok'] GetVestedOnly_amount [OF ok] s flip: vp_def)
  moreover have "AmountOf C (GetUnlockedOnly C ?va t) d = min (AmountOf C (GetUnlockedOnly C va t) d) (AmountOf C tv d)" for t d
    using qs(3) [of "Unix t" d] AmountOf_nonneg [of tv d]
    by (simp add: GetUnlockedOnly_amount [OF ok'] GetUnlockedOnly_amount [OF ok] s)
  ultimately show ?thesis using run ok' s claw(2) by (intro exI [of _ ?va] exI [of _ claw]) simp
qed

end

section \<open>Properties\<close>

text \<open>A concrete account: 12 coins from time 10, unlocked at 15, vesting 3 at 15 and 9 at 30.\<close>

definition ref_account :: "amounts ClawbackVestingAccount" where
  "ref_account =
     \<lparr>base = \<lparr>baseAccount = \<lparr>baAddress = 2, PubKey = None, AccountNumber = 0, Sequence = 0\<rparr>,
        OriginalVesting = [(''a'', 12)], DelegatedFree = [], DelegatedVesting = [], EndTime = 30\<rparr>,
      FunderAddress = ''funder'', StartTime = timeUnix 10,
      LockupPeriods = [\<lparr>Length = 5, Amount = [(''a'', 12)]\<rparr>],
      VestingPeriods = [\<lparr>Length = 5, Amount = [(''a'', 3)]\<rparr>, \<lparr>Length = 15, Amount = [(''a'', 9)]\<rparr>]\<rparr>"

lemma ref_account_ok: "va_ok ref_coins ref_account"
  by (simp add: va_ok_def ref_account_def GetStartTime_def ref_coins_def ref_amount_def)

text \<open>
  C19.  A clawback splits the grant.  On a well-formed account, at or after its start,
  \<^verbatim>\<open>ComputeClawback\<close> does not panic; the coins it returns and the coins vested so far add up to the
  original grant; the updated account is well formed, keeps address and funder, and has the vested
  coins as its grant; and at every time its vested and unlocked amounts are the old ones capped at
  what had vested.
\<close>

theorem clawback_splits_grant:
  assumes "sdk_periods C P" and "va_ok C va" and "GetStartTime va \<le> T"
  shows "\<exists>va' claw. ComputeClawback C P va T = Inr (va', claw) \<and> va_ok C va' \<and>
    baseAccount (base va') = baseAccount (base va) \<and> FunderAddress va' = FunderAddress va \<and>
    OriginalVesting (base va') = GetVestedOnly C va (timeUnix T) \<and>
    (\<forall>d. AmountOf C claw d + AmountOf C (OriginalVesting (base va')) d = AmountOf C (OriginalVesting (base va)) d) \<and>
    (\<forall>t d. AmountOf C (GetVestedOnly C va' t) d =
      min (AmountOf C (GetVestedOnly C va t) d) (AmountOf C (OriginalVesting (base va')) d)) \<and>
    (\<forall>t d. AmountOf C (GetUnlockedOnly C va' t) d =
      min (AmountOf C (GetUnlockedOnly C va t) d) (AmountOf C (OriginalVesting (base va')) d))"
  using sdk_periods.ComputeClawback_ok [OF assms] by metis

theorem clawback_splits_grant_witness:
  "\<exists>va' claw. ComputeClawback ref_coins ref_periods ref_account 20 = Inr (va', claw) \<and>
    AmountOf ref_coins claw ''a'' = 9 \<and> AmountOf ref_coins (OriginalVesting (base va')) ''a'' = 3"
proof -
  have "GetStartTime ref_account \<le> 20" by (simp add: ref_account_def GetStartTime_def)
  from clawback_splits_grant [OF ref_periods.sdk_periods_axioms ref_account_ok this] obtain va' claw where
    r: "ComputeClawback ref_coins ref_periods ref_account 20 = Inr (va', claw)"
      "OriginalVesting (base va') = GetVestedOnly ref_coins ref_account (timeUnix 20)"
      "AmountOf ref_coins claw ''a'' + AmountOf ref_coins (OriginalVesting (base va')) ''a'' =
        AmountOf ref_coins (OriginalVesting (base ref_account)) ''a''" by blast
  have "AmountOf ref_coins (GetVestedOnly ref_coins ref_account (timeUnix 20)) ''a'' = 3"
    "AmountOf ref_coins (OriginalVesting (base ref_account)) ''a'' = 12"
    by code_simp+
  with r show ?thesis by simp
qed

text \<open>
  Vesting only moves forward and stays within the grant: on a well-formed account the vested
  and the unlocked amounts grow with time and never exceed the original grant, and the amount still
  vesting never panics and is the grant less the smaller of the two.
\<close>

theorem vesting_progress:
  assumes "sdk_coins C" and "va_ok C va" and "t \<le> t'"
  shows "AmountOf C (GetVestedOnly C va t) d \<le> AmountOf C (GetVestedOnly C va t') d \<and>
    AmountOf C (GetUnlockedOnly C va t) d \<le> AmountOf C (GetUnlockedOnly C va t') d \<and>
    AmountOf C (GetVestedOnly C va t') d \<le> AmountOf C (OriginalVesting (base va)) d \<and>
    AmountOf C (GetUnlockedOnly C va t') d \<le> AmountOf C (OriginalVesting (base va)) d \<and>
    (\<exists>v. GetVestingCoins C va t = Inr v \<and> AmountOf C v d = AmountOf C (OriginalVesting (base va)) d -
      min (AmountOf C (GetUnlockedOnly C va t) d) (AmountOf C (GetVestedOnly C va t) d))"
  using sdk_coins.vested_bounds [OF assms(1,2)] sdk_coins.GetVestingCoins_ok [OF assms(1,2), of t] assms(3) by blast

theorem vesting_progress_witness:
  "AmountOf ref_coins (GetVestedOnly ref_coins ref_account (timeUnix 20)) ''a'' \<le> 12 \<and>
    (\<exists>v. GetVestingCoins ref_coins ref_account (timeUnix 20) = Inr v)"
proof -
  have le: "timeUnix 20 \<le> timeUnix 20" by simp
  have "AmountOf ref_coins (OriginalVesting (base ref_account)) ''a'' = 12" by code_simp
  with vesting_progress [OF ref_coins.sdk_coins_axioms ref_account_ok le, of "''a''"] show ?thesis by auto
qed

end
