(* ===== verification/Sdk_Keepers.thy ===== *)
theory Sdk_Keepers
  imports Vesting_Account
begin

text \<open>
  Accounts and the keepers of the SDK.  The account types are those the modules tell apart: the
  Ethereum account of \<^verbatim>\<open>types/account.go\<close>, the clawback vesting account, other vesting accounts and the
  rest.  The record \<open>Keepers\<close> holds the operations of the account, bank, distribution and staking keepers that
  the modules call, over an unspecified state \<open>'x\<close>; the locale \<open>sdk_keepers\<close> states their documented
  effect on accounts, balances and supply.
\<close>

section \<open>Ethereum accounts\<close>

record EthAccount =
  ethBase :: BaseAccount
  ethCodeHash :: hash

datatype AccountType = AccountTypeEOA | AccountTypeContract

definition emptyBaseAccount :: BaseAccount where
  "emptyBaseAccount = \<lparr>baAddress = 0, PubKey = None, AccountNumber = 0, Sequence = 0\<rparr>"

definition ProtoAccount :: "(bytes \<Rightarrow> hash) \<Rightarrow> EthAccount" where
  "ProtoAccount keccak = \<lparr>ethBase = emptyBaseAccount, ethCodeHash = keccak []\<rparr>"

definition GetBaseAccount :: "EthAccount \<Rightarrow> BaseAccount" where
  "GetBaseAccount acc = ethBase acc"

definition EthAddress :: "EthAccount \<Rightarrow> address" where
  "EthAddress acc = baAddress (ethBase acc)"

definition EthGetCodeHash :: "EthAccount \<Rightarrow> hash" where
  "EthGetCodeHash acc = ethCodeHash acc"

definition EthSetCodeHash :: "EthAccount \<Rightarrow> hash \<Rightarrow> EthAccount" where
  "EthSetCodeHash acc codeHash = acc\<lparr>ethCodeHash := codeHash\<rparr>"

definition EthType :: "(bytes \<Rightarrow> hash) \<Rightarrow> EthAccount \<Rightarrow> AccountType" where
  "EthType keccak acc = (if ethCodeHash acc = keccak [] then AccountTypeEOA else AccountTypeContract)"

section \<open>Accounts\<close>

datatype 'c AccountI =
    EthAcc EthAccount
  | ClawbackAcc "'c ClawbackVestingAccount"
  | OtherVestingAcc BaseAccount
  | OtherAcc BaseAccount

fun acc_base :: "'c AccountI \<Rightarrow> BaseAccount" where
  "acc_base (EthAcc e) = ethBase e"
| "acc_base (ClawbackAcc va) = baseAccount (base va)"
| "acc_base (OtherVestingAcc b) = b"
| "acc_base (OtherAcc b) = b"

fun with_base :: "(BaseAccount \<Rightarrow> BaseAccount) \<Rightarrow> 'c AccountI \<Rightarrow> 'c AccountI" where
  "with_base f (EthAcc e) = EthAcc (e\<lparr>ethBase := f (ethBase e)\<rparr>)"
| "with_base f (ClawbackAcc va) =
     ClawbackAcc (va\<lparr>base := (base va)\<lparr>baseAccount := f (baseAccount (base va))\<rparr>\<rparr>)"
| "with_base f (OtherVestingAcc b) = OtherVestingAcc (f b)"
| "with_base f (OtherAcc b) = OtherAcc (f b)"

definition GetAddress :: "'c AccountI \<Rightarrow> address" where
  "GetAddress acc = baAddress (acc_base acc)"

definition GetSequence :: "'c AccountI \<Rightarrow> u64" where
  "GetSequence acc = Sequence (acc_base acc)"

definition SetSequence :: "'c AccountI \<Rightarrow> u64 \<Rightarrow> 'c AccountI" where
  "SetSequence acc n = with_base (\<lambda>b. b\<lparr>Sequence := n\<rparr>) acc"

lemma acc_base_with_base [simp]: "acc_base (with_base f acc) = f (acc_base acc)"
  by (cases acc) simp_all

lemma SetSequence_sel [simp]:
  "GetAddress (SetSequence acc n) = GetAddress acc" "GetSequence (SetSequence acc n) = n"
  by (simp_all add: SetSequence_def GetAddress_def GetSequence_def)

section \<open>The keepers\<close>

record ('x, 'c) Keepers =
  GetAccount :: "'x \<Rightarrow> address \<Rightarrow> 'c AccountI option"
  SetAccount :: "'x \<Rightarrow> 'c AccountI \<Rightarrow> 'x"
  NewAccountWithAddress :: "'x \<Rightarrow> address \<Rightarrow> 'c AccountI \<times> 'x"
  NewAccount :: "'x \<Rightarrow> 'c AccountI \<Rightarrow> 'c AccountI \<times> 'x"
  RemoveAccount :: "'x \<Rightarrow> 'c AccountI \<Rightarrow> 'x"
  GetModuleAddress :: "string \<Rightarrow> address"
  BlockedAddr :: "address \<Rightarrow> bool"
  BankBalance :: "'x \<Rightarrow> address \<Rightarrow> string \<Rightarrow> int"
  GetSupply :: "'x \<Rightarrow> string \<Rightarrow> int"
  SendCoins :: "'x \<Rightarrow> address \<Rightarrow> address \<Rightarrow> 'c \<Rightarrow> string + 'x"
  SendCoinsFromModuleToAccount :: "'x \<Rightarrow> string \<Rightarrow> address \<Rightarrow> 'c \<Rightarrow> string + 'x"
  SendCoinsFromAccountToModule :: "'x \<Rightarrow> address \<Rightarrow> string \<Rightarrow> 'c \<Rightarrow> string + 'x"
  SendCoinsFromModuleToModule :: "'x \<Rightarrow> string \<Rightarrow> string \<Rightarrow> 'c \<Rightarrow> string + 'x"
  MintCoins :: "'x \<Rightarrow> string \<Rightarrow> 'c \<Rightarrow> string + 'x"
  BurnCoins :: "'x \<Rightarrow> string \<Rightarrow> 'c \<Rightarrow> string + 'x"
  GetAllBalances :: "'x \<Rightarrow> address \<Rightarrow> 'c"
  FundCommunityPool :: "'x \<Rightarrow> 'c \<Rightarrow> address \<Rightarrow> string + 'x"
  BondDenom :: "'x \<Rightarrow> string"
  GetDelegatorBonded :: "'x \<Rightarrow> address \<Rightarrow> int"
  GetDelegatorUnbonding :: "'x \<Rightarrow> address \<Rightarrow> int"

definition distrModule :: string where "distrModule = ''distribution''"

definition at_addr :: "address \<Rightarrow> address \<Rightarrow> int \<Rightarrow> int" where
  "at_addr a b n = (if a = b then n else 0)"

text \<open>The effect of moving coins on balances, supply and accounts.\<close>

definition transferred ::
    "'c Coins \<Rightarrow> ('x, 'c) Keepers \<Rightarrow> 'x \<Rightarrow> address \<Rightarrow> address \<Rightarrow> 'c \<Rightarrow> 'x \<Rightarrow> bool" where
  "transferred C K x a b c x' \<longleftrightarrow>
     (\<forall>z d. BankBalance K x' z d =
        BankBalance K x z d - at_addr a z (AmountOf C c d) + at_addr b z (AmountOf C c d)) \<and>
     (\<forall>d. AmountOf C c d \<le> BankBalance K x a d) \<and>
     (\<forall>d. GetSupply K x' d = GetSupply K x d) \<and>
     (\<forall>z. z \<noteq> b \<or> GetAccount K x b \<noteq> None \<longrightarrow> GetAccount K x' z = GetAccount K x z) \<and>
     (\<forall>va. GetAccount K x b = None \<longrightarrow> GetAccount K x' b \<noteq> Some (ClawbackAcc va))"

lemma transferred_supply: "transferred C K x a b c x' \<Longrightarrow> GetSupply K x' = GetSupply K x"
  by (auto simp: transferred_def)

lemma transferred_balance:
  "transferred C K x a b c x' \<Longrightarrow>
    BankBalance K x' z d = BankBalance K x z d - at_addr a z (AmountOf C c d) + at_addr b z (AmountOf C c d)"
  by (simp add: transferred_def)

locale sdk_keepers = sdk_coins C for C :: "'c Coins" +
  fixes K :: "('x, 'c) Keepers" and keccak :: "bytes \<Rightarrow> hash"
  assumes GetAccount_SetAccount:
      "GetAccount K (SetAccount K x acc) a = (if a = GetAddress acc then Some acc else GetAccount K x a)"
    and GetAccount_address: "GetAccount K x a = Some acc \<Longrightarrow> GetAddress acc = a"
    and Balance_SetAccount:
      "BankBalance K (SetAccount K x acc) = BankBalance K x" "GetSupply K (SetAccount K x acc) = GetSupply K x"
    and NewAccountWithAddress_law:
      "NewAccountWithAddress K x a = (acc, x') \<Longrightarrow>
        (\<exists>n. acc = EthAcc ((ProtoAccount keccak)\<lparr>ethBase := emptyBaseAccount\<lparr>baAddress := a, AccountNumber := n\<rparr>\<rparr>)) \<and>
        GetAccount K x' = GetAccount K x \<and> BankBalance K x' = BankBalance K x \<and> GetSupply K x' = GetSupply K x"
    and NewAccount_law:
      "NewAccount K x acc = (acc', x') \<Longrightarrow>
        (\<exists>n. acc' = with_base (\<lambda>b. b\<lparr>AccountNumber := n\<rparr>) acc) \<and>
        GetAccount K x' = GetAccount K x \<and> BankBalance K x' = BankBalance K x \<and> GetSupply K x' = GetSupply K x"
    and RemoveAccount_law:
      "GetAccount K (RemoveAccount K x acc) a = (if a = GetAddress acc then None else GetAccount K x a)"
      "BankBalance K (RemoveAccount K x acc) = BankBalance K x"
      "GetSupply K (RemoveAccount K x acc) = GetSupply K x"
    and SendCoins_law: "SendCoins K x a b c = Inr x' \<Longrightarrow> transferred C K x a b c x'"
    and ModuleToAccount_law:
      "SendCoinsFromModuleToAccount K x m b c = Inr x' \<Longrightarrow> transferred C K x (GetModuleAddress K m) b c x'"
    and AccountToModule_law:
      "SendCoinsFromAccountToModule K x a m c = Inr x' \<Longrightarrow> transferred C K x a (GetModuleAddress K m) c x'"
    and ModuleToModule_law:
      "SendCoinsFromModuleToModule K x m n c = Inr x' \<Longrightarrow>
        transferred C K x (GetModuleAddress K m) (GetModuleAddress K n) c x'"
    and MintCoins_law:
      "MintCoins K x m c = Inr x' \<Longrightarrow>
        (\<forall>z d. BankBalance K x' z d = BankBalance K x z d + at_addr (GetModuleAddress K m) z (AmountOf C c d)) \<and>
        (\<forall>d. GetSupply K x' d = GetSupply K x d + AmountOf C c d) \<and> GetAccount K x' = GetAccount K x"
    and BurnCoins_law:
      "BurnCoins K x m c = Inr x' \<Longrightarrow>
        (\<forall>z d. BankBalance K x' z d = BankBalance K x z d - at_addr (GetModuleAddress K m) z (AmountOf C c d)) \<and>
        (\<forall>d. GetSupply K x' d = GetSupply K x d - AmountOf C c d) \<and> GetAccount K x' = GetAccount K x"
    and AllBalances_law: "AmountOf C (GetAllBalances K x a) d = BankBalance K x a d"
    and Fund_law: "FundCommunityPool K x c a = Inr x' \<Longrightarrow> transferred C K x a (GetModuleAddress K distrModule) c x'"

section \<open>Reference instance: a ledger in maps\<close>

record ledger =
  lAccounts :: "address \<Rightarrow> amounts AccountI option"
  lBalances :: "address \<Rightarrow> amounts"
  lSupply :: "string \<Rightarrow> int"
  lNumber :: u64

text \<open>Any injective-looking map from module names to addresses will do.\<close>

definition ref_module_address :: "string \<Rightarrow> address" where
  "ref_module_address m = fold (\<lambda>c h. 257 * h + word_of_nat (of_char c)) m 1"

definition ref_numbered :: "ledger \<Rightarrow> amounts AccountI \<Rightarrow> amounts AccountI \<times> ledger" where
  "ref_numbered x acc =
     (with_base (\<lambda>b. b\<lparr>AccountNumber := lNumber x\<rparr>) acc, x\<lparr>lNumber := lNumber x + 1\<rparr>)"

definition ref_proto :: "(bytes \<Rightarrow> hash) \<Rightarrow> address \<Rightarrow> amounts AccountI" where
  "ref_proto keccak a = with_base (\<lambda>b. b\<lparr>baAddress := a\<rparr>) (EthAcc (ProtoAccount keccak))"

definition ref_credit :: "address \<Rightarrow> amounts \<Rightarrow> ledger \<Rightarrow> ledger" where
  "ref_credit a c x =
     x\<lparr>lBalances := (lBalances x)(a := lBalances x a @ c)\<rparr>"

definition ref_debit :: "address \<Rightarrow> amounts \<Rightarrow> ledger \<Rightarrow> string + ledger" where
  "ref_debit a c x =
     (if ref_below c (lBalances x a)
      then Inr (x\<lparr>lBalances := (lBalances x)(a := ref_pointwise (-) (lBalances x a) c)\<rparr>)
      else Inl ''insufficient funds'')"

definition ref_send :: "(bytes \<Rightarrow> hash) \<Rightarrow> ledger \<Rightarrow> address \<Rightarrow> address \<Rightarrow> amounts \<Rightarrow> string + ledger" where
  "ref_send keccak x a b c =
     rbind (ref_debit a c x) (\<lambda>x.
       let x' = ref_credit b c x in
       Inr (if lAccounts x' b = None
            then let (acc, x'') = ref_numbered x' (ref_proto keccak b)
                 in x''\<lparr>lAccounts := (lAccounts x'')(b \<mapsto> acc)\<rparr>
            else x'))"

definition ref_keepers :: "(bytes \<Rightarrow> hash) \<Rightarrow> (address \<Rightarrow> bool) \<Rightarrow> string \<Rightarrow> (ledger, amounts) Keepers" where
  "ref_keepers keccak blocked bond =
     \<lparr>GetAccount = (\<lambda>x a. case lAccounts x a of None \<Rightarrow> None
        | Some acc \<Rightarrow> Some (with_base (\<lambda>b. b\<lparr>baAddress := a\<rparr>) acc)),
      SetAccount = (\<lambda>x acc. x\<lparr>lAccounts := (lAccounts x)(GetAddress acc \<mapsto> acc)\<rparr>),
      NewAccountWithAddress = (\<lambda>x a. ref_numbered x (ref_proto keccak a)),
      NewAccount = ref_numbered,
      RemoveAccount = (\<lambda>x acc. x\<lparr>lAccounts := (lAccounts x)(GetAddress acc := None)\<rparr>),
      GetModuleAddress = ref_module_address,
      BlockedAddr = blocked,
      BankBalance = (\<lambda>x a d. int (ref_amount (lBalances x a) d)),
      GetSupply = lSupply,
      SendCoins = ref_send keccak,
      SendCoinsFromModuleToAccount = (\<lambda>x m b c.
        if blocked b then Inl ''unauthorized'' else ref_send keccak x (ref_module_address m) b c),
      SendCoinsFromAccountToModule = (\<lambda>x a m. ref_send keccak x a (ref_module_address m)),
      SendCoinsFromModuleToModule = (\<lambda>x m n. ref_send keccak x (ref_module_address m) (ref_module_address n)),
      MintCoins = (\<lambda>x m c.
        Inr ((ref_credit (ref_module_address m) c x)\<lparr>lSupply := \<lambda>d. lSupply x d + int (ref_amount c d)\<rparr>)),
      BurnCoins = (\<lambda>x m c. rbind (ref_debit (ref_module_address m) c x) (\<lambda>x'.
        Inr (x'\<lparr>lSupply := \<lambda>d. lSupply x d - int (ref_amount c d)\<rparr>))),
      GetAllBalances = lBalances,
      FundCommunityPool = (\<lambda>x c a. ref_send keccak x a (ref_module_address distrModule) c),
      BondDenom = (\<lambda>_. bond),
      GetDelegatorBonded = (\<lambda>_ _. 0),
      GetDelegatorUnbonding = (\<lambda>_ _. 0)\<rparr>"

lemma with_base_address: "with_base (\<lambda>b. b\<lparr>baAddress := GetAddress acc\<rparr>) acc = acc"
  by (cases acc) (simp_all add: GetAddress_def)

lemma ref_debit_Inr:
  assumes "ref_debit a c x = Inr x'"
  shows "\<And>z d. int (ref_amount (lBalances x' z) d) = int (ref_amount (lBalances x z) d) - at_addr a z (int (ref_amount c d))"
    and "\<And>d. ref_amount c d \<le> ref_amount (lBalances x a) d"
    and "lAccounts x' = lAccounts x" "lSupply x' = lSupply x" "lNumber x' = lNumber x"
proof -
  have below: "ref_below c (lBalances x a)" using assms by (simp add: ref_debit_def split: if_splits)
  then show le: "ref_amount c d \<le> ref_amount (lBalances x a) d" for d by (simp add: ref_below_iff)
  have x': "x' = x\<lparr>lBalances := (lBalances x)(a := ref_pointwise (-) (lBalances x a) c)\<rparr>"
    using assms below by (simp add: ref_debit_def)
  show "int (ref_amount (lBalances x' z) d) = int (ref_amount (lBalances x z) d) - at_addr a z (int (ref_amount c d))" for z d
    using le [of d] by (auto simp: x' at_addr_def ref_amount_pointwise of_nat_diff)
  show "lAccounts x' = lAccounts x" "lSupply x' = lSupply x" "lNumber x' = lNumber x" by (simp_all add: x')
qed

lemma ref_credit_sel:
  "int (ref_amount (lBalances (ref_credit b c x) z) d) = int (ref_amount (lBalances x z) d) + at_addr b z (int (ref_amount c d))"
  "lAccounts (ref_credit b c x) = lAccounts x" "lSupply (ref_credit b c x) = lSupply x"
  by (simp_all add: ref_credit_def at_addr_def ref_amount_append)

lemma ref_send_transferred:
  assumes "ref_send keccak x a b c = Inr x'"
  shows "transferred ref_coins (ref_keepers keccak blocked bond) x a b c x'"
proof -
  obtain y where y: "ref_debit a c x = Inr y" using assms by (auto simp: ref_send_def)
  note deb = ref_debit_Inr [OF y]
  have x': "x' = (let x' = ref_credit b c y in if lAccounts x' b = None
      then let (acc, x'') = ref_numbered x' (ref_proto keccak b)
           in x''\<lparr>lAccounts := (lAccounts x'')(b \<mapsto> acc)\<rparr> else x')"
    using assms y by (simp add: ref_send_def Let_def)
  have "lBalances x' = lBalances (ref_credit b c y)" "lSupply x' = lSupply x"
    "\<forall>z. z \<noteq> b \<or> lAccounts x b \<noteq> None \<longrightarrow> lAccounts x' z = lAccounts x z"
    "lAccounts x b = None \<longrightarrow> (\<exists>e. lAccounts x' b = Some (EthAcc e))"
    by (auto simp: x' Let_def ref_numbered_def ref_proto_def ref_credit_sel deb)
  then show ?thesis
    using deb ref_credit_sel(1) [of b c y]
    by (auto simp: transferred_def ref_keepers_def ref_coins_def split: option.splits)
qed

interpretation ref_keepers: sdk_keepers ref_coins "ref_keepers keccak blocked bond" keccak
  for keccak blocked bond
proof unfold_locales
  fix x :: ledger and acc :: "amounts AccountI" and a
  show "GetAccount (ref_keepers keccak blocked bond) (SetAccount (ref_keepers keccak blocked bond) x acc) a =
      (if a = GetAddress acc then Some acc else GetAccount (ref_keepers keccak blocked bond) x a)"
    using with_base_address [of acc] by (simp add: ref_keepers_def)
next
  fix x :: ledger and acc :: "amounts AccountI" and a
  assume "GetAccount (ref_keepers keccak blocked bond) x a = Some acc"
  then show "GetAddress acc = a" by (auto simp: ref_keepers_def GetAddress_def split: option.splits)
next
  fix x :: ledger and acc :: "amounts AccountI" and a x'
  assume "NewAccountWithAddress (ref_keepers keccak blocked bond) x a = (acc, x')"
  then show "(\<exists>n. acc = EthAcc ((ProtoAccount keccak)\<lparr>ethBase := emptyBaseAccount\<lparr>baAddress := a, AccountNumber := n\<rparr>\<rparr>)) \<and>
      GetAccount (ref_keepers keccak blocked bond) x' = GetAccount (ref_keepers keccak blocked bond) x \<and>
      BankBalance (ref_keepers keccak blocked bond) x' = BankBalance (ref_keepers keccak blocked bond) x \<and>
      GetSupply (ref_keepers keccak blocked bond) x' = GetSupply (ref_keepers keccak blocked bond) x"
    by (auto simp: ref_keepers_def ref_numbered_def ref_proto_def ProtoAccount_def)
next
  fix x x' :: ledger and b c m
  assume "SendCoinsFromModuleToAccount (ref_keepers keccak blocked bond) x m b c = Inr x'"
  then show "transferred ref_coins (ref_keepers keccak blocked bond) x
      (GetModuleAddress (ref_keepers keccak blocked bond) m) b c x'"
    using ref_send_transferred [of keccak x "ref_module_address m" b c x' blocked bond]
    by (simp add: ref_keepers_def split: if_splits)
next
  fix x x' :: ledger and m c
  assume "BurnCoins (ref_keepers keccak blocked bond) x m c = Inr x'"
  then obtain y where y: "ref_debit (ref_module_address m) c x = Inr y"
    "x' = y\<lparr>lSupply := \<lambda>d. lSupply x d - int (ref_amount c d)\<rparr>"
    by (auto simp: ref_keepers_def)
  then show "(\<forall>z d. BankBalance (ref_keepers keccak blocked bond) x' z d =
      BankBalance (ref_keepers keccak blocked bond) x z d -
        at_addr (GetModuleAddress (ref_keepers keccak blocked bond) m) z (AmountOf ref_coins c d)) \<and>
      (\<forall>d. GetSupply (ref_keepers keccak blocked bond) x' d =
        GetSupply (ref_keepers keccak blocked bond) x d - AmountOf ref_coins c d) \<and>
      GetAccount (ref_keepers keccak blocked bond) x' = GetAccount (ref_keepers keccak blocked bond) x"
    using ref_debit_Inr [OF y(1)] by (simp add: ref_keepers_def ref_coins_def)
next
  fix x x' :: ledger and a b c
  assume "SendCoins (ref_keepers keccak blocked bond) x a b c = Inr x'"
  then show "transferred ref_coins (ref_keepers keccak blocked bond) x a b c x'"
    using ref_send_transferred by (simp add: ref_keepers_def)
next
  fix x x' :: ledger and a m c
  assume "SendCoinsFromAccountToModule (ref_keepers keccak blocked bond) x a m c = Inr x'"
  then show "transferred ref_coins (ref_keepers keccak blocked bond) x a
      (GetModuleAddress (ref_keepers keccak blocked bond) m) c x'"
    using ref_send_transferred [of keccak x a "ref_module_address m" c x' blocked bond]
    by (simp add: ref_keepers_def)
next
  fix x x' :: ledger and n m c
  assume "SendCoinsFromModuleToModule (ref_keepers keccak blocked bond) x m n c = Inr x'"
  then show "transferred ref_coins (ref_keepers keccak blocked bond) x
      (GetModuleAddress (ref_keepers keccak blocked bond) m)
      (GetModuleAddress (ref_keepers keccak blocked bond) n) c x'"
    using ref_send_transferred [of keccak x "ref_module_address m" "ref_module_address n" c x' blocked bond]
    by (simp add: ref_keepers_def)
next
  fix x x' :: ledger and c a
  assume "FundCommunityPool (ref_keepers keccak blocked bond) x c a = Inr x'"
  then show "transferred ref_coins (ref_keepers keccak blocked bond) x a
      (GetModuleAddress (ref_keepers keccak blocked bond) distrModule) c x'"
    using ref_send_transferred [of keccak x a "ref_module_address distrModule" c x' blocked bond]
    by (simp add: ref_keepers_def)
qed (auto simp: ref_keepers_def ref_numbered_def ref_coins_def ref_credit_sel)

end
