(* ===== verification/Evm_Keeper.thy ===== *)
theory Evm_Keeper
  imports State_DB_Commit Sdk_Keepers
begin

text \<open>
  The store behind the \<open>StateDB\<close>: \<^verbatim>\<open>x/evm/keeper/statedb.go\<close> and the account readers of
  \<^verbatim>\<open>x/evm/keeper/keeper.go\<close>.  The module's own KV store holds contract storage under
  (address, key) and code under its hash; nonces and code hashes live in the account keeper and
  balances in the bank, which are parameters.  A stored value is always the 32 bytes of a hash.

  The interpretation at the end discharges the contract \<open>statedb_keeper\<close> that \<open>Commit\<close> relies on,
  so the facts on \<open>Commit\<close> hold for this store.
\<close>

section \<open>Definitions\<close>

record 'x EvmCtx =
  sdkState :: 'x
  storageStore :: "(address \<times> hash, hash) fmap"
  codeStore :: "(hash, bytes) fmap"
  EvmDenom :: string

definition evmModule :: string where
  "evmModule = ''evm''"

definition ek_GetBalance :: "('x, 'c) Keepers \<Rightarrow> 'x EvmCtx \<Rightarrow> address \<Rightarrow> int" where
  "ek_GetBalance K cx addr =
     (if EvmDenom cx = '''' then -1 else BankBalance K (sdkState cx) addr (EvmDenom cx))"

definition ek_GetAccountWithoutBalance ::
    "('x, 'c) Keepers \<Rightarrow> (bytes \<Rightarrow> hash) \<Rightarrow> 'x EvmCtx \<Rightarrow> address \<Rightarrow> AccountArg option" where
  "ek_GetAccountWithoutBalance K keccak cx addr =
     (case GetAccount K (sdkState cx) addr of
        None \<Rightarrow> None
      | Some acct \<Rightarrow>
          let codeHash = (case acct of EthAcc e \<Rightarrow> EthGetCodeHash e | _ \<Rightarrow> keccak [])
          in Some \<lparr>argNonce = GetSequence acct, argBalance = None, argCodeHash = Some codeHash\<rparr>)"

definition ek_GetAccount ::
    "('x, 'c) Keepers \<Rightarrow> (bytes \<Rightarrow> hash) \<Rightarrow> 'x EvmCtx \<Rightarrow> address \<Rightarrow> AccountArg option" where
  "ek_GetAccount K keccak cx addr =
     (case ek_GetAccountWithoutBalance K keccak cx addr of
        None \<Rightarrow> None
      | Some acct \<Rightarrow> Some (acct\<lparr>argBalance := Some (ek_GetBalance K cx addr)\<rparr>))"

definition ek_GetAccountOrEmpty ::
    "('x, 'c) Keepers \<Rightarrow> (bytes \<Rightarrow> hash) \<Rightarrow> 'x EvmCtx \<Rightarrow> address \<Rightarrow> AccountArg" where
  "ek_GetAccountOrEmpty K keccak cx addr =
     (case ek_GetAccount K keccak cx addr of
        Some acct \<Rightarrow> acct
      | None \<Rightarrow> \<lparr>argNonce = 0, argBalance = Some 0, argCodeHash = Some (keccak [])\<rparr>)"

definition ek_GetNonce :: "('x, 'c) Keepers \<Rightarrow> 'x EvmCtx \<Rightarrow> address \<Rightarrow> u64" where
  "ek_GetNonce K cx addr =
     (case GetAccount K (sdkState cx) addr of None \<Rightarrow> 0 | Some acct \<Rightarrow> GetSequence acct)"

definition ek_GetState :: "'x EvmCtx \<Rightarrow> address \<Rightarrow> hash \<Rightarrow> hash" where
  "ek_GetState cx addr key =
     (case fmlookup (storageStore cx) (addr, key) of None \<Rightarrow> 0 | Some value \<Rightarrow> value)"

definition ek_GetCode :: "'x EvmCtx \<Rightarrow> hash \<Rightarrow> bytes option" where
  "ek_GetCode cx codeHash = fmlookup (codeStore cx) codeHash"

text \<open>The iterator over the prefix of an address: its keys in ascending order.\<close>

definition storageKeys :: "'x EvmCtx \<Rightarrow> address \<Rightarrow> hash list" where
  "storageKeys cx addr =
     sorted_list_of_fset (snd |`| ffilter (\<lambda>(a, k). a = addr) (fmdom (storageStore cx)))"

definition ek_ForEachStorage :: "'x EvmCtx \<Rightarrow> address \<Rightarrow> (hash \<times> hash) list" where
  "ek_ForEachStorage cx addr = map (\<lambda>k. (k, ek_GetState cx addr k)) (storageKeys cx addr)"

definition ek_GetAccountStorage :: "'x EvmCtx \<Rightarrow> address \<Rightarrow> (hash \<times> hash) list" where
  "ek_GetAccountStorage cx addr = ek_ForEachStorage cx addr"

definition ek_SetBalance ::
    "'c Coins \<Rightarrow> ('x, 'c) Keepers \<Rightarrow> 'x EvmCtx \<Rightarrow> address \<Rightarrow> int \<Rightarrow> string + 'x EvmCtx" where
  "ek_SetBalance C K cx addr amount =
     (let balance = BankBalance K (sdkState cx) addr (EvmDenom cx);
          delta = amount - balance
      in rbind
          (if delta > 0 then
             let coins = NewCoins C [(EvmDenom cx, delta)] in
             rbind (MintCoins K (sdkState cx) evmModule coins) (\<lambda>x.
               SendCoinsFromModuleToAccount K x evmModule addr coins)
           else if delta < 0 then
             let coins = NewCoins C [(EvmDenom cx, - delta)] in
             rbind (SendCoinsFromAccountToModule K (sdkState cx) addr evmModule coins) (\<lambda>x.
               BurnCoins K x evmModule coins)
           else Inr (sdkState cx))
          (\<lambda>x. Inr (cx\<lparr>sdkState := x\<rparr>)))"

definition ek_SetAccount ::
    "'c Coins \<Rightarrow> ('x, 'c) Keepers \<Rightarrow> 'x EvmCtx \<Rightarrow> address \<Rightarrow> Account \<Rightarrow> string + 'x EvmCtx" where
  "ek_SetAccount C K cx addr acc =
     (let (acct, x) = (case GetAccount K (sdkState cx) addr of
                         Some acct \<Rightarrow> (acct, sdkState cx)
                       | None \<Rightarrow> NewAccountWithAddress K (sdkState cx) addr);
          acct1 = SetSequence acct (Nonce acc);
          acct2 = (case acct1 of EthAcc e \<Rightarrow> EthAcc (EthSetCodeHash e (CodeHash acc)) | _ \<Rightarrow> acct1)
      in ek_SetBalance C K (cx\<lparr>sdkState := SetAccount K x acct2\<rparr>) addr (Balance acc))"

definition ek_SetState :: "'x EvmCtx \<Rightarrow> address \<Rightarrow> hash \<Rightarrow> hash option \<Rightarrow> 'x EvmCtx" where
  "ek_SetState cx addr key value =
     (case value of
        None \<Rightarrow> cx\<lparr>storageStore := fmdrop (addr, key) (storageStore cx)\<rparr>
      | Some v \<Rightarrow> cx\<lparr>storageStore := fmupd (addr, key) v (storageStore cx)\<rparr>)"

definition ek_SetCode :: "'x EvmCtx \<Rightarrow> hash \<Rightarrow> bytes option \<Rightarrow> 'x EvmCtx" where
  "ek_SetCode cx codeHash cd =
     (if len_bytes cd = 0 then cx\<lparr>codeStore := fmdrop codeHash (codeStore cx)\<rparr>
      else cx\<lparr>codeStore := fmupd codeHash (the cd) (codeStore cx)\<rparr>)"

definition ek_DeleteAccount ::
    "'c Coins \<Rightarrow> ('x, 'c) Keepers \<Rightarrow> 'x EvmCtx \<Rightarrow> address \<Rightarrow> string + 'x EvmCtx" where
  "ek_DeleteAccount C K cx addr =
     (case GetAccount K (sdkState cx) addr of
        None \<Rightarrow> Inr cx
      | Some acct \<Rightarrow>
          (case acct of
             EthAcc _ \<Rightarrow>
               rbind (ek_SetBalance C K cx addr 0) (\<lambda>cx.
                 let cx1 = fold (\<lambda>(key, _) cx. ek_SetState cx addr key None) (ek_ForEachStorage cx addr) cx
                 in Inr (cx1\<lparr>sdkState := RemoveAccount K (sdkState cx1) acct\<rparr>))
           | _ \<Rightarrow> Inl ''invalid account type''))"

text \<open>\<^verbatim>\<open>var _ statedb.Keeper = &Keeper{}\<close>.\<close>

definition evm_keeper :: "'c Coins \<Rightarrow> ('x, 'c) Keepers \<Rightarrow> (bytes \<Rightarrow> hash) \<Rightarrow> 'x EvmCtx Keeper" where
  "evm_keeper C K keccak =
     \<lparr>kGetAccount = ek_GetAccount K keccak, kGetState = ek_GetState, kGetCode = ek_GetCode,
      kForEachStorage = ek_ForEachStorage, kSetAccount = ek_SetAccount C K, kSetState = ek_SetState,
      kSetCode = ek_SetCode, kDeleteAccount = ek_DeleteAccount C K\<rparr>"

section \<open>The store invariant\<close>

definition evm_store_ok :: "('x, 'c) Keepers \<Rightarrow> 'x EvmCtx \<Rightarrow> bool" where
  "evm_store_ok K cx \<longleftrightarrow>
     EvmDenom cx \<noteq> '''' \<and>
     (\<exists>b. GetAccount K (sdkState cx) (GetModuleAddress K evmModule) = Some (OtherAcc b)) \<and>
     (\<forall>a k. GetAccount K (sdkState cx) a = None \<longrightarrow> fmlookup (storageStore cx) (a, k) = None)"

definition evm_codeless :: "('x, 'c) Keepers \<Rightarrow> 'x EvmCtx \<Rightarrow> address \<Rightarrow> bool" where
  "evm_codeless K cx a \<longleftrightarrow>
     (case GetAccount K (sdkState cx) a of None \<Rightarrow> False | Some acct \<Rightarrow> \<not> (\<exists>e. acct = EthAcc e))"

lemma storageKeys_set: "set (storageKeys cx a) = {k. fmlookup (storageStore cx) (a, k) \<noteq> None}"
proof -
  have "set (storageKeys cx a) = snd ` {p. p |\<in>| fmdom (storageStore cx) \<and> fst p = a}"
    by (auto simp: storageKeys_def sorted_list_of_fset.rep_eq case_prod_beta)
  then show ?thesis by (force simp: fmlookup_dom_iff)
qed

lemma clear_storage:
  "fold (\<lambda>(key, _) cx. ek_SetState cx a key None) kvs cx =
    cx\<lparr>storageStore := fmfilter (\<lambda>(b, k). b \<noteq> a \<or> k \<notin> fst ` set kvs) (storageStore cx)\<rparr>"
proof (induction kvs arbitrary: cx)
  case Nil
  then show ?case by (simp add: case_prod_beta)
next
  case (Cons kv kvs)
  obtain k v where kv: "kv = (k, v)" by fastforce
  have "fmfilter (\<lambda>(b, l). b \<noteq> a \<or> l \<notin> fst ` set kvs) (fmdrop (a, k) (storageStore cx)) =
      fmfilter (\<lambda>(b, l). b \<noteq> a \<or> l \<notin> fst ` set (kv # kvs)) (storageStore cx)"
    by (rule fmap_ext) (auto simp: kv)
  moreover have "ek_SetState cx a k None = cx\<lparr>storageStore := fmdrop (a, k) (storageStore cx)\<rparr>"
    by (simp add: ek_SetState_def)
  moreover have "storageStore (cx\<lparr>storageStore := m\<rparr>) = m" for m by simp
  ultimately show ?case
    using Cons.IH [of "cx\<lparr>storageStore := fmdrop (a, k) (storageStore cx)\<rparr>"]
    by (simp only: kv fold.simps o_apply prod.case) simp
qed

lemma kGetAccount_evm: "kGetAccount (evm_keeper C K keccak) = ek_GetAccount K keccak"
  by (simp add: evm_keeper_def)

lemma at_evm:
  "at (evm_keeper C K keccak) cx a = (ek_GetAccount K keccak cx a, ek_GetState cx a)"
  by (simp add: at_def evm_keeper_def)

text \<open>An account as the EVM sees it, in terms of the SDK account and the bank.\<close>

definition acct_view :: "(bytes \<Rightarrow> hash) \<Rightarrow> 'c AccountI \<Rightarrow> int \<Rightarrow> AccountArg" where
  "acct_view keccak acct bal =
     \<lparr>argNonce = GetSequence acct, argBalance = Some bal,
      argCodeHash = Some (case acct of EthAcc e \<Rightarrow> EthGetCodeHash e | _ \<Rightarrow> keccak [])\<rparr>"

lemma ek_GetAccount_view:
  "EvmDenom cx \<noteq> '''' \<Longrightarrow>
    ek_GetAccount K keccak cx a =
      map_option (\<lambda>acct. acct_view keccak acct (BankBalance K (sdkState cx) a (EvmDenom cx)))
        (GetAccount K (sdkState cx) a)"
  by (cases "GetAccount K (sdkState cx) a")
    (simp_all add: ek_GetAccount_def ek_GetAccountWithoutBalance_def ek_GetBalance_def acct_view_def Let_def)

context sdk_keepers
begin

lemma one_coin: "0 \<le> n \<Longrightarrow> AmountOf C (NewCoins C [(den, n)]) d = (if d = den then n else 0)"
  by (subst AmountOf_NewCoins) (auto simp: coin_total_def)

text \<open>\<open>SetBalance\<close> sets one balance and changes no other, nor any account.\<close>

lemma ek_SetBalance_law:
  assumes run: "ek_SetBalance C K cx a n = Inr cx'"
    and exists: "GetAccount K (sdkState cx) a \<noteq> None" "GetAccount K (sdkState cx) (GetModuleAddress K evmModule) \<noteq> None"
  shows "\<exists>x. cx' = cx\<lparr>sdkState := x\<rparr> \<and> GetAccount K x = GetAccount K (sdkState cx) \<and>
    (\<forall>b. BankBalance K x b (EvmDenom cx) =
      (if b = a then n else BankBalance K (sdkState cx) b (EvmDenom cx)))"
proof -
  let ?x = "sdkState cx" and ?d = "EvmDenom cx" and ?m = "GetModuleAddress K evmModule"
  let ?delta = "n - BankBalance K ?x a ?d"
  consider (mint) "0 < ?delta" | (burn) "?delta < 0" | (same) "?delta = 0" by linarith
  then show ?thesis
  proof cases
    case mint
    let ?c = "NewCoins C [(?d, ?delta)]"
    obtain y x where y: "MintCoins K ?x evmModule ?c = Inr y"
        "SendCoinsFromModuleToAccount K y evmModule a ?c = Inr x" "cx' = cx\<lparr>sdkState := x\<rparr>"
      using run mint by (auto simp: ek_SetBalance_def Let_def)
    note one = MintCoins_law [OF y(1)] and two = ModuleToAccount_law [OF y(2)]
    have "GetAccount K x z = GetAccount K ?x z" for z
      using one two exists(1) by (simp add: transferred_def)
    moreover have "BankBalance K x b ?d = (if b = a then n else BankBalance K ?x b ?d)" for b
      using one two mint one_coin [of ?delta ?d ?d] by (simp add: transferred_def at_addr_def)
    ultimately show ?thesis using y(3) by blast
  next
    case burn
    let ?c = "NewCoins C [(?d, - ?delta)]"
    obtain y x where y: "SendCoinsFromAccountToModule K ?x a evmModule ?c = Inr y"
        "BurnCoins K y evmModule ?c = Inr x" "cx' = cx\<lparr>sdkState := x\<rparr>"
      using run burn by (auto simp: ek_SetBalance_def Let_def)
    note one = AccountToModule_law [OF y(1)] and two = BurnCoins_law [OF y(2)]
    have "GetAccount K x z = GetAccount K ?x z" for z
      using one two exists(2) by (simp add: transferred_def)
    moreover have "BankBalance K x b ?d = (if b = a then n else BankBalance K ?x b ?d)" for b
      using one two burn one_coin [of "- ?delta" ?d ?d] by (simp add: transferred_def at_addr_def)
    ultimately show ?thesis using y(3) by blast
  next
    case same
    then have "cx' = cx\<lparr>sdkState := ?x\<rparr>" using run by (simp add: ek_SetBalance_def Let_def)
    then show ?thesis using same by (intro exI [of _ ?x]) simp
  qed
qed

lemma ek_SetAccount_law:
  assumes ok: "evm_store_ok K cx" and run: "ek_SetAccount C K cx a acc = Inr cx'"
    and code: "evm_codeless K cx a \<longrightarrow> CodeHash acc = keccak []"
  shows "evm_store_ok K cx' \<and>
    at (evm_keeper C K keccak) cx' b =
      (if b = a then (Some (arg_of acc), ek_GetState cx a) else at (evm_keeper C K keccak) cx b) \<and>
    (evm_codeless K cx' b \<longrightarrow> evm_codeless K cx b)"
proof -
  let ?m = "GetModuleAddress K evmModule"
  obtain acct x where ax: "(case GetAccount K (sdkState cx) a of
      Some acct \<Rightarrow> (acct, sdkState cx) | None \<Rightarrow> NewAccountWithAddress K (sdkState cx) a) = (acct, x)"
    by fastforce
  have acct: "GetAddress acct = a" "GetAccount K x = GetAccount K (sdkState cx)"
      "BankBalance K x = BankBalance K (sdkState cx)"
      "(\<exists>e. acct = EthAcc e) \<longleftrightarrow> \<not> evm_codeless K cx a"
      "GetAccount K (sdkState cx) a = Some acct \<or> (GetAccount K (sdkState cx) a = None \<and> (\<exists>e. acct = EthAcc e))"
    using ax GetAccount_address [of "sdkState cx" a acct] NewAccountWithAddress_law [of "sdkState cx" a acct x]
    by (auto simp: evm_codeless_def GetAddress_def split: option.splits)
  define acct2 where "acct2 = (case SetSequence acct (Nonce acc) of
      EthAcc e \<Rightarrow> EthAcc (EthSetCodeHash e (CodeHash acc)) | _ \<Rightarrow> SetSequence acct (Nonce acc))"
  have acct2: "GetAddress acct2 = a" "GetSequence acct2 = Nonce acc"
      "(\<exists>e. acct2 = EthAcc e) \<longleftrightarrow> \<not> evm_codeless K cx a"
      "acct_view keccak acct2 n = \<lparr>argNonce = Nonce acc, argBalance = Some n,
         argCodeHash = Some (if evm_codeless K cx a then keccak [] else CodeHash acc)\<rparr>"
      "acct = OtherAcc bb \<Longrightarrow> \<exists>bb'. acct2 = OtherAcc bb'" for n bb
    using acct(1,4)
    by (cases acct; simp add: acct2_def SetSequence_def GetAddress_def GetSequence_def acct_view_def
        EthSetCodeHash_def EthGetCodeHash_def)+
  let ?cx = "cx\<lparr>sdkState := SetAccount K x acct2\<rparr>"
  have bal: "ek_SetBalance C K ?cx a (Balance acc) = Inr cx'"
    using run ax by (simp add: ek_SetAccount_def acct2_def Let_def)
  have get: "GetAccount K (sdkState ?cx) b = (if b = a then Some acct2 else GetAccount K (sdkState cx) b)" for b
    using acct(2) acct2(1) by (simp add: GetAccount_SetAccount)
  have modacc: "\<exists>bb. GetAccount K (sdkState ?cx) ?m = Some (OtherAcc bb)"
    using ok acct(5) acct2(5) unfolding get evm_store_ok_def by (cases "?m = a") auto
  obtain y where y: "cx' = ?cx\<lparr>sdkState := y\<rparr>" "GetAccount K y = GetAccount K (sdkState ?cx)"
    "\<And>b. BankBalance K y b (EvmDenom cx) = (if b = a then Balance acc else BankBalance K (sdkState ?cx) b (EvmDenom cx))"
    using ek_SetBalance_law [OF bal] get [of a] modacc by auto
  have den: "EvmDenom cx \<noteq> ''''" "EvmDenom cx' = EvmDenom cx" using ok y(1) by (simp_all add: evm_store_ok_def)
  have "evm_store_ok K cx'"
    using ok modacc get y(1,2) by (auto simp: evm_store_ok_def)
  moreover have "at (evm_keeper C K keccak) cx' b =
      (if b = a then (Some (arg_of acc), ek_GetState cx a) else at (evm_keeper C K keccak) cx b)"
    using den code acct(3) acct2(4) y get [of b]
    by (auto simp: at_evm ek_GetAccount_view ek_GetState_def [abs_def] arg_of_def Balance_SetAccount)
  moreover have "evm_codeless K cx' b \<longrightarrow> evm_codeless K cx b"
  proof -
    have "evm_codeless K cx' b = (if b = a then \<not> (\<exists>e. acct2 = EthAcc e) else evm_codeless K cx b)"
      using y(1,2) get [of b] by (simp add: evm_codeless_def)
    then show ?thesis using acct2(3) by auto
  qed
  ultimately show ?thesis by blast
qed

end

context sdk_keepers
begin

lemma ek_DeleteAccount_law:
  assumes ok: "evm_store_ok K cx" and run: "ek_DeleteAccount C K cx a = Inr cx'"
  shows "evm_store_ok K cx' \<and>
    at (evm_keeper C K keccak) cx' b = (if b = a then (None, \<lambda>_. 0) else at (evm_keeper C K keccak) cx b) \<and>
    (evm_codeless K cx' b \<longrightarrow> evm_codeless K cx b)"
proof (cases "GetAccount K (sdkState cx) a")
  case None
  then have "cx' = cx" using run by (simp add: ek_DeleteAccount_def)
  then show ?thesis using ok None
    by (auto simp: at_evm ek_GetAccount_view ek_GetState_def [abs_def] evm_store_ok_def)
next
  case (Some acct)
  then obtain e cx1 where e: "acct = EthAcc e" and bal: "ek_SetBalance C K cx a 0 = Inr cx1"
    and run': "cx' = (let cx2 = fold (\<lambda>(key, _) cx. ek_SetState cx a key None) (ek_ForEachStorage cx1 a) cx1
      in cx2\<lparr>sdkState := RemoveAccount K (sdkState cx2) acct\<rparr>)"
    using run by (auto simp: ek_DeleteAccount_def Let_def split: AccountI.splits)
  have a: "GetAddress acct = a" using GetAccount_address [OF Some] .
  obtain x where x: "cx1 = cx\<lparr>sdkState := x\<rparr>" "GetAccount K x = GetAccount K (sdkState cx)"
    "\<And>b. BankBalance K x b (EvmDenom cx) = (if b = a then 0 else BankBalance K (sdkState cx) b (EvmDenom cx))"
    using ek_SetBalance_law [OF bal] Some ok by (auto simp: evm_store_ok_def)
  have keys: "fst ` set (ek_ForEachStorage cx1 a) = {k. fmlookup (storageStore cx) (a, k) \<noteq> None}"
    using storageKeys_set [of cx1 a] by (simp add: ek_ForEachStorage_def image_image x(1))
  let ?cx2 = "fold (\<lambda>(key, _) cx. ek_SetState cx a key None) (ek_ForEachStorage cx1 a) cx1"
  have cx2: "sdkState ?cx2 = x" "EvmDenom ?cx2 = EvmDenom cx"
    "fmlookup (storageStore ?cx2) (b, k) = (if b = a then None else fmlookup (storageStore cx) (b, k))" for b k
    using keys by (auto simp: clear_storage x(1))
  have fin: "sdkState cx' = RemoveAccount K x acct" "EvmDenom cx' = EvmDenom cx"
    "fmlookup (storageStore cx') (b, k) = (if b = a then None else fmlookup (storageStore cx) (b, k))" for b k
    using cx2 by (simp_all add: run' Let_def)
  have get: "GetAccount K (sdkState cx') b = (if b = a then None else GetAccount K (sdkState cx) b)" for b
    by (simp add: fin(1) RemoveAccount_law a x(2))
  have den: "EvmDenom cx \<noteq> ''''" using ok by (simp add: evm_store_ok_def)
  have "a \<noteq> GetModuleAddress K evmModule" using ok Some e by (auto simp: evm_store_ok_def)
  then have "evm_store_ok K cx'"
    using ok get fin(2,3) by (auto simp: evm_store_ok_def)
  moreover have "at (evm_keeper C K keccak) cx' b =
      (if b = a then (None, \<lambda>_. 0) else at (evm_keeper C K keccak) cx b)"
    using den fin x(3) get [of b]
    by (auto simp: at_evm ek_GetAccount_view ek_GetState_def [abs_def] RemoveAccount_law)
  moreover have "evm_codeless K cx' b = (if b = a then False else evm_codeless K cx b)"
    using get [of b] by (simp add: evm_codeless_def)
  ultimately show ?thesis by simp
qed

lemma ek_SetState_law:
  assumes "evm_store_ok K cx" and "kGetAccount (evm_keeper C K keccak) cx a \<noteq> None"
    and "cx' = ek_SetState cx a k (Some v)"
  shows "evm_store_ok K cx' \<and>
    at (evm_keeper C K keccak) cx' b =
      (if b = a then (kGetAccount (evm_keeper C K keccak) cx a, (ek_GetState cx a)(k := v))
       else at (evm_keeper C K keccak) cx b) \<and>
    (evm_codeless K cx' b \<longrightarrow> evm_codeless K cx b)"
proof -
  have "GetAccount K (sdkState cx) a \<noteq> None"
    using assms(1,2) by (auto simp: kGetAccount_evm ek_GetAccount_view evm_store_ok_def)
  with assms show ?thesis
    by (auto simp: ek_SetState_def evm_store_ok_def at_evm kGetAccount_evm ek_GetAccount_view
        ek_GetState_def [abs_def] evm_codeless_def)
qed

lemma ek_SetCode_law:
  assumes "evm_store_ok K cx" and "cx' = ek_SetCode cx h c"
  shows "evm_store_ok K cx' \<and> at (evm_keeper C K keccak) cx' b = at (evm_keeper C K keccak) cx b \<and>
    (evm_codeless K cx' b \<longrightarrow> evm_codeless K cx b)"
  using assms
  by (auto simp: ek_SetCode_def evm_store_ok_def at_evm ek_GetAccount_view ek_GetState_def [abs_def]
      evm_codeless_def)

end

sublocale sdk_keepers \<subseteq> ek: statedb_keeper "evm_keeper C K keccak" keccak "evm_store_ok K" "evm_codeless K"
proof unfold_locales
  fix cx a acc cx' b
  assume "evm_store_ok K cx" "kSetAccount (evm_keeper C K keccak) cx a acc = Inr cx'"
    "evm_codeless K cx a \<longrightarrow> CodeHash acc = keccak []"
  then show "evm_store_ok K cx' \<and>
      at (evm_keeper C K keccak) cx' b =
        (if b = a then (Some (arg_of acc), kGetState (evm_keeper C K keccak) cx a)
         else at (evm_keeper C K keccak) cx b) \<and>
      (evm_codeless K cx' b \<longrightarrow> evm_codeless K cx b)"
    using ek_SetAccount_law [of cx a acc cx' b] by (simp add: evm_keeper_def)
next
  fix cx a cx' b
  assume "evm_store_ok K cx" "kDeleteAccount (evm_keeper C K keccak) cx a = Inr cx'"
  then show "evm_store_ok K cx' \<and>
      at (evm_keeper C K keccak) cx' b = (if b = a then (None, \<lambda>_. 0) else at (evm_keeper C K keccak) cx b) \<and>
      (evm_codeless K cx' b \<longrightarrow> evm_codeless K cx b)"
    using ek_DeleteAccount_law [of cx a cx' b] by (simp add: evm_keeper_def)
next
  fix cx a cx' k v b
  assume "evm_store_ok K cx" "kGetAccount (evm_keeper C K keccak) cx a \<noteq> None"
    "cx' = kSetState (evm_keeper C K keccak) cx a k (Some v)"
  then show "evm_store_ok K cx' \<and>
      at (evm_keeper C K keccak) cx' b =
        (if b = a then (kGetAccount (evm_keeper C K keccak) cx a, (kGetState (evm_keeper C K keccak) cx a)(k := v))
         else at (evm_keeper C K keccak) cx b) \<and>
      (evm_codeless K cx' b \<longrightarrow> evm_codeless K cx b)"
    using ek_SetState_law [of cx a cx' k v b] by (simp add: evm_keeper_def)
next
  fix cx cx' h c b
  assume "evm_store_ok K cx" "cx' = kSetCode (evm_keeper C K keccak) cx h c"
  then show "evm_store_ok K cx' \<and> at (evm_keeper C K keccak) cx' b = at (evm_keeper C K keccak) cx b \<and>
      (evm_codeless K cx' b \<longrightarrow> evm_codeless K cx b)"
    using ek_SetCode_law [of cx cx' h c b] by (simp add: evm_keeper_def)
qed

section \<open>Committing to this store\<close>

text \<open>The part of an account that \<open>Commit\<close> writes per address (code is stored under its hash).\<close>

definition acct_fields :: "acct \<Rightarrow> u64 \<times> int \<times> hash \<times> (hash \<Rightarrow> hash)" where
  "acct_fields x = (aNonce x, aBalance x, aCodeHash x, aStorage x)"

definition survives :: "acct \<Rightarrow> (u64 \<times> int \<times> hash \<times> (hash \<Rightarrow> hash)) option" where
  "survives x = (if aSuicided x then None else Some (acct_fields x))"

lemma stored_fields:
  "map_option acct_fields (stored E a) =
    map_option (\<lambda>acc. (argNonce acc, case argBalance acc of None \<Rightarrow> 0 | Some b \<Rightarrow> b,
        case argCodeHash acc of None \<Rightarrow> eEmptyHash E | Some h \<Rightarrow> h, kGetState (eKeeper E) (eCtx E) a))
      (kGetAccount (eKeeper E) (eCtx E) a)"
  by (cases "kGetAccount (eKeeper E) (eCtx E) a")
    (auto simp: stored_def stored_acct_def acct_fields_def committed_def Let_def)

lemma stored_at_cong:
  assumes "at (eKeeper E) (eCtx E) a = at (eKeeper E) (eCtx E') a" and "eKeeper E' = eKeeper E"
    and "eKeccak E' = eKeccak E"
  shows "map_option acct_fields (stored E a) = map_option acct_fields (stored E' a)"
proof -
  have h: "eEmptyHash E' = eEmptyHash E" using assms(3) by (simp add: eEmptyHash_def)
  show ?thesis using assms(1,2) unfolding stored_fields h by (simp add: at_def)
qed

lemma wAcct_New: "wAcct (world_of (New cx kp keccak cfg)) a = stored (env_of (New cx kp keccak cfg)) a"
  by (simp add: wAcct_world_of New_def)

lemma env_New:
  "env_of (New cx kp keccak cfg) = \<lparr>eKeeper = kp, eCtx = cx, eKeccak = keccak, eTx = cfg\<rparr>"
  by (simp add: env_of_def New_def)

context sdk_keepers
begin

lemma commit_store_ok:
  fixes cx :: "'x EvmCtx"
  assumes run: "calls exec cs (New cx (evm_keeper C K keccak) keccak cfg) = Inr (s, rs)"
    and ok: "evm_store_ok K cx"
    and code: "\<And>a x. wAcct (world_of s) a = Some x \<Longrightarrow> \<not> aSuicided x \<Longrightarrow> evm_codeless K cx a \<Longrightarrow>
      aCodeHash x = keccak []"
    and com: "Commit s = Inr s'"
  shows "evm_store_ok K (ctx s')"
proof -
  let ?kp = "evm_keeper C K keccak"
  obtain S where sim: "sim (env_of (New cx ?kp keccak cfg)) s S" using sim_reached [OF run] by blast
  have s: "keeper s = ?kp" "ctx s = cx" "Keccak256 s = keccak"
    using sim_inv(3) [OF sim] unfolding env_New by (simp_all add: env_of_def)
  have "ek.code_ok s" using code by (auto simp: ek.code_ok_def s(2))
  from ek.Commit_correct(2) [OF sim_inv(1) [OF sim] s(1) _ this com] show ?thesis using ok s(2) by simp
qed

lemma commit_world:
  fixes cx :: "'x EvmCtx"
  assumes run: "calls exec cs (New cx (evm_keeper C K keccak) keccak cfg) = Inr (s, rs)"
    and ok: "evm_store_ok K cx"
    and code: "\<And>a x. wAcct (world_of s) a = Some x \<Longrightarrow> \<not> aSuicided x \<Longrightarrow> evm_codeless K cx a \<Longrightarrow>
      aCodeHash x = keccak []"
    and com: "Commit s = Inr s'" and a: "a \<in> resets (entries (jrnl s)) \<longrightarrow> a \<in> dirtied (entries (jrnl s))"
  shows "map_option acct_fields (wAcct (world_of (New (ctx s') (evm_keeper C K keccak) keccak cfg')) a) =
      Option.bind (wAcct (world_of s) a) survives" and "evm_store_ok K (ctx s')"
proof -
  let ?kp = "evm_keeper C K keccak"
  obtain S where sim: "sim (env_of (New cx ?kp keccak cfg)) s S" using sim_reached [OF run] by blast
  note inv = sim_inv(1) [OF sim] and env = sim_inv(3) [OF sim] and root = sim_inv(5) [OF sim]
  have s: "keeper s = ?kp" "ctx s = cx" "Keccak256 s = keccak"
    using env unfolding env_New by (simp_all add: env_of_def)
  have code': "ek.code_ok s" using code by (auto simp: ek.code_ok_def s(2))
  note cor = ek.Commit_correct [OF inv s(1) _ code' com] 
  show "evm_store_ok K (ctx s')" using cor(2) ok s(2) by simp
  let ?E = "env_of (New (ctx s') ?kp keccak cfg')"
  show "map_option acct_fields (wAcct (world_of (New (ctx s') ?kp keccak cfg')) a) =
      Option.bind (wAcct (world_of s) a) survives"
  proof (cases "a \<in> dirtied (entries (jrnl s))")
    case True
    then obtain x where x: "wAcct (world_of s) a = Some x" "at ?kp (ctx s') a = ek.persisted x"
      using cor(3) ok s(2) by blast
    have "map_option acct_fields (stored ?E a) = survives x"
      using x(2) unfolding stored_fields env_New
      by (auto simp: at_def ek.persisted_def survives_def acct_fields_def split: if_splits)
    then show ?thesis using x(1) by (simp add: wAcct_New)
  next
    case False
    have "at ?kp (ctx s') a = at ?kp cx a" using cor(4) [OF _ False] ok s(2) by simp
    then have "map_option acct_fields (stored ?E a) = map_option acct_fields (stored (env_of s) a)"
      by (intro stored_at_cong) (simp_all add: env env_New)
    moreover have "wAcct (world_of s) a = stored (env_of s) a"
      using untouched_stored [OF root False] a False by blast
    moreover have "Option.bind (stored (env_of s) a) survives = map_option acct_fields (stored (env_of s) a)"
      by (cases "kGetAccount (eKeeper (env_of s)) (eCtx (env_of s)) a")
        (simp_all add: stored_def stored_acct_def survives_def Let_def)
    ultimately show ?thesis by (simp add: wAcct_New)
  qed
qed

end

section \<open>Properties\<close>

text \<open>A concrete chain: an EVM module account, a contract-free store.\<close>

definition ref_evm :: "ledger EvmCtx" where
  "ref_evm =
     \<lparr>sdkState = \<lparr>lAccounts = (\<lambda>a. if a = ref_module_address evmModule then Some (OtherAcc emptyBaseAccount) else None),
        lBalances = (\<lambda>_. []), lSupply = (\<lambda>_. 0), lNumber = 0\<rparr>,
      storageStore = fmempty, codeStore = fmempty, EvmDenom = ''aevmos''\<rparr>"

definition ref_evm_keeper :: "ledger EvmCtx Keeper" where
  "ref_evm_keeper = evm_keeper ref_coins (ref_keepers (\<lambda>_. 0) (\<lambda>_. False) ''aevmos'') (\<lambda>_. 0)"

lemma ref_evm_ok: "evm_store_ok (ref_keepers (\<lambda>_. 0) (\<lambda>_. False) ''aevmos'') ref_evm"
  by (simp add: evm_store_ok_def ref_evm_def ref_keepers_def)

definition ref_calls :: "call list" where
  "ref_calls = [CSetNonce 1 7, CSetState 1 3 4]"

definition ref_run :: "panic + (ledger EvmCtx StateDB \<times> reply list)" where
  "ref_run = calls exec ref_calls (New ref_evm ref_evm_keeper (\<lambda>_. 0) (NewEmptyTxConfig 0))"

lemma ref_run_commits: "case ref_run of Inl _ \<Rightarrow> False | Inr (s, _) \<Rightarrow> \<not> isl (Commit s)"
  by code_simp

lemma ref_run_module:
  "case ref_run of Inl _ \<Rightarrow> False | Inr (s, _) \<Rightarrow>
    (case wAcct (world_of s) (ref_module_address evmModule) of None \<Rightarrow> True | Some x \<Rightarrow> aCodeHash x = 0)"
  by code_simp

lemma ref_run_world:
  "case ref_run of Inl _ \<Rightarrow> False | Inr (s, _) \<Rightarrow>
    (case wAcct (world_of s) 1 of None \<Rightarrow> False
     | Some x \<Rightarrow> \<not> aSuicided x \<and> aNonce x = 7 \<and> aStorage x 3 = 4) \<and>
    list_ex (\<lambda>e. Dirtied e = Some 1) (entries (jrnl s))"
  by code_simp

text \<open>
  C2.  \<^verbatim>\<open>Commit\<close> persists the world.  After any sequence of calls on a new \<open>StateDB\<close> over the EVM
  keeper, when \<^verbatim>\<open>Commit\<close> succeeds, a new \<open>StateDB\<close> over the written store reads, at every
  address, the nonce, balance, code hash and storage that the old one had, and no account where the
  old one had a destructed account.  The addresses excepted are those that were only replaced
  by \<^verbatim>\<open>CreateAccount\<close> and not touched since; the code hash of an account that is not an Ethereum
  account has to be that of no code.
\<close>

theorem commit_persists_world:
  fixes cx :: "'x EvmCtx"
  assumes "sdk_keepers C K keccak"
    and "calls exec cs (New cx (evm_keeper C K keccak) keccak cfg) = Inr (s, rs)" and "evm_store_ok K cx"
    and code: "\<forall>a x. wAcct (world_of s) a = Some x \<and> \<not> aSuicided x \<and> evm_codeless K cx a \<longrightarrow>
      aCodeHash x = keccak []"
    and "Commit s = Inr s'" and "a \<in> resets (entries (jrnl s)) \<longrightarrow> a \<in> dirtied (entries (jrnl s))"
  shows "map_option acct_fields (wAcct (world_of (New (ctx s') (evm_keeper C K keccak) keccak cfg')) a) =
      Option.bind (wAcct (world_of s) a) survives \<and> evm_store_ok K (ctx s')"
  by (rule conjI [OF sdk_keepers.commit_world [OF assms(1-3) _ assms(5,6)]]) (use code in blast)+

theorem commit_persists_world_witness:
  "\<exists>s rs s'. ref_run = Inr (s, rs) \<and> Commit s = Inr s' \<and>
    (case map_option acct_fields (wAcct (world_of (New (ctx s') ref_evm_keeper (\<lambda>_. 0) (NewEmptyTxConfig 0))) 1) of
       None \<Rightarrow> False | Some (n, b, h, st) \<Rightarrow> n = 7 \<and> st 3 = 4)"
proof -
  let ?K = "ref_keepers (\<lambda>_. 0) (\<lambda>_. False) ''aevmos''" and ?m = "ref_module_address evmModule"
  obtain s rs where run: "ref_run = Inr (s, rs)" using ref_run_commits by (auto split: sum.splits)
  obtain s' where com: "Commit s = Inr s'"
    using ref_run_commits unfolding run by (cases "Commit s") auto
  have run': "calls exec ref_calls (New ref_evm (evm_keeper ref_coins ?K (\<lambda>_. 0)) (\<lambda>_. 0) (NewEmptyTxConfig 0)) = Inr (s, rs)"
    using run by (simp add: ref_run_def ref_evm_keeper_def)
  have "aCodeHash x = (0 :: hash)"
    if "wAcct (world_of s) a = Some x" "\<not> aSuicided x" "evm_codeless ?K ref_evm a" for a x
  proof -
    have "a = ?m" using that(3)
      by (auto simp: evm_codeless_def ref_keepers_def ref_evm_def split: option.splits if_splits)
    then show ?thesis using ref_run_module that(1) unfolding run by simp
  qed
  then have code: "\<forall>a x. wAcct (world_of s) a = Some x \<and> \<not> aSuicided x \<and> evm_codeless ?K ref_evm a \<longrightarrow>
      aCodeHash x = 0" by blast
  have dirty: "1 \<in> dirtied (entries (jrnl s))"
    using ref_run_world unfolding run by (auto simp: dirtied_def list_ex_iff)
  obtain x where x: "wAcct (world_of s) 1 = Some x" "\<not> aSuicided x" "aNonce x = 7" "aStorage x 3 = 4"
    using ref_run_world unfolding run by (auto split: option.splits)
  have "map_option acct_fields (wAcct (world_of (New (ctx s') ref_evm_keeper (\<lambda>_. 0) (NewEmptyTxConfig 0))) 1) =
      Some (acct_fields x)"
    using commit_persists_world [OF ref_keepers.sdk_keepers_axioms run' ref_evm_ok code com, of 1 "NewEmptyTxConfig 0"]
      dirty x(1,2) by (simp add: survives_def ref_evm_keeper_def)
  with run com x(3,4) show ?thesis by (intro exI [of _ s] exI [of _ rs] exI [of _ s']) (auto simp: acct_fields_def)
qed

text \<open>
  \<^verbatim>\<open>Commit\<close> never panics: after any sequence of calls on a new \<open>StateDB\<close>, over any
  keeper, every dirty address has its object, so \<^verbatim>\<open>Commit\<close> either writes the state or returns the
  keeper's error.
\<close>

theorem commit_never_panics:
  assumes "calls exec cs (New cx kp keccak cfg) = Inr (s, rs)"
  shows "Commit s \<noteq> Inl (Panicked p)"
proof -
  obtain S where "sim (env_of (New cx kp keccak cfg)) s S" using sim_reached [OF assms] by blast
  then show ?thesis using Commit_no_panic [OF sim_inv(1)] by blast
qed

theorem commit_never_panics_witness:
  "\<exists>s rs. ref_run = Inr (s, rs) \<and> Commit s \<noteq> Inl (Panicked (Panic ''nil pointer''))"
proof -
  obtain s rs where run: "ref_run = Inr (s, rs)" using ref_run_commits by (auto split: sum.splits)
  then show ?thesis using commit_never_panics [OF run [unfolded ref_run_def]] by blast
qed

end
