(* ===== verification/Addresses.thy ===== *)
theory Addresses
  imports Prelude
begin

text \<open>
  Address strings.  The Bech32 codec of the SDK and the hexadecimal codec of go-ethereum are not part
  of this repository: they are the records \<open>Bech32\<close> and \<open>EthLib\<close>, and the locales \<open>bech32\<close> and
  \<open>eth_lib\<close> state that decoding undoes encoding.  An account address is taken to have the twenty
  bytes of an Ethereum address; \<open>nilAcc\<close> is the nil address a failed decoding yields.  The checks of
  \<^verbatim>\<open>types/validation.go\<close> are modelled on top of them.
\<close>

section \<open>Bech32\<close>

record Bech32 =
  AccAddressFromBech32 :: "string \<Rightarrow> string + address"
  AccString :: "address \<Rightarrow> string"
  nilAcc :: address

definition MustAccAddressFromBech32 :: "Bech32 \<Rightarrow> string \<Rightarrow> failure + address" where
  "MustAccAddressFromBech32 B s =
     (case AccAddressFromBech32 B s of Inl e \<Rightarrow> Inl (Panicked (Panic e)) | Inr a \<Rightarrow> Inr a)"

definition badAddress :: "Bech32 \<Rightarrow> string \<Rightarrow> bool" where
  "badAddress B s = (case AccAddressFromBech32 B s of Inl _ \<Rightarrow> True | Inr _ \<Rightarrow> False)"

lemma Must_Inr [simp]: "MustAccAddressFromBech32 B s = Inr a \<longleftrightarrow> AccAddressFromBech32 B s = Inr a"
  by (simp add: MustAccAddressFromBech32_def split: sum.splits)

text \<open>Every encoded address decodes to itself, and the empty string is not an address.\<close>

locale bech32 =
  fixes B :: Bech32
  assumes Bech_String: "AccAddressFromBech32 B (AccString B a) = Inr a"
    and Bech_empty: "\<exists>e. AccAddressFromBech32 B '''' = Inl e"
begin

lemma AccString_nonempty: "AccString B a \<noteq> ''''"
  by (metis Bech_String Bech_empty sum.distinct(1))

lemma Bech_nonempty: "AccAddressFromBech32 B s = Inr a \<Longrightarrow> s \<noteq> ''''"
  using Bech_empty by (metis sum.distinct(1))

lemma AccString_inject [simp]: "AccString B a = AccString B b \<longleftrightarrow> a = b"
  by (metis Bech_String sum.inject(2))

end

section \<open>Hexadecimal addresses\<close>

record EthLib =
  HexToAddress :: "string \<Rightarrow> address"
  HexToHash :: "string \<Rightarrow> hash"
  HashHex :: "hash \<Rightarrow> string"
  AddressHex :: "address \<Rightarrow> string"
  IsHexAddress :: "string \<Rightarrow> bool"
  CreateAddress :: "address \<Rightarrow> u64 \<Rightarrow> address"

locale eth_lib =
  fixes H :: EthLib
  assumes Hex_String: "HexToAddress H (AddressHex H a) = a" and Hex_valid: "IsHexAddress H (AddressHex H a)"
    and Hash_String: "HexToHash H (HashHex H h) = h" and Hex_nonempty: "AddressHex H a \<noteq> ''''"

definition IsEmptyHash :: "EthLib \<Rightarrow> string \<Rightarrow> bool" where
  "IsEmptyHash H h \<longleftrightarrow> HexToHash H h = 0"

definition IsZeroAddress :: "EthLib \<Rightarrow> string \<Rightarrow> bool" where
  "IsZeroAddress H s \<longleftrightarrow> HexToAddress H s = 0"

definition ValidateAddress :: "EthLib \<Rightarrow> string \<Rightarrow> string option" where
  "ValidateAddress H s = (if \<not> IsHexAddress H s then Some ''is not a valid ethereum hex address'' else None)"

definition ValidateNonZeroAddress :: "EthLib \<Rightarrow> string \<Rightarrow> string option" where
  "ValidateNonZeroAddress H s = (if IsZeroAddress H s then Some ''must not be zero'' else ValidateAddress H s)"

section \<open>Reference instance: addresses as strings of bits\<close>

text \<open>The bits of a number of at most \<open>k\<close> bits, the lowest first; an address has a mark before them.\<close>

fun ref_bits :: "nat \<Rightarrow> int \<Rightarrow> string" where
  "ref_bits 0 n = []"
| "ref_bits (Suc k) n = (if n = 0 then [] else (if odd n then CHR ''1'' else CHR ''0'') # ref_bits k (n div 2))"

fun ref_value :: "string \<Rightarrow> int" where
  "ref_value [] = 0"
| "ref_value (c # cs) = (if c = CHR ''1'' then 1 else 0) + 2 * ref_value cs"

definition ref_encode :: "address \<Rightarrow> string" where
  "ref_encode a = CHR ''x'' # ref_bits 160 (uint a)"

definition ref_hash_encode :: "hash \<Rightarrow> string" where
  "ref_hash_encode a = CHR ''x'' # ref_bits 256 (uint a)"

definition ref_hash_decode :: "string \<Rightarrow> hash" where
  "ref_hash_decode s = word_of_int (ref_value (tl s))"

definition ref_valid :: "string \<Rightarrow> bool" where
  "ref_valid s \<longleftrightarrow> s \<noteq> [] \<and> list_all (\<lambda>c. c = CHR ''0'' \<or> c = CHR ''1'') (tl s)"

definition ref_decode :: "string \<Rightarrow> address" where
  "ref_decode s = word_of_int (ref_value (tl s))"

definition ref_codec :: Bech32 where
  "ref_codec = \<lparr>AccAddressFromBech32 = (\<lambda>s. if ref_valid s then Inr (ref_decode s) else Inl ''decoding bech32 failed''),
     AccString = ref_encode, nilAcc = 0\<rparr>"

definition ref_eth :: EthLib where
  "ref_eth = \<lparr>HexToAddress = ref_decode, HexToHash = ref_hash_decode, HashHex = ref_hash_encode, AddressHex = ref_encode,
     IsHexAddress = ref_valid, CreateAddress = (\<lambda>a n. 31 * a + ucast n + 1)\<rparr>"

lemma ref_value_bits: "0 \<le> n \<Longrightarrow> n < 2 ^ k \<Longrightarrow> ref_value (ref_bits k n) = n"
proof (induction k arbitrary: n)
  case (Suc k)
  then have "ref_value (ref_bits k (n div 2)) = n div 2" by (intro Suc.IH) auto
  then show ?case by (auto elim: oddE evenE)
qed simp

lemma ref_bits_chars: "list_all (\<lambda>c. c = CHR ''0'' \<or> c = CHR ''1'') (ref_bits k n)"
  by (induction k arbitrary: n) simp_all

lemma ref_value_uint: "ref_value (ref_bits LENGTH('a) (uint a)) = uint a" for a :: "'a::len word"
  by (intro ref_value_bits uint_lt2p) simp

lemma ref_decode_encode: "ref_decode (ref_encode a) = a"
  using ref_value_uint [of a] by (simp add: ref_decode_def ref_encode_def del: ref_bits.simps)

lemma ref_hash_decode_encode: "ref_hash_decode (ref_hash_encode a) = a"
  using ref_value_uint [of a] by (simp add: ref_hash_decode_def ref_hash_encode_def del: ref_bits.simps)

lemma ref_encode_nonempty: "ref_encode a \<noteq> ''''"
  by (simp add: ref_encode_def)

lemma ref_encode_valid: "ref_valid (ref_encode a)"
  using ref_bits_chars by (simp add: ref_valid_def ref_encode_def)

interpretation ref_codec: bech32 ref_codec
  by unfold_locales (simp_all add: ref_codec_def ref_decode_encode ref_encode_valid ref_valid_def [of "[]"])

interpretation ref_eth: eth_lib ref_eth
  by unfold_locales
    (simp_all add: ref_eth_def ref_decode_encode ref_hash_decode_encode ref_encode_valid ref_encode_nonempty)

end
