(* ===== verification/Vesting_Keeper.thy ===== *)
theory Vesting_Keeper
  imports Sdk_Keepers Addresses
begin

text \<open>
  The messages of the vesting module: their stateless checks (\<^verbatim>\<open>x/vesting/types/msg.go\<close>), the message
  server (\<^verbatim>\<open>x/vesting/keeper/msg_server.go\<close>) and the balance query (\<^verbatim>\<open>grpc_query.go\<close>).  The module has no
  store of its own: its state is the SDK state \<open>'x\<close> of the account and bank keepers.  Events and
  telemetry are left out.
\<close>

section \<open>Messages\<close>

record 'c MsgCreateClawbackVestingAccount =
  msgFrom :: string
  msgTo :: string
  msgStartTime :: int
  msgLockup :: "'c Period list"
  msgVesting :: "'c Period list"
  msgMerge :: bool

record MsgClawback =
  clFunder :: string
  clAccount :: string
  clDest :: string

record MsgUpdateVestingFunder =
  ufFunder :: string
  ufNewFunder :: string
  ufVesting :: string

definition NewMsgCreateClawbackVestingAccount ::
    "Bech32 \<Rightarrow> address \<Rightarrow> address \<Rightarrow> int \<Rightarrow> 'c Period list \<Rightarrow> 'c Period list \<Rightarrow> bool \<Rightarrow>
      'c MsgCreateClawbackVestingAccount" where
  "NewMsgCreateClawbackVestingAccount B fromAddr toAddr startTime lockupPeriods vestingPeriods merge =
     \<lparr>msgFrom = AccString B fromAddr, msgTo = AccString B toAddr, msgStartTime = startTime,
      msgLockup = lockupPeriods, msgVesting = vestingPeriods, msgMerge = merge\<rparr>"

definition NewMsgClawback :: "Bech32 \<Rightarrow> address \<Rightarrow> address \<Rightarrow> address option \<Rightarrow> MsgClawback" where
  "NewMsgClawback B funder addr dest =
     \<lparr>clFunder = AccString B funder, clAccount = AccString B addr,
      clDest = (case dest of None \<Rightarrow> '''' | Some a \<Rightarrow> AccString B a)\<rparr>"

definition NewMsgUpdateVestingFunder :: "Bech32 \<Rightarrow> address \<Rightarrow> address \<Rightarrow> address \<Rightarrow> MsgUpdateVestingFunder" where
  "NewMsgUpdateVestingFunder B funder newFunder vesting =
     \<lparr>ufFunder = AccString B funder, ufNewFunder = AccString B newFunder, ufVesting = AccString B vesting\<rparr>"

definition NewMsgConvertVestingAccount :: "Bech32 \<Rightarrow> address \<Rightarrow> string" where
  "NewMsgConvertVestingAccount B vestingAcc = AccString B vestingAcc"

text \<open>Whose signature each message requires.\<close>

definition GetSignersCreate :: "Bech32 \<Rightarrow> 'c MsgCreateClawbackVestingAccount \<Rightarrow> failure + address list" where
  "GetSignersCreate B msg = rbind (MustAccAddressFromBech32 B (msgFrom msg)) (\<lambda>from. Inr [from])"

definition GetSignersClawback :: "Bech32 \<Rightarrow> MsgClawback \<Rightarrow> failure + address list" where
  "GetSignersClawback B msg = rbind (MustAccAddressFromBech32 B (clFunder msg)) (\<lambda>funder. Inr [funder])"

definition GetSignersUpdateFunder :: "Bech32 \<Rightarrow> MsgUpdateVestingFunder \<Rightarrow> failure + address list" where
  "GetSignersUpdateFunder B msg = rbind (MustAccAddressFromBech32 B (ufFunder msg)) (\<lambda>funder. Inr [funder])"

definition GetSignersConvert :: "Bech32 \<Rightarrow> string \<Rightarrow> failure + address list" where
  "GetSignersConvert B vestingAddress =
     rbind (MustAccAddressFromBech32 B vestingAddress) (\<lambda>vesting. Inr [vesting])"

text \<open>A check returns the error, if any.\<close>

fun lockupErrors :: "'c Coins \<Rightarrow> 'c \<Rightarrow> 'c Period list \<Rightarrow> string + 'c" where
  "lockupErrors C lockupCoins [] = Inr lockupCoins"
| "lockupErrors C lockupCoins (period # ps) =
     (if Length period < 1 then Inl ''invalid period length, length must be greater than 0''
      else if \<not> IsAllPositive C (Amount period) then Inl ''invalid amount in lockup periods, amounts must be positive''
      else lockupErrors C (CAdd C lockupCoins (Amount period)) ps)"

fun vestingErrors :: "'c Coins \<Rightarrow> 'c \<Rightarrow> 'c Period list \<Rightarrow> string + 'c" where
  "vestingErrors C vestingCoins [] = Inr vestingCoins"
| "vestingErrors C vestingCoins (period # ps) =
     (if Length period < 1 then Inl ''invalid period length, length must be greater than 0''
      else if \<not> IsValid C (Amount period) then Inl ''invalid coins''
      else if \<not> IsAllPositive C (Amount period) then Inl ''invalid amount in vesting periods, amounts must be positive''
      else vestingErrors C (CAdd C vestingCoins (Amount period)) ps)"

definition ValidateBasicCreate ::
    "'c Coins \<Rightarrow> Bech32 \<Rightarrow> 'c MsgCreateClawbackVestingAccount \<Rightarrow> string option" where
  "ValidateBasicCreate C B msg =
     (if badAddress B (msgFrom msg) then Some ''invalid from address''
      else if badAddress B (msgTo msg) then Some ''invalid to address''
      else case lockupErrors C (NoCoins C) (msgLockup msg) of Inl e \<Rightarrow> Some e | Inr lockupCoins \<Rightarrow>
      (case vestingErrors C (NoCoins C) (msgVesting msg) of Inl e \<Rightarrow> Some e | Inr vestingCoins \<Rightarrow>
        if IsEmpty C lockupCoins \<and> IsEmpty C vestingCoins
        then Some ''vesting and/or lockup schedules must be present''
        else if msgLockup msg \<noteq> [] \<and> msgVesting msg \<noteq> [] \<and>
          \<not> (IsAllLTE C lockupCoins vestingCoins \<and> IsAllLTE C vestingCoins lockupCoins)
        then Some ''vesting and lockup schedules must have same total coins''
        else None))"

definition ValidateBasicClawback :: "Bech32 \<Rightarrow> MsgClawback \<Rightarrow> string option" where
  "ValidateBasicClawback B msg =
     (if badAddress B (clFunder msg) then Some ''invalid funder address''
      else if badAddress B (clAccount msg) then Some ''invalid account address''
      else if clDest msg \<noteq> '''' \<and> badAddress B (clDest msg) then Some ''invalid dest address''
      else None)"

definition ValidateBasicUpdateFunder :: "Bech32 \<Rightarrow> MsgUpdateVestingFunder \<Rightarrow> string option" where
  "ValidateBasicUpdateFunder B msg =
     (if badAddress B (ufFunder msg) then Some ''invalid funder address''
      else if badAddress B (ufNewFunder msg) then Some ''invalid new funder address''
      else if ufFunder msg = ufNewFunder msg
      then Some ''new funder address is equal to current funder address''
      else if badAddress B (ufVesting msg) then Some ''invalid vesting account address''
      else None)"

definition ValidateBasicConvert :: "Bech32 \<Rightarrow> string \<Rightarrow> string option" where
  "ValidateBasicConvert B vestingAddress =
     (if badAddress B vestingAddress then Some ''invalid vesting address'' else None)"

section \<open>The message server\<close>

definition addGrant ::
    "'c Coins \<Rightarrow> ('x, 'c) Keepers \<Rightarrow> 'x \<Rightarrow> int \<Rightarrow> 'c ClawbackVestingAccount \<Rightarrow> int \<Rightarrow> 'c Period list \<Rightarrow>
      'c Period list \<Rightarrow> 'c \<Rightarrow> failure + 'c ClawbackVestingAccount" where
  "addGrant C K x blockTime va grantStartTime grantLockupPeriods grantVestingPeriods grantCoins =
     (let addr = GetAddress (ClawbackAcc va);
          delegatedAmt = GetDelegatorBonded K x addr + GetDelegatorUnbonding K x addr;
          delegated = NewCoins C [(BondDenom K x, delegatedAmt)];
          (newLockupStart, newLockupEnd, newLockupPeriods) =
            DisjunctPeriods C (GetStartTime va) grantStartTime (LockupPeriods va) grantLockupPeriods;
          (newVestingStart, newVestingEnd, newVestingPeriods) =
            DisjunctPeriods C (GetStartTime va) grantStartTime (GetVestingPeriods va) grantVestingPeriods
      in if newLockupStart \<noteq> newVestingStart
         then Inl (Err ''vesting start time calculation should match lockup start'')
         else
           let va1 = va\<lparr>StartTime := timeUnix newLockupStart, LockupPeriods := newLockupPeriods,
                        VestingPeriods := newVestingPeriods,
                        base := (base va)\<lparr>EndTime := Max64 newLockupEnd newVestingEnd,
                                         OriginalVesting := CAdd C (OriginalVesting (base va)) grantCoins\<rparr>\<rparr>
           in rbind (panicking (GetVestingCoins C va1 blockTime)) (\<lambda>unvested.
                let dv = CMin C delegated unvested in
                rbind (panicking (CSub C delegated dv)) (\<lambda>df.
                  Inr (va1\<lparr>base := (base va1)\<lparr>DelegatedVesting := dv, DelegatedFree := df\<rparr>\<rparr>))))"

text \<open>An absent schedule defaults to one that releases everything at the start.\<close>

definition fillSchedules ::
    "'c Coins \<Rightarrow> 'c Periods \<Rightarrow> 'c Period list \<Rightarrow> 'c Period list \<Rightarrow> ('c Period list \<times> 'c) \<times> ('c Period list \<times> 'c)" where
  "fillSchedules C P lockup vesting =
     (let vestingCoins = TotalAmount P vesting;
          lockupCoins = TotalAmount P lockup;
          (lockup', lockupCoins') =
            (if \<not> IsZero C vestingCoins \<and> lockup = []
             then ([\<lparr>Length = 0, Amount = vestingCoins\<rparr>], vestingCoins) else (lockup, lockupCoins));
          (vesting', vestingCoins') =
            (if \<not> IsZero C lockupCoins' \<and> vesting = []
             then ([\<lparr>Length = 0, Amount = lockupCoins'\<rparr>], lockupCoins') else (vesting, vestingCoins))
      in ((lockup', lockupCoins'), (vesting', vestingCoins')))"

text \<open>The account part of the handler: merge the grant, or make the account.\<close>

definition grantAccount ::
    "'c Coins \<Rightarrow> 'c Periods \<Rightarrow> ('x, 'c) Keepers \<Rightarrow> Bech32 \<Rightarrow> int \<Rightarrow> 'c MsgCreateClawbackVestingAccount \<Rightarrow>
      address \<Rightarrow> address \<Rightarrow> 'c Period list \<Rightarrow> 'c Period list \<Rightarrow> 'c \<Rightarrow> 'x \<Rightarrow> failure + 'x" where
  "grantAccount C P K B blockTime msg from to lockupPeriods vestingPeriods vestingCoins x =
     (case GetAccount K x to of
        Some acc \<Rightarrow>
          (case acc of
             ClawbackAcc va \<Rightarrow>
               if \<not> msgMerge msg then Inl (Err ''already exists; consider using --merge'')
               else if msgFrom msg \<noteq> FunderAddress va then Inl (Err ''can only accept grants from account'')
               else rbind (addGrant C K x blockTime va (Unix (msgStartTime msg)) lockupPeriods vestingPeriods vestingCoins)
                 (\<lambda>va'. Inr (SetAccount K x (ClawbackAcc va')))
           | _ \<Rightarrow>
               if \<not> msgMerge msg then Inl (Err ''already exists'')
               else Inl (Err ''must be a clawback vesting account''))
      | None \<Rightarrow>
          let baseAcc = emptyBaseAccount\<lparr>baAddress := to\<rparr>;
              va = NewClawbackVestingAccount C P baseAcc (AccString B from) vestingCoins
                     (msgStartTime msg) lockupPeriods vestingPeriods;
              (acc, x1) = NewAccount K x (ClawbackAcc va)
          in Inr (SetAccount K x1 acc))"

definition CreateClawbackVestingAccount ::
    "'c Coins \<Rightarrow> 'c Periods \<Rightarrow> ('x, 'c) Keepers \<Rightarrow> Bech32 \<Rightarrow> int \<Rightarrow>
      'c MsgCreateClawbackVestingAccount \<Rightarrow> 'x \<Rightarrow> failure + 'x" where
  "CreateClawbackVestingAccount C P K B blockTime msg x =
     rbind (MustAccAddressFromBech32 B (msgFrom msg)) (\<lambda>from.
     rbind (MustAccAddressFromBech32 B (msgTo msg)) (\<lambda>to.
       if BlockedAddr K to then Inl (Err ''is not allowed to receive funds'')
       else
         let ((lockupPeriods, lockupCoins), (vestingPeriods, vestingCoins)) =
               fillSchedules C P (msgLockup msg) (msgVesting msg)
         in if \<not> (IsAllLTE C vestingCoins lockupCoins \<and> IsAllLTE C lockupCoins vestingCoins)
            then Inl (Err ''lockup and vesting amounts must be equal'')
            else rbind (grantAccount C P K B blockTime msg from to lockupPeriods vestingPeriods vestingCoins x)
              (\<lambda>x. failing (SendCoins K x from to vestingCoins))))"

definition transferClawback ::
    "'c Coins \<Rightarrow> 'c Periods \<Rightarrow> ('x, 'c) Keepers \<Rightarrow> int \<Rightarrow> 'c ClawbackVestingAccount \<Rightarrow> address \<Rightarrow> 'x \<Rightarrow> failure + 'x" where
  "transferClawback C P K blockTime va dest x =
     rbind (panicking (ComputeClawback C P va (Unix blockTime))) (\<lambda>(updatedAcc, toClawBack).
       if IsZero C toClawBack then Inr x
       else
         let x1 = SetAccount K x (ClawbackAcc updatedAcc);
             addr = GetAddress (ClawbackAcc updatedAcc)
         in failing (SendCoins K x1 addr dest toClawBack))"

definition Clawback ::
    "'c Coins \<Rightarrow> 'c Periods \<Rightarrow> ('x, 'c) Keepers \<Rightarrow> Bech32 \<Rightarrow> int \<Rightarrow> MsgClawback \<Rightarrow> 'x \<Rightarrow> failure + 'x" where
  "Clawback C P K B blockTime msg x =
     (let dest0 = (case AccAddressFromBech32 B (clDest msg) of Inl _ \<Rightarrow> nilAcc B | Inr a \<Rightarrow> a) in
      rbind (MustAccAddressFromBech32 B (clAccount msg)) (\<lambda>addr.
        let dest = (if clDest msg = ''''
                    then (case AccAddressFromBech32 B (clFunder msg) of Inl _ \<Rightarrow> nilAcc B | Inr a \<Rightarrow> a)
                    else dest0)
        in if BlockedAddr K dest then Inl (Err ''is not allowed to receive funds'')
           else
             (case GetAccount K x addr of
                None \<Rightarrow> Inl (Err ''account does not exist'')
              | Some (ClawbackAcc va) \<Rightarrow>
                  if FunderAddress va \<noteq> clFunder msg
                  then Inl (Err ''clawback can only be requested by original funder'')
                  else if blockTime < StartTime va
                  then Inl (Err ''clawback can only be executed after vesting begins'')
                  else transferClawback C P K blockTime va dest x
              | Some _ \<Rightarrow> Inl (Err ''account not subject to clawback''))))"

definition UpdateVestingFunder ::
    "('x, 'c) Keepers \<Rightarrow> Bech32 \<Rightarrow> MsgUpdateVestingFunder \<Rightarrow> 'x \<Rightarrow> failure + 'x" where
  "UpdateVestingFunder K B msg x =
     rbind (MustAccAddressFromBech32 B (ufNewFunder msg)) (\<lambda>newFunder.
     rbind (MustAccAddressFromBech32 B (ufVesting msg)) (\<lambda>vesting.
       if BlockedAddr K newFunder then Inl (Err ''is not allowed to receive funds'')
       else
         (case GetAccount K x vesting of
            None \<Rightarrow> Inl (Err ''account does not exist'')
          | Some (ClawbackAcc va) \<Rightarrow>
              if FunderAddress va \<noteq> ufFunder msg
              then Inl (Err ''clawback can only be requested by original funder'')
              else Inr (SetAccount K x (ClawbackAcc (va\<lparr>FunderAddress := ufNewFunder msg\<rparr>)))
          | Some _ \<Rightarrow> Inl (Err ''account not subject to clawback''))))"

definition ConvertVestingAccount ::
    "'c Coins \<Rightarrow> ('x, 'c) Keepers \<Rightarrow> (bytes \<Rightarrow> hash) \<Rightarrow> Bech32 \<Rightarrow> int \<Rightarrow> string \<Rightarrow> 'x \<Rightarrow> failure + 'x" where
  "ConvertVestingAccount C K keccak B blockTime vestingAddress x =
     rbind (MustAccAddressFromBech32 B vestingAddress) (\<lambda>addr.
       case GetAccount K x addr of
         None \<Rightarrow> Inl (Err ''account does not exist'')
       | Some (ClawbackAcc va) \<Rightarrow>
           rbind (panicking (GetVestingCoins C va blockTime)) (\<lambda>coins.
             if \<not> IsNil C coins then Inl (Err ''vesting coins still left in account'')
             else Inr (SetAccount K x
                    (EthAcc ((ProtoAccount keccak)\<lparr>ethBase := baseAccount (base va)\<rparr>))))
       | Some (OtherVestingAcc _) \<Rightarrow> Inl (Err ''account is not a ClawbackVestingAccount'')
       | Some _ \<Rightarrow> Inl (Err ''account not subject to vesting''))"

text \<open>The balance query: locked, unvested and vested coins.\<close>

definition Balances ::
    "'c Coins \<Rightarrow> ('x, 'c) Keepers \<Rightarrow> Bech32 \<Rightarrow> int \<Rightarrow> string option \<Rightarrow> 'x \<Rightarrow> failure + ('c \<times> 'c \<times> 'c)" where
  "Balances C K B blockTime req x =
     (case req of
        None \<Rightarrow> Inl (Err ''empty request'')
      | Some address \<Rightarrow>
          (case AccAddressFromBech32 B address of
             Inl e \<Rightarrow> Inl (Err e)
           | Inr addr \<Rightarrow>
               (case GetAccount K x addr of
                  None \<Rightarrow> Inl (Err ''account not found'')
                | Some (ClawbackAcc va) \<Rightarrow>
                    rbind (panicking (GetLockedOnly C va blockTime)) (\<lambda>locked.
                    rbind (panicking (GetUnvestedOnly C va blockTime)) (\<lambda>unvested.
                      Inr (locked, unvested, GetVestedOnly C va blockTime)))
                | Some _ \<Rightarrow> Inl (Err ''is not a vesting account''))))"

section \<open>What the message server keeps\<close>

text \<open>The keepers together with staking, whose amounts are never negative.\<close>

locale vesting_keepers = sdk_periods C P + sdk_keepers C K keccak
  for C :: "'c Coins" and P :: "'c Periods" and K :: "('x, 'c) Keepers" and keccak :: "bytes \<Rightarrow> hash" +
  assumes bonded_nonneg: "0 \<le> GetDelegatorBonded K x a" and unbonding_nonneg: "0 \<le> GetDelegatorUnbonding K x a"

interpretation ref_vesting: vesting_keepers ref_coins ref_periods "ref_keepers keccak blocked bond" keccak
  for keccak blocked bond
  by unfold_locales (simp_all add: ref_keepers_def)

text \<open>Every clawback account in the store is well formed.\<close>

definition vesting_inv :: "'c Coins \<Rightarrow> ('x, 'c) Keepers \<Rightarrow> 'x \<Rightarrow> bool" where
  "vesting_inv C K x \<longleftrightarrow> (\<forall>a va. GetAccount K x a = Some (ClawbackAcc va) \<longrightarrow> va_ok C va)"

context vesting_keepers
begin

lemma vesting_inv_SetAccount:
  assumes "vesting_inv C K x" and "\<And>va. acc = ClawbackAcc va \<Longrightarrow> va_ok C va"
  shows "vesting_inv C K (SetAccount K x acc)"
  using assms by (auto simp: vesting_inv_def GetAccount_SetAccount)

lemma vesting_inv_transferred:
  assumes "vesting_inv C K x" and "transferred C K x a b c x'"
  shows "vesting_inv C K x'"
  unfolding vesting_inv_def
proof (intro allI impI)
  fix z va assume z: "GetAccount K x' z = Some (ClawbackAcc va)"
  then have "z \<noteq> b \<or> GetAccount K x b \<noteq> None" using assms(2) by (auto simp: transferred_def)
  then have "GetAccount K x' z = GetAccount K x z" using assms(2) by (simp add: transferred_def)
  with z assms(1) show "va_ok C va" by (simp add: vesting_inv_def)
qed

lemma addGrant_ok:
  assumes ok: "va_ok C va" and gl: "fits gs gl" and gv: "fits gs gv"
    and tl: "\<And>d. total C gl d = AmountOf C coins d" and tv: "\<And>d. total C gv d = AmountOf C coins d"
  shows "\<exists>va'. addGrant C K x now va gs gl gv coins = Inr va' \<and> va_ok C va' \<and>
    GetStartTime va' = min (GetStartTime va) gs \<and> baseAccount (base va') = baseAccount (base va) \<and>
    FunderAddress va' = FunderAddress va \<and>
    (\<forall>d. AmountOf C (OriginalVesting (base va')) d = AmountOf C (OriginalVesting (base va)) d + AmountOf C coins d) \<and>
    (\<forall>t d. GetStartTime va' < Unix t \<longrightarrow>
      AmountOf C (GetVestedOnly C va' t) d =
        cum C (GetStartTime va) (VestingPeriods va) (Unix t) d + cum C gs gv (Unix t) d \<and>
      AmountOf C (GetUnlockedOnly C va' t) d =
        cum C (GetStartTime va) (LockupPeriods va) (Unix t) d + cum C gs gl (Unix t) d)"
proof -
  let ?s = "GetStartTime va" and ?m = "min (GetStartTime va) gs"
  have fl: "fits ?s (LockupPeriods va)" and fv: "fits ?s (VestingPeriods va)" using ok by (simp_all add: va_ok_def)
  obtain ls where ls: "DisjunctPeriods C ?s gs (LockupPeriods va) gl = (?m, ?m + span ls, ls)" "fits ?m ls"
    "\<And>t d. cum C ?m ls t d = cum C ?s (LockupPeriods va) t d + cum C gs gl t d"
    "\<And>d. total C ls d = total C (LockupPeriods va) d + total C gl d"
    using DisjunctPeriods_cum [OF sdk_coins_axioms fl gl] by auto
  obtain vs where vs: "DisjunctPeriods C ?s gs (VestingPeriods va) gv = (?m, ?m + span vs, vs)" "fits ?m vs"
    "\<And>t d. cum C ?m vs t d = cum C ?s (VestingPeriods va) t d + cum C gs gv t d"
    "\<And>d. total C vs d = total C (VestingPeriods va) d + total C gv d"
    using DisjunctPeriods_cum [OF sdk_coins_axioms fv gv] by auto
  let ?va = "va\<lparr>StartTime := timeUnix ?m, LockupPeriods := ls, VestingPeriods := vs,
    base := (base va)\<lparr>EndTime := Max64 (?m + span ls) (?m + span vs),
      OriginalVesting := CAdd C (OriginalVesting (base va)) coins\<rparr>\<rparr>"
  have ok1: "va_ok C ?va"
    using ok ls(2,4) vs(2,4) tl tv by (auto simp: va_ok_def GetStartTime_def Max64_def AmountOf_Add)
  obtain u where u: "GetVestingCoins C ?va now = Inr u" using GetVestingCoins_ok [OF ok1] by blast
  let ?addr = "GetAddress (ClawbackAcc va)"
  let ?del = "NewCoins C [(BondDenom K x, GetDelegatorBonded K x ?addr + GetDelegatorUnbonding K x ?addr)]"
  have "AmountOf C (CMin C ?del u) d \<le> AmountOf C ?del d" for d by (simp add: AmountOf_Min)
  from Sub_ok [OF this] obtain df where df: "CSub C ?del (CMin C ?del u) = Inr df" by blast
  define va' where "va' = ?va\<lparr>base := (base ?va)\<lparr>DelegatedVesting := CMin C ?del u, DelegatedFree := df\<rparr>\<rparr>"
  have run: "addGrant C K x now va gs gl gv coins = Inr va'"
    using ls(1) vs(1) u df by (simp add: addGrant_def Let_def GetVestingPeriods_def va'_def)
  have ok': "va_ok C va'" using ok1 by (simp add: va_ok_def GetStartTime_def va'_def)
  have sel: "GetStartTime va' = ?m" "VestingPeriods va' = vs" "LockupPeriods va' = ls"
    "baseAccount (base va') = baseAccount (base va)" "FunderAddress va' = FunderAddress va"
    "OriginalVesting (base va') = CAdd C (OriginalVesting (base va)) coins"
    by (simp_all add: va'_def GetStartTime_def)
  show ?thesis
    by (rule exI [of _ va'])
      (auto simp: run ok' sel ls(3) vs(3) AmountOf_Add GetVestedOnly_amount [OF ok'] GetUnlockedOnly_amount [OF ok'])
qed

end

text \<open>A new account, and the defaults for absent schedules.\<close>

context vesting_keepers
begin

lemma extendFirst_0: "fits 0 ps \<Longrightarrow> extendFirst 0 ps = ps"
  by (cases ps) (auto simp: in64_def dest: fits_less)

lemma NewClawbackVestingAccount_ok:
  assumes l: "fits (Unix start) ls" and v: "fits (Unix start) vs"
    and "\<And>d. total C ls d = AmountOf C coins d" and "\<And>d. total C vs d = AmountOf C coins d"
  shows "va_ok C (NewClawbackVestingAccount C P b funder coins start ls vs)"
proof -
  have "sub64 (Unix start) (Unix start) = 0" using fits_nonneg [OF l] fits_less [OF l] by simp
  then show ?thesis
    using assms fits_end [OF l] fits_end [OF v] fits_0 [OF l] fits_0 [OF v]
    by (auto simp: NewClawbackVestingAccount_def AlignSchedules_def Let_def va_ok_def GetStartTime_def
        Min64_def Max64_def extendFirst_0 TotalLength_span)
qed

lemma NewClawbackVestingAccount_sel:
  "baseAccount (base (NewClawbackVestingAccount C P b funder coins start ls vs)) = b"
  "OriginalVesting (base (NewClawbackVestingAccount C P b funder coins start ls vs)) = coins"
  "FunderAddress (NewClawbackVestingAccount C P b funder coins start ls vs) = funder"
  by (simp_all add: NewClawbackVestingAccount_def AlignSchedules_def Let_def)

lemma fillSchedules_ok:
  assumes "fits s lockup" and "fits s vesting"
    and "fillSchedules C P lockup vesting = ((ls, lc), (vs, vc))"
  shows "fits s ls" "fits s vs" "total C ls d = AmountOf C lc d" "total C vs d = AmountOf C vc d"
  using assms TotalAmount_total [of lockup] TotalAmount_total [of vesting] fits_nonneg [OF assms(1)] fits_less [OF assms(1)]
  by (auto simp: fillSchedules_def Let_def split: if_splits)

lemma va_ok_with_base: "va_ok C va \<Longrightarrow> with_base f (ClawbackAcc va) = ClawbackAcc va' \<Longrightarrow> va_ok C va'"
  by (auto simp: va_ok_def GetStartTime_def)

end

text \<open>The amount under vesting at an address.\<close>

definition vesting_at :: "'c Coins \<Rightarrow> ('x, 'c) Keepers \<Rightarrow> 'x \<Rightarrow> address \<Rightarrow> string \<Rightarrow> int" where
  "vesting_at C K x a d =
     (case GetAccount K x a of Some (ClawbackAcc va) \<Rightarrow> AmountOf C (OriginalVesting (base va)) d | _ \<Rightarrow> 0)"

context vesting_keepers
begin

lemma grantAccount_ok:
  assumes run: "grantAccount C P K B now msg from to ls vs coins x = Inr x'" and inv: "vesting_inv C K x"
    and l: "fits (Unix (msgStartTime msg)) ls" and v: "fits (Unix (msgStartTime msg)) vs"
    and tl: "\<And>d. total C ls d = AmountOf C coins d" and tv: "\<And>d. total C vs d = AmountOf C coins d"
  shows "\<exists>va. GetAccount K x' = (GetAccount K x)(to \<mapsto> ClawbackAcc va) \<and> va_ok C va \<and>
    (FunderAddress va = AccString B from \<or> FunderAddress va = msgFrom msg) \<and>
    (\<forall>d. AmountOf C (OriginalVesting (base va)) d = vesting_at C K x to d + AmountOf C coins d) \<and>
    BankBalance K x' = BankBalance K x \<and> GetSupply K x' = GetSupply K x"
proof (cases "GetAccount K x to")
  case None
  let ?va = "NewClawbackVestingAccount C P (emptyBaseAccount\<lparr>baAddress := to\<rparr>) (AccString B from) coins
    (msgStartTime msg) ls vs"
  obtain acc x1 where na: "NewAccount K x (ClawbackAcc ?va) = (acc, x1)" by force
  obtain n where acc: "acc = with_base (\<lambda>b. b\<lparr>AccountNumber := n\<rparr>) (ClawbackAcc ?va)"
    and x1: "GetAccount K x1 = GetAccount K x" "BankBalance K x1 = BankBalance K x" "GetSupply K x1 = GetSupply K x"
    using NewAccount_law [OF na] by blast
  define va where "va = ?va\<lparr>base := (base ?va)\<lparr>baseAccount := (baseAccount (base ?va))\<lparr>AccountNumber := n\<rparr>\<rparr>\<rparr>"
  have acc': "acc = ClawbackAcc va" by (simp add: acc va_def)
  have ok: "va_ok C va"
    using NewClawbackVestingAccount_ok [OF l v tl tv] va_ok_with_base acc acc' by metis
  have sel: "GetAddress (ClawbackAcc va) = to" "OriginalVesting (base va) = coins" "FunderAddress va = AccString B from"
    by (simp_all add: va_def GetAddress_def NewClawbackVestingAccount_sel)
  have "x' = SetAccount K x1 acc" using run None na by (simp add: grantAccount_def Let_def)
  then have "GetAccount K x' = (GetAccount K x)(to \<mapsto> ClawbackAcc va)"
    "BankBalance K x' = BankBalance K x" "GetSupply K x' = GetSupply K x"
    by (auto simp: GetAccount_SetAccount Balance_SetAccount x1 acc' sel)
  with ok sel None show ?thesis by (intro exI [of _ va]) (simp add: vesting_at_def)
next
  case (Some acc)
  then obtain va where va: "acc = ClawbackAcc va" "msgFrom msg = FunderAddress va"
    and grant: "rbind (addGrant C K x now va (Unix (msgStartTime msg)) ls vs coins) (\<lambda>va'. Inr (SetAccount K x (ClawbackAcc va'))) = Inr x'"
    using run by (auto simp: grantAccount_def split: AccountI.splits if_splits)
  have "va_ok C va" using inv Some va by (simp add: vesting_inv_def)
  from addGrant_ok [OF this l v tl tv] obtain va' where
    va': "addGrant C K x now va (Unix (msgStartTime msg)) ls vs coins = Inr va'" "va_ok C va'"
      "baseAccount (base va') = baseAccount (base va)" "FunderAddress va' = FunderAddress va"
      "\<And>d. AmountOf C (OriginalVesting (base va')) d = AmountOf C (OriginalVesting (base va)) d + AmountOf C coins d"
    by blast
  have x': "x' = SetAccount K x (ClawbackAcc va')" using grant va'(1) by simp
  have "GetAddress (ClawbackAcc va') = to"
    using GetAccount_address [OF Some] va va'(3) by (simp add: GetAddress_def)
  then have "GetAccount K x' = (GetAccount K x)(to \<mapsto> ClawbackAcc va')"
    by (auto simp: x' GetAccount_SetAccount)
  with va' va Some show ?thesis
    by (intro exI [of _ va']) (simp add: x' Balance_SetAccount vesting_at_def)
qed

end

section \<open>The handlers\<close>

context vesting_keepers
begin

lemma CreateClawbackVestingAccount_ok:
  assumes run: "CreateClawbackVestingAccount C P K B now msg x = Inr x'" and inv: "vesting_inv C K x"
    and l: "fits (Unix (msgStartTime msg)) (msgLockup msg)" and v: "fits (Unix (msgStartTime msg)) (msgVesting msg)"
  shows "\<exists>from to coins va. AccAddressFromBech32 B (msgFrom msg) = Inr from \<and> AccAddressFromBech32 B (msgTo msg) = Inr to \<and>
    \<not> BlockedAddr K to \<and> GetAccount K x' to = Some (ClawbackAcc va) \<and> va_ok C va \<and>
    (FunderAddress va = AccString B from \<or> FunderAddress va = msgFrom msg) \<and>
    (\<forall>z. z \<noteq> to \<longrightarrow> GetAccount K x' z = GetAccount K x z) \<and>
    (\<forall>d. AmountOf C coins d = max (total C (msgLockup msg) d) (total C (msgVesting msg) d)) \<and>
    (\<forall>d. AmountOf C (OriginalVesting (base va)) d = vesting_at C K x to d + AmountOf C coins d) \<and>
    (\<forall>z d. BankBalance K x' z d =
      BankBalance K x z d - at_addr from z (AmountOf C coins d) + at_addr to z (AmountOf C coins d)) \<and>
    GetSupply K x' = GetSupply K x"
proof -
  obtain ls lc vs vc where fill: "fillSchedules C P (msgLockup msg) (msgVesting msg) = ((ls, lc), (vs, vc))"
    by (metis prod.exhaust)
  obtain fr to y where adr: "AccAddressFromBech32 B (msgFrom msg) = Inr fr" "AccAddressFromBech32 B (msgTo msg) = Inr to"
    and free: "\<not> BlockedAddr K to" and le: "IsAllLTE C vc lc" "IsAllLTE C lc vc"
    and y: "grantAccount C P K B now msg fr to ls vs vc x = Inr y" and send: "SendCoins K y fr to vc = Inr x'"
    using run fill
    by (auto simp: CreateClawbackVestingAccount_def MustAccAddressFromBech32_def split: sum.splits if_splits)
  note fs = fillSchedules_ok [OF l v fill]
  have eq: "AmountOf C lc d = AmountOf C vc d" for d using le by (auto simp: IsAllLTE_iff intro: antisym)
  obtain va where va: "GetAccount K y = (GetAccount K x)(to \<mapsto> ClawbackAcc va)" "va_ok C va"
      "FunderAddress va = AccString B fr \<or> FunderAddress va = msgFrom msg"
      "\<And>d. AmountOf C (OriginalVesting (base va)) d = vesting_at C K x to d + AmountOf C vc d"
      "BankBalance K y = BankBalance K x" "GetSupply K y = GetSupply K x"
    using grantAccount_ok [OF y inv fs(1,2)] fs(3,4) eq by metis
  note tr = SendCoins_law [OF send, unfolded transferred_def]
  have acc: "GetAccount K x' z = GetAccount K y z" for z using tr va(1) by auto
  have coins: "AmountOf C vc d = max (total C (msgLockup msg) d) (total C (msgVesting msg) d)" for d
    using fill eq [of d] TotalAmount_total [of "msgLockup msg" d] TotalAmount_total [of "msgVesting msg" d]
      AmountOf_nonneg [of lc d] AmountOf_nonneg [of vc d]
    by (auto simp: fillSchedules_def Let_def split: if_splits)
  have "GetSupply K x' = GetSupply K x" using tr va(6) by auto
  with adr free acc va(1-5) coins tr show ?thesis
    by (intro exI [of _ fr] exI [of _ to] exI [of _ vc] exI [of _ va]) simp
qed

lemma Clawback_ok:
  assumes run: "Clawback C P K B now msg x = Inr x'" and inv: "vesting_inv C K x"
  shows "\<exists>addr dest va va'. AccAddressFromBech32 B (clAccount msg) = Inr addr \<and> \<not> BlockedAddr K dest \<and>
    (\<forall>a. AccAddressFromBech32 B (if clDest msg = '''' then clFunder msg else clDest msg) = Inr a \<longrightarrow> dest = a) \<and>
    GetAccount K x addr = Some (ClawbackAcc va) \<and> FunderAddress va = clFunder msg \<and> StartTime va \<le> now \<and>
    GetAccount K x' addr = Some (ClawbackAcc va') \<and> va_ok C va' \<and> FunderAddress va' = FunderAddress va \<and>
    (\<forall>z. z \<noteq> addr \<and> z \<noteq> dest \<longrightarrow> GetAccount K x' z = GetAccount K x z) \<and>
    (\<forall>d. AmountOf C (OriginalVesting (base va')) d = AmountOf C (GetVestedOnly C va now) d) \<and>
    (\<forall>z d. BankBalance K x' z d = BankBalance K x z d
      - at_addr addr z (AmountOf C (OriginalVesting (base va)) d - AmountOf C (GetVestedOnly C va now) d)
      + at_addr dest z (AmountOf C (OriginalVesting (base va)) d - AmountOf C (GetVestedOnly C va now) d)) \<and>
    GetSupply K x' = GetSupply K x \<and> vesting_inv C K x'"
proof -
  define dest where "dest = (case AccAddressFromBech32 B (if clDest msg = '''' then clFunder msg else clDest msg) of
    Inl _ \<Rightarrow> nilAcc B | Inr a \<Rightarrow> a)"
  obtain addr va where adr: "AccAddressFromBech32 B (clAccount msg) = Inr addr" and free: "\<not> BlockedAddr K dest"
    and va: "GetAccount K x addr = Some (ClawbackAcc va)" "FunderAddress va = clFunder msg" "StartTime va \<le> now"
    and tc: "transferClawback C P K now va dest x = Inr x'"
    using run
    by (auto simp: Clawback_def MustAccAddressFromBech32_def Let_def dest_def
        split: sum.splits if_splits option.splits AccountI.splits)
  have ok: "va_ok C va" using inv va(1) by (simp add: vesting_inv_def)
  have "GetStartTime va \<le> Unix now" using Unix_mono [OF va(3)] by (simp add: GetStartTime_def)
  from ComputeClawback_ok [OF ok this] obtain va' claw where
    cc: "ComputeClawback C P va (Unix now) = Inr (va', claw)" "va_ok C va'"
      "OriginalVesting (base va') = GetVestedOnly C va (timeUnix (Unix now))"
      "baseAccount (base va') = baseAccount (base va)" "FunderAddress va' = FunderAddress va"
      "\<And>d. AmountOf C claw d + AmountOf C (GetVestedOnly C va (timeUnix (Unix now))) d =
        AmountOf C (OriginalVesting (base va)) d" by blast
  have now: "GetVestedOnly C va (timeUnix (Unix now)) = GetVestedOnly C va now" by (simp add: GetVestedOnly_def)
  have claw: "AmountOf C (OriginalVesting (base va)) d - AmountOf C (GetVestedOnly C va now) d = AmountOf C claw d" for d
    using cc(6) [of d] now by simp
  have addr': "GetAddress (ClawbackAcc va') = addr"
    using GetAccount_address [OF va(1)] cc(4) by (simp add: GetAddress_def)
  have dest: "\<forall>a. AccAddressFromBech32 B (if clDest msg = '''' then clFunder msg else clDest msg) = Inr a \<longrightarrow> dest = a"
    by (simp add: dest_def)
  show ?thesis
  proof (cases "IsZero C claw")
    case True
    then have "x' = x" using tc cc(1) by (simp add: transferClawback_def)
    moreover have "AmountOf C claw d = 0" for d using True by (simp add: IsZero_iff)
    moreover from this have "AmountOf C (OriginalVesting (base va)) d = AmountOf C (GetVestedOnly C va now) d" for d
      using claw [of d] by simp
    ultimately show ?thesis
      using adr free dest va ok inv
      by (intro exI [of _ addr] exI [of _ dest] exI [of _ va] exI [of _ va]) (simp add: at_addr_def)
  next
    case False
    let ?y = "SetAccount K x (ClawbackAcc va')"
    have "SendCoins K ?y addr dest claw = Inr x'"
      using tc cc(1) False addr' by (simp add: transferClawback_def Let_def)
    note tr = SendCoins_law [OF this]
    have y: "GetAccount K ?y = (GetAccount K x)(addr \<mapsto> ClawbackAcc va')" "BankBalance K ?y = BankBalance K x"
      "GetSupply K ?y = GetSupply K x"
      by (auto simp: GetAccount_SetAccount Balance_SetAccount addr')
    have "GetAccount K x' addr = Some (ClawbackAcc va')" "GetSupply K x' = GetSupply K x"
      "\<forall>z. z \<noteq> addr \<and> z \<noteq> dest \<longrightarrow> GetAccount K x' z = GetAccount K x z"
      using tr y by (auto simp: transferred_def)
    moreover have "vesting_inv C K x'"
      using vesting_inv_transferred [OF vesting_inv_SetAccount [OF inv] tr] cc(2) by simp
    ultimately show ?thesis
      using adr free dest va cc(2,3,5) tr y now claw
      by (intro exI [of _ addr] exI [of _ dest] exI [of _ va] exI [of _ va']) (simp add: transferred_def)
  qed
qed

end

context vesting_keepers
begin

lemma UpdateVestingFunder_ok:
  assumes "UpdateVestingFunder K B msg x = Inr x'"
  shows "\<exists>newFunder addr va. AccAddressFromBech32 B (ufNewFunder msg) = Inr newFunder \<and> \<not> BlockedAddr K newFunder \<and>
    AccAddressFromBech32 B (ufVesting msg) = Inr addr \<and> GetAccount K x addr = Some (ClawbackAcc va) \<and>
    FunderAddress va = ufFunder msg \<and>
    GetAccount K x' = (GetAccount K x)(addr \<mapsto> ClawbackAcc (va\<lparr>FunderAddress := ufNewFunder msg\<rparr>)) \<and>
    BankBalance K x' = BankBalance K x \<and> GetSupply K x' = GetSupply K x"
proof -
  obtain newFunder addr va where r: "AccAddressFromBech32 B (ufNewFunder msg) = Inr newFunder" "\<not> BlockedAddr K newFunder"
    "AccAddressFromBech32 B (ufVesting msg) = Inr addr" "GetAccount K x addr = Some (ClawbackAcc va)"
    "FunderAddress va = ufFunder msg" "x' = SetAccount K x (ClawbackAcc (va\<lparr>FunderAddress := ufNewFunder msg\<rparr>))"
    using assms
    by (auto simp: UpdateVestingFunder_def MustAccAddressFromBech32_def
        split: sum.splits if_splits option.splits AccountI.splits)
  have "GetAddress (ClawbackAcc (va\<lparr>FunderAddress := ufNewFunder msg\<rparr>)) = addr"
    using GetAccount_address [OF r(4)] by (simp add: GetAddress_def)
  with r show ?thesis by (auto simp: GetAccount_SetAccount Balance_SetAccount)
qed

lemma ConvertVestingAccount_ok:
  assumes run: "ConvertVestingAccount C K keccak B now s x = Inr x'" and inv: "vesting_inv C K x"
  shows "\<exists>addr va. AccAddressFromBech32 B s = Inr addr \<and> GetAccount K x addr = Some (ClawbackAcc va) \<and>
    (\<forall>d. AmountOf C (GetVestedOnly C va now) d = AmountOf C (OriginalVesting (base va)) d) \<and>
    (\<forall>d. AmountOf C (GetUnlockedOnly C va now) d = AmountOf C (OriginalVesting (base va)) d) \<and>
    GetAccount K x' = (GetAccount K x)(addr \<mapsto> EthAcc \<lparr>ethBase = baseAccount (base va), ethCodeHash = keccak []\<rparr>) \<and>
    BankBalance K x' = BankBalance K x \<and> GetSupply K x' = GetSupply K x"
proof -
  obtain addr va c where r: "AccAddressFromBech32 B s = Inr addr" "GetAccount K x addr = Some (ClawbackAcc va)"
    "GetVestingCoins C va now = Inr c" "IsNil C c"
    "x' = SetAccount K x (EthAcc ((ProtoAccount keccak)\<lparr>ethBase := baseAccount (base va)\<rparr>))"
    using run
    by (auto simp: ConvertVestingAccount_def MustAccAddressFromBech32_def
        split: sum.splits if_splits option.splits AccountI.splits)
  have ok: "va_ok C va" using inv r(2) by (simp add: vesting_inv_def)
  have full: "AmountOf C (GetVestedOnly C va now) d = AmountOf C (OriginalVesting (base va)) d \<and>
      AmountOf C (GetUnlockedOnly C va now) d = AmountOf C (OriginalVesting (base va)) d" for d
    using GetVestingCoins_ok [OF ok, of now] r(3) IsNil_zero [OF r(4), of d] vested_bounds(2,3) [OF ok, of now d]
    by (auto simp: min_def split: if_splits)
  have "GetAddress (EthAcc ((ProtoAccount keccak)\<lparr>ethBase := baseAccount (base va)\<rparr>) :: 'c AccountI) = addr"
    using GetAccount_address [OF r(2)] by (simp add: GetAddress_def)
  with r full show ?thesis
    by (auto simp: GetAccount_SetAccount Balance_SetAccount ProtoAccount_def)
qed

end

section \<open>Sequences of messages\<close>

datatype 'c vesting_msg =
    MCreate "'c MsgCreateClawbackVestingAccount"
  | MClawback MsgClawback
  | MUpdateFunder MsgUpdateVestingFunder
  | MConvert string

fun deliver ::
    "'c Coins \<Rightarrow> 'c Periods \<Rightarrow> ('x, 'c) Keepers \<Rightarrow> (bytes \<Rightarrow> hash) \<Rightarrow> Bech32 \<Rightarrow> int \<Rightarrow> 'c vesting_msg \<Rightarrow> 'x \<Rightarrow> failure + 'x" where
  "deliver C P K keccak B now (MCreate m) x = CreateClawbackVestingAccount C P K B now m x"
| "deliver C P K keccak B now (MClawback m) x = Clawback C P K B now m x"
| "deliver C P K keccak B now (MUpdateFunder m) x = UpdateVestingFunder K B m x"
| "deliver C P K keccak B now (MConvert s) x = ConvertVestingAccount C K keccak B now s x"

text \<open>The schedules of a grant stay in the range of \<^verbatim>\<open>int64\<close>.\<close>

fun in_range :: "'c vesting_msg \<Rightarrow> bool" where
  "in_range (MCreate m) \<longleftrightarrow>
     fits (Unix (msgStartTime m)) (msgLockup m) \<and> fits (Unix (msgStartTime m)) (msgVesting m)"
| "in_range _ \<longleftrightarrow> True"

text \<open>A failed message leaves no trace: the transaction is rolled back.\<close>

inductive vesting_run ::
    "'c Coins \<Rightarrow> 'c Periods \<Rightarrow> ('x, 'c) Keepers \<Rightarrow> (bytes \<Rightarrow> hash) \<Rightarrow> Bech32 \<Rightarrow> 'x \<Rightarrow> 'x \<Rightarrow> bool"
  for C P K keccak B x where
  run_start: "vesting_run C P K keccak B x x"
| run_msg: "vesting_run C P K keccak B x y \<Longrightarrow> in_range m \<Longrightarrow> deliver C P K keccak B now m y = Inr z \<Longrightarrow>
    vesting_run C P K keccak B x z"

context vesting_keepers
begin

lemma deliver_inv:
  assumes "deliver C P K keccak B now m x = Inr x'" and "vesting_inv C K x" and "in_range m"
  shows "vesting_inv C K x' \<and> GetSupply K x' = GetSupply K x"
proof (cases m)
  case (MCreate msg)
  then obtain to va where "GetAccount K x' to = Some (ClawbackAcc va)" "va_ok C va"
    "\<And>z. z \<noteq> to \<Longrightarrow> GetAccount K x' z = GetAccount K x z" and s: "GetSupply K x' = GetSupply K x"
    using CreateClawbackVestingAccount_ok [of B now msg x x'] assms by auto
  then have "va_ok C w" if "GetAccount K x' z = Some (ClawbackAcc w)" for z w
    using that assms(2) by (cases "z = to") (auto simp: vesting_inv_def)
  with s show ?thesis by (simp add: vesting_inv_def)
next
  case (MClawback msg)
  then show ?thesis using Clawback_ok [of B now msg x x'] assms by auto
next
  case (MUpdateFunder msg)
  with UpdateVestingFunder_ok [of B msg x x'] assms obtain addr va where
    *: "GetAccount K x addr = Some (ClawbackAcc va)"
      "GetAccount K x' = (GetAccount K x)(addr \<mapsto> ClawbackAcc (va\<lparr>FunderAddress := ufNewFunder msg\<rparr>))"
      "GetSupply K x' = GetSupply K x" by auto
  have "va_ok C va" using * assms(2) by (simp add: vesting_inv_def)
  then have "va_ok C (va\<lparr>FunderAddress := ufNewFunder msg\<rparr>)" by (simp add: va_ok_def GetStartTime_def)
  with * assms(2) show ?thesis by (auto simp: vesting_inv_def split: if_splits)
next
  case (MConvert s)
  with ConvertVestingAccount_ok [of B now s x x'] assms show ?thesis
    by (auto simp: vesting_inv_def split: if_splits)
qed

lemma run_inv:
  "vesting_run C P K keccak B x y \<Longrightarrow> vesting_inv C K x \<Longrightarrow> vesting_inv C K y \<and> GetSupply K y = GetSupply K x"
  by (induction rule: vesting_run.induct) (use deliver_inv in fastforce)+

end

section \<open>Properties\<close>

text \<open>A concrete chain: three addresses, a funded funder, and the account of the previous theory.\<close>

definition ref_bech :: Bech32 where
  "ref_bech = \<lparr>AccAddressFromBech32 = (\<lambda>s. if s = ''funder'' then Inr 1 else if s = ''acct'' then Inr 2
       else if s = ''fresh'' then Inr 3 else Inl ''decoding bech32 failed''),
     AccString = (\<lambda>a. if a = 1 then ''funder'' else if a = 2 then ''acct'' else ''fresh''),
     nilAcc = 0\<rparr>"

definition ref_bank :: "(ledger, amounts) Keepers" where
  "ref_bank = ref_keepers (\<lambda>_. 0) (\<lambda>_. False) ''a''"

definition ref_state :: ledger where
  "ref_state = \<lparr>lAccounts = (\<lambda>a. if a = 2 then Some (ClawbackAcc ref_account) else None),
     lBalances = (\<lambda>_. [(''a'', 12)]), lSupply = (\<lambda>_. 36), lNumber = 0\<rparr>"

definition ref_grant :: "string \<Rightarrow> amounts MsgCreateClawbackVestingAccount" where
  "ref_grant to = \<lparr>msgFrom = ''funder'', msgTo = to, msgStartTime = timeUnix 12, msgLockup = [],
     msgVesting = [\<lparr>Length = 4, Amount = [(''a'', 5)]\<rparr>], msgMerge = True\<rparr>"

lemma ref_bank_keepers: "vesting_keepers ref_coins ref_periods ref_bank (\<lambda>_. 0)"
  unfolding ref_bank_def by (rule ref_vesting.vesting_keepers_axioms)

lemma ref_account_at: "GetAccount ref_bank ref_state a = (if a = 2 then Some (ClawbackAcc ref_account) else None)"
  by (simp add: ref_bank_def ref_keepers_def ref_state_def ref_account_def)

lemma ref_state_inv: "vesting_inv ref_coins ref_bank ref_state"
  using ref_account_ok by (simp add: vesting_inv_def ref_account_at)

lemma ref_grant_fits: "fits (Unix (msgStartTime (ref_grant s))) (msgLockup (ref_grant s))"
  "fits (Unix (msgStartTime (ref_grant s))) (msgVesting (ref_grant s))"
  by (simp_all add: ref_grant_def)

lemma succeeds: "\<not> isl r \<Longrightarrow> \<exists>x. r = Inr x"
  by (cases r) auto

text \<open>
  C18.  The vesting module keeps every clawback account well formed and the supply unchanged.  From a
  state in which all clawback accounts are well formed, any sequence of messages that succeed, with
  grants whose schedules stay in the range of \<^verbatim>\<open>int64\<close>, ends in such a state, with the supply
  of every denomination unchanged.
\<close>

theorem vesting_messages_safe:
  assumes "vesting_keepers C P K keccak" and "vesting_run C P K keccak B x y" and "vesting_inv C K x"
  shows "vesting_inv C K y \<and> GetSupply K y = GetSupply K x"
  using vesting_keepers.run_inv [OF assms] .

theorem vesting_messages_safe_witness:
  "\<exists>y. vesting_run ref_coins ref_periods ref_bank (\<lambda>_. 0) ref_bech ref_state y \<and>
    GetAccount ref_bank y 3 \<noteq> None \<and> vesting_inv ref_coins ref_bank y"
proof -
  have "\<not> isl (deliver ref_coins ref_periods ref_bank (\<lambda>_. 0) ref_bech (timeUnix 20) (MCreate (ref_grant ''fresh'')) ref_state)"
    by code_simp
  then obtain y where y: "deliver ref_coins ref_periods ref_bank (\<lambda>_. 0) ref_bech (timeUnix 20) (MCreate (ref_grant ''fresh'')) ref_state = Inr y"
    by (auto dest: succeeds)
  have "case deliver ref_coins ref_periods ref_bank (\<lambda>_. 0) ref_bech (timeUnix 20) (MCreate (ref_grant ''fresh'')) ref_state of
      Inl _ \<Rightarrow> False | Inr y \<Rightarrow> \<not> Option.is_none (GetAccount ref_bank y 3)" by code_simp
  then have "GetAccount ref_bank y 3 \<noteq> None" using y by (auto simp: Option.is_none_def)
  moreover have run: "vesting_run ref_coins ref_periods ref_bank (\<lambda>_. 0) ref_bech ref_state y"
    by (rule run_msg [OF run_start _ y]) (simp add: ref_grant_fits)
  ultimately show ?thesis using vesting_messages_safe [OF ref_bank_keepers run ref_state_inv] by blast
qed

text \<open>
  C22.  Creating or extending a clawback account.  When \<^verbatim>\<open>CreateClawbackVestingAccount\<close> succeeds the
  recipient is not blocked and holds a well-formed clawback account of that funder; its grant is the
  old grant, if any, plus the coins of the message; exactly those coins move from the funder to the
  recipient; no other account and no supply changes.
\<close>

theorem create_grants:
  assumes "vesting_keepers C P K keccak" and "CreateClawbackVestingAccount C P K B now msg x = Inr x'"
    and "vesting_inv C K x" and "fits (Unix (msgStartTime msg)) (msgLockup msg)"
    and "fits (Unix (msgStartTime msg)) (msgVesting msg)"
  shows "\<exists>funder to coins va. AccAddressFromBech32 B (msgFrom msg) = Inr funder \<and>
    AccAddressFromBech32 B (msgTo msg) = Inr to \<and>
    \<not> BlockedAddr K to \<and> GetAccount K x' to = Some (ClawbackAcc va) \<and> va_ok C va \<and>
    (FunderAddress va = AccString B funder \<or> FunderAddress va = msgFrom msg) \<and>
    (\<forall>z. z \<noteq> to \<longrightarrow> GetAccount K x' z = GetAccount K x z) \<and>
    (\<forall>d. AmountOf C coins d = max (total C (msgLockup msg) d) (total C (msgVesting msg) d)) \<and>
    (\<forall>d. AmountOf C (OriginalVesting (base va)) d = vesting_at C K x to d + AmountOf C coins d) \<and>
    (\<forall>z d. BankBalance K x' z d =
      BankBalance K x z d - at_addr funder z (AmountOf C coins d) + at_addr to z (AmountOf C coins d)) \<and>
    GetSupply K x' = GetSupply K x"
  using vesting_keepers.CreateClawbackVestingAccount_ok [OF assms] .

theorem create_grants_witness:
  "\<exists>x' va. CreateClawbackVestingAccount ref_coins ref_periods ref_bank ref_bech (timeUnix 20) (ref_grant ''acct'') ref_state = Inr x' \<and>
    GetAccount ref_bank x' 2 = Some (ClawbackAcc va) \<and> va_ok ref_coins va \<and>
    AmountOf ref_coins (OriginalVesting (base va)) ''a'' = 17"
proof -
  let ?run = "CreateClawbackVestingAccount ref_coins ref_periods ref_bank ref_bech (timeUnix 20) (ref_grant ''acct'') ref_state"
  have "\<not> isl ?run" by code_simp
  then obtain x' where x': "?run = Inr x'" by (auto dest: succeeds)
  have "AccAddressFromBech32 ref_bech (msgTo (ref_grant ''acct'')) = Inr 2" by (simp add: ref_bech_def ref_grant_def)
  moreover have "vesting_at ref_coins ref_bank ref_state 2 ''a'' = 12"
    by (simp add: vesting_at_def ref_account_at) code_simp
  moreover have "max (total ref_coins (msgLockup (ref_grant ''acct'')) ''a'') (total ref_coins (msgVesting (ref_grant ''acct'')) ''a'') = 5"
    by code_simp
  ultimately show ?thesis
    using create_grants [OF ref_bank_keepers x' ref_state_inv ref_grant_fits] x' by (elim exE conjE) auto
qed

text \<open>
  C21.  Clawback.  When \<^verbatim>\<open>Clawback\<close> succeeds it was asked for by the funder, after vesting began; the
  account holds on to exactly what has vested, as a well-formed clawback account; the unvested
  amount, and nothing else, moves to the destination, which is the one given or else the
  funder, and not blocked; every other account and the supply stay as they were.
\<close>

theorem clawback_returns_unvested:
  assumes "vesting_keepers C P K keccak" and "Clawback C P K B now msg x = Inr x'" and "vesting_inv C K x"
  shows "\<exists>addr dest va va'. AccAddressFromBech32 B (clAccount msg) = Inr addr \<and> \<not> BlockedAddr K dest \<and>
    (\<forall>a. AccAddressFromBech32 B (if clDest msg = '''' then clFunder msg else clDest msg) = Inr a \<longrightarrow> dest = a) \<and>
    GetAccount K x addr = Some (ClawbackAcc va) \<and> FunderAddress va = clFunder msg \<and> StartTime va \<le> now \<and>
    GetAccount K x' addr = Some (ClawbackAcc va') \<and> va_ok C va' \<and> FunderAddress va' = FunderAddress va \<and>
    (\<forall>z. z \<noteq> addr \<and> z \<noteq> dest \<longrightarrow> GetAccount K x' z = GetAccount K x z) \<and>
    (\<forall>d. AmountOf C (OriginalVesting (base va')) d = AmountOf C (GetVestedOnly C va now) d) \<and>
    (\<forall>z d. BankBalance K x' z d = BankBalance K x z d
      - at_addr addr z (AmountOf C (OriginalVesting (base va)) d - AmountOf C (GetVestedOnly C va now) d)
      + at_addr dest z (AmountOf C (OriginalVesting (base va)) d - AmountOf C (GetVestedOnly C va now) d)) \<and>
    GetSupply K x' = GetSupply K x"
  using vesting_keepers.Clawback_ok [OF assms] by blast

theorem clawback_returns_unvested_witness:
  "\<exists>x'. Clawback ref_coins ref_periods ref_bank ref_bech (timeUnix 20)
      \<lparr>clFunder = ''funder'', clAccount = ''acct'', clDest = ''''\<rparr> ref_state = Inr x' \<and>
    BankBalance ref_bank x' 2 ''a'' = 3 \<and> BankBalance ref_bank x' 1 ''a'' = 21"
proof -
  let ?msg = "\<lparr>clFunder = ''funder'', clAccount = ''acct'', clDest = ''''\<rparr>"
  let ?run = "Clawback ref_coins ref_periods ref_bank ref_bech (timeUnix 20) ?msg ref_state"
  have "\<not> isl ?run" by code_simp
  then obtain x' where x': "?run = Inr x'" by (auto dest: succeeds)
  have bech: "AccAddressFromBech32 ref_bech ''acct'' = Inr 2" "AccAddressFromBech32 ref_bech ''funder'' = Inr 1"
    by (simp_all add: ref_bech_def)
  have amounts: "AmountOf ref_coins (GetVestedOnly ref_coins ref_account (timeUnix 20)) ''a'' = 3"
    "AmountOf ref_coins (OriginalVesting (base ref_account)) ''a'' = 12"
    "BankBalance ref_bank ref_state 2 ''a'' = 12" "BankBalance ref_bank ref_state 1 ''a'' = 12"
    by code_simp+
  obtain addr dest va where r: "Inr addr = (Inr 2 :: string + address)"
    "\<forall>a. (Inr 1 :: string + address) = Inr a \<longrightarrow> dest = a" "GetAccount ref_bank ref_state addr = Some (ClawbackAcc va)"
    "\<And>z d. BankBalance ref_bank x' z d = BankBalance ref_bank ref_state z d
      - at_addr addr z (AmountOf ref_coins (OriginalVesting (base va)) d - AmountOf ref_coins (GetVestedOnly ref_coins va (timeUnix 20)) d)
      + at_addr dest z (AmountOf ref_coins (OriginalVesting (base va)) d - AmountOf ref_coins (GetVestedOnly ref_coins va (timeUnix 20)) d)"
    using clawback_returns_unvested [OF ref_bank_keepers x' ref_state_inv] bech by auto
  then have "addr = 2" "dest = 1" "va = ref_account" by (auto simp: ref_account_at split: if_splits)
  then show ?thesis using x' r(4) [of 2 "''a''"] r(4) [of 1 "''a''"] amounts by (simp add: at_addr_def)
qed

text \<open>
  Merging a grant.  On a well-formed account and a grant whose two schedules are in range and
  total the coins granted, \<^verbatim>\<open>addGrant\<close> never fails; the account stays well formed, starts at the
  earlier start, and from then on has vested, and unlocked, what the old schedule and the grant
  have together.
\<close>

theorem grant_merges:
  assumes "vesting_keepers C P K keccak" and "va_ok C va" and "fits gs gl" and "fits gs gv"
    and "\<And>d. total C gl d = AmountOf C coins d" and "\<And>d. total C gv d = AmountOf C coins d"
  shows "\<exists>va'. addGrant C K x now va gs gl gv coins = Inr va' \<and> va_ok C va' \<and>
    GetStartTime va' = min (GetStartTime va) gs \<and> baseAccount (base va') = baseAccount (base va) \<and>
    FunderAddress va' = FunderAddress va \<and>
    (\<forall>d. AmountOf C (OriginalVesting (base va')) d = AmountOf C (OriginalVesting (base va)) d + AmountOf C coins d) \<and>
    (\<forall>t d. GetStartTime va' < Unix t \<longrightarrow>
      AmountOf C (GetVestedOnly C va' t) d =
        cum C (GetStartTime va) (VestingPeriods va) (Unix t) d + cum C gs gv (Unix t) d \<and>
      AmountOf C (GetUnlockedOnly C va' t) d =
        cum C (GetStartTime va) (LockupPeriods va) (Unix t) d + cum C gs gl (Unix t) d)"
  using vesting_keepers.addGrant_ok [OF assms] .

theorem grant_merges_witness:
  "\<exists>va'. addGrant ref_coins ref_bank ref_state (timeUnix 20) ref_account 12
      [\<lparr>Length = 0, Amount = [(''a'', 5)]\<rparr>] [\<lparr>Length = 4, Amount = [(''a'', 5)]\<rparr>] [(''a'', 5)] = Inr va' \<and>
    va_ok ref_coins va' \<and> AmountOf ref_coins (GetVestedOnly ref_coins va' (timeUnix 16)) ''a'' = 8"
proof -
  have f: "fits 12 [\<lparr>Length = 0, Amount = [(''a'', 5 :: nat)]\<rparr>]" "fits 12 [\<lparr>Length = 4, Amount = [(''a'', 5 :: nat)]\<rparr>]"
    by simp_all
  have t: "total ref_coins [\<lparr>Length = n, Amount = [(''a'', 5)]\<rparr>] d = AmountOf ref_coins [(''a'', 5)] d" for n d by simp
  have "cum ref_coins (GetStartTime ref_account) (VestingPeriods ref_account) 16 ''a'' = 3"
    "cum ref_coins 12 [\<lparr>Length = 4, Amount = [(''a'', 5)]\<rparr>] 16 ''a'' = 5" "GetStartTime ref_account = 10"
    by code_simp+
  then show ?thesis
    using grant_merges [OF ref_bank_keepers ref_account_ok f t t, of ref_state "timeUnix 20"] by auto
qed

text \<open>
  A clawback account becomes a plain account only when nothing is left to vest or to unlock:
  when \<^verbatim>\<open>ConvertVestingAccount\<close> succeeds, all of the grant has vested and has been unlocked, the new
  account keeps address, number, key and sequence and has no code, and nothing else changes.
\<close>

theorem convert_only_when_vested:
  assumes "vesting_keepers C P K keccak" and "ConvertVestingAccount C K keccak B now s x = Inr x'"
    and "vesting_inv C K x"
  shows "\<exists>addr va. AccAddressFromBech32 B s = Inr addr \<and> GetAccount K x addr = Some (ClawbackAcc va) \<and>
    (\<forall>d. AmountOf C (GetVestedOnly C va now) d = AmountOf C (OriginalVesting (base va)) d) \<and>
    (\<forall>d. AmountOf C (GetUnlockedOnly C va now) d = AmountOf C (OriginalVesting (base va)) d) \<and>
    GetAccount K x' = (GetAccount K x)(addr \<mapsto> EthAcc \<lparr>ethBase = baseAccount (base va), ethCodeHash = keccak []\<rparr>) \<and>
    BankBalance K x' = BankBalance K x \<and> GetSupply K x' = GetSupply K x"
  using vesting_keepers.ConvertVestingAccount_ok [OF assms] .

theorem convert_only_when_vested_witness:
  "\<exists>x'. ConvertVestingAccount ref_coins ref_bank (\<lambda>_. 0) ref_bech (timeUnix 30) ''acct'' ref_state = Inr x' \<and>
    GetAccount ref_bank x' 2 = Some (EthAcc \<lparr>ethBase = baseAccount (base ref_account), ethCodeHash = 0\<rparr>)"
proof -
  let ?run = "ConvertVestingAccount ref_coins ref_bank (\<lambda>_. 0) ref_bech (timeUnix 30) ''acct'' ref_state"
  have "\<not> isl ?run" by code_simp
  then obtain x' where x': "?run = Inr x'" by (auto dest: succeeds)
  have "AccAddressFromBech32 ref_bech ''acct'' = Inr 2" by (simp add: ref_bech_def)
  then show ?thesis
    using convert_only_when_vested [OF ref_bank_keepers x' ref_state_inv] x'
    by (auto simp: ref_account_at split: if_splits)
qed

end
