(* ===== verification/Sdk_Dec.thy ===== *)
theory Sdk_Dec
  imports Sdk
begin

text \<open>
  Decimals of the SDK.  A \<^verbatim>\<open>sdk.Dec\<close> is an integer counting units of \<open>10 ^ -18\<close>; sums, differences and
  comparisons are those of the integers.  The operations that round or check a bit length are
  not part of this repository: they are the record \<open>Decs\<close>, and the locale \<open>sdk_dec\<close> states what
  their documentation promises, a rounding error and the range in which they do not panic.  The check of
  the bit length of a sum is left out.
\<close>

type_synonym dec = int

definition dec_one :: int where
  "dec_one = 10 ^ 18"

definition NewDec :: "int \<Rightarrow> dec" where
  "NewDec n = n * dec_one"

record Decs =
  DMul :: "dec \<Rightarrow> dec \<Rightarrow> panic + dec"
  DQuo :: "dec \<Rightarrow> dec \<Rightarrow> panic + dec"
  DMulInt :: "dec \<Rightarrow> int \<Rightarrow> panic + dec"
  DQuoInt :: "dec \<Rightarrow> int \<Rightarrow> panic + dec"
  DPower :: "dec \<Rightarrow> nat \<Rightarrow> panic + dec"
  DTruncateInt :: "dec \<Rightarrow> int"
  DRoundInt :: "dec \<Rightarrow> int"
  NewIntFromBigInt :: "int \<Rightarrow> panic + int"
  IMul :: "int \<Rightarrow> int \<Rightarrow> panic + int"

lemma dec_one_pos [simp]: "0 < dec_one" "0 \<le> dec_one"
  by (simp_all add: dec_one_def)

lemma near: "2 * \<bar>x - y\<bar> \<le> d \<Longrightarrow> 0 < d \<Longrightarrow> y - d < x \<and> x < y + d" for x y d :: int
  by (simp add: abs_if split: if_splits)

locale sdk_dec =
  fixes D :: Decs
  assumes Mul_ok: "\<bar>a * b\<bar> < 2 ^ 300 \<Longrightarrow> \<exists>r. DMul D a b = Inr r"
    and Mul_round: "DMul D a b = Inr r \<Longrightarrow> 2 * \<bar>r * dec_one - a * b\<bar> \<le> dec_one"
    and Quo_ok: "b \<noteq> 0 \<Longrightarrow> \<bar>a\<bar> < 2 ^ 180 \<Longrightarrow> \<exists>r. DQuo D a b = Inr r"
    and Quo_round: "DQuo D a b = Inr r \<Longrightarrow> b \<noteq> 0 \<and> \<bar>r * b - a * dec_one\<bar> \<le> \<bar>b\<bar>"
    and Quo_sign: "DQuo D a b = Inr r \<Longrightarrow> 0 \<le> a \<Longrightarrow> 0 < b \<Longrightarrow> 0 \<le> r"
    and MulInt_ok: "\<bar>a * n\<bar> < 2 ^ 300 \<Longrightarrow> DMulInt D a n = Inr (a * n)"
    and MulInt_exact: "DMulInt D a n = Inr r \<Longrightarrow> r = a * n"
    and QuoInt_ok: "0 \<le> a \<Longrightarrow> 0 < n \<Longrightarrow> DQuoInt D a n = Inr (a div n)"
    and QuoInt_zero: "\<exists>p. DQuoInt D a 0 = Inl p"
    and Power_unit: "0 \<le> a \<Longrightarrow> a \<le> dec_one \<Longrightarrow> \<exists>r. DPower D a k = Inr r \<and> 0 \<le> r \<and> r \<le> dec_one"
    and TruncateInt_div: "0 \<le> a \<Longrightarrow> DTruncateInt D a = a div dec_one"
    and RoundInt_near: "2 * \<bar>DRoundInt D a * dec_one - a\<bar> \<le> dec_one"
    and RoundInt_mono: "a \<le> b \<Longrightarrow> DRoundInt D a \<le> DRoundInt D b"
    and NewInt_ok: "\<bar>n\<bar> < 2 ^ 256 \<Longrightarrow> NewIntFromBigInt D n = Inr n"
    and NewInt_id: "NewIntFromBigInt D n = Inr m \<Longrightarrow> m = n"
    and IMul_ok: "\<bar>a * b\<bar> < 2 ^ 255 \<Longrightarrow> IMul D a b = Inr (a * b)"
    and IMul_exact: "IMul D a b = Inr r \<Longrightarrow> r = a * b"
begin

lemma Mul_nonneg:
  assumes "DMul D a b = Inr r" and "0 \<le> a" and "0 \<le> b"
  shows "0 \<le> r"
proof -
  have "- 1 * dec_one < r * dec_one"
    using near [OF Mul_round [OF assms(1)] dec_one_pos(1)] mult_nonneg_nonneg [OF assms(2,3)] by simp
  then show ?thesis by (simp only: mult_less_cancel_right_pos dec_one_pos)
qed

text \<open>A product with a factor of at most one stays below the other factor.\<close>

lemma Mul_le:
  assumes "DMul D a b = Inr r" and "0 \<le> a" and "b \<le> dec_one"
  shows "r \<le> a"
proof -
  have "a * b \<le> a * dec_one" using assms(2,3) by (simp add: mult_left_mono)
  then have "r * dec_one < (a + 1) * dec_one"
    using near [OF Mul_round [OF assms(1)] dec_one_pos(1)] by (simp add: distrib_right)
  then show ?thesis by (simp only: mult_less_cancel_right_pos dec_one_pos)
qed

lemma TruncateInt_NewDec: "0 \<le> n \<Longrightarrow> DTruncateInt D (NewDec n) = n"
  by (simp add: TruncateInt_div NewDec_def dec_one_def)

lemma TruncateInt_mono: "0 \<le> a \<Longrightarrow> a \<le> b \<Longrightarrow> DTruncateInt D a \<le> DTruncateInt D b"
  by (simp add: TruncateInt_div zdiv_mono1)

lemma TruncateInt_nonneg: "0 \<le> a \<Longrightarrow> 0 \<le> DTruncateInt D a"
  by (simp add: TruncateInt_div pos_imp_zdiv_nonneg_iff)

end

section \<open>Reference instance: rounding half to even\<close>

definition ref_round :: "int \<Rightarrow> int" where
  "ref_round n =
     (let q = n div dec_one; r = n mod dec_one
      in if 2 * r < dec_one then q else if dec_one < 2 * r then q + 1 else if even q then q else q + 1)"

definition ref_bounded :: "int \<Rightarrow> panic + int" where
  "ref_bounded n = (if \<bar>n\<bar> < 2 ^ 315 then Inr n else Inl (Panic ''Int overflow''))"

fun ref_power :: "dec \<Rightarrow> nat \<Rightarrow> dec" where
  "ref_power a 0 = dec_one"
| "ref_power a (Suc n) = ref_round (ref_power a n * a)"

definition ref_dec :: Decs where
  "ref_dec =
     \<lparr>DMul = (\<lambda>a b. ref_bounded (ref_round (a * b))),
      DQuo = (\<lambda>a b. if b = 0 then Inl DivisionByZero else ref_bounded (a * dec_one div b)),
      DMulInt = (\<lambda>a n. ref_bounded (a * n)),
      DQuoInt = (\<lambda>a n. if n = 0 then Inl DivisionByZero else Inr (a div n)),
      DPower = (\<lambda>a n. ref_bounded (ref_power a n)),
      DTruncateInt = (\<lambda>a. a div dec_one),
      DRoundInt = ref_round,
      NewIntFromBigInt = (\<lambda>n. if \<bar>n\<bar> < 2 ^ 256 then Inr n else Inl (Panic ''NewIntFromBigInt() out of bound'')),
      IMul = (\<lambda>a b. if \<bar>a * b\<bar> < 2 ^ 256 then Inr (a * b) else Inl (Panic ''Int overflow''))\<rparr>"

lemma ref_round_near: "2 * \<bar>ref_round n * dec_one - n\<bar> \<le> dec_one"
proof -
  define q r where "q = n div dec_one" and "r = n mod dec_one"
  have n: "n = q * dec_one + r" by (simp add: q_def r_def)
  have r: "0 \<le> r" "r < dec_one" by (simp_all add: r_def)
  show ?thesis
    unfolding ref_round_def Let_def q_def [symmetric] r_def [symmetric] using n r
    by (auto simp: algebra_simps)
qed

lemma ref_round_mono: "n \<le> m \<Longrightarrow> ref_round n \<le> ref_round m"
proof -
  assume "n \<le> m"
  define q r q' r' where "q = n div dec_one" and "r = n mod dec_one" and "q' = m div dec_one" and "r' = m mod dec_one"
  note defs = q_def [symmetric] r_def [symmetric] q'_def [symmetric] r'_def [symmetric]
  have "q \<le> q'" using \<open>n \<le> m\<close> unfolding q_def q'_def by (rule zdiv_mono1) simp
  moreover have "r \<le> r'" if "q = q'"
    using \<open>n \<le> m\<close> that div_mult_mod_eq [of n dec_one] div_mult_mod_eq [of m dec_one] unfolding defs by simp
  ultimately have "q + 1 \<le> q' \<or> q = q' \<and> r \<le> r'" by auto
  then show ?thesis unfolding ref_round_def Let_def defs by (elim disjE) auto
qed

lemma ref_round_abs: "\<bar>ref_round n\<bar> \<le> \<bar>n\<bar> + 1"
proof -
  have "\<bar>ref_round n * dec_one\<bar> \<le> \<bar>ref_round n * dec_one - n\<bar> + \<bar>n\<bar>" by simp
  then have "2 * (\<bar>ref_round n\<bar> * dec_one) \<le> 2 * \<bar>n\<bar> + dec_one"
    using ref_round_near [of n] by (simp add: abs_mult)
  then show ?thesis by (simp add: dec_one_def)
qed

lemma ref_round_unit: "0 \<le> n \<Longrightarrow> n \<le> dec_one * dec_one \<Longrightarrow> 0 \<le> ref_round n \<and> ref_round n \<le> dec_one"
  using ref_round_near [of n] unfolding dec_one_def by (auto simp: abs_le_iff)

lemma ref_power_unit: "0 \<le> a \<Longrightarrow> a \<le> dec_one \<Longrightarrow> 0 \<le> ref_power a n \<and> ref_power a n \<le> dec_one"
proof (induction n)
  case (Suc n)
  then have "0 \<le> ref_power a n * a" "ref_power a n * a \<le> dec_one * dec_one" by (auto intro: mult_mono)
  then show ?case using ref_round_unit by simp
qed (simp add: dec_one_def)

interpretation ref_dec: sdk_dec ref_dec
proof unfold_locales
  fix a b :: int
  assume "\<bar>a * b\<bar> < 2 ^ 300"
  then show "\<exists>r. DMul ref_dec a b = Inr r"
    using ref_round_abs [of "a * b"] by (simp add: ref_dec_def ref_bounded_def)
next
  fix a b :: int
  assume b: "b \<noteq> 0" and a: "\<bar>a\<bar> < 2 ^ 180"
  have "\<bar>a * dec_one div b\<bar> \<le> \<bar>a * dec_one\<bar> + 1"
  proof -
    have "1 \<le> \<bar>b\<bar>" using b by simp
    have "\<bar>a * dec_one mod b\<bar> \<le> \<bar>b\<bar>" using abs_mod_less [OF b, of "a * dec_one"] by simp
    then have "\<bar>a * dec_one div b\<bar> * \<bar>b\<bar> \<le> \<bar>a * dec_one\<bar> + \<bar>b\<bar>"
      using abs_triangle_ineq4 [of "a * dec_one" "a * dec_one mod b"]
      by (simp add: minus_mod_eq_div_mult abs_mult)
    also have "\<dots> \<le> (\<bar>a * dec_one\<bar> + 1) * \<bar>b\<bar>"
      using mult_left_mono [OF \<open>1 \<le> \<bar>b\<bar>\<close>, of "\<bar>a * dec_one\<bar>"] by (simp add: distrib_right)
    finally show ?thesis by (rule mult_right_le_imp_le) (use b in simp)
  qed
  then show "\<exists>r. DQuo ref_dec a b = Inr r"
    using a b by (simp add: ref_dec_def ref_bounded_def dec_one_def abs_mult)
next
  fix a b r :: int
  assume "DQuo ref_dec a b = Inr r"
  then have b: "b \<noteq> 0" and r: "r = a * dec_one div b" by (auto simp: ref_dec_def ref_bounded_def split: if_splits)
  have "r * b - a * dec_one = - (a * dec_one mod b)" unfolding r by (simp add: minus_mod_eq_div_mult [symmetric])
  moreover have "\<bar>a * dec_one mod b\<bar> \<le> \<bar>b\<bar>"
    using abs_mod_less [OF b, of "a * dec_one"] by simp
  ultimately show "b \<noteq> 0 \<and> \<bar>r * b - a * dec_one\<bar> \<le> \<bar>b\<bar>" using b by simp
next
  fix a :: int and n
  assume "0 \<le> a" "a \<le> dec_one"
  then show "\<exists>r. DPower ref_dec a n = Inr r \<and> 0 \<le> r \<and> r \<le> dec_one"
    using ref_power_unit [of a n] by (simp add: ref_dec_def ref_bounded_def dec_one_def)
qed (auto simp: ref_dec_def ref_bounded_def ref_round_near ref_round_mono pos_imp_zdiv_nonneg_iff split: if_splits)

end
