(* ===== verification/Feemarket.thy ===== *)
theory Feemarket
  imports Sdk_Dec
begin

text \<open>
  The fee market (\<^verbatim>\<open>x/feemarket\<close>): parameters, the store of the module, the base fee of EIP-1559
  computed at the begin of a block from the gas of the parent, and the gas recorded at its end.
  The store is typed: the protobuf codec and the big-endian encoding of numbers are left out.
  Events, telemetry and logging are left out.  A nil \<^verbatim>\<open>Int\<close> or \<^verbatim>\<open>Dec\<close> is \<open>None\<close>; using it panics.
\<close>

section \<open>Parameters\<close>

record FmParams =
  NoBaseFee :: bool
  BaseFeeChangeDenominator :: "32 word"
  ElasticityMultiplier :: "32 word"
  BaseFee :: "int option"
  EnableHeight :: int
  MinGasPrice :: "dec option"
  MinGasMultiplier :: "dec option"

definition fm_NewParams :: "bool \<Rightarrow> 32 word \<Rightarrow> 32 word \<Rightarrow> u64 \<Rightarrow> int \<Rightarrow> dec option \<Rightarrow> dec option \<Rightarrow> FmParams" where
  "fm_NewParams noBaseFee baseFeeChangeDenom elasticityMultiplier baseFee enableHeight minGasPrice minGasPriceMultiplier =
     \<lparr>NoBaseFee = noBaseFee, BaseFeeChangeDenominator = baseFeeChangeDenom,
      ElasticityMultiplier = elasticityMultiplier, BaseFee = Some (uint baseFee), EnableHeight = enableHeight,
      MinGasPrice = minGasPrice, MinGasMultiplier = minGasPriceMultiplier\<rparr>"

text \<open>The constants of go-ethereum are arguments: denominator, multiplier and initial fee.\<close>

definition fm_DefaultParams :: "32 word \<Rightarrow> 32 word \<Rightarrow> u64 \<Rightarrow> FmParams" where
  "fm_DefaultParams denominator multiplier initialBaseFee =
     \<lparr>NoBaseFee = False, BaseFeeChangeDenominator = denominator, ElasticityMultiplier = multiplier,
      BaseFee = Some (uint initialBaseFee), EnableHeight = 0, MinGasPrice = Some 0,
      MinGasMultiplier = Some (50 * 10 ^ 16)\<rparr>"

definition validateMinGasPrice :: "dec option \<Rightarrow> failure + unit" where
  "validateMinGasPrice i =
     (case i of None \<Rightarrow> Inl (Err ''invalid parameter: nil'')
      | Some v \<Rightarrow> if v < 0 then Inl (Err ''value cannot be negative'') else Inr ())"

definition validateMinGasMultiplier :: "dec option \<Rightarrow> failure + unit" where
  "validateMinGasMultiplier i =
     (case i of None \<Rightarrow> Inl (Err ''invalid parameter: nil'')
      | Some v \<Rightarrow> if v < 0 then Inl (Err ''value cannot be negative'')
                  else if v > dec_one then Inl (Err ''value cannot be greater than 1'') else Inr ())"

definition validateBaseFeeChangeDenominator :: "32 word \<Rightarrow> failure + unit" where
  "validateBaseFeeChangeDenominator value =
     (if value = 0 then Inl (Err ''base fee change denominator cannot be 0'') else Inr ())"

definition validateElasticityMultiplier :: "32 word \<Rightarrow> failure + unit" where
  "validateElasticityMultiplier i = Inr ()"

definition validateBaseFee :: "int option \<Rightarrow> failure + unit" where
  "validateBaseFee value =
     (case value of None \<Rightarrow> Inl (Panicked NilDereference)
      | Some v \<Rightarrow> if v < 0 then Inl (Err ''base fee cannot be negative'') else Inr ())"

definition validateEnableHeight :: "int \<Rightarrow> failure + unit" where
  "validateEnableHeight value =
     (if value < 0 then Inl (Err ''enable height cannot be negative'') else Inr ())"

definition fm_Validate :: "FmParams \<Rightarrow> failure + unit" where
  "fm_Validate p =
     (if BaseFeeChangeDenominator p = 0 then Inl (Err ''base fee change denominator cannot be 0'')
      else case BaseFee p of
        None \<Rightarrow> Inl (Panicked NilDereference)
      | Some f \<Rightarrow>
          if f < 0 then Inl (Err ''initial base fee cannot be negative'')
          else if EnableHeight p < 0 then Inl (Err ''enable height cannot be negative'')
          else rbind (validateMinGasMultiplier (MinGasMultiplier p)) (\<lambda>_. validateMinGasPrice (MinGasPrice p)))"

text \<open>The validation functions the parameter store of older versions runs on each entry.\<close>

definition ParamSetPairs :: "FmParams \<Rightarrow> (string \<times> (failure + unit)) list" where
  "ParamSetPairs p =
     [(''NoBaseFee'', Inr ()),
      (''BaseFeeChangeDenominator'', validateBaseFeeChangeDenominator (BaseFeeChangeDenominator p)),
      (''ElasticityMultiplier'', validateElasticityMultiplier (ElasticityMultiplier p)),
      (''BaseFee'', validateBaseFee (BaseFee p)),
      (''EnableHeight'', validateEnableHeight (EnableHeight p)),
      (''MinGasPrice'', validateMinGasPrice (MinGasPrice p)),
      (''MinGasMultiplier'', validateMinGasPrice (MinGasMultiplier p))]"

definition IsBaseFeeEnabled :: "FmParams \<Rightarrow> int \<Rightarrow> bool" where
  "IsBaseFeeEnabled p height \<longleftrightarrow> \<not> NoBaseFee p \<and> height \<ge> EnableHeight p"

section \<open>The store\<close>

text \<open>
  \<open>fmLegacy\<close> is what the legacy subspace returns, \<open>fmBaseFeeV1\<close> the entry of the first version.
\<close>

record FmStore =
  fmParams :: "FmParams option"
  fmLegacy :: FmParams
  fmBlockGasWanted :: "u64 option"
  fmTransient :: "u64 option"
  fmBaseFeeV1 :: bytes

text \<open>The block: height, consensus parameters with their block limits, gas meter.\<close>

record FmCtx =
  BlockHeight :: int
  ConsensusParams :: "int option option"
  BlockGasMeter :: "u64 option"

definition fm_GetParams :: "FmStore \<Rightarrow> FmParams" where
  "fm_GetParams st = (case fmParams st of None \<Rightarrow> fmLegacy st | Some p \<Rightarrow> p)"

definition fm_SetParams :: "FmParams \<Rightarrow> FmStore \<Rightarrow> FmStore" where
  "fm_SetParams p st = st\<lparr>fmParams := Some p\<rparr>"

definition GetBaseFeeEnabled :: "FmCtx \<Rightarrow> FmStore \<Rightarrow> bool" where
  "GetBaseFeeEnabled cx st =
     (let params = fm_GetParams st in \<not> NoBaseFee params \<and> BlockHeight cx \<ge> EnableHeight params)"

definition SetBytes :: "bytes \<Rightarrow> int" where
  "SetBytes bz = fold (\<lambda>b n. 256 * n + uint b) bz 0"

definition GetBaseFeeV1 :: "FmStore \<Rightarrow> int option" where
  "GetBaseFeeV1 st = (if fmBaseFeeV1 st = [] then None else Some (SetBytes (fmBaseFeeV1 st)))"

definition fm_GetBaseFee :: "FmStore \<Rightarrow> int option" where
  "fm_GetBaseFee st =
     (let params = fm_GetParams st in
      if NoBaseFee params then None
      else case BaseFee params of
        None \<Rightarrow> GetBaseFeeV1 st
      | Some baseFee \<Rightarrow> if baseFee = 0 then GetBaseFeeV1 st else Some baseFee)"

definition SetBaseFee :: "Decs \<Rightarrow> int \<Rightarrow> FmStore \<Rightarrow> panic + FmStore" where
  "SetBaseFee D baseFee st =
     rbind (NewIntFromBigInt D baseFee) (\<lambda>b. Inr (fm_SetParams ((fm_GetParams st)\<lparr>BaseFee := Some b\<rparr>) st))"

definition SetBlockGasWanted :: "u64 \<Rightarrow> FmStore \<Rightarrow> FmStore" where
  "SetBlockGasWanted gas st = st\<lparr>fmBlockGasWanted := Some gas\<rparr>"

definition GetBlockGasWanted :: "FmStore \<Rightarrow> u64" where
  "GetBlockGasWanted st = (case fmBlockGasWanted st of None \<Rightarrow> 0 | Some g \<Rightarrow> g)"

definition GetTransientGasWanted :: "FmStore \<Rightarrow> u64" where
  "GetTransientGasWanted st = (case fmTransient st of None \<Rightarrow> 0 | Some g \<Rightarrow> g)"

definition SetTransientBlockGasWanted :: "u64 \<Rightarrow> FmStore \<Rightarrow> FmStore" where
  "SetTransientBlockGasWanted gasWanted st = st\<lparr>fmTransient := Some gasWanted\<rparr>"

definition AddTransientGasWanted :: "u64 \<Rightarrow> FmStore \<Rightarrow> u64 \<times> FmStore" where
  "AddTransientGasWanted gasWanted st =
     (let result = GetTransientGasWanted st + gasWanted in (result, SetTransientBlockGasWanted result st))"

section \<open>The base fee\<close>

definition bigDiv :: "int \<Rightarrow> int \<Rightarrow> panic + int" where
  "bigDiv x y = (if y = 0 then Inl DivisionByZero else Inr (x div y))"

definition blockGasLimit :: "FmCtx \<Rightarrow> panic + int" where
  "blockGasLimit cx =
     (case ConsensusParams cx of
        None \<Rightarrow> Inr (2 ^ 64 - 1)
      | Some None \<Rightarrow> Inl NilDereference
      | Some (Some maxGas) \<Rightarrow> Inr (if maxGas > - 1 then maxGas else 2 ^ 64 - 1))"

definition CalculateBaseFee :: "Decs \<Rightarrow> FmCtx \<Rightarrow> FmStore \<Rightarrow> panic + int option" where
  "CalculateBaseFee D cx st =
     (let params = fm_GetParams st in
      if \<not> IsBaseFeeEnabled params (BlockHeight cx) then Inr None
      else if BlockHeight cx = EnableHeight params then Inr (BaseFee params)
      else case BaseFee params of
        None \<Rightarrow> Inr None
      | Some parentBaseFee \<Rightarrow>
          let parentGasUsed = uint (GetBlockGasWanted st) in
          rbind (blockGasLimit cx) (\<lambda>gasLimit.
          rbind (bigDiv gasLimit (uint (ElasticityMultiplier params))) (\<lambda>parentGasTarget.
            if \<not> (0 \<le> parentGasTarget \<and> parentGasTarget < 2 ^ 64) then Inr None
            else
              let baseFeeChangeDenominator = uint (BaseFeeChangeDenominator params) in
              if parentGasUsed = parentGasTarget then Inr (Some parentBaseFee)
              else if parentGasUsed > parentGasTarget then
                let gasUsedDelta = parentGasUsed - parentGasTarget in
                rbind (bigDiv (parentBaseFee * gasUsedDelta) parentGasTarget) (\<lambda>y.
                rbind (bigDiv y baseFeeChangeDenominator) (\<lambda>d.
                  Inr (Some (parentBaseFee + max d 1))))
              else
                let gasUsedDelta = parentGasTarget - parentGasUsed in
                rbind (bigDiv (parentBaseFee * gasUsedDelta) parentGasTarget) (\<lambda>y.
                rbind (bigDiv y baseFeeChangeDenominator) (\<lambda>baseFeeDelta.
                  case MinGasPrice params of
                    None \<Rightarrow> Inl NilDereference
                  | Some price \<Rightarrow> Inr (Some (max (parentBaseFee - baseFeeDelta) (DTruncateInt D price))))))))"

definition fm_BeginBlock :: "Decs \<Rightarrow> FmCtx \<Rightarrow> FmStore \<Rightarrow> panic + FmStore" where
  "fm_BeginBlock D cx st =
     rbind (CalculateBaseFee D cx st) (\<lambda>baseFee.
       case baseFee of None \<Rightarrow> Inr st | Some f \<Rightarrow> SetBaseFee D f st)"

definition fm_EndBlock :: "Decs \<Rightarrow> FmCtx \<Rightarrow> FmStore \<Rightarrow> panic + FmStore" where
  "fm_EndBlock D cx st =
     (case BlockGasMeter cx of
        None \<Rightarrow> Inr st
      | Some consumed \<Rightarrow>
          let gasWanted = uint (GetTransientGasWanted st); gasUsed = uint consumed in
          if \<not> in64 gasWanted then Inr st
          else if \<not> in64 gasUsed then Inr st
          else case MinGasMultiplier (fm_GetParams st) of
            None \<Rightarrow> Inl NilDereference
          | Some minGasMultiplier \<Rightarrow>
              rbind (DMul D (NewDec gasWanted) minGasMultiplier) (\<lambda>limitedGasWanted.
                let updatedGasWanted = DTruncateInt D (max limitedGasWanted (NewDec gasUsed))
                in if 0 \<le> updatedGasWanted \<and> updatedGasWanted < 2 ^ 64
                   then Inr (SetBlockGasWanted (word_of_int updatedGasWanted) st)
                   else Inl (Panic ''Uint64() out of bounds'')))"

section \<open>Messages, queries, genesis\<close>

definition fm_UpdateParams :: "string \<Rightarrow> string \<Rightarrow> FmParams \<Rightarrow> FmStore \<Rightarrow> failure + FmStore" where
  "fm_UpdateParams authority reqAuthority params st =
     (if authority \<noteq> reqAuthority then Inl (Err ''invalid authority'') else Inr (fm_SetParams params st))"

definition fm_ValidateBasic :: "(string \<Rightarrow> string + address) \<Rightarrow> string \<Rightarrow> FmParams \<Rightarrow> failure + unit" where
  "fm_ValidateBasic fromBech32 authority params =
     (case fromBech32 authority of Inl _ \<Rightarrow> Inl (Err ''invalid authority address'') | Inr _ \<Rightarrow> fm_Validate params)"

definition fm_QueryParams :: "FmStore \<Rightarrow> FmParams" where
  "fm_QueryParams st = fm_GetParams st"

definition fm_QueryBaseFee :: "Decs \<Rightarrow> FmStore \<Rightarrow> panic + int option" where
  "fm_QueryBaseFee D st =
     (case fm_GetBaseFee st of None \<Rightarrow> Inr None | Some f \<Rightarrow> rbind (NewIntFromBigInt D f) (\<lambda>a. Inr (Some a)))"

definition fm_QueryBlockGas :: "FmStore \<Rightarrow> string + int" where
  "fm_QueryBlockGas st =
     (let gas = uint (GetBlockGasWanted st)
      in if \<not> in64 gas then Inl ''block gas is higher than MaxInt64'' else Inr gas)"

record FmGenesis =
  genParams :: FmParams
  genBlockGas :: u64

definition fm_DefaultGenesisState :: "32 word \<Rightarrow> 32 word \<Rightarrow> u64 \<Rightarrow> FmGenesis" where
  "fm_DefaultGenesisState den mult fee = \<lparr>genParams = fm_DefaultParams den mult fee, genBlockGas = 0\<rparr>"

definition fm_NewGenesisState :: "FmParams \<Rightarrow> u64 \<Rightarrow> FmGenesis" where
  "fm_NewGenesisState params blockGas = \<lparr>genParams = params, genBlockGas = blockGas\<rparr>"

definition fm_GenesisValidate :: "FmGenesis \<Rightarrow> failure + unit" where
  "fm_GenesisValidate gs = fm_Validate (genParams gs)"

definition fm_InitGenesis :: "FmGenesis \<Rightarrow> FmStore \<Rightarrow> FmStore" where
  "fm_InitGenesis data st = SetBlockGasWanted (genBlockGas data) (fm_SetParams (genParams data) st)"

definition fm_ExportGenesis :: "FmStore \<Rightarrow> FmGenesis" where
  "fm_ExportGenesis st = \<lparr>genParams = fm_GetParams st, genBlockGas = GetBlockGasWanted st\<rparr>"

definition fm_MigrateStore :: "FmStore \<Rightarrow> failure + FmStore" where
  "fm_MigrateStore st =
     rbind (fm_Validate (fmLegacy st)) (\<lambda>_. Inr (fm_SetParams (fmLegacy st) st))"

section \<open>Correctness\<close>

definition fm_valid :: "FmStore \<Rightarrow> bool" where
  "fm_valid st \<longleftrightarrow> fm_Validate (fm_GetParams st) = Inr ()"

lemma fm_Validate_iff:
  "fm_Validate p = Inr () \<longleftrightarrow> BaseFeeChangeDenominator p \<noteq> 0 \<and> (\<exists>f. BaseFee p = Some f \<and> 0 \<le> f) \<and> 0 \<le> EnableHeight p \<and>
    (\<exists>m. MinGasMultiplier p = Some m \<and> 0 \<le> m \<and> m \<le> dec_one) \<and> (\<exists>g. MinGasPrice p = Some g \<and> 0 \<le> g)"
  by (auto simp: fm_Validate_def validateMinGasMultiplier_def validateMinGasPrice_def split: option.splits)

lemma fm_store_simps [simp]:
  "fm_GetParams (fm_SetParams p st) = p" "fm_GetParams (SetBlockGasWanted g st) = fm_GetParams st"
  "GetBlockGasWanted (SetBlockGasWanted g st) = g" "GetBlockGasWanted (fm_SetParams p st) = GetBlockGasWanted st"
  "fm_GetParams (SetTransientBlockGasWanted g st) = fm_GetParams st"
  "GetTransientGasWanted (SetTransientBlockGasWanted g st) = g"
  by (simp_all add: fm_GetParams_def fm_SetParams_def SetBlockGasWanted_def GetBlockGasWanted_def
      SetTransientBlockGasWanted_def GetTransientGasWanted_def cong: option.case_cong)

text \<open>The fee after a block that wanted \<open>used\<close> gas, for a target \<open>t\<close>, denominator \<open>n\<close> and floor \<open>m\<close>.\<close>

definition next_fee :: "int \<Rightarrow> int \<Rightarrow> int \<Rightarrow> int \<Rightarrow> int \<Rightarrow> int" where
  "next_fee f t n m used =
     (if used = t then f
      else if t < used then f + max 1 (f * (used - t) div t div n)
      else max m (f - f * (t - used) div t div n))"

text \<open>When the module computes a fee: enabled, past the first block, with a positive target.\<close>

definition fee_inputs :: "FmCtx \<Rightarrow> FmStore \<Rightarrow> int \<Rightarrow> int \<Rightarrow> bool" where
  "fee_inputs cx st f t \<longleftrightarrow>
     (let p = fm_GetParams st in
      \<not> NoBaseFee p \<and> EnableHeight p < BlockHeight cx \<and> BaseFee p = Some f \<and> ElasticityMultiplier p \<noteq> 0 \<and>
      (\<exists>limit. blockGasLimit cx = Inr limit \<and> limit < 2 ^ 64 \<and> t = limit div uint (ElasticityMultiplier p)) \<and> 0 < t)"

lemma uint_pos: "w \<noteq> 0 \<Longrightarrow> 0 < uint w"
  using uint_ge_0 [of w] by (simp add: le_less uint_0_iff)

lemma div_le_self: "0 \<le> x \<Longrightarrow> 0 < y \<Longrightarrow> x div y \<le> x" for x y :: int
  using zdiv_mono2 [of x 1 y] by simp

lemma in64_uint: "uint w < 2 ^ 63 \<Longrightarrow> in64 (uint w)"
  using order_trans [of "- (2 ^ 63)" 0 "uint w"] by (simp add: in64_def)

lemma uint64_lt: "uint (w :: u64) < 2 ^ 64"
  using uint_lt2p [of w] by simp

lemma CalculateBaseFee_next:
  assumes v: "fm_valid st" and i: "fee_inputs cx st f t"
  shows "\<exists>g. MinGasPrice (fm_GetParams st) = Some g \<and>
    CalculateBaseFee D cx st = Inr (Some (next_fee f t (uint (BaseFeeChangeDenominator (fm_GetParams st)))
      (DTruncateInt D g) (uint (GetBlockGasWanted st))))"
proof -
  let ?p = "fm_GetParams st" and ?u = "uint (GetBlockGasWanted st)"
  obtain limit where limit: "blockGasLimit cx = Inr limit" "limit < 2 ^ 64" "t = limit div uint (ElasticityMultiplier ?p)"
    and p: "\<not> NoBaseFee ?p" "EnableHeight ?p < BlockHeight cx" "BaseFee ?p = Some f" "ElasticityMultiplier ?p \<noteq> 0" "0 < t"
    using i by (auto simp: fee_inputs_def Let_def)
  obtain g where g: "MinGasPrice ?p = Some g" and n: "BaseFeeChangeDenominator ?p \<noteq> 0"
    using v by (auto simp: fm_valid_def fm_Validate_iff)
  have mult: "0 < uint (ElasticityMultiplier ?p)" using uint_pos [OF p(4)] .
  have "0 \<le> limit"
  proof (rule ccontr)
    assume "\<not> 0 \<le> limit"
    then have "limit div uint (ElasticityMultiplier ?p) < 0" using mult by (simp add: div_neg_pos_less0)
    then show False using p(5) limit(3) by simp
  qed
  then have t: "t < 2 ^ 64" using div_le_self [of limit] mult limit(2,3) by (meson le_less_trans)
  have div: "bigDiv limit (uint (ElasticityMultiplier ?p)) = Inr t" using mult limit(3) by (simp add: bigDiv_def)
  have n': "uint (BaseFeeChangeDenominator ?p) \<noteq> 0" using uint_pos [OF n] by simp
  show ?thesis
    using p limit(1) div t n' g
    by (simp add: CalculateBaseFee_def IsBaseFeeEnabled_def Let_def next_fee_def bigDiv_def max.commute)
qed

lemma next_fee_bounds:
  assumes "0 \<le> f" and "0 < t" and "0 < n" and "0 \<le> m" and "0 \<le> used"
  shows "0 \<le> next_fee f t n m used"
    and "t < used \<Longrightarrow> f < next_fee f t n m used"
    and "used < t \<Longrightarrow> m \<le> next_fee f t n m used \<and> f - f div n \<le> next_fee f t n m used \<and> next_fee f t n m used \<le> max m f"
    and "used \<le> k * t \<Longrightarrow> 1 \<le> k \<Longrightarrow> next_fee f t n m used \<le> max m (f + max 1 (f * (k - 1) div n))"
proof -
  have down: "0 \<le> f * (t - used) div t div n" "f * (t - used) div t div n \<le> f div n" if "used < t"
  proof -
    have nonneg: "0 \<le> f * (t - used)" using assms(1) that by simp
    then show "0 \<le> f * (t - used) div t div n" using assms(2,3) by (simp add: pos_imp_zdiv_nonneg_iff)
    have "f * (t - used) \<le> f * t" using assms(1,5) by (simp add: mult_left_mono)
    then have "f * (t - used) div t \<le> f" using zdiv_mono1 [of _ "f * t" t] assms(2) by fastforce
    then show "f * (t - used) div t div n \<le> f div n" using assms(3) by (simp add: zdiv_mono1)
  qed
  have "f div n \<le> f" using div_le_self assms(1,3) by simp
  then show "0 \<le> next_fee f t n m used" using assms(1,4) by (auto simp: next_fee_def max_def)
  show "t < used \<Longrightarrow> f < next_fee f t n m used" by (simp add: next_fee_def)
  show "used < t \<Longrightarrow> m \<le> next_fee f t n m used \<and> f - f div n \<le> next_fee f t n m used \<and> next_fee f t n m used \<le> max m f"
    using down by (auto simp: next_fee_def)
  assume k: "used \<le> k * t" "1 \<le> k"
  have up: "f * (used - t) div t div n \<le> f * (k - 1) div n"
  proof -
    have "f * (used - t) \<le> f * (k - 1) * t" using k(1) assms(1) by (simp add: mult_left_mono algebra_simps)
    then have "f * (used - t) div t \<le> f * (k - 1)" using zdiv_mono1 [of _ "f * (k - 1) * t" t] assms(2) by fastforce
    then show ?thesis using assms(3) by (simp add: zdiv_mono1)
  qed
  show "next_fee f t n m used \<le> max m (f + max 1 (f * (k - 1) div n))"
    using up down(1) by (auto simp: next_fee_def)
qed

lemma next_fee_mono:
  assumes "0 \<le> f" and "0 < t" and "0 < n" and "m \<le> f" and "u \<le> u'"
  shows "next_fee f t n m u \<le> next_fee f t n m u'"
proof -
  have scaled: "f * x div t div n \<le> f * y div t div n" if "x \<le> y" for x y
    using that assms(1-3) by (simp add: zdiv_mono1 mult_left_mono)
  have nonneg: "0 \<le> f * x div t div n" if "0 \<le> x" for x
    using that assms(1-3) by (simp add: pos_imp_zdiv_nonneg_iff)
  consider "u' \<le> t" | "u \<le> t" "t < u'" | "t < u" using assms(5) by linarith
  then show ?thesis
  proof cases
    case 1
    then show ?thesis using assms(4,5) scaled [of "t - u'" "t - u"] nonneg [of "t - u"] by (auto simp: next_fee_def)
  next
    case 2
    then show ?thesis using assms(4) nonneg [of "t - u"] by (auto simp: next_fee_def)
  next
    case 3
    then show ?thesis using assms(5) scaled [of "u - t" "u' - t"] by (auto simp: next_fee_def)
  qed
qed

context sdk_dec
begin

lemma EndBlock_gas:
  assumes v: "fm_valid st" and m: "BlockGasMeter cx = Some consumed"
    and w: "uint (GetTransientGasWanted st) < 2 ^ 63" and u: "uint consumed < 2 ^ 63"
  shows "\<exists>g. fm_EndBlock D cx st = Inr (SetBlockGasWanted g st) \<and> uint consumed \<le> uint g \<and>
    uint g \<le> max (uint consumed) (uint (GetTransientGasWanted st))"
proof -
  let ?w = "uint (GetTransientGasWanted st)" and ?u = "uint consumed"
  obtain k where k: "MinGasMultiplier (fm_GetParams st) = Some k" "0 \<le> k" "k \<le> dec_one"
    using v by (auto simp: fm_valid_def fm_Validate_iff)
  have in64: "in64 ?w" "in64 ?u" using w u by (simp_all add: in64_uint)
  have nw: "0 \<le> NewDec ?w" "0 \<le> NewDec ?u" by (simp_all add: NewDec_def)
  have "NewDec ?w * k \<le> 2 ^ 63 * dec_one * dec_one"
    using w k(2,3) by (intro mult_mono) (simp_all add: NewDec_def)
  moreover have "0 \<le> NewDec ?w * k" using nw k(2) by simp
  ultimately have "\<bar>NewDec ?w * k\<bar> < 2 ^ 300" by (simp add: dec_one_def)
  then obtain l where l: "DMul D (NewDec ?w) k = Inr l" using Mul_ok by blast
  have l_le: "0 \<le> l" "l \<le> NewDec ?w" using Mul_nonneg [OF l nw(1) k(2)] Mul_le [OF l nw(1) k(3)] by simp_all
  let ?g = "DTruncateInt D (max l (NewDec ?u))"
  have lower: "?u \<le> ?g" using TruncateInt_mono [OF nw(2), of "max l (NewDec ?u)"] TruncateInt_NewDec [of ?u] by simp
  have "NewDec ?w \<le> NewDec (max ?u ?w)" "NewDec ?u \<le> NewDec (max ?u ?w)"
    by (simp_all add: NewDec_def mult_right_mono)
  then have "max l (NewDec ?u) \<le> NewDec (max ?u ?w)" using l_le by simp
  moreover have "0 \<le> max l (NewDec ?u)" "0 \<le> max ?u ?w" using nw(2) by (simp_all add: le_max_iff_disj)
  ultimately have upper: "?g \<le> max ?u ?w" using TruncateInt_mono TruncateInt_NewDec by metis
  have "max ?u ?w < 2 ^ 64" using w u by simp
  then have range: "0 \<le> ?g" "?g < 2 ^ 64" using lower upper order_trans [OF uint_ge_0 lower] by linarith+
  then have "uint (word_of_int ?g :: u64) = ?g" by (simp add: uint_word_of_int)
  then show ?thesis
    using m in64 k(1) l range lower upper
    by (intro exI [of _ "word_of_int ?g"]) (simp add: fm_EndBlock_def Let_def)
qed

lemma BeginBlock_valid:
  assumes v: "fm_valid st" and run: "fm_BeginBlock D cx st = Inr st'"
  shows "fm_valid st' \<and> GetBlockGasWanted st' = GetBlockGasWanted st"
proof -
  let ?p = "fm_GetParams st"
  obtain f g where p: "BaseFee ?p = Some f" "0 \<le> f" "MinGasPrice ?p = Some g" "0 \<le> g"
    "BaseFeeChangeDenominator ?p \<noteq> 0"
    using v by (auto simp: fm_valid_def fm_Validate_iff)
  have n: "0 < uint (BaseFeeChangeDenominator ?p)" using uint_pos [OF p(5)] .
  have nonneg: "0 \<le> f'" if "CalculateBaseFee D cx st = Inr (Some f')" for f'
  proof -
    have "0 \<le> max x (DTruncateInt D g)" for x using TruncateInt_nonneg [OF p(4)] by simp
    then show ?thesis
      using that p by (auto simp: CalculateBaseFee_def Let_def bigDiv_def split: if_splits)
  qed
  obtain r where r: "CalculateBaseFee D cx st = Inr r" using run by (auto simp: fm_BeginBlock_def)
  show ?thesis
  proof (cases r)
    case None
    then show ?thesis using run r v by (simp add: fm_BeginBlock_def)
  next
    case (Some f')
    then obtain b where "NewIntFromBigInt D f' = Inr b" "st' = fm_SetParams (?p\<lparr>BaseFee := Some b\<rparr>) st"
      using run r by (auto simp: fm_BeginBlock_def SetBaseFee_def)
    then show ?thesis using nonneg r Some NewInt_id [of f' b] v by (auto simp: fm_valid_def fm_Validate_iff)
  qed
qed

end

section \<open>Blocks\<close>

text \<open>One block: begin, transactions that add to the gas wanted, and end; the transient store is
  cleared by the commit.\<close>

definition fm_block :: "Decs \<Rightarrow> FmCtx \<Rightarrow> u64 list \<Rightarrow> FmStore \<Rightarrow> panic + FmStore" where
  "fm_block D cx txs st =
     rbind (fm_BeginBlock D cx st) (\<lambda>st.
     rbind (fm_EndBlock D cx (fold (\<lambda>g st. snd (AddTransientGasWanted g st)) txs st)) (\<lambda>st.
       Inr (st\<lparr>fmTransient := None\<rparr>)))"

inductive fm_chain :: "Decs \<Rightarrow> FmStore \<Rightarrow> FmStore \<Rightarrow> bool" for D st where
  chain_start: "fm_chain D st st"
| chain_block: "fm_chain D st s \<Longrightarrow> fm_block D cx txs s = Inr s' \<Longrightarrow> fm_chain D st s'"
| chain_params: "fm_chain D st s \<Longrightarrow> fm_ValidateBasic fromBech32 req p = Inr () \<Longrightarrow>
    fm_UpdateParams authority req p s = Inr s' \<Longrightarrow> fm_chain D st s'"

lemma txs_params: "fm_GetParams (fold (\<lambda>g st. snd (AddTransientGasWanted g st)) txs st) = fm_GetParams st"
  by (induction txs arbitrary: st) (simp_all add: AddTransientGasWanted_def Let_def)

lemma EndBlock_params: "fm_EndBlock D cx st = Inr st' \<Longrightarrow> fm_GetParams st' = fm_GetParams st"
  by (auto simp: fm_EndBlock_def Let_def split: option.splits if_splits)

lemma clear_transient: "fm_GetParams (st\<lparr>fmTransient := x\<rparr>) = fm_GetParams st"
  by (simp add: fm_GetParams_def cong: option.case_cong)

context sdk_dec
begin

lemma block_valid: "fm_valid st \<Longrightarrow> fm_block D cx txs st = Inr st' \<Longrightarrow> fm_valid st'"
  using BeginBlock_valid [of st cx] EndBlock_params [of D cx]
  by (auto simp: fm_block_def fm_valid_def clear_transient txs_params)

lemma chain_valid: "fm_chain D st s \<Longrightarrow> fm_valid st \<Longrightarrow> fm_valid s"
proof (induction rule: fm_chain.induct)
  case (chain_params s fromBech32 req p authority s')
  then show ?case
    by (auto simp: fm_valid_def fm_UpdateParams_def fm_ValidateBasic_def split: if_splits sum.splits)
qed (auto intro: block_valid)

end

section \<open>Properties\<close>

text \<open>A concrete store: fee 1000, denominator 8, multiplier 2, floor 5, and a block limit of 200.\<close>

definition ref_fees :: FmParams where
  "ref_fees = fm_NewParams False 8 2 1000 0 (Some (5 * dec_one)) (Some (50 * 10 ^ 16))"

definition ref_market :: "u64 \<Rightarrow> FmStore" where
  "ref_market used = \<lparr>fmParams = Some ref_fees, fmLegacy = ref_fees, fmBlockGasWanted = Some used, fmTransient = None, fmBaseFeeV1 = []\<rparr>"

definition ref_block :: FmCtx where
  "ref_block = \<lparr>BlockHeight = 7, ConsensusParams = Some (Some 200), BlockGasMeter = Some 30\<rparr>"

lemma ref_market_valid: "fm_valid (ref_market u)"
  by (simp add: fm_valid_def fm_Validate_iff ref_market_def ref_fees_def fm_GetParams_def fm_NewParams_def dec_one_def)

lemma ref_market_inputs: "fee_inputs ref_block (ref_market u) 1000 100"
  by (simp add: fee_inputs_def Let_def ref_block_def ref_market_def ref_fees_def fm_GetParams_def fm_NewParams_def blockGasLimit_def)

text \<open>
  C32.  The base fee follows the gas of the parent block.  With valid parameters, past the
  first block and with a positive gas target, \<^verbatim>\<open>CalculateBaseFee\<close> does not panic and returns a fee;
  it is unchanged at the target, strictly larger above it, and below it at least the truncated
  minimum gas price, at least the old fee less one part in the change denominator, and at most the larger of the
  old fee and that price; a block that wanted \<open>k\<close> times the target raises it by at most \<open>k - 1\<close> such parts,
  or by one.
\<close>

theorem base_fee_follows_gas:
  assumes "sdk_dec D" and "fm_valid st" and "fee_inputs cx st f t"
  shows "\<exists>f' price. CalculateBaseFee D cx st = Inr (Some f') \<and> MinGasPrice (fm_GetParams st) = Some price \<and>
    (let used = uint (GetBlockGasWanted st); n = uint (BaseFeeChangeDenominator (fm_GetParams st)); m = DTruncateInt D price in
      0 \<le> f' \<and> (used = t \<longrightarrow> f' = f) \<and> (t < used \<longrightarrow> f < f') \<and>
      (used < t \<longrightarrow> m \<le> f' \<and> f - f div n \<le> f' \<and> f' \<le> max m f) \<and>
      (\<forall>k. 1 \<le> k \<and> used \<le> k * t \<longrightarrow> f' \<le> max m (f + max 1 (f * (k - 1) div n))))"
proof -
  obtain price where price: "MinGasPrice (fm_GetParams st) = Some price" "0 \<le> price"
    and n: "0 < uint (BaseFeeChangeDenominator (fm_GetParams st))"
    and f: "BaseFee (fm_GetParams st) = Some f" "0 \<le> f" and t: "0 < t"
    using assms(2,3) uint_pos by (auto simp: fm_valid_def fm_Validate_iff fee_inputs_def Let_def)
  have m: "0 \<le> DTruncateInt D price" using sdk_dec.TruncateInt_nonneg [OF assms(1) price(2)] .
  note b = next_fee_bounds [OF f(2) t n m uint_ge_0 [of "GetBlockGasWanted st"]]
  have same: "next_fee f t n m t = f" for n m by (simp add: next_fee_def)
  show ?thesis
    using CalculateBaseFee_next [OF assms(2,3), of D] price(1) b same unfolding Let_def by auto
qed

theorem base_fee_follows_gas_witness:
  "CalculateBaseFee ref_dec ref_block (ref_market 100) = Inr (Some 1000) \<and>
    (\<exists>f'. CalculateBaseFee ref_dec ref_block (ref_market 200) = Inr (Some f') \<and> 1000 < f' \<and> f' \<le> 1125)"
  using base_fee_follows_gas [OF ref_dec.sdk_dec_axioms ref_market_valid ref_market_inputs, of 100]
    base_fee_follows_gas [OF ref_dec.sdk_dec_axioms ref_market_valid ref_market_inputs, of 200]
  by (auto simp: Let_def ref_market_def GetBlockGasWanted_def fm_GetParams_def ref_fees_def fm_NewParams_def
      ref_dec_def dec_one_def dest: spec [of _ 2])

text \<open>
   The base fee is monotone in the gas of the parent block, as long as the minimum gas price is
  not above the fee: of two stores that differ only in the gas wanted, the one with more gas gets
  a fee that is at least as large.
\<close>

theorem base_fee_monotone:
  assumes "fm_valid st" and "fee_inputs cx st f t" and "MinGasPrice (fm_GetParams st) = Some price"
    and "DTruncateInt D price \<le> f" and "u \<le> u'"
  shows "\<exists>a b. CalculateBaseFee D cx (SetBlockGasWanted u st) = Inr (Some a) \<and>
    CalculateBaseFee D cx (SetBlockGasWanted u' st) = Inr (Some b) \<and> a \<le> b"
proof -
  have v: "fm_valid (SetBlockGasWanted g st)" "fee_inputs cx (SetBlockGasWanted g st) f t" for g
    using assms(1,2) by (simp_all add: fm_valid_def fee_inputs_def)
  have "0 < uint (BaseFeeChangeDenominator (fm_GetParams st))" "0 \<le> f" "0 < t"
    using assms(1,2) uint_pos by (auto simp: fm_valid_def fm_Validate_iff fee_inputs_def Let_def)
  from next_fee_mono [OF this(2,3,1) assms(4), of "uint u" "uint u'"] show ?thesis
    using CalculateBaseFee_next [OF v, of u D] CalculateBaseFee_next [OF v, of u' D] assms(3,5)
    by (auto simp: word_le_def)
qed

theorem base_fee_monotone_witness:
  "\<exists>a b. CalculateBaseFee ref_dec ref_block (SetBlockGasWanted 40 (ref_market 0)) = Inr (Some a) \<and>
    CalculateBaseFee ref_dec ref_block (SetBlockGasWanted 160 (ref_market 0)) = Inr (Some b) \<and> a \<le> b"
proof -
  have "MinGasPrice (fm_GetParams (ref_market 0)) = Some (5 * dec_one)"
    by (simp add: ref_market_def fm_GetParams_def ref_fees_def fm_NewParams_def)
  moreover have "DTruncateInt ref_dec (5 * dec_one) \<le> 1000" by (simp add: ref_dec_def dec_one_def)
  ultimately show ?thesis
    using base_fee_monotone [OF ref_market_valid ref_market_inputs, of 0 "5 * dec_one" ref_dec 40 160] by simp
qed

text \<open>
  The end of a block records the gas that steers the next fee: with valid parameters and counts
  in the range of \<^verbatim>\<open>int64\<close>, \<^verbatim>\<open>EndBlock\<close> does not panic and stores an amount between the gas used and
  the larger of the gas used and the gas wanted.
\<close>

theorem end_block_gas:
  assumes "sdk_dec D" and "fm_valid st" and "BlockGasMeter cx = Some consumed"
    and "uint (GetTransientGasWanted st) < 2 ^ 63" and "uint consumed < 2 ^ 63"
  shows "\<exists>g. fm_EndBlock D cx st = Inr (SetBlockGasWanted g st) \<and> uint consumed \<le> uint g \<and>
    uint g \<le> max (uint consumed) (uint (GetTransientGasWanted st))"
  using sdk_dec.EndBlock_gas [OF assms] .

theorem end_block_gas_witness:
  "\<exists>g. fm_EndBlock ref_dec ref_block (SetTransientBlockGasWanted 90 (ref_market 0)) =
      Inr (SetBlockGasWanted g (SetTransientBlockGasWanted 90 (ref_market 0))) \<and> 30 \<le> uint g \<and> uint g \<le> 90"
proof -
  have "fm_valid (SetTransientBlockGasWanted 90 (ref_market 0))" using ref_market_valid [of 0] by (simp add: fm_valid_def)
  from end_block_gas [OF ref_dec.sdk_dec_axioms this, of ref_block 30] show ?thesis by (simp add: ref_block_def)
qed

text \<open>
  C31.  The parameters stay valid.  From a store with valid parameters, any sequence of blocks that do
  not panic and of parameter updates that passed their checks ends in a store with valid
  parameters; in particular the base fee is never negative.
\<close>

theorem fee_market_stays_valid:
  assumes "sdk_dec D" and "fm_chain D st s" and "fm_valid st"
  shows "fm_valid s \<and> (\<exists>f. BaseFee (fm_GetParams s) = Some f \<and> 0 \<le> f)"
  using sdk_dec.chain_valid [OF assms] by (auto simp: fm_valid_def fm_Validate_iff)

theorem fee_market_stays_valid_witness:
  "\<exists>s. fm_block ref_dec ref_block [40, 20] (ref_market 200) = Inr s \<and> fm_valid s"
proof -
  have "\<not> isl (fm_block ref_dec ref_block [40, 20] (ref_market 200))" by code_simp
  then obtain s where s: "fm_block ref_dec ref_block [40, 20] (ref_market 200) = Inr s"
    by (cases "fm_block ref_dec ref_block [40, 20] (ref_market 200)") auto
  have "fm_chain ref_dec (ref_market 200) s" by (rule chain_block [OF chain_start s])
  from fee_market_stays_valid [OF ref_dec.sdk_dec_axioms this ref_market_valid] s show ?thesis by blast
qed

text \<open>
  The validation of the parameters does not look at the elasticity multiplier, and a multiplier of
  zero makes \<^verbatim>\<open>CalculateBaseFee\<close>, and so the begin of every block after the first, panic with a division by zero.
\<close>

theorem zero_elasticity_panics:
  assumes "IsBaseFeeEnabled (fm_GetParams st) (BlockHeight cx)" and "BlockHeight cx \<noteq> EnableHeight (fm_GetParams st)"
    and "BaseFee (fm_GetParams st) = Some f" and "blockGasLimit cx = Inr limit"
    and "ElasticityMultiplier (fm_GetParams st) = 0"
  shows "fm_BeginBlock D cx st = Inl DivisionByZero \<and>
    fm_Validate (fm_GetParams st) = fm_Validate (fm_GetParams st\<lparr>ElasticityMultiplier := 2\<rparr>)"
  using assms by (simp add: fm_BeginBlock_def CalculateBaseFee_def bigDiv_def Let_def fm_Validate_def)

theorem zero_elasticity_panics_witness:
  "fm_BeginBlock ref_dec ref_block (fm_SetParams (ref_fees\<lparr>ElasticityMultiplier := 0\<rparr>) (ref_market 0)) = Inl DivisionByZero \<and>
    fm_Validate (ref_fees\<lparr>ElasticityMultiplier := 0\<rparr>) = Inr ()"
  using zero_elasticity_panics [of "fm_SetParams (ref_fees\<lparr>ElasticityMultiplier := 0\<rparr>) (ref_market 0)" ref_block 1000 200 ref_dec]
  by (simp add: IsBaseFeeEnabled_def ref_block_def ref_fees_def fm_NewParams_def blockGasLimit_def fm_Validate_iff dec_one_def)

text \<open>
  The minimum gas price bounds the fee only when the fee falls: at the gas target the fee is kept even
  when it is below the price.
\<close>

theorem fee_below_minimum:
  assumes "fm_valid st" and "fee_inputs cx st f t" and "uint (GetBlockGasWanted st) = t"
    and "MinGasPrice (fm_GetParams st) = Some price" and "f < DTruncateInt D price"
  shows "\<exists>f'. CalculateBaseFee D cx st = Inr (Some f') \<and> f' < DTruncateInt D price"
  using CalculateBaseFee_next [OF assms(1,2), of D] assms(3-5) by (auto simp: next_fee_def)

theorem fee_below_minimum_witness:
  "\<exists>f'. CalculateBaseFee ref_dec ref_block (fm_SetParams (ref_fees\<lparr>MinGasPrice := Some (2000 * dec_one)\<rparr>) (ref_market 100)) = Inr (Some f') \<and>
    f' < 2000"
proof -
  let ?st = "fm_SetParams (ref_fees\<lparr>MinGasPrice := Some (2000 * dec_one)\<rparr>) (ref_market 100)"
  have "fm_valid ?st" by (simp add: fm_valid_def fm_Validate_iff ref_fees_def fm_NewParams_def dec_one_def)
  moreover have "fee_inputs ref_block ?st 1000 100"
    by (simp add: fee_inputs_def Let_def ref_block_def ref_fees_def fm_NewParams_def blockGasLimit_def)
  moreover have "uint (GetBlockGasWanted ?st) = 100" by (simp add: ref_market_def GetBlockGasWanted_def fm_SetParams_def)
  moreover have "DTruncateInt ref_dec (2000 * dec_one) = 2000" by (simp add: ref_dec_def dec_one_def)
  ultimately show ?thesis using fee_below_minimum [of ?st ref_block 1000 100 "2000 * dec_one" ref_dec] by simp
qed

text \<open>
  Genesis round trip: exporting an imported genesis gives it back, whatever the store held before.
\<close>

theorem genesis_round_trip:
  "fm_ExportGenesis (fm_InitGenesis g st) = g"
  by (simp add: fm_ExportGenesis_def fm_InitGenesis_def)

end
