(* ===== verification/Epochs.thy ===== *)
theory Epochs
  imports Sdk "HOL-Library.List_Lexorder" "HOL-Library.Char_ord"
begin

text \<open>
  The epochs module (\<^verbatim>\<open>x/epochs\<close>): named timers that advance at the begin of a block and call the
  hooks of other modules.  The store maps an identifier to its epoch; iteration is in the order of the
  keys over the entries at its start.  Times are nanoseconds, an epoch number is an \<^verbatim>\<open>int64\<close>.
  The hooks act on a state \<open>'x\<close> of the other modules and may panic.  Events and logs are left out;
  \<open>TrimSpace\<close> knows the white space of ASCII.
\<close>

section \<open>Epochs\<close>

record EpochInfo =
  Identifier :: string
  eiStartTime :: int
  Duration :: int
  CurrentEpoch :: int
  CurrentEpochStartTime :: int
  EpochCountingStarted :: bool
  CurrentEpochStartHeight :: int

type_synonym epochs = "(string, EpochInfo) fmap"

definition zeroTime :: int where
  "zeroTime = - 62135596800 * 10 ^ 9"

definition StartInitialEpoch :: "EpochInfo \<Rightarrow> EpochInfo" where
  "StartInitialEpoch ei = ei\<lparr>EpochCountingStarted := True, CurrentEpoch := 1, CurrentEpochStartTime := eiStartTime ei\<rparr>"

definition EndEpoch :: "EpochInfo \<Rightarrow> EpochInfo" where
  "EndEpoch ei =
     ei\<lparr>CurrentEpoch := add64 (CurrentEpoch ei) 1, CurrentEpochStartTime := CurrentEpochStartTime ei + Duration ei\<rparr>"

definition isSpace :: "char \<Rightarrow> bool" where
  "isSpace c \<longleftrightarrow> of_char c \<in> {9, 10, 11, 12, 13, 32 :: nat}"

definition TrimSpace :: "string \<Rightarrow> string" where
  "TrimSpace s = rev (dropWhile isSpace (rev (dropWhile isSpace s)))"

definition ei_Validate :: "EpochInfo \<Rightarrow> string option" where
  "ei_Validate ei =
     (if TrimSpace (Identifier ei) = '''' then Some ''epoch identifier cannot be blank''
      else if Duration ei = 0 then Some ''epoch duration cannot be 0''
      else if CurrentEpoch ei < 0 then Some ''current epoch cannot be negative''
      else if CurrentEpochStartHeight ei < 0 then Some ''current epoch start height cannot be negative''
      else None)"

definition ValidateEpochIdentifierString :: "string \<Rightarrow> string option" where
  "ValidateEpochIdentifierString s = (if TrimSpace s = '''' then Some ''blank epoch identifier'' else None)"

section \<open>The store\<close>

definition GetEpochInfo :: "epochs \<Rightarrow> string \<Rightarrow> EpochInfo option" where
  "GetEpochInfo es identifier = fmlookup es identifier"

definition SetEpochInfo :: "EpochInfo \<Rightarrow> epochs \<Rightarrow> epochs" where
  "SetEpochInfo epoch es = fmupd (Identifier epoch) epoch es"

definition DeleteEpochInfo :: "string \<Rightarrow> epochs \<Rightarrow> epochs" where
  "DeleteEpochInfo identifier es = fmdrop identifier es"

text \<open>The entries of the iterator, and the loop that calls the function until it stops.\<close>

definition epochEntries :: "epochs \<Rightarrow> EpochInfo list" where
  "epochEntries es = map (\<lambda>k. the (fmlookup es k)) (sorted_list_of_fset (fmdom es))"

fun epochLoop :: "(int \<Rightarrow> EpochInfo \<Rightarrow> 's \<Rightarrow> panic + (bool \<times> 's)) \<Rightarrow> int \<Rightarrow> EpochInfo list \<Rightarrow> 's \<Rightarrow> panic + 's" where
  "epochLoop fn i [] s = Inr s"
| "epochLoop fn i (e # es) s =
     rbind (fn i e s) (\<lambda>(stop, s). if stop then Inr s else epochLoop fn (i + 1) es s)"

definition IterateEpochInfo :: "(int \<Rightarrow> EpochInfo \<Rightarrow> 's \<Rightarrow> panic + (bool \<times> 's)) \<Rightarrow> epochs \<Rightarrow> 's \<Rightarrow> panic + 's" where
  "IterateEpochInfo fn es s = epochLoop fn 0 (epochEntries es) s"

definition AllEpochInfos :: "epochs \<Rightarrow> panic + EpochInfo list" where
  "AllEpochInfos es = IterateEpochInfo (\<lambda>_ e acc. Inr (False, acc @ [e])) es []"

section \<open>Hooks\<close>

record 'x EpochHooks =
  hookAfterEpochEnd :: "string \<Rightarrow> int \<Rightarrow> 'x \<Rightarrow> panic + 'x"
  hookBeforeEpochStart :: "string \<Rightarrow> int \<Rightarrow> 'x \<Rightarrow> panic + 'x"

definition NewMultiEpochHooks :: "'x EpochHooks list \<Rightarrow> 'x EpochHooks list" where
  "NewMultiEpochHooks hooks = hooks"

definition multiAfterEpochEnd :: "'x EpochHooks list \<Rightarrow> string \<Rightarrow> int \<Rightarrow> 'x \<Rightarrow> panic + 'x" where
  "multiAfterEpochEnd mh epochIdentifier epochNumber = foldM (\<lambda>h. hookAfterEpochEnd h epochIdentifier epochNumber) mh"

definition multiBeforeEpochStart :: "'x EpochHooks list \<Rightarrow> string \<Rightarrow> int \<Rightarrow> 'x \<Rightarrow> panic + 'x" where
  "multiBeforeEpochStart mh epochIdentifier epochNumber = foldM (\<lambda>h. hookBeforeEpochStart h epochIdentifier epochNumber) mh"

definition SetHooks :: "'x EpochHooks option \<Rightarrow> 'x EpochHooks \<Rightarrow> panic + 'x EpochHooks option" where
  "SetHooks hooks eh =
     (if hooks \<noteq> None then Inl (Panic ''cannot set epochs hooks twice'') else Inr (Some eh))"

section \<open>The begin of a block\<close>

definition epochStep ::
    "'x EpochHooks list \<Rightarrow> int \<Rightarrow> int \<Rightarrow> EpochInfo \<Rightarrow> epochs \<times> 'x \<Rightarrow> panic + (bool \<times> epochs \<times> 'x)" where
  "epochStep hooks blockTime blockHeight epochInfo = (\<lambda>(es, x).
     let shouldInitialEpochStart = (\<not> EpochCountingStarted epochInfo \<and> \<not> eiStartTime epochInfo > blockTime);
         epochEndTime = CurrentEpochStartTime epochInfo + Duration epochInfo;
         shouldEpochEnd = (blockTime > epochEndTime \<and> \<not> shouldInitialEpochStart \<and> \<not> eiStartTime epochInfo > blockTime);
         epochInfo = epochInfo\<lparr>CurrentEpochStartHeight := blockHeight\<rparr>
     in if shouldInitialEpochStart then
          let epochInfo = StartInitialEpoch epochInfo; es = SetEpochInfo epochInfo es in
          rbind (multiBeforeEpochStart hooks (Identifier epochInfo) (CurrentEpoch epochInfo) x) (\<lambda>x. Inr (False, es, x))
        else if shouldEpochEnd then
          let epochInfo = EndEpoch epochInfo in
          rbind (multiAfterEpochEnd hooks (Identifier epochInfo) (CurrentEpoch epochInfo) x) (\<lambda>x.
            let es = SetEpochInfo epochInfo es in
            rbind (multiBeforeEpochStart hooks (Identifier epochInfo) (CurrentEpoch epochInfo) x) (\<lambda>x. Inr (False, es, x)))
        else Inr (False, es, x))"

definition ep_BeginBlocker :: "'x EpochHooks list \<Rightarrow> int \<Rightarrow> int \<Rightarrow> epochs \<times> 'x \<Rightarrow> panic + (epochs \<times> 'x)" where
  "ep_BeginBlocker hooks blockTime blockHeight s =
     IterateEpochInfo (\<lambda>_ e. epochStep hooks blockTime blockHeight e) (fst s) s"

section \<open>Genesis and queries\<close>

definition defaultEpoch :: "string \<Rightarrow> int \<Rightarrow> EpochInfo" where
  "defaultEpoch ident duration =
     \<lparr>Identifier = ident, eiStartTime = zeroTime, Duration = duration, CurrentEpoch = 0,
      CurrentEpochStartTime = zeroTime, EpochCountingStarted = False, CurrentEpochStartHeight = 0\<rparr>"

definition ep_DefaultGenesisState :: "EpochInfo list" where
  "ep_DefaultGenesisState =
     [defaultEpoch ''week'' (3600 * 10 ^ 9 * 24 * 7), defaultEpoch ''day'' (3600 * 10 ^ 9 * 24)]"

fun epochErrors :: "string list \<Rightarrow> EpochInfo list \<Rightarrow> string option" where
  "epochErrors seen [] = None"
| "epochErrors seen (e # es) =
     (if Identifier e \<in> set seen then Some ''duplicated epoch entry''
      else case ei_Validate e of Some err \<Rightarrow> Some err | None \<Rightarrow> epochErrors (Identifier e # seen) es)"

definition ep_GenesisValidate :: "EpochInfo list \<Rightarrow> string option" where
  "ep_GenesisValidate gs = epochErrors [] gs"

definition ep_InitGenesis :: "int \<Rightarrow> int \<Rightarrow> EpochInfo list \<Rightarrow> epochs \<Rightarrow> epochs" where
  "ep_InitGenesis blockTime blockHeight genState es =
     fold (\<lambda>epoch es.
       let epoch = (if eiStartTime epoch = zeroTime then epoch\<lparr>eiStartTime := blockTime\<rparr> else epoch)
       in SetEpochInfo (epoch\<lparr>CurrentEpochStartHeight := blockHeight\<rparr>) es) genState es"

definition ep_ExportGenesis :: "epochs \<Rightarrow> panic + EpochInfo list" where
  "ep_ExportGenesis es = AllEpochInfos es"

definition ep_CurrentEpoch :: "epochs \<Rightarrow> string option \<Rightarrow> string + int" where
  "ep_CurrentEpoch es req =
     (case req of None \<Rightarrow> Inl ''empty request''
      | Some identifier \<Rightarrow> (case GetEpochInfo es identifier of None \<Rightarrow> Inl ''epoch info not found'' | Some info \<Rightarrow> Inr (CurrentEpoch info)))"

section \<open>What a block does to the epochs\<close>

text \<open>When an epoch starts or ends, its new value, and the hooks it calls.\<close>

definition starts :: "int \<Rightarrow> EpochInfo \<Rightarrow> bool" where
  "starts now e \<longleftrightarrow> \<not> EpochCountingStarted e \<and> eiStartTime e \<le> now"

definition ends :: "int \<Rightarrow> EpochInfo \<Rightarrow> bool" where
  "ends now e \<longleftrightarrow> EpochCountingStarted e \<and> eiStartTime e \<le> now \<and> CurrentEpochStartTime e + Duration e < now"

definition tick :: "int \<Rightarrow> int \<Rightarrow> EpochInfo \<Rightarrow> EpochInfo" where
  "tick now h e =
     (if starts now e then StartInitialEpoch (e\<lparr>CurrentEpochStartHeight := h\<rparr>)
      else if ends now e then EndEpoch (e\<lparr>CurrentEpochStartHeight := h\<rparr>) else e)"

definition fire :: "'x EpochHooks list \<Rightarrow> int \<Rightarrow> EpochInfo \<Rightarrow> 'x \<Rightarrow> panic + 'x" where
  "fire hooks now e x =
     (if starts now e then multiBeforeEpochStart hooks (Identifier e) 1 x
      else if ends now e then
        rbind (multiAfterEpochEnd hooks (Identifier e) (add64 (CurrentEpoch e) 1) x)
          (multiBeforeEpochStart hooks (Identifier e) (add64 (CurrentEpoch e) 1))
      else Inr x)"

definition epochs_ok :: "epochs \<Rightarrow> bool" where
  "epochs_ok es \<longleftrightarrow> (\<forall>k e. fmlookup es k = Some e \<longrightarrow> Identifier e = k)"

lemma tick_Identifier [simp]: "Identifier (tick now h e) = Identifier e"
  by (simp add: tick_def StartInitialEpoch_def EndEpoch_def)

lemma epochStep_eq:
  assumes "fmlookup es (Identifier e) = Some e"
  shows "epochStep hooks now h e (es, x) =
    rbind (fire hooks now e x) (\<lambda>x. Inr (False, fmupd (Identifier e) (tick now h e) es, x))"
proof -
  have idle: "fmupd (Identifier e) e es = es" using assms by (rule fmupd_triv)
  consider "starts now e" | "\<not> starts now e" "ends now e" | "\<not> starts now e" "\<not> ends now e" by blast
  then show ?thesis
  proof cases
    case 1
    then show ?thesis
      by (auto simp: epochStep_def Let_def fire_def tick_def starts_def StartInitialEpoch_def SetEpochInfo_def not_less)
  next
    case 2
    then show ?thesis
      by (auto simp: epochStep_def Let_def fire_def tick_def starts_def ends_def EndEpoch_def SetEpochInfo_def not_less
          rbind_assoc)
  next
    case 3
    then show ?thesis
      using idle by (auto simp: epochStep_def Let_def fire_def tick_def starts_def ends_def not_less not_le)
  qed
qed

lemma epochLoop_step:
  assumes "distinct (map Identifier l)" and "\<And>e. e \<in> set l \<Longrightarrow> fmlookup es (Identifier e) = Some e"
  shows "epochLoop (\<lambda>_ e. epochStep hooks now h e) i l (es, x) =
    rbind (foldM (fire hooks now) l x) (\<lambda>x. Inr (fold (\<lambda>e. fmupd (Identifier e) (tick now h e)) l es, x))"
  using assms
proof (induction l arbitrary: es x i)
  case (Cons e l)
  have rest: "fmlookup (fmupd (Identifier e) (tick now h e) es) (Identifier e') = Some e'" if "e' \<in> set l" for e'
    using that Cons.prems by (auto simp: image_iff)
  have "distinct (map Identifier l)" using Cons.prems(1) by simp
  note IH = Cons.IH [OF this rest]
  have e: "fmlookup es (Identifier e) = Some e" using Cons.prems(2) by simp
  show ?case
    by (cases "fire hooks now e x") (simp_all add: epochStep_eq [OF e] IH)
qed simp

lemma fold_fmupd_other:
  "k \<notin> Identifier ` set l \<Longrightarrow> fmlookup (fold (\<lambda>e. fmupd (Identifier e) (f e)) l es) k = fmlookup es k"
  by (induction l arbitrary: es) auto

lemma fold_fmupd_lookup:
  assumes "distinct (map Identifier l)" and "e \<in> set l"
  shows "fmlookup (fold (\<lambda>e. fmupd (Identifier e) (f e)) l es) (Identifier e) = Some (f e)"
  using assms
proof (induction l arbitrary: es)
  case (Cons a l)
  show ?case
  proof (cases "e = a")
    case True
    then show ?thesis using Cons.prems by (simp add: fold_fmupd_other)
  next
    case False
    then show ?thesis using Cons by simp
  qed
qed simp

lemma epochEntries_facts:
  assumes "epochs_ok es"
  shows "map Identifier (epochEntries es) = sorted_list_of_fset (fmdom es)"
    and "e \<in> set (epochEntries es) \<longleftrightarrow> fmlookup es (Identifier e) = Some e"
proof -
  have ident: "Identifier (the (fmlookup es k)) = k" if "k \<in> set (sorted_list_of_fset (fmdom es))" for k
    using that assms by (auto simp: epochs_ok_def fmlookup_dom_iff sorted_list_of_fset.rep_eq)
  then show "map Identifier (epochEntries es) = sorted_list_of_fset (fmdom es)"
    by (simp add: epochEntries_def) (rule map_idI, simp)
  show "e \<in> set (epochEntries es) \<longleftrightarrow> fmlookup es (Identifier e) = Some e"
    using ident by (force simp: epochEntries_def sorted_list_of_fset.rep_eq fmlookup_dom_iff image_iff)
qed

lemma BeginBlocker_eq:
  assumes ok: "epochs_ok es"
  shows "ep_BeginBlocker hooks now h (es, x) =
    rbind (foldM (fire hooks now) (epochEntries es) x) (\<lambda>x. Inr (fmmap (tick now h) es, x))"
proof -
  let ?l = "epochEntries es"
  have d: "distinct (map Identifier ?l)"
    unfolding epochEntries_facts(1) [OF ok] by (simp add: sorted_list_of_fset.rep_eq)
  have l: "fmlookup es (Identifier e) = Some e" if "e \<in> set ?l" for e
    using that epochEntries_facts(2) [OF ok] by blast
  have "fold (\<lambda>e. fmupd (Identifier e) (tick now h e)) ?l es = fmmap (tick now h) es"
  proof (rule fmap_ext)
    fix k
    show "fmlookup (fold (\<lambda>e. fmupd (Identifier e) (tick now h e)) ?l es) k = fmlookup (fmmap (tick now h) es) k"
    proof (cases "fmlookup es k")
      case None
      have "Identifier e \<noteq> k" if "e \<in> set ?l" for e using l [OF that] None by auto
      then have "k \<notin> Identifier ` set ?l" by blast
      from fold_fmupd_other [OF this, of "tick now h" es] None show ?thesis by simp
    next
      case (Some e)
      then have "Identifier e = k" using ok by (simp add: epochs_ok_def)
      with Some have "e \<in> set ?l" using epochEntries_facts(2) [OF ok] by simp
      from fold_fmupd_lookup [OF d this, of "tick now h" es] Some \<open>Identifier e = k\<close> show ?thesis by simp
    qed
  qed
  then show ?thesis using epochLoop_step [OF d l, where hooks = hooks and now = now and h = h and i = 0 and x = x]
    by (simp add: ep_BeginBlocker_def IterateEpochInfo_def)
qed

lemma epochs_ok_tick: "epochs_ok es \<Longrightarrow> epochs_ok (fmmap (tick now h) es)"
  by (auto simp: epochs_ok_def)

section \<open>Chains of blocks\<close>

text \<open>\<open>n\<close> blocks have run, the last one at time \<open>now\<close>; block times do not decrease.\<close>

inductive epoch_run :: "'x EpochHooks list \<Rightarrow> epochs \<times> 'x \<Rightarrow> nat \<Rightarrow> int \<Rightarrow> epochs \<times> 'x \<Rightarrow> bool" for hooks s0 where
  run_init: "epoch_run hooks s0 0 now s0"
| run_block: "epoch_run hooks s0 n now s \<Longrightarrow> now \<le> now' \<Longrightarrow> ep_BeginBlocker hooks now' h s = Inr s' \<Longrightarrow>
    epoch_run hooks s0 (Suc n) now' s'"

definition on_schedule :: "nat \<Rightarrow> int \<Rightarrow> EpochInfo \<Rightarrow> bool" where
  "on_schedule n now e \<longleftrightarrow> (EpochCountingStarted e \<longrightarrow>
     1 \<le> CurrentEpoch e \<and> CurrentEpoch e \<le> int n \<and>
     CurrentEpochStartTime e = eiStartTime e + (CurrentEpoch e - 1) * Duration e \<and> CurrentEpochStartTime e \<le> now)"

lemma tick_on_schedule:
  assumes "on_schedule n now e" and "now \<le> now'" and "int n < 2 ^ 62"
  shows "on_schedule (Suc n) now' (tick now' h e)"
proof -
  have "add64 (CurrentEpoch e) 1 = CurrentEpoch e + 1" if "1 \<le> CurrentEpoch e" "CurrentEpoch e \<le> int n"
    using that assms(3) by (intro add64_id) (simp add: in64_def)
  then show ?thesis
    using assms(1,2)
    by (auto simp: on_schedule_def tick_def starts_def ends_def StartInitialEpoch_def EndEpoch_def algebra_simps)
qed

lemma run_on_schedule:
  assumes "epoch_run hooks s0 n now s" and "epochs_ok (fst s0)"
    and "\<And>id e. fmlookup (fst s0) id = Some e \<Longrightarrow> \<not> EpochCountingStarted e"
  shows "int n < 2 ^ 62 \<Longrightarrow> epochs_ok (fst s) \<and> (\<forall>id e. fmlookup (fst s) id = Some e \<longrightarrow> on_schedule n now e)"
  using assms
proof (induction rule: epoch_run.induct)
  case (run_init now)
  then show ?case by (auto simp: on_schedule_def)
next
  case (run_block n now s now' h s')
  obtain es x where s: "s = (es, x)" by force
  have IH: "epochs_ok es" "\<And>id e. fmlookup es id = Some e \<Longrightarrow> on_schedule n now e"
    using run_block.IH [OF _ run_block.prems(2,3)] run_block.prems(1) s by auto
  have "fst s' = fmmap (tick now' h) es"
    using run_block.hyps(3) unfolding s by (auto simp: BeginBlocker_eq [OF IH(1)])
  then show ?case
    using epochs_ok_tick [OF IH(1)] tick_on_schedule [OF IH(2) run_block.hyps(2)] run_block.prems(1) by auto
qed

section \<open>Genesis\<close>

lemma epochLoop_collect: "epochLoop (\<lambda>_ e acc. Inr (False, acc @ [e])) i l acc = Inr (acc @ l)"
  by (induction l arbitrary: i acc) simp_all

lemma epochErrors_None:
  "epochErrors seen es = None \<Longrightarrow> distinct (map Identifier es) \<and> Identifier ` set es \<inter> set seen = {} \<and>
    list_all (\<lambda>e. ei_Validate e = None) es"
  by (induction seen es rule: epochErrors.induct) (auto split: if_splits option.splits)

section \<open>Properties\<close>

text \<open>A concrete store with one started and one waiting epoch, and hooks that write a log.\<close>

definition ref_epochs :: epochs where
  "ref_epochs = fmap_of_list
     [(''day'', \<lparr>Identifier = ''day'', eiStartTime = 0, Duration = 10, CurrentEpoch = 3, CurrentEpochStartTime = 20,
         EpochCountingStarted = True, CurrentEpochStartHeight = 1\<rparr>),
      (''week'', \<lparr>Identifier = ''week'', eiStartTime = 5, Duration = 70, CurrentEpoch = 0, CurrentEpochStartTime = 0,
         EpochCountingStarted = False, CurrentEpochStartHeight = 0\<rparr>)]"

definition ref_log_hooks :: "(string \<times> string \<times> int) list EpochHooks" where
  "ref_log_hooks = \<lparr>hookAfterEpochEnd = (\<lambda>ident n l. Inr (l @ [(''end'', ident, n)])),
     hookBeforeEpochStart = (\<lambda>ident n l. Inr (l @ [(''start'', ident, n)]))\<rparr>"

lemma ref_epochs_ok: "epochs_ok ref_epochs"
  by (auto simp: epochs_ok_def ref_epochs_def fmlookup_of_list map_of_Cons_code split: if_splits)

text \<open>
  C35.  A block advances every epoch on its own.  \<^verbatim>\<open>BeginBlocker\<close> fails only if a hook panics;
  otherwise every epoch is either started, when it has not been and its start time has come, or moved to its next number, when
  its end time has passed, or left as it is, and by at most one number; the hooks run in the order of the identifiers.
\<close>

theorem block_advances_epochs:
  assumes "epochs_ok es"
  shows "ep_BeginBlocker hooks now h (es, x) =
      rbind (foldM (fire hooks now) (epochEntries es) x) (\<lambda>x. Inr (fmmap (tick now h) es, x)) \<and>
    map Identifier (epochEntries es) = sorted_list_of_fset (fmdom es)"
  by (simp add: BeginBlocker_eq [OF assms] epochEntries_facts(1) [OF assms])

theorem block_advances_epochs_witness:
  "\<exists>es' l. ep_BeginBlocker [ref_log_hooks] 31 9 (ref_epochs, []) = Inr (es', l) \<and>
    map_option CurrentEpoch (fmlookup es' ''day'') = Some 4 \<and> map_option CurrentEpoch (fmlookup es' ''week'') = Some 1"
proof -
  have "\<not> isl (foldM (fire [ref_log_hooks] 31) (epochEntries ref_epochs) [])" by code_simp
  then obtain l where "foldM (fire [ref_log_hooks] 31) (epochEntries ref_epochs) [] = Inr l"
    by (cases "foldM (fire [ref_log_hooks] 31) (epochEntries ref_epochs) []") auto
  moreover have "map_option CurrentEpoch (fmlookup (fmmap (tick 31 9) ref_epochs) ''day'') = Some 4"
    "map_option CurrentEpoch (fmlookup (fmmap (tick 31 9) ref_epochs) ''week'') = Some 1"
    by code_simp+
  ultimately show ?thesis using block_advances_epochs [OF ref_epochs_ok, of "[ref_log_hooks]" 31 9 "[]"] by simp
qed

text \<open>
  C36.  Epochs do not drift.  Over any run of blocks from a store of epochs that have not started, the
  start time of the current epoch is the start time of the first one plus a whole number of durations, one less than
  its number, whatever the times of the blocks; the number is at least 1 and at most the number of blocks; and an epoch
  never starts in the future.
\<close>

theorem epochs_do_not_drift:
  assumes "epoch_run hooks s0 n now s" and "epochs_ok (fst s0)" and "int n < 2 ^ 62"
    and "\<forall>ident e. fmlookup (fst s0) ident = Some e \<longrightarrow> \<not> EpochCountingStarted e"
    and "fmlookup (fst s) ident = Some e" and "EpochCountingStarted e"
  shows "CurrentEpochStartTime e = eiStartTime e + (CurrentEpoch e - 1) * Duration e \<and>
    1 \<le> CurrentEpoch e \<and> CurrentEpoch e \<le> int n \<and> CurrentEpochStartTime e \<le> now"
proof -
  have "on_schedule n now e" using run_on_schedule [OF assms(1,2) _ assms(3)] assms(4,5) by blast
  then show ?thesis using assms(6) by (simp add: on_schedule_def)
qed

theorem epochs_do_not_drift_witness:
  "\<exists>s e. epoch_run [ref_log_hooks] (fmap_of_list [(''week'', defaultEpoch ''week'' 70)], []) 1 5 s \<and>
    fmlookup (fst s) ''week'' = Some e \<and> CurrentEpoch e = 1 \<and> CurrentEpochStartTime e = zeroTime"
proof -
  let ?es = "fmap_of_list [(''week'', defaultEpoch ''week'' 70)]"
  have ok: "epochs_ok ?es" "\<forall>ident e. fmlookup (fst (?es, [])) ident = Some e \<longrightarrow> \<not> EpochCountingStarted e"
    by (auto simp: epochs_ok_def defaultEpoch_def fmlookup_of_list split: if_splits)
  have "\<not> isl (foldM (fire [ref_log_hooks] 5) (epochEntries ?es) [])" by code_simp
  then obtain l where "foldM (fire [ref_log_hooks] 5) (epochEntries ?es) [] = Inr l"
    by (cases "foldM (fire [ref_log_hooks] 5) (epochEntries ?es) []") auto
  then have "ep_BeginBlocker [ref_log_hooks] 5 1 (?es, []) = Inr (fmmap (tick 5 1) ?es, l)"
    using BeginBlocker_eq [OF ok(1), of "[ref_log_hooks]" 5 1 "[]"] by simp
  then have run: "epoch_run [ref_log_hooks] (?es, []) 1 5 (fmmap (tick 5 1) ?es, l)"
    using run_block [OF run_init, of 5 5 "[ref_log_hooks]" 1] by simp
  let ?e = "tick 5 1 (defaultEpoch ''week'' 70)"
  have e: "fmlookup (fst (fmmap (tick 5 1) ?es, l)) ''week'' = Some ?e" by (simp add: fmlookup_of_list)
  have st: "EpochCountingStarted ?e" "eiStartTime ?e = zeroTime"
    by (simp_all add: tick_def starts_def defaultEpoch_def zeroTime_def StartInitialEpoch_def)
  have "CurrentEpoch ?e = 1" "CurrentEpochStartTime ?e = zeroTime"
    using epochs_do_not_drift [OF run _ _ ok(2) e st(1)] ok(1) st(2) by simp_all
  then show ?thesis using run e by blast
qed

text \<open>
  At the end of an epoch both hooks get the number of the epoch that starts, not the number of the one
  that has ended.
\<close>

theorem end_hook_gets_next_number:
  assumes "epochs_ok es" and "fmdom es = {|Identifier e|}" and "fmlookup es (Identifier e) = Some e" and "ends now e"
    and "0 \<le> CurrentEpoch e" and "CurrentEpoch e < 2 ^ 62"
  shows "ep_BeginBlocker [ref_log_hooks] now h (es, l) =
    Inr (fmmap (tick now h) es,
      l @ [(''end'', Identifier e, CurrentEpoch e + 1), (''start'', Identifier e, CurrentEpoch e + 1)])"
proof -
  have l: "epochEntries es = [e]" using assms(2,3) by (simp add: epochEntries_def sorted_list_of_fset.rep_eq)
  have n: "add64 (CurrentEpoch e) 1 = CurrentEpoch e + 1" using assms(5,6) by (intro add64_id) (simp add: in64_def)
  have "\<not> starts now e" using assms(4) by (simp add: starts_def ends_def)
  then show ?thesis
    using assms(4) n by (simp add: BeginBlocker_eq [OF assms(1)] l fire_def multiAfterEpochEnd_def
        multiBeforeEpochStart_def ref_log_hooks_def)
qed

theorem end_hook_gets_next_number_witness:
  "\<exists>e es'. CurrentEpoch e = 3 \<and> ep_BeginBlocker [ref_log_hooks] 31 9 (fmap_of_list [(''day'', e)], []) =
    Inr (es', [(''end'', ''day'', 4), (''start'', ''day'', 4)])"
proof -
  let ?e = "\<lparr>Identifier = ''day'', eiStartTime = 0, Duration = 10, CurrentEpoch = 3, CurrentEpochStartTime = 20,
    EpochCountingStarted = True, CurrentEpochStartHeight = 1\<rparr>"
  let ?es = "fmap_of_list [(''day'', ?e)]"
  have "epochs_ok ?es" by (auto simp: epochs_ok_def fmlookup_of_list split: if_splits)
  then have "ep_BeginBlocker [ref_log_hooks] 31 9 (?es, []) =
      Inr (fmmap (tick 31 9) ?es, [] @ [(''end'', Identifier ?e, CurrentEpoch ?e + 1), (''start'', Identifier ?e, CurrentEpoch ?e + 1)])"
    by (rule end_hook_gets_next_number) (simp_all add: ends_def fmlookup_of_list)
  then show ?thesis by (intro exI [of _ ?e]) simp
qed

end
