(* ===== verification/Inflation.thy ===== *)
theory Inflation
  imports Sdk_Keepers Sdk_Dec Epochs
begin

text \<open>
  Inflation (\<^verbatim>\<open>x/inflation\<close>): at the end of an epoch the module mints the provision of an
  exponential curve and splits it between the fee collector, the incentives module and the community
  pool.  The module's store is typed; the bank, staking and distribution keepers are parameters over the
  state \<open>'x\<close>.  A store without parameters reads as the zero value, \<open>None\<close>, whose decimals are nil.
  Events, telemetry and logs are left out.
\<close>

section \<open>Parameters\<close>

record ExponentialCalculation =
  ecA :: dec
  ecR :: dec
  ecC :: dec
  BondingTarget :: dec
  MaxVariance :: dec

record InflationDistribution =
  StakingRewards :: dec
  UsageIncentives :: dec
  CommunityPool :: dec

record InflParams =
  MintDenom :: string
  exponentialCalc :: ExponentialCalculation
  inflationDist :: InflationDistribution
  EnableInflation :: bool

definition il_NewParams :: "string \<Rightarrow> ExponentialCalculation \<Rightarrow> InflationDistribution \<Rightarrow> bool \<Rightarrow> InflParams" where
  "il_NewParams mintDenom ec idist enable =
     \<lparr>MintDenom = mintDenom, exponentialCalc = ec, inflationDist = idist, EnableInflation = enable\<rparr>"

definition DefaultExponentialCalculation :: ExponentialCalculation where
  "DefaultExponentialCalculation =
     \<lparr>ecA = NewDec 300000000, ecR = 50 * 10 ^ 16, ecC = NewDec 9375000, BondingTarget = 66 * 10 ^ 16, MaxVariance = 0\<rparr>"

definition DefaultInflationDistribution :: InflationDistribution where
  "DefaultInflationDistribution =
     \<lparr>StakingRewards = 533333334 * 10 ^ 9, UsageIncentives = 333333333 * 10 ^ 9, CommunityPool = 133333333 * 10 ^ 9\<rparr>"

definition il_DefaultParams :: "string \<Rightarrow> InflParams" where
  "il_DefaultParams evmDenom =
     \<lparr>MintDenom = evmDenom, exponentialCalc = DefaultExponentialCalculation,
      inflationDist = DefaultInflationDistribution, EnableInflation = True\<rparr>"

text \<open>\<open>validateDenom\<close> is the denomination check of the SDK.\<close>

definition validateMintDenom :: "(string \<Rightarrow> string option) \<Rightarrow> string \<Rightarrow> string option" where
  "validateMintDenom validateDenom v =
     (if TrimSpace v = '''' then Some ''mint denom cannot be blank'' else validateDenom v)"

definition validateExponentialCalculation :: "ExponentialCalculation \<Rightarrow> string option" where
  "validateExponentialCalculation v =
     (if ecA v < 0 then Some ''initial value cannot be negative''
      else if ecR v > NewDec 1 then Some ''reduction factor cannot be greater than 1''
      else if ecR v < 0 then Some ''reduction factor cannot be negative''
      else if ecC v < 0 then Some ''long term inflation cannot be negative''
      else if BondingTarget v > NewDec 1 then Some ''bonded target cannot be greater than 1''
      else if \<not> BondingTarget v > 0 then Some ''bonded target cannot be zero or negative''
      else if MaxVariance v < 0 then Some ''max variance cannot be negative''
      else None)"

definition validateInflationDistribution :: "InflationDistribution \<Rightarrow> string option" where
  "validateInflationDistribution v =
     (if StakingRewards v < 0 then Some ''staking distribution ratio must not be negative''
      else if UsageIncentives v < 0 then Some ''pool incentives distribution ratio must not be negative''
      else if CommunityPool v < 0 then Some ''community pool distribution ratio must not be negative''
      else if StakingRewards v + UsageIncentives v + CommunityPool v \<noteq> NewDec 1
      then Some ''total distributions ratio should be 1''
      else None)"

definition il_Validate :: "(string \<Rightarrow> string option) \<Rightarrow> InflParams \<Rightarrow> string option" where
  "il_Validate validateDenom p =
     (case validateMintDenom validateDenom (MintDenom p) of Some e \<Rightarrow> Some e | None \<Rightarrow>
     (case validateExponentialCalculation (exponentialCalc p) of Some e \<Rightarrow> Some e | None \<Rightarrow>
      validateInflationDistribution (inflationDist p)))"

section \<open>The provision of an epoch\<close>

definition PowerReduction :: int where
  "PowerReduction = 10 ^ 18"

definition CalculateEpochMintProvision :: "Decs \<Rightarrow> InflParams \<Rightarrow> u64 \<Rightarrow> int \<Rightarrow> dec \<Rightarrow> panic + dec" where
  "CalculateEpochMintProvision D params period epochsPerPeriod bondedRatio =
     (let x = unat period; a = ecA (exponentialCalc params); r = ecR (exponentialCalc params);
          c = ecC (exponentialCalc params); bTarget = BondingTarget (exponentialCalc params);
          maxVariance = MaxVariance (exponentialCalc params);
          decay = dec_one - r
      in rbind (DPower D decay x) (\<lambda>p.
         rbind (DMul D a p) (\<lambda>ap.
           let exponentialDecay = ap + c;
               bondedRatio = (if bondedRatio \<ge> bTarget then bTarget else bondedRatio)
           in rbind (DQuo D maxVariance bTarget) (\<lambda>q.
              rbind (DMul D bondedRatio q) (\<lambda>sub.
                let bondingIncentive = dec_one + maxVariance - sub
                in rbind (DMul D exponentialDecay bondingIncentive) (\<lambda>periodProvision.
                   rbind (DQuo D periodProvision (NewDec epochsPerPeriod)) (\<lambda>epochProvision.
                     DMul D epochProvision (NewDec PowerReduction))))))))"

section \<open>The store\<close>

record 'x InflState =
  inflSdk :: 'x
  inflParams :: "InflParams option"
  inflPeriod :: "u64 option"
  inflEpochIdentifier :: string
  inflEpochsPerPeriod :: "int option"
  inflSkippedEpochs :: "u64 option"

definition il_GetParams :: "'x InflState \<Rightarrow> InflParams option" where
  "il_GetParams st = inflParams st"

definition il_SetParams :: "InflParams \<Rightarrow> 'x InflState \<Rightarrow> 'x InflState" where
  "il_SetParams p st = st\<lparr>inflParams := Some p\<rparr>"

definition GetPeriod :: "'x InflState \<Rightarrow> u64" where
  "GetPeriod st = (case inflPeriod st of None \<Rightarrow> 0 | Some p \<Rightarrow> p)"

definition SetPeriod :: "u64 \<Rightarrow> 'x InflState \<Rightarrow> 'x InflState" where
  "SetPeriod p st = st\<lparr>inflPeriod := Some p\<rparr>"

definition GetEpochIdentifier :: "'x InflState \<Rightarrow> string" where
  "GetEpochIdentifier st = inflEpochIdentifier st"

definition SetEpochIdentifier :: "string \<Rightarrow> 'x InflState \<Rightarrow> 'x InflState" where
  "SetEpochIdentifier s st = st\<lparr>inflEpochIdentifier := s\<rparr>"

definition GetEpochsPerPeriod :: "'x InflState \<Rightarrow> int" where
  "GetEpochsPerPeriod st = (case inflEpochsPerPeriod st of None \<Rightarrow> 0 | Some n \<Rightarrow> n)"

definition SetEpochsPerPeriod :: "int \<Rightarrow> 'x InflState \<Rightarrow> 'x InflState" where
  "SetEpochsPerPeriod n st = st\<lparr>inflEpochsPerPeriod := Some n\<rparr>"

definition GetSkippedEpochs :: "'x InflState \<Rightarrow> u64" where
  "GetSkippedEpochs st = (case inflSkippedEpochs st of None \<Rightarrow> 0 | Some n \<Rightarrow> n)"

definition SetSkippedEpochs :: "u64 \<Rightarrow> 'x InflState \<Rightarrow> 'x InflState" where
  "SetSkippedEpochs n st = st\<lparr>inflSkippedEpochs := Some n\<rparr>"

section \<open>Minting\<close>

text \<open>The further operations of the staking keeper, and the name of the fee collector.\<close>

record 'x InflKeepers =
  StakingTokenSupply :: "'x \<Rightarrow> int"
  TotalBondedTokens :: "'x \<Rightarrow> int"
  feeCollectorName :: string

definition inflationModule :: string where "inflationModule = ''inflation''"
definition incentivesModule :: string where "incentivesModule = ''incentives''"

definition IsMainnet :: "string \<Rightarrow> bool" where
  "IsMainnet chainID \<longleftrightarrow> take (length ''evmos_9001'') chainID = ''evmos_9001''"

definition IsTestnet :: "string \<Rightarrow> bool" where
  "IsTestnet chainID \<longleftrightarrow> take (length ''evmos_9000'') chainID = ''evmos_9000''"

definition teamAlloc :: int where
  "teamAlloc = 200000000 * PowerReduction"

definition GetProportions :: "Decs \<Rightarrow> string \<times> int \<Rightarrow> dec \<Rightarrow> panic + string \<times> int" where
  "GetProportions D coin distribution =
     rbind (DMul D (NewDec (snd coin)) distribution) (\<lambda>d. Inr (fst coin, DTruncateInt D d))"

definition il_MintCoins :: "'c Coins \<Rightarrow> ('x, 'c) Keepers \<Rightarrow> string \<times> int \<Rightarrow> 'x \<Rightarrow> string + 'x" where
  "il_MintCoins C K coin x = MintCoins K x inflationModule (RawCoins C [coin])"

definition AllocateExponentialInflation ::
    "'c Coins \<Rightarrow> ('x, 'c) Keepers \<Rightarrow> 'x InflKeepers \<Rightarrow> Decs \<Rightarrow> string \<times> int \<Rightarrow> InflParams \<Rightarrow> 'x \<Rightarrow>
      failure + ('c \<times> 'c \<times> 'c) \<times> 'x" where
  "AllocateExponentialInflation C K I D mintedCoin params x =
     (let distribution = inflationDist params in
      rbind (panicking (GetProportions D mintedCoin (StakingRewards distribution))) (\<lambda>s.
        let staking = RawCoins C [s] in
      rbind (failing (SendCoinsFromModuleToModule K x inflationModule (feeCollectorName I) staking)) (\<lambda>x.
      rbind (panicking (GetProportions D mintedCoin (UsageIncentives distribution))) (\<lambda>u.
        let incentives = RawCoins C [u] in
      rbind (failing (SendCoinsFromModuleToModule K x inflationModule incentivesModule incentives)) (\<lambda>x.
        let moduleAddr = GetModuleAddress K inflationModule;
            inflationBalance = GetAllBalances K x moduleAddr
        in rbind (failing (FundCommunityPool K x inflationBalance moduleAddr)) (\<lambda>x.
          Inr ((staking, incentives, NilCoins C), x)))))))"

definition MintAndAllocateInflation ::
    "'c Coins \<Rightarrow> ('x, 'c) Keepers \<Rightarrow> 'x InflKeepers \<Rightarrow> Decs \<Rightarrow> string \<times> int \<Rightarrow> InflParams \<Rightarrow> 'x \<Rightarrow>
      failure + ('c \<times> 'c \<times> 'c) \<times> 'x" where
  "MintAndAllocateInflation C K I D coin params x =
     (if \<not> snd coin > 0 then Inr ((NilCoins C, NilCoins C, NilCoins C), x)
      else rbind (failing (il_MintCoins C K coin x)) (AllocateExponentialInflation C K I D coin params))"

definition il_BondedRatio :: "'x InflKeepers \<Rightarrow> Decs \<Rightarrow> string \<Rightarrow> 'x \<Rightarrow> panic + dec" where
  "il_BondedRatio I D chainID x =
     (let stakeSupply = StakingTokenSupply I x; isMainnet = IsMainnet chainID in
      if \<not> stakeSupply > 0 \<or> isMainnet \<and> stakeSupply \<le> teamAlloc then Inr 0
      else
        let stakeSupply = (if isMainnet then stakeSupply - teamAlloc else stakeSupply)
        in DQuoInt D (NewDec (TotalBondedTokens I x)) stakeSupply)"

definition GetCirculatingSupply :: "('x, 'c) Keepers \<Rightarrow> string \<Rightarrow> string \<Rightarrow> 'x \<Rightarrow> dec" where
  "GetCirculatingSupply K chainID mintDenom x =
     (let circulatingSupply = NewDec (GetSupply K x mintDenom); teamAllocation = NewDec teamAlloc
      in if IsMainnet chainID then circulatingSupply - teamAllocation else circulatingSupply)"

definition GetEpochMintProvision :: "'x InflKeepers \<Rightarrow> Decs \<Rightarrow> string \<Rightarrow> 'x InflState \<Rightarrow> panic + dec" where
  "GetEpochMintProvision I D chainID st =
     rbind (il_BondedRatio I D chainID (inflSdk st)) (\<lambda>bonded.
       case il_GetParams st of None \<Rightarrow> Inl NilDereference
       | Some params \<Rightarrow> CalculateEpochMintProvision D params (GetPeriod st) (GetEpochsPerPeriod st) bonded)"

definition GetInflationRate ::
    "('x, 'c) Keepers \<Rightarrow> 'x InflKeepers \<Rightarrow> Decs \<Rightarrow> string \<Rightarrow> string \<Rightarrow> 'x InflState \<Rightarrow> panic + dec" where
  "GetInflationRate K I D chainID mintDenom st =
     (let epp = GetEpochsPerPeriod st in
      if epp = 0 then Inr 0
      else rbind (GetEpochMintProvision I D chainID st) (\<lambda>epochMintProvision.
        if epochMintProvision = 0 then Inr 0
        else
          let epochsPerPeriod = NewDec epp;
              circulatingSupply = GetCirculatingSupply K chainID mintDenom (inflSdk st)
          in if circulatingSupply = 0 then Inr 0
             else rbind (DMul D epochMintProvision epochsPerPeriod) (\<lambda>m.
                  rbind (DQuo D m circulatingSupply) (\<lambda>q. DMul D q (NewDec 100)))))"

section \<open>The hook\<close>

definition mul64 :: "int \<Rightarrow> int \<Rightarrow> int" where
  "mul64 x y = wrap64 (x * y)"

definition il_AfterEpochEnd ::
    "'c Coins \<Rightarrow> ('x, 'c) Keepers \<Rightarrow> 'x InflKeepers \<Rightarrow> Decs \<Rightarrow> string \<Rightarrow> string \<Rightarrow> int \<Rightarrow> 'x InflState \<Rightarrow>
      panic + 'x InflState" where
  "il_AfterEpochEnd C K I D chainID epochIdentifier epochNumber st =
     (let skippedEpochs = GetSkippedEpochs st;
          skipped = (if epochIdentifier \<noteq> ''day'' then Inr st else Inr (SetSkippedEpochs (skippedEpochs + 1) st))
      in case il_GetParams st of
        None \<Rightarrow> skipped
      | Some params \<Rightarrow>
          if \<not> EnableInflation params then skipped
          else if epochIdentifier \<noteq> GetEpochIdentifier st then Inr st
          else
            let period = GetPeriod st; epochsPerPeriod = GetEpochsPerPeriod st in
            rbind (il_BondedRatio I D chainID (inflSdk st)) (\<lambda>bondedRatio.
            rbind (CalculateEpochMintProvision D params period epochsPerPeriod bondedRatio) (\<lambda>epochMintProvision.
              if \<not> epochMintProvision > 0 then Inr st
              else
                let mintedCoin = (MintDenom params, DTruncateInt D epochMintProvision) in
                case MintAndAllocateInflation C K I D mintedCoin params (inflSdk st) of
                  Inl (Panicked p) \<Rightarrow> Inl p
                | Inl (Err e) \<Rightarrow> Inl (Panic e)
                | Inr (_, x) \<Rightarrow>
                    let st = st\<lparr>inflSdk := x\<rparr> in
                    if sub64 (sub64 epochNumber (mul64 epochsPerPeriod (wrap64 (uint period)))) (wrap64 (uint skippedEpochs))
                        > epochsPerPeriod
                    then Inr (SetPeriod (period + 1) st) else Inr st)))"

definition il_BeforeEpochStart :: "string \<Rightarrow> int \<Rightarrow> 'x InflState \<Rightarrow> panic + 'x InflState" where
  "il_BeforeEpochStart epochIdentifier epochNumber st = Inr st"

definition il_Hooks ::
    "'c Coins \<Rightarrow> ('x, 'c) Keepers \<Rightarrow> 'x InflKeepers \<Rightarrow> Decs \<Rightarrow> string \<Rightarrow> 'x InflState EpochHooks" where
  "il_Hooks C K I D chainID =
     \<lparr>hookAfterEpochEnd = il_AfterEpochEnd C K I D chainID, hookBeforeEpochStart = il_BeforeEpochStart\<rparr>"

section \<open>Genesis, messages, queries\<close>

record InflGenesis =
  ilgParams :: InflParams
  ilgPeriod :: u64
  ilgEpochIdentifier :: string
  ilgEpochsPerPeriod :: int
  ilgSkippedEpochs :: u64

definition il_NewGenesisState :: "InflParams \<Rightarrow> u64 \<Rightarrow> string \<Rightarrow> int \<Rightarrow> u64 \<Rightarrow> InflGenesis" where
  "il_NewGenesisState params period ident epp skipped =
     \<lparr>ilgParams = params, ilgPeriod = period, ilgEpochIdentifier = ident, ilgEpochsPerPeriod = epp, ilgSkippedEpochs = skipped\<rparr>"

definition il_DefaultGenesisState :: "string \<Rightarrow> InflGenesis" where
  "il_DefaultGenesisState evmDenom =
     \<lparr>ilgParams = il_DefaultParams evmDenom, ilgPeriod = 0, ilgEpochIdentifier = ''day'', ilgEpochsPerPeriod = 365, ilgSkippedEpochs = 0\<rparr>"

definition validateEpochsPerPeriod :: "int \<Rightarrow> string option" where
  "validateEpochsPerPeriod v = (if v \<le> 0 then Some ''epochs per period must be positive'' else None)"

definition il_GenesisValidate :: "(string \<Rightarrow> string option) \<Rightarrow> InflGenesis \<Rightarrow> string option" where
  "il_GenesisValidate validateDenom gs =
     (case ValidateEpochIdentifierString (ilgEpochIdentifier gs) of Some e \<Rightarrow> Some e | None \<Rightarrow>
     (case validateEpochsPerPeriod (ilgEpochsPerPeriod gs) of Some e \<Rightarrow> Some e | None \<Rightarrow>
      il_Validate validateDenom (ilgParams gs)))"

text \<open>\<open>hasModuleAccount\<close> tells whether the account keeper has the module account.\<close>

definition il_InitGenesis :: "bool \<Rightarrow> InflGenesis \<Rightarrow> 'x InflState \<Rightarrow> panic + 'x InflState" where
  "il_InitGenesis hasModuleAccount data st =
     (if \<not> hasModuleAccount then Inl (Panic ''the inflation module account has not been set'')
      else Inr (SetSkippedEpochs (ilgSkippedEpochs data) (SetEpochsPerPeriod (ilgEpochsPerPeriod data)
             (SetEpochIdentifier (ilgEpochIdentifier data) (SetPeriod (ilgPeriod data) (il_SetParams (ilgParams data) st))))))"

definition il_ExportGenesis :: "'x InflState \<Rightarrow> InflParams option \<times> u64 \<times> string \<times> int \<times> u64" where
  "il_ExportGenesis st =
     (il_GetParams st, GetPeriod st, GetEpochIdentifier st, GetEpochsPerPeriod st, GetSkippedEpochs st)"

definition il_UpdateParams :: "string \<Rightarrow> string \<Rightarrow> InflParams \<Rightarrow> 'x InflState \<Rightarrow> failure + 'x InflState" where
  "il_UpdateParams authority reqAuthority params st =
     (if authority \<noteq> reqAuthority then Inl (Err ''invalid authority'') else Inr (il_SetParams params st))"

definition il_ValidateBasic ::
    "(string \<Rightarrow> string + address) \<Rightarrow> (string \<Rightarrow> string option) \<Rightarrow> string \<Rightarrow> InflParams \<Rightarrow> string option" where
  "il_ValidateBasic fromBech32 validateDenom authority params =
     (case fromBech32 authority of Inl _ \<Rightarrow> Some ''Invalid authority address'' | Inr _ \<Rightarrow> il_Validate validateDenom params)"

section \<open>The provision\<close>

lemma validateExponential_iff:
  "validateExponentialCalculation v = None \<longleftrightarrow> 0 \<le> ecA v \<and> 0 \<le> ecR v \<and> ecR v \<le> dec_one \<and> 0 \<le> ecC v \<and>
    0 < BondingTarget v \<and> BondingTarget v \<le> dec_one \<and> 0 \<le> MaxVariance v"
  by (auto simp: validateExponentialCalculation_def NewDec_def)

text \<open>Sizes for which no decimal operation overflows: far above any amount of tokens.\<close>

definition moderate :: "ExponentialCalculation \<Rightarrow> bool" where
  "moderate v \<longleftrightarrow> ecA v < 2 ^ 120 \<and> ecC v < 2 ^ 120 \<and> MaxVariance v < 2 ^ 70"

context sdk_dec
begin

lemma bonding_sub:
  assumes b: "0 \<le> b" "b \<le> t" and t: "0 < t" "t \<le> dec_one" and v: "0 \<le> v" "v < 2 ^ 70"
  shows "\<exists>q s. DQuo D v t = Inr q \<and> DMul D b q = Inr s \<and> 0 \<le> s \<and> s \<le> v + 1"
proof -
  obtain q where q: "DQuo D v t = Inr q" using Quo_ok [of t v] t v by auto
  have q0: "0 \<le> q" using Quo_sign [OF q v(1) t(1)] .
  have qt: "q * t \<le> v * dec_one + t" using Quo_round [OF q] t(1) by (simp add: abs_le_iff)
  have bq: "b * q \<le> v * dec_one + dec_one" using mult_right_mono [OF b(2) q0] qt t(2) by (simp add: mult.commute)
  have "0 \<le> b * q" using b(1) q0 by simp
  moreover have "v * dec_one + dec_one < 2 ^ 300" using v by (simp add: dec_one_def)
  ultimately have "\<bar>b * q\<bar> < 2 ^ 300" using bq by simp
  then obtain s where s: "DMul D b q = Inr s" using Mul_ok by blast
  have "s * dec_one < (v + 2) * dec_one"
    using near [OF Mul_round [OF s] dec_one_pos(1)] bq by (simp add: distrib_right)
  then have "s < v + 2" by (simp only: mult_less_cancel_right_pos dec_one_pos)
  with q s Mul_nonneg [OF s b(1) q0] show ?thesis by simp
qed

lemma provision_ok:
  assumes valid: "validateExponentialCalculation (exponentialCalc params) = None" and m: "moderate (exponentialCalc params)"
    and epp: "0 < epp" and bonded: "0 \<le> bonded"
  shows "\<exists>r. CalculateEpochMintProvision D params period epp bonded = Inr r \<and> 0 \<le> r"
proof -
  define a c t v where "a = ecA (exponentialCalc params)" and "c = ecC (exponentialCalc params)"
    and "t = BondingTarget (exponentialCalc params)" and "v = MaxVariance (exponentialCalc params)"
  have a: "0 \<le> a" "a < 2 ^ 120" and c: "0 \<le> c" "c < 2 ^ 120" and t: "0 < t" "t \<le> dec_one" and v: "0 \<le> v" "v < 2 ^ 70"
    and decay: "0 \<le> dec_one - ecR (exponentialCalc params)" "dec_one - ecR (exponentialCalc params) \<le> dec_one"
    using valid m by (simp_all add: validateExponential_iff moderate_def a_def c_def t_def v_def)
  obtain p where p: "DPower D (dec_one - ecR (exponentialCalc params)) (unat period) = Inr p" "0 \<le> p" "p \<le> dec_one"
    using Power_unit [OF decay] by blast
  have "\<bar>a * p\<bar> \<le> 2 ^ 120 * dec_one" using a p mult_mono [of a "2 ^ 120" p dec_one] by simp
  then have "\<bar>a * p\<bar> < 2 ^ 300" by (simp add: dec_one_def)
  then obtain ap where ap: "DMul D a p = Inr ap" using Mul_ok by blast
  have ap_b: "0 \<le> ap" "ap \<le> a" using Mul_nonneg [OF ap a(1) p(2)] Mul_le [OF ap a(1) p(3)] by simp_all
  define b where "b = (if bonded \<ge> t then t else bonded)"
  have b: "0 \<le> b" "b \<le> t" using bonded t(1) by (auto simp: b_def)
  obtain q s where qs: "DQuo D v t = Inr q" "DMul D b q = Inr s" "0 \<le> s" "s \<le> v + 1"
    using bonding_sub [OF b t v] by blast
  define inc where "inc = dec_one + v - s"
  have inc: "0 \<le> inc" "inc \<le> 2 ^ 71" using qs(3,4) v by (simp_all add: inc_def dec_one_def)
  have ed: "0 \<le> ap + c" "ap + c \<le> 2 ^ 121" using ap_b a c by simp_all
  have prod: "0 \<le> (ap + c) * inc" "(ap + c) * inc \<le> 2 ^ 121 * 2 ^ 71"
    using ed inc mult_mono [of "ap + c" "2 ^ 121" inc "2 ^ 71"] by simp_all
  then have "\<bar>(ap + c) * inc\<bar> < 2 ^ 300" by simp
  then obtain pp where pp: "DMul D (ap + c) inc = Inr pp" using Mul_ok by blast
  have pp0: "0 \<le> pp" using Mul_nonneg [OF pp ed(1) inc(1)] .
  have "pp * dec_one < 2 ^ 193" using near [OF Mul_round [OF pp] dec_one_pos(1)] prod(2) by (simp add: dec_one_def)
  then have pp1: "pp < 2 ^ 140" by (simp add: dec_one_def)
  have n: "0 < NewDec epp" using epp by (simp add: NewDec_def)
  obtain ep where ep: "DQuo D pp (NewDec epp) = Inr ep" using Quo_ok [of "NewDec epp" pp] n pp0 pp1 by auto
  have ep0: "0 \<le> ep" using Quo_sign [OF ep pp0 n] .
  have "ep * NewDec epp \<le> pp * dec_one + NewDec epp" using Quo_round [OF ep] n by (simp add: abs_le_iff)
  also have "\<dots> \<le> (pp + 1) * NewDec epp" 
    using mult_right_mono [of 1 epp pp] pp0 epp by (simp add: NewDec_def algebra_simps)
  finally have ep1: "ep \<le> pp + 1" using n by (simp only: mult_le_cancel_right_pos)
  have "ep * NewDec PowerReduction \<le> 2 ^ 141 * NewDec PowerReduction"
    using ep1 pp1 by (intro mult_right_mono) (simp_all add: NewDec_def PowerReduction_def dec_one_def)
  moreover have "0 \<le> ep * NewDec PowerReduction" using ep0 by (simp add: NewDec_def PowerReduction_def dec_one_def)
  ultimately have "\<bar>ep * NewDec PowerReduction\<bar> < 2 ^ 300" by (simp add: NewDec_def PowerReduction_def dec_one_def)
  then obtain r where r: "DMul D ep (NewDec PowerReduction) = Inr r" using Mul_ok by blast
  have "0 \<le> r" by (rule Mul_nonneg [OF r ep0]) (simp add: NewDec_def PowerReduction_def)
  moreover have "CalculateEpochMintProvision D params period epp bonded = Inr r"
    using p(1) ap qs(1,2) pp ep r
    by (simp add: CalculateEpochMintProvision_def Let_def inc_def b_def flip: a_def c_def t_def v_def)
  ultimately show ?thesis by blast
qed

end
section \<open>Where the minted coins go\<close>

locale infl_keepers = sdk_keepers C K keccak + sdk_dec D
  for C :: "'c Coins" and K :: "('x, 'c) Keepers" and keccak :: "bytes \<Rightarrow> hash" and D :: Decs +
  fixes I :: "'x InflKeepers"
  assumes Bonded_nonneg: "0 \<le> TotalBondedTokens I x"
begin

text \<open>The share of a coin under a ratio of at most one.\<close>

lemma GetProportions_ok:
  assumes "GetProportions D (d, n) ratio = Inr s" and "0 \<le> n" and "0 \<le> ratio" and "ratio \<le> dec_one"
  shows "fst s = d \<and> 0 \<le> snd s \<and> snd s \<le> n"
proof -
  obtain r where r: "DMul D (NewDec n) ratio = Inr r" "s = (d, DTruncateInt D r)"
    using assms(1) by (auto simp: GetProportions_def)
  have n: "0 \<le> NewDec n" using assms(2) by (simp add: NewDec_def)
  have "0 \<le> r" "r \<le> NewDec n" using Mul_nonneg [OF r(1) n assms(3)] Mul_le [OF r(1) n assms(4)] by simp_all
  then show ?thesis using r(2) TruncateInt_nonneg [of r] TruncateInt_mono [of r "NewDec n"] TruncateInt_NewDec [OF assms(2)]
    by simp
qed

lemma Mint_ok:
  assumes run: "MintAndAllocateInflation C K I D (d, n) params x = Inr (r, x')" and n: "0 < n"
    and dist: "validateInflationDistribution (inflationDist params) = None"
    and apart: "distinct [GetModuleAddress K inflationModule, GetModuleAddress K (feeCollectorName I),
      GetModuleAddress K incentivesModule, GetModuleAddress K distrModule]"
  shows "\<exists>s u. 0 \<le> s \<and> 0 \<le> u \<and>
    GetProportions D (d, n) (StakingRewards (inflationDist params)) = Inr (d, s) \<and>
    GetProportions D (d, n) (UsageIncentives (inflationDist params)) = Inr (d, u) \<and>
    GetSupply K x' = (GetSupply K x)(d := GetSupply K x d + n) \<and>
    BankBalance K x' (GetModuleAddress K (feeCollectorName I)) d = BankBalance K x (GetModuleAddress K (feeCollectorName I)) d + s \<and>
    BankBalance K x' (GetModuleAddress K incentivesModule) d = BankBalance K x (GetModuleAddress K incentivesModule) d + u \<and>
    BankBalance K x' (GetModuleAddress K distrModule) d =
      BankBalance K x (GetModuleAddress K distrModule) d + (BankBalance K x (GetModuleAddress K inflationModule) d + n - s - u) \<and>
    (\<forall>e. BankBalance K x' (GetModuleAddress K inflationModule) e = 0)"
proof -
  let ?m = "GetModuleAddress K inflationModule"
  have ratios: "0 \<le> StakingRewards (inflationDist params)" "StakingRewards (inflationDist params) \<le> dec_one"
    "0 \<le> UsageIncentives (inflationDist params)" "UsageIncentives (inflationDist params) \<le> dec_one"
    using dist by (auto simp: validateInflationDistribution_def NewDec_def split: if_splits)
  obtain x1 st x2 us x3 where steps: "MintCoins K x inflationModule (RawCoins C [(d, n)]) = Inr x1"
    "GetProportions D (d, n) (StakingRewards (inflationDist params)) = Inr st"
    "SendCoinsFromModuleToModule K x1 inflationModule (feeCollectorName I) (RawCoins C [st]) = Inr x2"
    "GetProportions D (d, n) (UsageIncentives (inflationDist params)) = Inr us"
    "SendCoinsFromModuleToModule K x2 inflationModule incentivesModule (RawCoins C [us]) = Inr x3"
    "FundCommunityPool K x3 (GetAllBalances K x3 ?m) ?m = Inr x'"
    using run n by (auto simp: MintAndAllocateInflation_def il_MintCoins_def AllocateExponentialInflation_def Let_def)
  obtain s where s: "st = (d, s)" "0 \<le> s" using GetProportions_ok [OF steps(2)] n ratios by (cases st) auto
  obtain u where u: "us = (d, u)" "0 \<le> u" using GetProportions_ok [OF steps(4)] n ratios by (cases us) auto
  note t1 = MintCoins_law [OF steps(1)] and t2 = ModuleToModule_law [OF steps(3)]
    and t3 = ModuleToModule_law [OF steps(5)] and t4 = Fund_law [OF steps(6)]
  have supplied: "GetSupply K x' = (GetSupply K x)(d := GetSupply K x d + n)"
  proof
    fix e
    have "GetSupply K x' e = GetSupply K x1 e"
      using transferred_supply [OF t2] transferred_supply [OF t3] transferred_supply [OF t4] by simp
    also have "\<dots> = GetSupply K x e + (if e = d then n else 0)"
      using t1 n by (simp add: AmountOf_RawCoins)
    finally show "GetSupply K x' e = ((GetSupply K x)(d := GetSupply K x d + n)) e" by simp
  qed
  have b1: "BankBalance K x1 z e = BankBalance K x z e + at_addr ?m z (if e = d then n else 0)" for z e
    using t1 n by (simp add: AmountOf_RawCoins)
  note b2 = transferred_balance [OF t2, unfolded s(1)] and b3 = transferred_balance [OF t3, unfolded u(1)]
    and b4 = transferred_balance [OF t4]
  let ?f = "GetModuleAddress K (feeCollectorName I)" and ?i = "GetModuleAddress K incentivesModule"
    and ?p = "GetModuleAddress K distrModule"
  have ne: "?m \<noteq> ?f" "?m \<noteq> ?i" "?m \<noteq> ?p" "?f \<noteq> ?i" "?f \<noteq> ?p" "?i \<noteq> ?p" using apart by simp_all
  show ?thesis
    using steps(2,4) s u supplied
    by (intro exI [of _ s] exI [of _ u]) (simp add: ne ne [symmetric] b1 b2 b3 b4 AllBalances_law AmountOf_RawCoins at_addr_def)
qed

end
definition ref_infl :: "ledger InflKeepers" where
  "ref_infl = \<lparr>StakingTokenSupply = (\<lambda>_. 1000), TotalBondedTokens = (\<lambda>_. 500), feeCollectorName = ''fee_collector''\<rparr>"

interpretation ref_infl: infl_keepers ref_coins "ref_keepers keccak blocked bond" keccak ref_dec ref_infl
  for keccak blocked bond
  by unfold_locales (simp add: ref_infl_def)

section \<open>The hook\<close>

lemma store_simps [simp]:
  "inflSdk (SetPeriod p st) = inflSdk st" "GetSkippedEpochs (SetPeriod p st) = GetSkippedEpochs st"
  "GetPeriod (SetPeriod p st) = p" "inflSdk (SetSkippedEpochs n st) = inflSdk st"
  "GetSkippedEpochs (SetSkippedEpochs n st) = n" "GetPeriod (SetSkippedEpochs n st) = GetPeriod st"
  "GetPeriod (st\<lparr>inflSdk := x\<rparr>) = GetPeriod st"
  "GetSkippedEpochs (st\<lparr>inflSdk := x\<rparr>) = GetSkippedEpochs st"
  by (simp_all add: SetPeriod_def GetPeriod_def SetSkippedEpochs_def GetSkippedEpochs_def)

text \<open>The hook either leaves the bank alone or mints.\<close>

lemma AfterEpochEnd_cases:
  assumes "il_AfterEpochEnd C K I D chainID ident n st = Inr st'"
  obtains (idle) "inflSdk st' = inflSdk st" "GetPeriod st' = GetPeriod st"
      "st' = st \<or> ident = ''day'' \<and> GetSkippedEpochs st' = GetSkippedEpochs st + 1"
    | (minted) p b r res x where "il_GetParams st = Some p" "EnableInflation p" "ident = GetEpochIdentifier st"
      "il_BondedRatio I D chainID (inflSdk st) = Inr b"
      "CalculateEpochMintProvision D p (GetPeriod st) (GetEpochsPerPeriod st) b = Inr r" "0 < r"
      "MintAndAllocateInflation C K I D (MintDenom p, DTruncateInt D r) p (inflSdk st) = Inr (res, x)"
      "inflSdk st' = x" "GetSkippedEpochs st' = GetSkippedEpochs st"
      "GetPeriod st' = (if sub64 (sub64 n (mul64 (GetEpochsPerPeriod st) (wrap64 (uint (GetPeriod st)))))
          (wrap64 (uint (GetSkippedEpochs st))) > GetEpochsPerPeriod st then GetPeriod st + 1 else GetPeriod st)"
proof (cases "case il_GetParams st of None \<Rightarrow> False | Some p \<Rightarrow> EnableInflation p \<and> ident = GetEpochIdentifier st")
  case False
  then have "st' = st \<or> ident = ''day'' \<and> st' = SetSkippedEpochs (GetSkippedEpochs st + 1) st"
    using assms by (auto simp: il_AfterEpochEnd_def Let_def split: option.splits if_splits)
  then show ?thesis using idle by auto
next
  case True
  then obtain p where p: "il_GetParams st = Some p" "EnableInflation p" "ident = GetEpochIdentifier st"
    by (auto split: option.splits)
  with assms obtain b r where br: "il_BondedRatio I D chainID (inflSdk st) = Inr b"
    "CalculateEpochMintProvision D p (GetPeriod st) (GetEpochsPerPeriod st) b = Inr r"
    by (auto simp: il_AfterEpochEnd_def Let_def)
  show ?thesis
  proof (cases "0 < r")
    case False
    then have "st' = st" using assms p br by (simp add: il_AfterEpochEnd_def Let_def)
    then show ?thesis using idle by simp
  next
    case True
    then obtain res x where run: "MintAndAllocateInflation C K I D (MintDenom p, DTruncateInt D r) p (inflSdk st) = Inr (res, x)"
      using assms p br by (auto simp: il_AfterEpochEnd_def Let_def split: sum.splits failure.splits)
    show ?thesis
      by (rule minted [OF p br True run])
        (use assms p br True run in \<open>auto simp: il_AfterEpochEnd_def Let_def split: if_splits\<close>)
  qed
qed

text \<open>The period is the number of complete periods among the epochs that minted.\<close>

definition full_periods :: "int \<Rightarrow> int \<Rightarrow> int \<Rightarrow> int" where
  "full_periods epp skipped n = (n - skipped - 1) div epp"

lemma full_periods_step:
  assumes "0 < epp"
  shows "full_periods epp k n =
    (if n - epp * full_periods epp k (n - 1) - k > epp then full_periods epp k (n - 1) + 1 else full_periods epp k (n - 1))"
proof -
  define q where "q = full_periods epp k (n - 1)"
  define m where "m = n - k - 2"
  have "q = m div epp" by (simp add: q_def full_periods_def m_def)
  then have q: "q * epp \<le> n - k - 2" "n - k - 2 < (q + 1) * epp"
    using pos_mod_sign [OF assms, of m] pos_mod_bound [OF assms, of m] minus_mod_eq_div_mult [of m epp]
    unfolding m_def [symmetric] by (simp_all add: distrib_right)
  show ?thesis
  proof (cases "n - epp * q - k > epp")
    case True
    then have "n - k - 1 = (q + 1) * epp" using q by (simp add: algebra_simps)
    then have "full_periods epp k n = q + 1" using assms by (simp add: full_periods_def)
    then show ?thesis using True by (simp flip: q_def)
  next
    case False
    then have "q * epp \<le> n - k - 1" "n - k - 1 < q * epp + epp" using q(1) by (simp_all add: algebra_simps)
    then have "full_periods epp k n = q" unfolding full_periods_def
      using int_div_pos_eq [of "n - k - 1" epp q "n - k - 1 - q * epp"] by (simp add: mult.commute)
    then show ?thesis using False by (simp flip: q_def)
  qed
qed
section \<open>Blocks\<close>

text \<open>The end of an epoch the module listens to.\<close>

definition pays :: "int \<Rightarrow> 'x InflState \<Rightarrow> EpochInfo \<Rightarrow> bool" where
  "pays now st e \<longleftrightarrow> ends now e \<and> \<not> starts now e \<and> Identifier e = GetEpochIdentifier st"

lemma fire_il_Hooks:
  "fire [il_Hooks C K I D chainID] now e st =
    (if \<not> starts now e \<and> ends now e
     then il_AfterEpochEnd C K I D chainID (Identifier e) (add64 (CurrentEpoch e) 1) st else Inr st)"
  by (cases "il_AfterEpochEnd C K I D chainID (Identifier e) (add64 (CurrentEpoch e) 1) st")
    (auto simp: fire_def multiAfterEpochEnd_def multiBeforeEpochStart_def il_Hooks_def il_BeforeEpochStart_def)

lemma AfterEpochEnd_identifier:
  "il_AfterEpochEnd C K I D chainID ident n st = Inr st' \<Longrightarrow> GetEpochIdentifier st' = GetEpochIdentifier st"
  by (auto simp: il_AfterEpochEnd_def Let_def GetEpochIdentifier_def SetSkippedEpochs_def SetPeriod_def
      split: option.splits if_splits sum.splits failure.splits)

context infl_keepers
begin

lemma AfterEpochEnd_supply:
  assumes "il_AfterEpochEnd C K I D chainID ident n st = Inr st'"
  shows "GetSupply K (inflSdk st) d \<le> GetSupply K (inflSdk st') d"
    and "ident \<noteq> GetEpochIdentifier st \<Longrightarrow> inflSdk st' = inflSdk st"
proof -
  from assms have "GetSupply K (inflSdk st) d \<le> GetSupply K (inflSdk st') d \<and>
    (ident \<noteq> GetEpochIdentifier st \<longrightarrow> inflSdk st' = inflSdk st)"
  proof (cases rule: AfterEpochEnd_cases)
    case (minted p b r res x)
    show ?thesis
    proof (cases "DTruncateInt D r > 0")
      case False
      then have "x = inflSdk st" using minted(7) by (simp add: MintAndAllocateInflation_def)
      then show ?thesis using minted by simp
    next
      case True
      obtain x1 x2 x3 c1 c2 c3 where s: "MintCoins K (inflSdk st) inflationModule (RawCoins C [(MintDenom p, DTruncateInt D r)]) = Inr x1"
        "SendCoinsFromModuleToModule K x1 inflationModule (feeCollectorName I) c1 = Inr x2"
        "SendCoinsFromModuleToModule K x2 inflationModule incentivesModule c2 = Inr x3"
        "FundCommunityPool K x3 c3 (GetModuleAddress K inflationModule) = Inr x"
        using minted(7) True
        by (auto simp: MintAndAllocateInflation_def il_MintCoins_def AllocateExponentialInflation_def Let_def)
      have "GetSupply K x d = GetSupply K x1 d"
        using transferred_supply [OF ModuleToModule_law [OF s(2)]] transferred_supply [OF ModuleToModule_law [OF s(3)]]
          transferred_supply [OF Fund_law [OF s(4)]] by simp
      then show ?thesis using MintCoins_law [OF s(1)] AmountOf_nonneg minted by simp
    qed
  qed simp
  then show "GetSupply K (inflSdk st) d \<le> GetSupply K (inflSdk st') d"
    "ident \<noteq> GetEpochIdentifier st \<Longrightarrow> inflSdk st' = inflSdk st" by blast+
qed

lemma fold_supply:
  assumes "foldM (fire [il_Hooks C K I D chainID] now) l st = Inr st'"
  shows "GetSupply K (inflSdk st) d \<le> GetSupply K (inflSdk st') d \<and>
    (list_all (\<lambda>e. \<not> pays now st e) l \<longrightarrow> inflSdk st' = inflSdk st)"
  using assms
proof (induction l arbitrary: st)
  case (Cons e l)
  obtain st1 where st1: "fire [il_Hooks C K I D chainID] now e st = Inr st1"
    "foldM (fire [il_Hooks C K I D chainID] now) l st1 = Inr st'" using Cons.prems by auto
  show ?case
  proof (cases "\<not> starts now e \<and> ends now e")
    case True
    then have run: "il_AfterEpochEnd C K I D chainID (Identifier e) (add64 (CurrentEpoch e) 1) st = Inr st1"
      using st1(1) by (simp add: fire_il_Hooks)
    have ident: "GetEpochIdentifier st1 = GetEpochIdentifier st" by (rule AfterEpochEnd_identifier [OF run])
    then have "pays now st1 = pays now st" by (intro ext) (simp add: pays_def)
    moreover have "inflSdk st1 = inflSdk st" if "\<not> pays now st e"
      using that True AfterEpochEnd_supply(2) [OF run] by (simp add: pays_def)
    ultimately show ?thesis
      using order_trans [OF AfterEpochEnd_supply(1) [OF run, of d]] Cons.IH [OF st1(2)] by simp
  next
    case False
    then have "st1 = st" using st1(1) by (auto simp: fire_il_Hooks)
    then show ?thesis using Cons.IH [OF st1(2)] by simp
  qed
qed simp

end

section \<open>Properties\<close>

text \<open>A concrete state: the default parameters with small amounts, an empty bank, day epochs.\<close>

definition ref_infl_params :: InflParams where
  "ref_infl_params = (il_DefaultParams ''aabtc'')\<lparr>exponentialCalc := DefaultExponentialCalculation\<lparr>ecA := 73000, ecC := 0\<rparr>\<rparr>"

definition ref_inflation :: "ledger InflState" where
  "ref_inflation =
     \<lparr>inflSdk = \<lparr>lAccounts = (\<lambda>_. None), lBalances = (\<lambda>_. []), lSupply = (\<lambda>_. 0), lNumber = 0\<rparr>,
      inflParams = Some ref_infl_params, inflPeriod = None, inflEpochIdentifier = ''day'',
      inflEpochsPerPeriod = Some 365, inflSkippedEpochs = None\<rparr>"

abbreviation ref_minter :: "string \<Rightarrow> int \<Rightarrow> ledger InflState \<Rightarrow> panic + ledger InflState" where
  "ref_minter \<equiv> il_AfterEpochEnd ref_coins (ref_keepers (\<lambda>_. 0) (\<lambda>_. False) ''aakk'') ref_infl ref_dec ''akkad_9000-1''"

text \<open>
  C34.  The provision of an epoch exists.  For parameters that pass the validation and are of a moderate size, a
  positive number of epochs per period and a bonded ratio that is not negative,
  \<^verbatim>\<open>CalculateEpochMintProvision\<close> does not panic, in any period, and its result is not negative.
\<close>

theorem provision_defined:
  assumes "sdk_dec D" and "validateExponentialCalculation (exponentialCalc params) = None"
    and "moderate (exponentialCalc params)" and "0 < epp" and "0 \<le> bonded"
  shows "\<exists>r. CalculateEpochMintProvision D params period epp bonded = Inr r \<and> 0 \<le> r"
  using sdk_dec.provision_ok [OF assms] .

theorem provision_defined_witness:
  "\<exists>r. CalculateEpochMintProvision ref_dec (il_DefaultParams ''aabtc'') 7 365 (50 * 10 ^ 16) = Inr r \<and> 0 \<le> r"
  by (rule provision_defined [OF ref_dec.sdk_dec_axioms])
    (simp_all add: il_DefaultParams_def DefaultExponentialCalculation_def validateExponential_iff moderate_def NewDec_def dec_one_def)

text \<open>
  C33.  All that is minted is handed out.  When the hook of a paying epoch returns, the supply of the mint denomination
  has grown by exactly the truncated provision and no other supply has changed; the fee collector and the incentives
  module have received their shares, the community pool everything else the module held of the denomination, and the module account is empty.
\<close>

theorem minted_coins_handed_out:
  assumes "infl_keepers C K keccak D I" and "il_AfterEpochEnd C K I D chainID ident n st = Inr st'"
    and "il_GetParams st = Some p" and "EnableInflation p" and "ident = GetEpochIdentifier st"
    and "il_BondedRatio I D chainID (inflSdk st) = Inr b"
    and "CalculateEpochMintProvision D p (GetPeriod st) (GetEpochsPerPeriod st) b = Inr r" and "dec_one \<le> r"
    and "validateInflationDistribution (inflationDist p) = None"
    and "distinct [GetModuleAddress K inflationModule, GetModuleAddress K (feeCollectorName I),
      GetModuleAddress K incentivesModule, GetModuleAddress K distrModule]"
  shows "let m = DTruncateInt D r; d = MintDenom p; x = inflSdk st; x' = inflSdk st'; bal = (\<lambda>x name. BankBalance K x (GetModuleAddress K name) d) in
    \<exists>s u. GetProportions D (d, m) (StakingRewards (inflationDist p)) = Inr (d, s) \<and>
      GetProportions D (d, m) (UsageIncentives (inflationDist p)) = Inr (d, u) \<and>
      GetSupply K x' = (GetSupply K x)(d := GetSupply K x d + m) \<and>
      bal x' (feeCollectorName I) = bal x (feeCollectorName I) + s \<and>
      bal x' incentivesModule = bal x incentivesModule + u \<and>
      bal x' distrModule = bal x distrModule + (bal x inflationModule + m - s - u) \<and>
      (\<forall>e. BankBalance K x' (GetModuleAddress K inflationModule) e = 0)"
proof -
  have r: "0 < r" "0 < DTruncateInt D r"
  proof -
    show "0 < r" using assms(8) dec_one_pos(1) by linarith
    then show "0 < DTruncateInt D r"
      using sdk_dec.TruncateInt_mono [OF infl_keepers.axioms(2) [OF assms(1)], of dec_one r] assms(8)
        sdk_dec.TruncateInt_NewDec [OF infl_keepers.axioms(2) [OF assms(1)], of 1] by (simp add: NewDec_def)
  qed
  obtain res x where run: "MintAndAllocateInflation C K I D (MintDenom p, DTruncateInt D r) p (inflSdk st) = Inr (res, x)" "inflSdk st' = x"
    using assms(2-7) r(1) by (auto simp: il_AfterEpochEnd_def Let_def split: sum.splits failure.splits if_splits)
  from infl_keepers.Mint_ok [OF assms(1) run(1) r(2) assms(9,10)] run(2) show ?thesis
    by (auto simp: Let_def)
qed

theorem minted_coins_handed_out_witness:
  "\<exists>st'. ref_minter ''day'' 2 ref_inflation = Inr st' \<and>
    (\<forall>e. BankBalance (ref_keepers (\<lambda>_. 0) (\<lambda>_. False) ''aakk'') (inflSdk st') (ref_module_address inflationModule) e = 0)"
proof -
  let ?p = ref_infl_params and ?I = ref_infl and ?K = "ref_keepers (\<lambda>_. 0) (\<lambda>_. False) ''aakk''"
  have "\<not> isl (ref_minter ''day'' 2 ref_inflation)" by code_simp
  then obtain st' where run: "ref_minter ''day'' 2 ref_inflation = Inr st'" by (cases "ref_minter ''day'' 2 ref_inflation") auto
  have p: "il_GetParams ref_inflation = Some ?p" "EnableInflation ?p" "''day'' = GetEpochIdentifier ref_inflation"
    "validateInflationDistribution (inflationDist ?p) = None"
    by (simp_all add: il_GetParams_def ref_inflation_def ref_infl_params_def il_DefaultParams_def GetEpochIdentifier_def
        validateInflationDistribution_def DefaultInflationDistribution_def NewDec_def dec_one_def)
  have b: "il_BondedRatio ?I ref_dec ''akkad_9000-1'' (inflSdk ref_inflation) = Inr (50 * 10 ^ 16)" by code_simp
  have "case CalculateEpochMintProvision ref_dec ?p (GetPeriod ref_inflation) (GetEpochsPerPeriod ref_inflation) (50 * 10 ^ 16) of
    Inl _ \<Rightarrow> False | Inr r \<Rightarrow> dec_one \<le> r" by code_simp
  then obtain r where r: "CalculateEpochMintProvision ref_dec ?p (GetPeriod ref_inflation) (GetEpochsPerPeriod ref_inflation) (50 * 10 ^ 16) = Inr r"
    "dec_one \<le> r" by (auto split: sum.splits)
  have "distinct [ref_module_address inflationModule, ref_module_address ''fee_collector'',
      ref_module_address incentivesModule, ref_module_address distrModule]" by code_simp
  then have "distinct [GetModuleAddress ?K inflationModule, GetModuleAddress ?K (feeCollectorName ?I),
      GetModuleAddress ?K incentivesModule, GetModuleAddress ?K distrModule]" by (simp add: ref_keepers_def ref_infl_def)
  from minted_coins_handed_out [OF ref_infl.infl_keepers_axioms run p(1,2,3) b r p(4) this] run show ?thesis
    by (auto simp: Let_def ref_keepers_def)
qed

text \<open>
   The period counts the epochs that minted.  If before an epoch whose hook mints the period is the number of complete periods
  among the epochs up to the previous one that were not skipped, it is so for this epoch afterwards; it advances by at most one.
\<close>

theorem period_counts_epochs:
  assumes "il_AfterEpochEnd C K I D chainID ident n st = Inr st'"
    and "inflSdk st' \<noteq> inflSdk st \<or> GetPeriod st' \<noteq> GetPeriod st"
    and "GetEpochsPerPeriod st = epp" and "0 < epp" and "epp < 2 ^ 30" and "0 \<le> n" and "n < 2 ^ 60"
    and "uint (GetSkippedEpochs st) = k" and "k < 2 ^ 60"
    and "uint (GetPeriod st) = full_periods epp k (n - 1)" and "uint (GetPeriod st) < 2 ^ 30"
  shows "uint (GetPeriod st') = full_periods epp k n \<and> GetSkippedEpochs st' = GetSkippedEpochs st"
  using assms(1)
proof (cases rule: AfterEpochEnd_cases)
  case idle
  then show ?thesis using assms(2) by simp
next
  case (minted p b r res x)
  let ?q = "full_periods epp k (n - 1)"
  have q: "0 \<le> ?q" "?q < 2 ^ 30" using assms(10,11) uint_ge_0 [of "GetPeriod st"] by simp_all
  have k: "0 \<le> k" using assms(8) by auto
  have prod: "0 \<le> epp * ?q" "epp * ?q \<le> 2 ^ 30 * 2 ^ 30"
    using q assms(4,5) mult_mono [of epp "2 ^ 30" ?q "2 ^ 30"] by simp_all
  have "wrap64 (uint (GetPeriod st)) = ?q" "wrap64 (uint (GetSkippedEpochs st)) = k"
    using q k assms(8-10) by (simp_all add: in64_def)
  then have "sub64 (sub64 n (mul64 epp (wrap64 (uint (GetPeriod st))))) (wrap64 (uint (GetSkippedEpochs st))) = n - epp * ?q - k"
    using prod k assms(6,7,9) by (simp add: mul64_def in64_def)
  then have "GetPeriod st' = (if n - epp * ?q - k > epp then GetPeriod st + 1 else GetPeriod st)"
    using minted(10) assms(3) by simp
  moreover have "uint (GetPeriod st + 1) = ?q + 1"
    using q assms(10) by (simp add: uint_plus_if_size word_size)
  ultimately show ?thesis
    using full_periods_step [OF assms(4), of k n] assms(10) minted(9) by simp
qed

theorem period_counts_epochs_witness:
  "\<exists>st'. ref_minter ''day'' 367 (SetPeriod 0 (ref_inflation\<lparr>inflSkippedEpochs := Some 1\<rparr>)) = Inr st' \<and> uint (GetPeriod st') = 1"
proof -
  let ?st = "SetPeriod 0 (ref_inflation\<lparr>inflSkippedEpochs := Some 1\<rparr>)"
  have "case ref_minter ''day'' 367 ?st of Inl _ \<Rightarrow> False | Inr st' \<Rightarrow> lSupply (inflSdk st') ''aabtc'' \<noteq> 0" by code_simp
  then obtain st' where run: "ref_minter ''day'' 367 ?st = Inr st'" and s: "lSupply (inflSdk st') ''aabtc'' \<noteq> 0"
    by (auto split: sum.splits)
  have "lSupply (inflSdk ?st) ''aabtc'' = 0" by (simp add: ref_inflation_def)
  then have "inflSdk st' \<noteq> inflSdk ?st" using s by auto
  moreover have "GetEpochsPerPeriod ?st = 365" "uint (GetSkippedEpochs ?st) = 1" "uint (GetPeriod ?st) = 0"
    by (simp_all add: GetEpochsPerPeriod_def SetPeriod_def ref_inflation_def GetSkippedEpochs_def GetPeriod_def)
  ultimately show ?thesis
    using period_counts_epochs [OF run, of 365 1] run by (simp add: full_periods_def)
qed

text \<open>
  Epochs and inflation together.  A block of the epochs module with the hooks of the inflation module never lowers the supply
  of any denomination, and leaves the bank untouched unless an epoch with the configured identifier ends in it.
\<close>

theorem block_mints_only_at_epoch_end:
  assumes "infl_keepers C K keccak D I" and "epochs_ok es"
    and "ep_BeginBlocker [il_Hooks C K I D chainID] now h (es, st) = Inr (es', st')"
  shows "GetSupply K (inflSdk st) d \<le> GetSupply K (inflSdk st') d \<and>
    (list_all (\<lambda>e. \<not> pays now st e) (epochEntries es) \<longrightarrow> inflSdk st' = inflSdk st)"
proof -
  have "foldM (fire [il_Hooks C K I D chainID] now) (epochEntries es) st = Inr st'"
    using assms(3) by (auto simp: BeginBlocker_eq [OF assms(2)])
  then show ?thesis by (rule infl_keepers.fold_supply [OF assms(1)])
qed

theorem block_mints_only_at_epoch_end_witness:
  "\<exists>es' st'. ep_BeginBlocker [il_Hooks ref_coins (ref_keepers (\<lambda>_. 0) (\<lambda>_. False) ''aakk'') ref_infl ref_dec ''akkad_9000-1'']
      15 9 (ref_epochs, ref_inflation) = Inr (es', st') \<and> inflSdk st' = inflSdk ref_inflation"
proof -
  let ?H = "[il_Hooks ref_coins (ref_keepers (\<lambda>_. 0) (\<lambda>_. False) ''aakk'') ref_infl ref_dec ''akkad_9000-1'']"
  have "\<not> isl (ep_BeginBlocker ?H 15 9 (ref_epochs, ref_inflation))" by code_simp
  then obtain es' st' where run: "ep_BeginBlocker ?H 15 9 (ref_epochs, ref_inflation) = Inr (es', st')"
    by (cases "ep_BeginBlocker ?H 15 9 (ref_epochs, ref_inflation)") auto
  moreover have "list_all (\<lambda>e. \<not> pays 15 ref_inflation e) (epochEntries ref_epochs)" by code_simp
  ultimately show ?thesis
    using block_mints_only_at_epoch_end [OF ref_infl.infl_keepers_axioms ref_epochs_ok run] by blast
qed

end
