(* ===== verification/Revenue.thy ===== *)
theory Revenue
  imports Evm_Keeper Addresses Sdk_Dec Epochs
begin

text \<open>
  The revenue module (\<^verbatim>\<open>x/revenue/v1\<close>): contracts registered by their deployers receive a share of the
  fees of the transactions that call them.  The module keeps the revenues by contract and
  two indexes, by deployer and by withdrawer.  It runs over the store of the EVM keeper, from
  which it reads accounts and the fee denomination.  The gas meter is a function of the SDK state.
  Stored messages are read back as they were written; events are left out.
\<close>

section \<open>Data\<close>

record Revenue =
  ContractAddress :: string
  DeployerAddress :: string
  WithdrawerAddress :: string

record RevParams =
  EnableRevenue :: bool
  DeveloperShares :: "dec option"
  AddrDerivationCostCreate :: u64

record 'x RevState =
  revEvm :: "'x EvmCtx"
  revParams :: "RevParams option"
  revenueStore :: "(address, Revenue) fmap"
  deployerStore :: "(address \<times> address) set"
  withdrawerStore :: "(address \<times> address) set"

subsection \<open>Parameters\<close>

definition rv_NewParams :: "bool \<Rightarrow> dec option \<Rightarrow> u64 \<Rightarrow> RevParams" where
  "rv_NewParams enableRevenue developerShares cost =
     \<lparr>EnableRevenue = enableRevenue, DeveloperShares = developerShares, AddrDerivationCostCreate = cost\<rparr>"

definition rv_DefaultParams :: RevParams where
  "rv_DefaultParams = \<lparr>EnableRevenue = True, DeveloperShares = Some (50 * 10 ^ 16), AddrDerivationCostCreate = 50\<rparr>"

definition validateShares :: "dec option \<Rightarrow> string option" where
  "validateShares i =
     (case i of
        None \<Rightarrow> Some ''invalid parameter: nil''
      | Some v \<Rightarrow>
          if v < 0 then Some ''value cannot be negative''
          else if v > dec_one then Some ''value cannot be greater than 1'' else None)"

definition rv_Validate :: "RevParams \<Rightarrow> string option" where
  "rv_Validate p = validateShares (DeveloperShares p)"

text \<open>Reading parameters that were never written gives the zero value.\<close>

definition rv_GetParams :: "'x RevState \<Rightarrow> RevParams" where
  "rv_GetParams st =
     (case revParams st of
        None \<Rightarrow> \<lparr>EnableRevenue = False, DeveloperShares = None, AddrDerivationCostCreate = 0\<rparr>
      | Some p \<Rightarrow> p)"

definition rv_SetParams :: "RevParams \<Rightarrow> 'x RevState \<Rightarrow> 'x RevState" where
  "rv_SetParams p st = st\<lparr>revParams := Some p\<rparr>"

subsection \<open>Revenues\<close>

definition NewRevenue :: "EthLib \<Rightarrow> Bech32 \<Rightarrow> address \<Rightarrow> address \<Rightarrow> address option \<Rightarrow> Revenue" where
  "NewRevenue H B contract deployer withdrawer =
     \<lparr>ContractAddress = AddressHex H contract, DeployerAddress = AccString B deployer,
      WithdrawerAddress = (case withdrawer of None \<Rightarrow> '''' | Some w \<Rightarrow> AccString B w)\<rparr>"

definition GetContractAddr :: "EthLib \<Rightarrow> Revenue \<Rightarrow> address" where
  "GetContractAddr H fs = HexToAddress H (ContractAddress fs)"

definition GetDeployerAddr :: "Bech32 \<Rightarrow> Revenue \<Rightarrow> failure + address" where
  "GetDeployerAddr B fs = MustAccAddressFromBech32 B (DeployerAddress fs)"

definition GetWithdrawerAddr :: "Bech32 \<Rightarrow> Revenue \<Rightarrow> failure + address option" where
  "GetWithdrawerAddr B fs =
     (if WithdrawerAddress fs = '''' then Inr None
      else rbind (MustAccAddressFromBech32 B (WithdrawerAddress fs)) (\<lambda>w. Inr (Some w)))"

definition rev_Validate :: "EthLib \<Rightarrow> Bech32 \<Rightarrow> Revenue \<Rightarrow> string option" where
  "rev_Validate H B fs =
     (case ValidateNonZeroAddress H (ContractAddress fs) of
        Some e \<Rightarrow> Some e
      | None \<Rightarrow>
          if badAddress B (DeployerAddress fs) then Some ''invalid deployer''
          else if WithdrawerAddress fs \<noteq> '''' \<and> badAddress B (WithdrawerAddress fs) then Some ''invalid withdrawer''
          else None)"

section \<open>The store\<close>

definition revenueEntries :: "'x RevState \<Rightarrow> Revenue list" where
  "revenueEntries st = map (\<lambda>c. the (fmlookup (revenueStore st) c)) (sorted_list_of_fset (fmdom (revenueStore st)))"

definition GetRevenues :: "'x RevState \<Rightarrow> Revenue list" where
  "GetRevenues st = revenueEntries st"

fun revenueLoop :: "(Revenue \<Rightarrow> 's \<Rightarrow> bool \<times> 's) \<Rightarrow> Revenue list \<Rightarrow> 's \<Rightarrow> 's" where
  "revenueLoop handlerFn [] s = s"
| "revenueLoop handlerFn (r # rs) s = (case handlerFn r s of (stop, s') \<Rightarrow> if stop then s' else revenueLoop handlerFn rs s')"

definition IterateRevenues :: "(Revenue \<Rightarrow> 's \<Rightarrow> bool \<times> 's) \<Rightarrow> 'x RevState \<Rightarrow> 's \<Rightarrow> 's" where
  "IterateRevenues handlerFn st = revenueLoop handlerFn (revenueEntries st)"

definition GetRevenue :: "'x RevState \<Rightarrow> address \<Rightarrow> Revenue option" where
  "GetRevenue st contract = fmlookup (revenueStore st) contract"

definition SetRevenue :: "EthLib \<Rightarrow> Revenue \<Rightarrow> 'x RevState \<Rightarrow> 'x RevState" where
  "SetRevenue H revenue st = st\<lparr>revenueStore := fmupd (GetContractAddr H revenue) revenue (revenueStore st)\<rparr>"

definition DeleteRevenue :: "EthLib \<Rightarrow> Revenue \<Rightarrow> 'x RevState \<Rightarrow> 'x RevState" where
  "DeleteRevenue H fee st = st\<lparr>revenueStore := fmdrop (GetContractAddr H fee) (revenueStore st)\<rparr>"

definition SetDeployerMap :: "address \<Rightarrow> address \<Rightarrow> 'x RevState \<Rightarrow> 'x RevState" where
  "SetDeployerMap deployer contract st = st\<lparr>deployerStore := insert (deployer, contract) (deployerStore st)\<rparr>"

definition DeleteDeployerMap :: "address \<Rightarrow> address \<Rightarrow> 'x RevState \<Rightarrow> 'x RevState" where
  "DeleteDeployerMap deployer contract st = st\<lparr>deployerStore := deployerStore st - {(deployer, contract)}\<rparr>"

definition SetWithdrawerMap :: "address \<Rightarrow> address \<Rightarrow> 'x RevState \<Rightarrow> 'x RevState" where
  "SetWithdrawerMap withdrawer contract st = st\<lparr>withdrawerStore := insert (withdrawer, contract) (withdrawerStore st)\<rparr>"

definition DeleteWithdrawerMap :: "address \<Rightarrow> address \<Rightarrow> 'x RevState \<Rightarrow> 'x RevState" where
  "DeleteWithdrawerMap withdrawer contract st = st\<lparr>withdrawerStore := withdrawerStore st - {(withdrawer, contract)}\<rparr>"

definition IsRevenueRegistered :: "'x RevState \<Rightarrow> address \<Rightarrow> bool" where
  "IsRevenueRegistered st contract \<longleftrightarrow> fmlookup (revenueStore st) contract \<noteq> None"

definition IsDeployerMapSet :: "'x RevState \<Rightarrow> address \<Rightarrow> address \<Rightarrow> bool" where
  "IsDeployerMapSet st deployer contract \<longleftrightarrow> (deployer, contract) \<in> deployerStore st"

definition IsWithdrawerMapSet :: "'x RevState \<Rightarrow> address \<Rightarrow> address \<Rightarrow> bool" where
  "IsWithdrawerMapSet st withdrawer contract \<longleftrightarrow> (withdrawer, contract) \<in> withdrawerStore st"

section \<open>Messages\<close>

record MsgRegisterRevenue =
  rrContract :: string
  rrDeployer :: string
  rrWithdrawer :: string
  Nonces :: "u64 list"

record MsgUpdateRevenue =
  urContract :: string
  urDeployer :: string
  urWithdrawer :: string

record MsgCancelRevenue =
  crContract :: string
  crDeployer :: string

definition NewMsgRegisterRevenue ::
    "EthLib \<Rightarrow> Bech32 \<Rightarrow> address \<Rightarrow> address \<Rightarrow> address option \<Rightarrow> u64 list \<Rightarrow> MsgRegisterRevenue" where
  "NewMsgRegisterRevenue H B contract deployer withdrawer nonces =
     \<lparr>rrContract = AddressHex H contract, rrDeployer = AccString B deployer,
      rrWithdrawer = (case withdrawer of None \<Rightarrow> '''' | Some w \<Rightarrow> AccString B w), Nonces = nonces\<rparr>"

definition NewMsgCancelRevenue :: "EthLib \<Rightarrow> Bech32 \<Rightarrow> address \<Rightarrow> address \<Rightarrow> MsgCancelRevenue" where
  "NewMsgCancelRevenue H B contract deployer = \<lparr>crContract = AddressHex H contract, crDeployer = AccString B deployer\<rparr>"

definition NewMsgUpdateRevenue :: "EthLib \<Rightarrow> Bech32 \<Rightarrow> address \<Rightarrow> address \<Rightarrow> address \<Rightarrow> MsgUpdateRevenue" where
  "NewMsgUpdateRevenue H B contract deployer withdraw =
     \<lparr>urContract = AddressHex H contract, urDeployer = AccString B deployer, urWithdrawer = AccString B withdraw\<rparr>"

definition ValidateBasicRegister :: "EthLib \<Rightarrow> Bech32 \<Rightarrow> MsgRegisterRevenue \<Rightarrow> string option" where
  "ValidateBasicRegister H B msg =
     (if badAddress B (rrDeployer msg) then Some ''invalid deployer address''
      else if ValidateNonZeroAddress H (rrContract msg) \<noteq> None then Some ''invalid contract address''
      else if rrWithdrawer msg \<noteq> '''' \<and> badAddress B (rrWithdrawer msg) then Some ''invalid withdraw address''
      else if length (Nonces msg) < 1 then Some ''invalid nonces - empty array''
      else if length (Nonces msg) > 20 then Some ''invalid nonces - array length must be less than 20''
      else None)"

definition ValidateBasicCancel :: "EthLib \<Rightarrow> Bech32 \<Rightarrow> MsgCancelRevenue \<Rightarrow> string option" where
  "ValidateBasicCancel H B msg =
     (if badAddress B (crDeployer msg) then Some ''invalid deployer address''
      else if ValidateNonZeroAddress H (crContract msg) \<noteq> None then Some ''invalid contract address''
      else None)"

definition ValidateBasicUpdate :: "EthLib \<Rightarrow> Bech32 \<Rightarrow> MsgUpdateRevenue \<Rightarrow> string option" where
  "ValidateBasicUpdate H B msg =
     (if badAddress B (urDeployer msg) then Some ''invalid deployer address''
      else if ValidateNonZeroAddress H (urContract msg) \<noteq> None then Some ''invalid contract address''
      else if badAddress B (urWithdrawer msg) then Some ''invalid withdraw address''
      else None)"

definition rv_ValidateBasicParams :: "Bech32 \<Rightarrow> string \<Rightarrow> RevParams \<Rightarrow> string option" where
  "rv_ValidateBasicParams B authority params =
     (if badAddress B authority then Some ''invalid authority address'' else rv_Validate params)"

definition GetSignersRegister :: "Bech32 \<Rightarrow> MsgRegisterRevenue \<Rightarrow> failure + address list" where
  "GetSignersRegister B msg = rbind (MustAccAddressFromBech32 B (rrDeployer msg)) (\<lambda>a. Inr [a])"

definition GetSignersCancel :: "Bech32 \<Rightarrow> MsgCancelRevenue \<Rightarrow> failure + address list" where
  "GetSignersCancel B msg = rbind (MustAccAddressFromBech32 B (crDeployer msg)) (\<lambda>a. Inr [a])"

definition GetSignersUpdate :: "Bech32 \<Rightarrow> MsgUpdateRevenue \<Rightarrow> failure + address list" where
  "GetSignersUpdate B msg = rbind (MustAccAddressFromBech32 B (urDeployer msg)) (\<lambda>a. Inr [a])"

section \<open>The message server\<close>

definition arg_IsContract :: "(bytes \<Rightarrow> hash) \<Rightarrow> AccountArg \<Rightarrow> bool" where
  "arg_IsContract keccak acct \<longleftrightarrow> argCodeHash acct \<noteq> Some (keccak [])"

text \<open>The address derived from the deployer and the nonces, paying gas for each step.\<close>

definition deriveContract ::
    "EthLib \<Rightarrow> ('x \<Rightarrow> u64 \<Rightarrow> panic + 'x) \<Rightarrow> u64 \<Rightarrow> u64 list \<Rightarrow> 'x EvmCtx \<times> address \<Rightarrow> panic + 'x EvmCtx \<times> address" where
  "deriveContract H consumeGas cost =
     foldM (\<lambda>nonce (cx, derivedContract).
       rbind (consumeGas (sdkState cx) cost) (\<lambda>x. Inr (cx\<lparr>sdkState := x\<rparr>, CreateAddress H derivedContract nonce)))"

definition RegisterRevenue ::
    "EthLib \<Rightarrow> Bech32 \<Rightarrow> ('x, 'c) Keepers \<Rightarrow> (bytes \<Rightarrow> hash) \<Rightarrow> ('x \<Rightarrow> u64 \<Rightarrow> panic + 'x) \<Rightarrow> MsgRegisterRevenue \<Rightarrow>
      'x RevState \<Rightarrow> failure + 'x RevState" where
  "RegisterRevenue H B K keccak consumeGas msg st =
     (let params = rv_GetParams st; contract = HexToAddress H (rrContract msg) in
      if \<not> EnableRevenue params then Inl (Err ''revenue module is disabled'')
      else if IsRevenueRegistered st contract then Inl (Err ''contract is already registered'')
      else rbind (MustAccAddressFromBech32 B (rrDeployer msg)) (\<lambda>deployer.
        case ek_GetAccountWithoutBalance K keccak (revEvm st) deployer of
          None \<Rightarrow> Inl (Err ''deployer account not found'')
        | Some deployerAccount \<Rightarrow>
            if arg_IsContract keccak deployerAccount then Inl (Err ''deployer cannot be a contract'')
            else if (case ek_GetAccountWithoutBalance K keccak (revEvm st) contract of
                       None \<Rightarrow> True | Some contractAccount \<Rightarrow> \<not> arg_IsContract keccak contractAccount)
            then Inl (Err ''no contract code found at address'')
            else rbind
                (if rrWithdrawer msg \<noteq> '''' \<and> rrWithdrawer msg \<noteq> rrDeployer msg
                 then rbind (MustAccAddressFromBech32 B (rrWithdrawer msg)) (\<lambda>w. Inr (Some w)) else Inr None)
              (\<lambda>withdrawer.
                rbind (panicking (deriveContract H consumeGas (AddrDerivationCostCreate params) (Nonces msg) (revEvm st, deployer)))
              (\<lambda>(cx, derivedContract).
                let st = st\<lparr>revEvm := cx\<rparr> in
                if contract \<noteq> derivedContract then Inl (Err ''not contract deployer or wrong nonce'')
                else
                  let revenue = NewRevenue H B contract deployer withdrawer;
                      st = SetDeployerMap deployer contract (SetRevenue H revenue st)
                  in Inr (case withdrawer of None \<Rightarrow> st | Some w \<Rightarrow> SetWithdrawerMap w contract st)))))"

definition UpdateRevenue :: "EthLib \<Rightarrow> Bech32 \<Rightarrow> MsgUpdateRevenue \<Rightarrow> 'x RevState \<Rightarrow> failure + 'x RevState" where
  "UpdateRevenue H B msg st =
     (if \<not> EnableRevenue (rv_GetParams st) then Inl (Err ''revenue module is disabled'')
      else
        let contract = HexToAddress H (urContract msg) in
        case GetRevenue st contract of
          None \<Rightarrow> Inl (Err ''contract is not registered'')
        | Some revenue \<Rightarrow>
            if urDeployer msg \<noteq> DeployerAddress revenue then Inl (Err ''is not the contract deployer'')
            else
              let withdrawer = (if urWithdrawer msg = DeployerAddress revenue then '''' else urWithdrawer msg) in
              if withdrawer = WithdrawerAddress revenue then Inl (Err ''revenue with withdraw address'')
              else rbind
                  (if WithdrawerAddress revenue \<noteq> ''''
                   then rbind (MustAccAddressFromBech32 B (WithdrawerAddress revenue)) (\<lambda>w. Inr (DeleteWithdrawerMap w contract st))
                   else Inr st)
                (\<lambda>st. rbind
                  (if withdrawer \<noteq> ''''
                   then rbind (MustAccAddressFromBech32 B withdrawer) (\<lambda>w. Inr (SetWithdrawerMap w contract st))
                   else Inr st)
                (\<lambda>st. Inr (SetRevenue H (revenue\<lparr>WithdrawerAddress := withdrawer\<rparr>) st))))"

definition CancelRevenue :: "EthLib \<Rightarrow> Bech32 \<Rightarrow> MsgCancelRevenue \<Rightarrow> 'x RevState \<Rightarrow> failure + 'x RevState" where
  "CancelRevenue H B msg st =
     (if \<not> EnableRevenue (rv_GetParams st) then Inl (Err ''revenue module is disabled'')
      else
        let contract = HexToAddress H (crContract msg) in
        case GetRevenue st contract of
          None \<Rightarrow> Inl (Err ''contract is not registered'')
        | Some fee \<Rightarrow>
            if crDeployer msg \<noteq> DeployerAddress fee then Inl (Err ''is not the contract deployer'')
            else
              let st = DeleteRevenue H fee st in
              rbind (GetDeployerAddr B fee) (\<lambda>deployer.
                let st = DeleteDeployerMap deployer contract st in
                rbind (GetWithdrawerAddr B fee) (\<lambda>withdrawer.
                  Inr (case withdrawer of None \<Rightarrow> st | Some w \<Rightarrow> DeleteWithdrawerMap w contract st))))"

definition rv_UpdateParams :: "string \<Rightarrow> string \<Rightarrow> RevParams \<Rightarrow> 'x RevState \<Rightarrow> failure + 'x RevState" where
  "rv_UpdateParams authority reqAuthority params st =
     (if authority \<noteq> reqAuthority then Inl (Err ''invalid authority'') else Inr (rv_SetParams params st))"

section \<open>The hook after a transaction\<close>

record EthMsg =
  msgSender :: address
  msgRecipient :: "address option"
  msgGasPrice :: int

definition rv_PostTxProcessing ::
    "'c Coins \<Rightarrow> ('x, 'c) Keepers \<Rightarrow> Decs \<Rightarrow> Bech32 \<Rightarrow> string \<Rightarrow> EthMsg \<Rightarrow> u64 \<Rightarrow> 'x RevState \<Rightarrow> failure + 'x RevState" where
  "rv_PostTxProcessing C K D B feeCollector msg gasUsed st =
     (let params = rv_GetParams st in
      if \<not> EnableRevenue params then Inr st
      else case msgRecipient msg of
        None \<Rightarrow> Inr st
      | Some contract \<Rightarrow>
          (case GetRevenue st contract of
             None \<Rightarrow> Inr st
           | Some revenue \<Rightarrow>
               rbind (GetWithdrawerAddr B revenue) (\<lambda>w.
               rbind (case w of None \<Rightarrow> GetDeployerAddr B revenue | Some w \<Rightarrow> Inr w) (\<lambda>withdrawer.
               rbind (panicking (NewIntFromBigInt D (msgGasPrice msg))) (\<lambda>gasPrice.
               rbind (panicking (IMul D (uint gasUsed) gasPrice)) (\<lambda>txFee.
               rbind (case DeveloperShares params of
                        None \<Rightarrow> Inl (Panicked NilDereference) | Some shares \<Rightarrow> panicking (DMulInt D shares txFee)) (\<lambda>share.
                 let fees = RawCoins C [(EvmDenom (revEvm st), DTruncateInt D share)] in
                 rbind (failing (SendCoinsFromModuleToAccount K (sdkState (revEvm st)) feeCollector withdrawer fees)) (\<lambda>x.
                   Inr (st\<lparr>revEvm := (revEvm st)\<lparr>sdkState := x\<rparr>\<rparr>)))))))))"

section \<open>Genesis\<close>

record RevGenesis =
  rvgParams :: RevParams
  rvgRevenues :: "Revenue list"

definition rv_NewGenesisState :: "RevParams \<Rightarrow> Revenue list \<Rightarrow> RevGenesis" where
  "rv_NewGenesisState params revenues = \<lparr>rvgParams = params, rvgRevenues = revenues\<rparr>"

definition rv_DefaultGenesisState :: RevGenesis where
  "rv_DefaultGenesisState = \<lparr>rvgParams = rv_DefaultParams, rvgRevenues = []\<rparr>"

fun revenueErrors :: "EthLib \<Rightarrow> Bech32 \<Rightarrow> string set \<Rightarrow> Revenue list \<Rightarrow> string option" where
  "revenueErrors H B seenContract [] = None"
| "revenueErrors H B seenContract (fs # rest) =
     (if ContractAddress fs \<in> seenContract then Some ''contract duplicated on genesis''
      else case rev_Validate H B fs of
        Some e \<Rightarrow> Some e
      | None \<Rightarrow> revenueErrors H B (insert (ContractAddress fs) seenContract) rest)"

definition rv_GenesisValidate :: "EthLib \<Rightarrow> Bech32 \<Rightarrow> RevGenesis \<Rightarrow> string option" where
  "rv_GenesisValidate H B gs =
     (case revenueErrors H B {} (rvgRevenues gs) of Some e \<Rightarrow> Some e | None \<Rightarrow> rv_Validate (rvgParams gs))"

definition importRevenue :: "EthLib \<Rightarrow> Bech32 \<Rightarrow> Revenue \<Rightarrow> 'x RevState \<Rightarrow> failure + 'x RevState" where
  "importRevenue H B revenue st =
     (let contract = GetContractAddr H revenue in
      rbind (GetDeployerAddr B revenue) (\<lambda>deployer.
      rbind (GetWithdrawerAddr B revenue) (\<lambda>withdrawer.
        let st = SetDeployerMap deployer contract (SetRevenue H revenue st) in
        Inr (case withdrawer of None \<Rightarrow> st | Some w \<Rightarrow> SetWithdrawerMap w contract st))))"

definition rv_InitGenesis :: "EthLib \<Rightarrow> Bech32 \<Rightarrow> RevGenesis \<Rightarrow> 'x RevState \<Rightarrow> failure + 'x RevState" where
  "rv_InitGenesis H B data st = foldM (importRevenue H B) (rvgRevenues data) (rv_SetParams (rvgParams data) st)"

definition rv_ExportGenesis :: "'x RevState \<Rightarrow> RevGenesis" where
  "rv_ExportGenesis st = \<lparr>rvgParams = rv_GetParams st, rvgRevenues = GetRevenues st\<rparr>"

section \<open>Queries\<close>

text \<open>The pagination of the SDK picks the entries the callback sees.\<close>

definition rv_QueryRevenues ::
    "(Revenue list \<Rightarrow> 'p \<Rightarrow> string + Revenue list \<times> 'q) \<Rightarrow> 'p option \<Rightarrow> 'x RevState \<Rightarrow> string + Revenue list \<times> 'q" where
  "rv_QueryRevenues Paginate req st =
     (case req of None \<Rightarrow> Inl ''empty request'' | Some pagination \<Rightarrow> Paginate (revenueEntries st) pagination)"

definition rv_QueryRevenue :: "EthLib \<Rightarrow> string option \<Rightarrow> 'x RevState \<Rightarrow> string + Revenue" where
  "rv_QueryRevenue H req st =
     (case req of
        None \<Rightarrow> Inl ''empty request''
      | Some contract \<Rightarrow>
          if TrimSpace contract = '''' then Inl ''contract address is empty''
          else if ValidateNonZeroAddress H contract \<noteq> None then Inl ''invalid format for contract''
          else case GetRevenue st (HexToAddress H contract) of
            None \<Rightarrow> Inl ''fees registered contract'' | Some revenue \<Rightarrow> Inr revenue)"

definition rv_QueryParams :: "'x RevState \<Rightarrow> RevParams" where
  "rv_QueryParams st = rv_GetParams st"

text \<open>The contracts under a key prefix, in the order of the store.\<close>

definition contractsOf :: "address \<Rightarrow> (address \<times> address) set \<Rightarrow> address list" where
  "contractsOf a index = sorted_list_of_set (snd ` Set.filter (\<lambda>e. fst e = a) index)"

definition DeployerRevenues ::
    "EthLib \<Rightarrow> Bech32 \<Rightarrow> (address list \<Rightarrow> 'p \<Rightarrow> string + address list \<times> 'q) \<Rightarrow> (string \<times> 'p) option \<Rightarrow> 'x RevState \<Rightarrow>
      string + string list \<times> 'q" where
  "DeployerRevenues H B Paginate req st =
     (case req of
        None \<Rightarrow> Inl ''empty request''
      | Some (deployer, pagination) \<Rightarrow>
          if TrimSpace deployer = '''' then Inl ''deployer address is empty''
          else case AccAddressFromBech32 B deployer of
            Inl _ \<Rightarrow> Inl ''invalid format for deployer''
          | Inr d \<Rightarrow> rbind (Paginate (contractsOf d (deployerStore st)) pagination) (\<lambda>(cs, pageRes). Inr (map (AddressHex H) cs, pageRes)))"

definition WithdrawerRevenues ::
    "EthLib \<Rightarrow> Bech32 \<Rightarrow> (address list \<Rightarrow> 'p \<Rightarrow> string + address list \<times> 'q) \<Rightarrow> (string \<times> 'p) option \<Rightarrow> 'x RevState \<Rightarrow>
      string + string list \<times> 'q" where
  "WithdrawerRevenues H B Paginate req st =
     (case req of
        None \<Rightarrow> Inl ''empty request''
      | Some (withdrawer, pagination) \<Rightarrow>
          if TrimSpace withdrawer = '''' then Inl ''withdraw address is empty''
          else case AccAddressFromBech32 B withdrawer of
            Inl _ \<Rightarrow> Inl ''invalid format for withdraw addr''
          | Inr w \<Rightarrow> rbind (Paginate (contractsOf w (withdrawerStore st)) pagination) (\<lambda>(cs, pageRes). Inr (map (AddressHex H) cs, pageRes)))"

section \<open>The indexes agree with the revenues\<close>

text \<open>The entries an index must have for a map of revenues, \<open>field\<close> being the indexed address.\<close>

definition indexed :: "Bech32 \<Rightarrow> (Revenue \<Rightarrow> string) \<Rightarrow> (address, Revenue) fmap \<Rightarrow> (address \<times> address) set" where
  "indexed B field m = {(a, c). \<exists>r. fmlookup m c = Some r \<and> AccAddressFromBech32 B (field r) = Inr a}"

definition revenue_ok :: "EthLib \<Rightarrow> Bech32 \<Rightarrow> address \<Rightarrow> Revenue \<Rightarrow> bool" where
  "revenue_ok H B c r \<longleftrightarrow> GetContractAddr H r = c \<and> \<not> badAddress B (DeployerAddress r) \<and>
     (WithdrawerAddress r = '''' \<or> \<not> badAddress B (WithdrawerAddress r))"

definition rev_ok :: "EthLib \<Rightarrow> Bech32 \<Rightarrow> 'x RevState \<Rightarrow> bool" where
  "rev_ok H B st \<longleftrightarrow>
     (\<forall>c r. fmlookup (revenueStore st) c = Some r \<longrightarrow> revenue_ok H B c r) \<and>
     deployerStore st = indexed B DeployerAddress (revenueStore st) \<and>
     withdrawerStore st = indexed B WithdrawerAddress (revenueStore st)"

lemma badAddress_Inr: "\<not> badAddress B s \<longleftrightarrow> (\<exists>a. AccAddressFromBech32 B s = Inr a)"
  by (simp add: badAddress_def split: sum.splits)

lemma indexed_upd:
  "indexed B field (fmupd c r m) =
    {(a, c'). c' \<noteq> c \<and> (a, c') \<in> indexed B field m} \<union> {(a, c') . c' = c \<and> AccAddressFromBech32 B (field r) = Inr a}"
  by (auto simp: indexed_def)

lemma indexed_drop: "indexed B field (fmdrop c m) = {(a, c'). c' \<noteq> c \<and> (a, c') \<in> indexed B field m}"
  by (auto simp: indexed_def split: if_splits)

lemma indexed_fresh: "fmlookup m c = None \<Longrightarrow> (a, c) \<notin> indexed B field m"
  by (simp add: indexed_def)

lemma indexed_at: "fmlookup m c = Some r \<Longrightarrow> (a, c) \<in> indexed B field m \<longleftrightarrow> AccAddressFromBech32 B (field r) = Inr a"
  by (simp add: indexed_def)

lemmas rev_store_defs = SetRevenue_def DeleteRevenue_def SetDeployerMap_def DeleteDeployerMap_def
  SetWithdrawerMap_def DeleteWithdrawerMap_def

lemma rev_ok_evm [simp]: "rev_ok H B (st\<lparr>revEvm := cx\<rparr>) \<longleftrightarrow> rev_ok H B st"
  "rev_ok H B (rv_SetParams p st) \<longleftrightarrow> rev_ok H B st"
  by (simp_all add: rev_ok_def rv_SetParams_def)

lemma rev_ok_revenue: "rev_ok H B st \<Longrightarrow> GetRevenue st c = Some r \<Longrightarrow> revenue_ok H B c r"
  by (simp add: rev_ok_def GetRevenue_def)

text \<open>Storing a revenue with its index entries, after the old index entries of the contract are gone.\<close>

definition put_revenue :: "EthLib \<Rightarrow> Revenue \<Rightarrow> address \<Rightarrow> address option \<Rightarrow> 'x RevState \<Rightarrow> 'x RevState" where
  "put_revenue H r d w st =
     (let c = GetContractAddr H r; st = SetDeployerMap d c (SetRevenue H r st)
      in case w of None \<Rightarrow> st | Some w \<Rightarrow> SetWithdrawerMap w c st)"

context bech32
begin

lemma withdrawer_cases:
  assumes "revenue_ok H B c r"
  obtains (none) "WithdrawerAddress r = ''''" "GetWithdrawerAddr B r = Inr None"
      "\<And>a. AccAddressFromBech32 B (WithdrawerAddress r) \<noteq> Inr a"
    | (some) w where "WithdrawerAddress r \<noteq> ''''" "AccAddressFromBech32 B (WithdrawerAddress r) = Inr w" "GetWithdrawerAddr B r = Inr (Some w)"
proof (cases "WithdrawerAddress r = ''''")
  case True
  then show ?thesis using none Bech_empty by (auto simp: GetWithdrawerAddr_def)
next
  case False
  then obtain w where w: "AccAddressFromBech32 B (WithdrawerAddress r) = Inr w"
    using assms by (auto simp: revenue_ok_def badAddress_Inr)
  then have "MustAccAddressFromBech32 B (WithdrawerAddress r) = Inr w" by simp
  then show ?thesis using some [OF False w] False by (simp add: GetWithdrawerAddr_def)
qed

lemma put_revenue_ok:
  assumes "rev_ok H B st" and "revenue_ok H B c r" and "GetRevenue st c = None"
    and "AccAddressFromBech32 B (DeployerAddress r) = Inr d" and "GetWithdrawerAddr B r = Inr w"
  shows "rev_ok H B (put_revenue H r d w st)"
proof -
  have c: "GetContractAddr H r = c" using assms(2) by (simp add: revenue_ok_def)
  have fresh: "(a, c) \<notin> indexed B f (revenueStore st)" for a f
    by (rule indexed_fresh) (use assms(3) in \<open>simp add: GetRevenue_def\<close>)
  show ?thesis
    using assms(2)
  proof (cases rule: withdrawer_cases)
    case none
    then show ?thesis
      using assms c fresh by (auto simp: rev_ok_def put_revenue_def rev_store_defs indexed_upd split: if_splits)
  next
    case (some w')
    then show ?thesis
      using assms c fresh by (auto simp: rev_ok_def put_revenue_def rev_store_defs indexed_upd split: if_splits)
  qed
qed

end
lemma deriveContract_snd:
  "deriveContract H G cost nonces (cx, a) = Inr (cx', a') \<Longrightarrow> a' = fold (\<lambda>n a. CreateAddress H a n) nonces a"
proof (induction nonces arbitrary: cx a)
  case (Cons n ns)
  then obtain x where "deriveContract H G cost ns (cx\<lparr>sdkState := x\<rparr>, CreateAddress H a n) = Inr (cx', a')"
    by (auto simp: deriveContract_def)
  then show ?case using Cons.IH by simp
qed (simp add: deriveContract_def)

text \<open>The withdrawer a registration stores.\<close>

definition chosen_withdrawer :: "Bech32 \<Rightarrow> MsgRegisterRevenue \<Rightarrow> failure + address option" where
  "chosen_withdrawer B msg =
     (if rrWithdrawer msg \<noteq> '''' \<and> rrWithdrawer msg \<noteq> rrDeployer msg
      then rbind (MustAccAddressFromBech32 B (rrWithdrawer msg)) (\<lambda>w. Inr (Some w)) else Inr None)"

lemma Register_Inr:
  assumes "RegisterRevenue H B K keccak G msg st = Inr st'" and "contract = HexToAddress H (rrContract msg)"
  obtains d w cx da ca where "EnableRevenue (rv_GetParams st)" "GetRevenue st contract = None"
    "AccAddressFromBech32 B (rrDeployer msg) = Inr d" "chosen_withdrawer B msg = Inr w"
    "ek_GetAccountWithoutBalance K keccak (revEvm st) d = Some da" "\<not> arg_IsContract keccak da"
    "ek_GetAccountWithoutBalance K keccak (revEvm st) contract = Some ca" "arg_IsContract keccak ca"
    "deriveContract H G (AddrDerivationCostCreate (rv_GetParams st)) (Nonces msg) (revEvm st, d) = Inr (cx, contract)"
    "st' = (let st = SetDeployerMap d contract (SetRevenue H (NewRevenue H B contract d w) (st\<lparr>revEvm := cx\<rparr>))
            in case w of None \<Rightarrow> st | Some w \<Rightarrow> SetWithdrawerMap w contract st)"
proof -
  note run = assms(1) [unfolded RegisterRevenue_def Let_def chosen_withdrawer_def [symmetric], folded assms(2)]
  from run have en: "EnableRevenue (rv_GetParams st)" "GetRevenue st contract = None"
    by (auto simp: IsRevenueRegistered_def GetRevenue_def split: if_splits)
  with run obtain d da where d: "AccAddressFromBech32 B (rrDeployer msg) = Inr d"
    "ek_GetAccountWithoutBalance K keccak (revEvm st) d = Some da" "\<not> arg_IsContract keccak da"
    by (auto split: if_splits option.splits)
  then have must: "MustAccAddressFromBech32 B (rrDeployer msg) = Inr d" by simp
  from run en d must obtain ca where ca: "ek_GetAccountWithoutBalance K keccak (revEvm st) contract = Some ca" "arg_IsContract keccak ca"
    by (cases "ek_GetAccountWithoutBalance K keccak (revEvm st) contract") (auto split: if_splits)
  from run en d must ca obtain w cx where "chosen_withdrawer B msg = Inr w"
    "deriveContract H G (AddrDerivationCostCreate (rv_GetParams st)) (Nonces msg) (revEvm st, d) = Inr (cx, contract)"
    "st' = (let st = SetDeployerMap d contract (SetRevenue H (NewRevenue H B contract d w) (st\<lparr>revEvm := cx\<rparr>))
            in case w of None \<Rightarrow> st | Some w \<Rightarrow> SetWithdrawerMap w contract st)"
    by (auto simp: IsRevenueRegistered_def GetRevenue_def Let_def split: if_splits)
  then show ?thesis using that en d ca by blast
qed
locale rev_codecs = bech32 B + eth_lib H for B :: Bech32 and H :: EthLib
begin

lemma NewRevenue_ok:
  "revenue_ok H B c (NewRevenue H B c d w)" "GetContractAddr H (NewRevenue H B c d w) = c"
  "AccAddressFromBech32 B (DeployerAddress (NewRevenue H B c d w)) = Inr d"
  "GetWithdrawerAddr B (NewRevenue H B c d w) = Inr w"
  using AccString_nonempty
  by (auto simp: revenue_ok_def NewRevenue_def GetContractAddr_def GetWithdrawerAddr_def badAddress_def
      Bech_String Hex_String MustAccAddressFromBech32_def split: option.splits)

lemma Register_put:
  assumes "RegisterRevenue H B K keccak G msg st = Inr st'"
  obtains d w cx where "GetRevenue st (HexToAddress H (rrContract msg)) = None"
    "AccAddressFromBech32 B (rrDeployer msg) = Inr d"
    "st' = put_revenue H (NewRevenue H B (HexToAddress H (rrContract msg)) d w) d w (st\<lparr>revEvm := cx\<rparr>)"
proof (rule Register_Inr [OF assms refl])
  fix d w cx
  let ?c = "HexToAddress H (rrContract msg)"
  assume "GetRevenue st ?c = None" "AccAddressFromBech32 B (rrDeployer msg) = Inr d"
    "st' = (let st = SetDeployerMap d ?c (SetRevenue H (NewRevenue H B ?c d w) (st\<lparr>revEvm := cx\<rparr>))
            in case w of None \<Rightarrow> st | Some w \<Rightarrow> SetWithdrawerMap w ?c st)"
  then show ?thesis by (intro that [of d w cx]) (simp_all add: put_revenue_def NewRevenue_ok Let_def)
qed

lemma Register_ok:
  assumes "RegisterRevenue H B K keccak G msg st = Inr st'" and "rev_ok H B st"
  shows "rev_ok H B st'"
  using assms(1)
proof (cases rule: Register_put)
  case (1 d w cx)
  have "rev_ok H B (put_revenue H (NewRevenue H B (HexToAddress H (rrContract msg)) d w) d w (st\<lparr>revEvm := cx\<rparr>))"
    by (rule put_revenue_ok [OF _ NewRevenue_ok(1) _ NewRevenue_ok(3,4)]) (use assms(2) 1(1) in \<open>simp_all add: GetRevenue_def\<close>)
  then show ?thesis using 1(3) by simp
qed

lemma Update_ok:
  assumes "UpdateRevenue H B msg st = Inr st'" and "rev_ok H B st"
  shows "rev_ok H B st'"
proof -
  let ?c = "HexToAddress H (urContract msg)"
  obtain r where r: "GetRevenue st ?c = Some r" "urDeployer msg = DeployerAddress r"
    using assms(1) by (auto simp: UpdateRevenue_def Let_def split: if_splits option.splits)
  define w where "w = (if urWithdrawer msg = DeployerAddress r then '''' else urWithdrawer msg)"
  have ok: "revenue_ok H B ?c r" by (rule rev_ok_revenue [OF assms(2) r(1)])
  have w: "w = '''' \<or> \<not> badAddress B w" and st': "revenueStore st' = fmupd ?c (r\<lparr>WithdrawerAddress := w\<rparr>) (revenueStore st)"
    "deployerStore st' = deployerStore st"
    "withdrawerStore st' = {(a, c'). c' \<noteq> ?c \<and> (a, c') \<in> withdrawerStore st} \<union> {(a, c'). c' = ?c \<and> AccAddressFromBech32 B w = Inr a}"
    using assms r ok Bech_empty
    by (auto simp: UpdateRevenue_def Let_def w_def [symmetric] badAddress_def rev_store_defs GetContractAddr_def revenue_ok_def
        rev_ok_def indexed_at GetRevenue_def split: if_splits)
  show ?thesis
    using assms(2) w ok r(1) unfolding rev_ok_def st'
    by (auto simp: indexed_upd revenue_ok_def GetContractAddr_def indexed_at GetRevenue_def split: if_splits)
qed

lemma Cancel_ok:
  assumes "CancelRevenue H B msg st = Inr st'" and "rev_ok H B st"
  shows "rev_ok H B st'"
proof -
  let ?c = "HexToAddress H (crContract msg)"
  obtain r where r: "GetRevenue st ?c = Some r"
    using assms(1) by (auto simp: CancelRevenue_def Let_def split: if_splits option.splits)
  have ok: "revenue_ok H B ?c r" by (rule rev_ok_revenue [OF assms(2) r(1)])
  then obtain d where d: "AccAddressFromBech32 B (DeployerAddress r) = Inr d" by (auto simp: revenue_ok_def badAddress_Inr)
  have c: "GetContractAddr H r = ?c" using ok by (simp add: revenue_ok_def)
  show ?thesis
    using ok
  proof (cases rule: withdrawer_cases)
    case none
    then show ?thesis using assms r c d
      by (auto simp: CancelRevenue_def Let_def rev_ok_def rev_store_defs indexed_drop indexed_at GetRevenue_def GetDeployerAddr_def split: if_splits)
  next
    case (some w)
    then show ?thesis using assms r c d
      by (auto simp: CancelRevenue_def Let_def rev_ok_def rev_store_defs indexed_drop indexed_at GetRevenue_def GetDeployerAddr_def split: if_splits)
  qed
qed

end
section \<open>Sequences of messages and transactions\<close>

text \<open>What happens to the module between blocks: its messages, its hook, and changes of the state below it.\<close>

inductive rev_chain ::
    "EthLib \<Rightarrow> Bech32 \<Rightarrow> 'c Coins \<Rightarrow> ('x, 'c) Keepers \<Rightarrow> Decs \<Rightarrow> (bytes \<Rightarrow> hash) \<Rightarrow> ('x \<Rightarrow> u64 \<Rightarrow> panic + 'x) \<Rightarrow>
      'x RevState \<Rightarrow> 'x RevState \<Rightarrow> bool" for H B C K D keccak G where
  start: "rev_chain H B C K D keccak G st st"
| register: "rev_chain H B C K D keccak G st st1 \<Longrightarrow> RegisterRevenue H B K keccak G m st1 = Inr st2 \<Longrightarrow> rev_chain H B C K D keccak G st st2"
| update: "rev_chain H B C K D keccak G st st1 \<Longrightarrow> UpdateRevenue H B u st1 = Inr st2 \<Longrightarrow> rev_chain H B C K D keccak G st st2"
| cancel: "rev_chain H B C K D keccak G st st1 \<Longrightarrow> CancelRevenue H B c st1 = Inr st2 \<Longrightarrow> rev_chain H B C K D keccak G st st2"
| params: "rev_chain H B C K D keccak G st st1 \<Longrightarrow> rv_UpdateParams a r p st1 = Inr st2 \<Longrightarrow> rev_chain H B C K D keccak G st st2"
| tx: "rev_chain H B C K D keccak G st st1 \<Longrightarrow> rv_PostTxProcessing C K D B fc em g st1 = Inr st2 \<Longrightarrow> rev_chain H B C K D keccak G st st2"
| other: "rev_chain H B C K D keccak G st st1 \<Longrightarrow> rev_chain H B C K D keccak G st (st1\<lparr>revEvm := cx\<rparr>)"

lemma PostTx_store:
  fixes st :: "'a RevState"
  assumes "rv_PostTxProcessing C K D B fc em g st = Inr st'"
  shows "\<exists>cx. st' = st\<lparr>revEvm := cx\<rparr>"
proof -
  have "\<exists>cx. s = s\<lparr>revEvm := cx\<rparr>" for s :: "'a RevState" by (rule exI [of _ "revEvm s"]) simp
  then show ?thesis
    using assms by (auto simp: rv_PostTxProcessing_def Let_def split: if_splits option.splits)
qed

context rev_codecs
begin

lemma chain_ok: "rev_chain H B C K D keccak G st st' \<Longrightarrow> rev_ok H B st \<Longrightarrow> rev_ok H B st'"
proof (induction rule: rev_chain.induct)
  case (params st st1 a r p st2)
  then show ?case by (auto simp: rv_UpdateParams_def split: if_splits)
next
  case (tx st st1 fc em g st2)
  then show ?case using PostTx_store [OF tx.hyps(2)] by auto
qed (simp_all add: Register_ok Update_ok Cancel_ok)

text \<open>Importing revenues under new keys.\<close>

lemma import_put:
  assumes "revenue_ok H B c r"
  obtains d w where "importRevenue H B r st = Inr (put_revenue H r d w st)" "AccAddressFromBech32 B (DeployerAddress r) = Inr d"
    "GetWithdrawerAddr B r = Inr w"
proof -
  obtain d where d: "AccAddressFromBech32 B (DeployerAddress r) = Inr d"
    using assms by (auto simp: revenue_ok_def badAddress_Inr)
  obtain w where w: "GetWithdrawerAddr B r = Inr w" using assms by (cases rule: withdrawer_cases) auto
  from d have "MustAccAddressFromBech32 B (DeployerAddress r) = Inr d" by simp
  then have "importRevenue H B r st = Inr (put_revenue H r d w st)"
    using w by (simp add: importRevenue_def put_revenue_def GetDeployerAddr_def Let_def)
  then show ?thesis using that d w by blast
qed

lemma put_revenue_store:
  "revenueStore (put_revenue H r d w st) = fmupd (GetContractAddr H r) r (revenueStore st)"
  "revParams (put_revenue H r d w st) = revParams st"
  by (simp_all add: put_revenue_def rev_store_defs Let_def split: option.splits)

lemma import_all:
  assumes "\<And>c. c \<in> set cs \<Longrightarrow> revenue_ok H B c (f c)" and "distinct cs" and "rev_ok H B st"
    and "\<And>c. c \<in> set cs \<Longrightarrow> GetRevenue st c = None"
  shows "\<exists>st'. foldM (importRevenue H B) (map f cs) st = Inr st' \<and> rev_ok H B st' \<and> revParams st' = revParams st \<and>
    (\<forall>c. GetRevenue st' c = (if c \<in> set cs then Some (f c) else GetRevenue st c))"
  using assms
proof (induction cs arbitrary: st)
  case (Cons c cs)
  have ok: "revenue_ok H B c (f c)" using Cons.prems(1) by simp
  obtain d w where put: "importRevenue H B (f c) st = Inr (put_revenue H (f c) d w st)"
    "AccAddressFromBech32 B (DeployerAddress (f c)) = Inr d" "GetWithdrawerAddr B (f c) = Inr w"
    using import_put [OF ok] by metis
  have c: "GetContractAddr H (f c) = c" using ok by (simp add: revenue_ok_def)
  let ?st = "put_revenue H (f c) d w st"
  have look: "GetRevenue ?st a = (if a = c then Some (f c) else GetRevenue st a)" for a
    by (simp add: GetRevenue_def put_revenue_store c)
  have "rev_ok H B ?st" using put_revenue_ok [OF Cons.prems(3) ok _ put(2,3)] Cons.prems(4) by simp
  moreover have "GetRevenue ?st a = None" if "a \<in> set cs" for a
    using that Cons.prems(2,4) by (auto simp: look)
  ultimately obtain st' where "foldM (importRevenue H B) (map f cs) ?st = Inr st'" "rev_ok H B st'"
    "revParams st' = revParams ?st" "\<forall>a. GetRevenue st' a = (if a \<in> set cs then Some (f a) else GetRevenue ?st a)"
    using Cons.IH [of ?st] Cons.prems(1,2) by auto
  then show ?case using put(1) Cons.prems(2) by (auto simp: look put_revenue_store)
qed simp

end

lemma rev_ok_determined:
  assumes "rev_ok H B st" and "rev_ok H B st'" and "\<forall>c. GetRevenue st' c = GetRevenue st c"
  shows "revenueStore st' = revenueStore st \<and> deployerStore st' = deployerStore st \<and> withdrawerStore st' = withdrawerStore st"
proof -
  have "revenueStore st' = revenueStore st" by (rule fmap_ext) (use assms(3) in \<open>simp add: GetRevenue_def\<close>)
  then show ?thesis using assms(1,2) by (simp add: rev_ok_def)
qed

text \<open>The payment a transaction to a registered contract makes.\<close>

lemma PostTx_pays:
  assumes "rv_PostTxProcessing C K D B feeCollector msg gasUsed st = Inr st'"
    and "EnableRevenue (rv_GetParams st)" and "DeveloperShares (rv_GetParams st) = Some shares"
    and "msgRecipient msg = Some c" and "GetRevenue st c = Some r"
    and "AccAddressFromBech32 B (if WithdrawerAddress r = '''' then DeployerAddress r else WithdrawerAddress r) = Inr a"
  obtains gp fee share x' where "NewIntFromBigInt D (msgGasPrice msg) = Inr gp" "IMul D (uint gasUsed) gp = Inr fee"
    "DMulInt D shares fee = Inr share"
    "SendCoinsFromModuleToAccount K (sdkState (revEvm st)) feeCollector a (RawCoins C [(EvmDenom (revEvm st), DTruncateInt D share)]) = Inr x'"
    "st' = st\<lparr>revEvm := (revEvm st)\<lparr>sdkState := x'\<rparr>\<rparr>"
  using assms
  by (auto simp: rv_PostTxProcessing_def Let_def GetWithdrawerAddr_def GetDeployerAddr_def split: if_splits)

section \<open>Who may change a revenue\<close>

definition changes_only :: "'x RevState \<Rightarrow> address \<Rightarrow> Revenue option \<Rightarrow> 'x RevState \<Rightarrow> bool" where
  "changes_only st c v st' \<longleftrightarrow> (\<forall>c'. GetRevenue st' c' = (if c' = c then v else GetRevenue st c'))"

context rev_codecs
begin

lemma Register_effect:
  assumes "RegisterRevenue H B K keccak G m st = Inr st'" and "c = HexToAddress H (rrContract m)"
  shows "\<exists>d w da ca. GetSignersRegister B m = Inr [d] \<and> c = fold (\<lambda>n a. CreateAddress H a n) (Nonces m) d \<and>
    ek_GetAccountWithoutBalance K keccak (revEvm st) d = Some da \<and> \<not> arg_IsContract keccak da \<and>
    ek_GetAccountWithoutBalance K keccak (revEvm st) c = Some ca \<and> arg_IsContract keccak ca \<and>
    GetRevenue st c = None \<and> changes_only st c (Some (NewRevenue H B c d w)) st'"
proof (rule Register_Inr [OF assms])
  fix d w cx da ca
  assume a: "GetRevenue st c = None" "AccAddressFromBech32 B (rrDeployer m) = Inr d"
    "ek_GetAccountWithoutBalance K keccak (revEvm st) d = Some da" "\<not> arg_IsContract keccak da"
    "ek_GetAccountWithoutBalance K keccak (revEvm st) c = Some ca" "arg_IsContract keccak ca"
    "deriveContract H G (AddrDerivationCostCreate (rv_GetParams st)) (Nonces m) (revEvm st, d) = Inr (cx, c)"
    "st' = (let st = SetDeployerMap d c (SetRevenue H (NewRevenue H B c d w) (st\<lparr>revEvm := cx\<rparr>))
            in case w of None \<Rightarrow> st | Some w \<Rightarrow> SetWithdrawerMap w c st)"
  have "changes_only st c (Some (NewRevenue H B c d w)) st'"
    unfolding a(8) by (auto simp: changes_only_def GetRevenue_def rev_store_defs NewRevenue_ok Let_def split: option.splits)
  moreover have "MustAccAddressFromBech32 B (rrDeployer m) = Inr d" using a(2) by simp
  ultimately show ?thesis using a deriveContract_snd [OF a(7)] unfolding GetSignersRegister_def by auto
qed

lemma Update_effect:
  assumes "UpdateRevenue H B u st = Inr st'" and "rev_ok H B st" and "c = HexToAddress H (urContract u)"
  shows "\<exists>d r w. GetSignersUpdate B u = Inr [d] \<and> GetRevenue st c = Some r \<and>
    AccAddressFromBech32 B (DeployerAddress r) = Inr d \<and> changes_only st c (Some (r\<lparr>WithdrawerAddress := w\<rparr>)) st'"
proof -
  obtain r where r: "GetRevenue st c = Some r" "urDeployer u = DeployerAddress r"
    using assms(1,3) by (auto simp: UpdateRevenue_def Let_def split: if_splits option.splits)
  have ok: "revenue_ok H B c r" by (rule rev_ok_revenue [OF assms(2) r(1)])
  then obtain d where d: "AccAddressFromBech32 B (DeployerAddress r) = Inr d" by (auto simp: revenue_ok_def badAddress_Inr)
  define w where "w = (if urWithdrawer u = DeployerAddress r then '''' else urWithdrawer u)"
  have "changes_only st c (Some (r\<lparr>WithdrawerAddress := w\<rparr>)) st'"
    using assms(1,3) r ok
    by (auto simp: UpdateRevenue_def Let_def w_def [symmetric] changes_only_def rev_store_defs GetRevenue_def revenue_ok_def
        GetContractAddr_def split: if_splits)
  then show ?thesis using r d by (auto simp: GetSignersUpdate_def)
qed

lemma Cancel_effect:
  assumes "CancelRevenue H B cm st = Inr st'" and "rev_ok H B st" and "c = HexToAddress H (crContract cm)"
  shows "\<exists>d r. GetSignersCancel B cm = Inr [d] \<and> GetRevenue st c = Some r \<and>
    AccAddressFromBech32 B (DeployerAddress r) = Inr d \<and> changes_only st c None st'"
proof -
  obtain r where r: "GetRevenue st c = Some r" "crDeployer cm = DeployerAddress r"
    using assms(1,3) by (auto simp: CancelRevenue_def Let_def split: if_splits option.splits)
  have ok: "revenue_ok H B c r" by (rule rev_ok_revenue [OF assms(2) r(1)])
  then obtain d where d: "AccAddressFromBech32 B (DeployerAddress r) = Inr d" by (auto simp: revenue_ok_def badAddress_Inr)
  have "changes_only st c None st'"
    using assms(1,3) r ok
    by (auto simp: CancelRevenue_def Let_def changes_only_def rev_store_defs GetRevenue_def revenue_ok_def split: if_splits option.splits)
  then show ?thesis using r d by (auto simp: GetSignersCancel_def)
qed

text \<open>The handlers panic only when the gas meter does.\<close>

lemma deriveContract_total: "(\<And>x n. \<exists>y. G x n = Inr y) \<Longrightarrow> \<exists>r. deriveContract H G cost ns s = Inr r"
proof (induction ns arbitrary: s)
  case (Cons n ns)
  obtain cx a where s: "s = (cx, a)" by fastforce
  obtain y where "G (sdkState cx) cost = Inr y" using Cons.prems by blast
  then show ?case using Cons.IH [OF Cons.prems] by (simp add: deriveContract_def s)
qed (simp add: deriveContract_def)

lemma no_panic:
  assumes "rev_ok H B st"
  shows "(\<And>x n. \<exists>y. G x n = Inr y) \<Longrightarrow> ValidateBasicRegister H B m = None \<Longrightarrow> RegisterRevenue H B K keccak G m st \<noteq> Inl (Panicked p)"
    and "ValidateBasicUpdate H B u = None \<Longrightarrow> UpdateRevenue H B u st \<noteq> Inl (Panicked p)"
    and "ValidateBasicCancel H B cm = None \<Longrightarrow> CancelRevenue H B cm st \<noteq> Inl (Panicked p)"
proof -
  assume G: "\<And>x n. \<exists>y. G x n = Inr y" and v: "ValidateBasicRegister H B m = None"
  from v have "\<not> badAddress B (rrDeployer m)" "rrWithdrawer m = '''' \<or> \<not> badAddress B (rrWithdrawer m)"
    by (auto simp: ValidateBasicRegister_def split: if_splits)
  moreover have "deriveContract H G cost ns s \<noteq> Inl e" for cost ns s e
    using deriveContract_total [of G cost ns s, OF G] by auto
  ultimately show "RegisterRevenue H B K keccak G m st \<noteq> Inl (Panicked p)"
    by (auto simp: RegisterRevenue_def Let_def badAddress_Inr MustAccAddressFromBech32_def panicking_def map_sum_def
        split: if_splits option.splits sum.splits)
next
  assume "ValidateBasicUpdate H B u = None"
  then have "\<not> badAddress B (urWithdrawer u)" by (auto simp: ValidateBasicUpdate_def split: if_splits)
  then show "UpdateRevenue H B u st \<noteq> Inl (Panicked p)"
    using rev_ok_revenue [OF assms]
    by (fastforce simp: UpdateRevenue_def Let_def revenue_ok_def badAddress_Inr MustAccAddressFromBech32_def split: if_splits option.splits)
next
  assume "ValidateBasicCancel H B cm = None"
  then show "CancelRevenue H B cm st \<noteq> Inl (Panicked p)"
    using rev_ok_revenue [OF assms]
    by (fastforce simp: CancelRevenue_def Let_def revenue_ok_def badAddress_Inr MustAccAddressFromBech32_def GetDeployerAddr_def
        GetWithdrawerAddr_def split: if_splits option.splits)
qed

end
section \<open>Properties\<close>

text \<open>A concrete chain: an externally owned account 5 has deployed contract 156, with nonce 0.\<close>

interpretation ref_rev: rev_codecs ref_codec ref_eth
  by unfold_locales

definition ref_eth_account :: "address \<Rightarrow> hash \<Rightarrow> amounts AccountI" where
  "ref_eth_account a h = EthAcc \<lparr>ethBase = emptyBaseAccount\<lparr>baAddress := a\<rparr>, ethCodeHash = h\<rparr>"

definition ref_revenue :: "ledger RevState" where
  "ref_revenue =
     \<lparr>revEvm = \<lparr>sdkState = \<lparr>lAccounts = (\<lambda>a. if a = 5 then Some (ref_eth_account 5 0) else if a = 156 then Some (ref_eth_account 156 1) else None),
                      lBalances = (\<lambda>a. [(''aabtc'', 1000)]), lSupply = (\<lambda>_. 9000), lNumber = 0\<rparr>,
                 storageStore = fmempty, codeStore = fmempty, EvmDenom = ''aabtc''\<rparr>,
      revParams = Some rv_DefaultParams, revenueStore = fmempty, deployerStore = {}, withdrawerStore = {}\<rparr>"

abbreviation ref_register :: "address option \<Rightarrow> failure + ledger RevState" where
  "ref_register w \<equiv> RegisterRevenue ref_eth ref_codec (ref_keepers (\<lambda>_. 0) (\<lambda>_. False) ''aakk'') (\<lambda>_. 0) (\<lambda>x _. Inr x)
     (NewMsgRegisterRevenue ref_eth ref_codec 156 5 w [0]) ref_revenue"

lemma ref_revenue_ok: "rev_ok ref_eth ref_codec ref_revenue"
  by (simp add: rev_ok_def ref_revenue_def indexed_def)

lemma ref_strings:
  "MustAccAddressFromBech32 ref_codec (AccString ref_codec a) = Inr a" "HexToAddress ref_eth (AddressHex ref_eth a) = a"
  "CreateAddress ref_eth 5 0 = 156"
  by (simp_all add: ref_codec.Bech_String ref_eth.Hex_String) (simp add: ref_eth_def)

lemma ref_accounts:
  "ek_GetAccountWithoutBalance (ref_keepers (\<lambda>_. 0) (\<lambda>_. False) ''aakk'') (\<lambda>_. 0) (revEvm ref_revenue) a =
    (if a = 5 then Some \<lparr>argNonce = 0, argBalance = None, argCodeHash = Some 0\<rparr>
     else if a = 156 then Some \<lparr>argNonce = 0, argBalance = None, argCodeHash = Some 1\<rparr> else None)"
  by (simp add: ek_GetAccountWithoutBalance_def ref_revenue_def ref_keepers_def ref_eth_account_def EthGetCodeHash_def
      GetSequence_def emptyBaseAccount_def)

lemma ref_register_runs: "\<exists>st. ref_register w = Inr st"
  using ref_codec.AccString_nonempty
  by (simp add: RegisterRevenue_def NewMsgRegisterRevenue_def ref_strings ref_accounts arg_IsContract_def Let_def deriveContract_def
      IsRevenueRegistered_def rv_GetParams_def rv_DefaultParams_def split: option.splits)
    (simp add: ref_revenue_def rv_DefaultParams_def ref_codec.Bech_String)

definition ref_registered :: "ledger RevState" where
  "ref_registered =
     SetWithdrawerMap 7 156 (SetDeployerMap 5 156 (SetRevenue ref_eth (NewRevenue ref_eth ref_codec 156 5 (Some 7)) ref_revenue))"

lemma ref_registered: "ref_register (Some 7) = Inr ref_registered"
  using ref_codec.AccString_nonempty
  by (simp add: RegisterRevenue_def NewMsgRegisterRevenue_def ref_strings ref_accounts arg_IsContract_def Let_def deriveContract_def
      IsRevenueRegistered_def rv_GetParams_def rv_DefaultParams_def ref_registered_def)
    (simp add: ref_revenue_def rv_DefaultParams_def)

lemma ref_registered_ok: "rev_ok ref_eth ref_codec ref_registered"
  by (rule ref_rev.Register_ok [OF ref_registered ref_revenue_ok])

lemma ref_registered_params: "rv_GetParams ref_registered = rv_DefaultParams"
  by (simp add: ref_registered_def rev_store_defs ref_revenue_def rv_GetParams_def)

lemma ref_registered_at: "GetRevenue ref_registered 156 = Some (NewRevenue ref_eth ref_codec 156 5 (Some 7))"
  by (simp add: ref_registered_def rev_store_defs GetRevenue_def ref_rev.NewRevenue_ok)


text \<open>
  C25.  The indexes agree with the revenues.  Along any sequence of registrations, updates, cancellations, parameter
  changes and transactions, every stored revenue lies under its own contract with addresses that decode, and
  the index by deployer (by withdrawer) holds exactly the pairs of a registered contract and its
  deployer (its withdrawer, if it has one).
\<close>

theorem revenue_indexes_consistent:
  assumes "rev_codecs B H" and "rev_chain H B C K D keccak G st st'" and "rev_ok H B st"
  shows "rev_ok H B st' \<and>
    (\<forall>d c. IsDeployerMapSet st' d c \<longleftrightarrow> (\<exists>r. GetRevenue st' c = Some r \<and> AccAddressFromBech32 B (DeployerAddress r) = Inr d)) \<and>
    (\<forall>w c. IsWithdrawerMapSet st' w c \<longleftrightarrow> (\<exists>r. GetRevenue st' c = Some r \<and> AccAddressFromBech32 B (WithdrawerAddress r) = Inr w))"
proof -
  have "rev_ok H B st'" by (rule rev_codecs.chain_ok [OF assms])
  then show ?thesis
    by (simp add: rev_ok_def IsDeployerMapSet_def IsWithdrawerMapSet_def GetRevenue_def indexed_def)
qed

theorem revenue_indexes_consistent_witness:
  "\<exists>st. ref_register (Some 7) = Inr st \<and> rev_ok ref_eth ref_codec st"
proof -
  obtain st where st: "ref_register (Some 7) = Inr st" using ref_register_runs by blast
  have "rev_chain ref_eth ref_codec ref_coins (ref_keepers (\<lambda>_. 0) (\<lambda>_. False) ''aakk'') ref_dec (\<lambda>_. 0) (\<lambda>x _. Inr x) ref_revenue st"
    by (rule rev_chain.register [OF rev_chain.start st])
  from revenue_indexes_consistent [OF ref_rev.rev_codecs_axioms this ref_revenue_ok] st show ?thesis by blast
qed

text \<open>
  C26.  The developer is paid.  When the hook returns after a transaction to a registered contract, the withdrawer
  of the contract, or the deployer if there is none, has received from the fee collector the share of the
  fee, rounded down; the share is at most the fee, no other balance and no supply changes, and neither do the
  revenues.
\<close>

theorem developer_is_paid:
  assumes "sdk_keepers C K keccak" and "sdk_dec D" and "rev_codecs B H" and "rev_ok H B st"
    and "rv_PostTxProcessing C K D B feeCollector msg gasUsed st = Inr st'"
    and "EnableRevenue (rv_GetParams st)" and "rv_Validate (rv_GetParams st) = None"
    and "DeveloperShares (rv_GetParams st) = Some shares" and "0 \<le> msgGasPrice msg"
    and "msgRecipient msg = Some c" and "GetRevenue st c = Some r"
    and "AccAddressFromBech32 B (if WithdrawerAddress r = '''' then DeployerAddress r else WithdrawerAddress r) = Inr a"
    and "x = sdkState (revEvm st)" and "x' = sdkState (revEvm st')"
    and "fee = uint gasUsed * msgGasPrice msg" and "paid = shares * fee div dec_one"
  shows "0 \<le> paid \<and> paid \<le> fee \<and>
    (\<forall>z d. BankBalance K x' z d = BankBalance K x z d
       - at_addr (GetModuleAddress K feeCollector) z (if d = EvmDenom (revEvm st) then paid else 0)
       + at_addr a z (if d = EvmDenom (revEvm st) then paid else 0)) \<and>
    GetSupply K x' = GetSupply K x \<and> revenueStore st' = revenueStore st"
proof -
  have sh: "0 \<le> shares" "shares \<le> dec_one"
    using assms(7,8) by (auto simp: rv_Validate_def validateShares_def split: if_splits)
  have fee: "0 \<le> fee" "0 \<le> shares * fee" using assms(9,15) sh by simp_all
  have "shares * fee \<le> dec_one * fee" using sh fee by (simp add: mult_right_mono)
  then have "paid \<le> dec_one * fee div dec_one" unfolding assms(16) by (rule zdiv_mono1) simp
  then have paid: "0 \<le> paid" "paid \<le> fee" using fee by (simp_all add: assms(16) pos_imp_zdiv_nonneg_iff dec_one_def)
  obtain gp fee' share y where run: "NewIntFromBigInt D (msgGasPrice msg) = Inr gp" "IMul D (uint gasUsed) gp = Inr fee'"
    "DMulInt D shares fee' = Inr share"
    "SendCoinsFromModuleToAccount K x feeCollector a (RawCoins C [(EvmDenom (revEvm st), DTruncateInt D share)]) = Inr y"
    "st' = st\<lparr>revEvm := (revEvm st)\<lparr>sdkState := y\<rparr>\<rparr>"
    unfolding assms(13) by (rule PostTx_pays [OF assms(5,6,8,10,11,12)])
  have "share = shares * fee"
    using sdk_dec.NewInt_id [OF assms(2) run(1)] sdk_dec.IMul_exact [OF assms(2) run(2)] sdk_dec.MulInt_exact [OF assms(2) run(3)]
    by (simp add: assms(15))
  then have "DTruncateInt D share = paid" using sdk_dec.TruncateInt_div [OF assms(2) fee(2)] by (simp add: assms(16))
  moreover have "x' = y" using run(5) assms(14) by simp
  ultimately show ?thesis
    using sdk_keepers.ModuleToAccount_law [OF assms(1) run(4)] paid run(5)
      sdk_coins.AmountOf_RawCoins [OF sdk_keepers.axioms(1) [OF assms(1)] paid(1)]
    by (auto simp: transferred_def fun_eq_iff)
qed

theorem developer_is_paid_witness:
  "\<exists>st'. rv_PostTxProcessing ref_coins (ref_keepers (\<lambda>_. 0) (\<lambda>_. False) ''aakk'') ref_dec ref_codec ''fee_collector''
      \<lparr>msgSender = 3, msgRecipient = Some 156, msgGasPrice = 3\<rparr> 21 ref_registered = Inr st' \<and>
    BankBalance (ref_keepers (\<lambda>_. 0) (\<lambda>_. False) ''aakk'') (sdkState (revEvm st')) 7 ''aabtc'' = 1031"
proof -
  let ?K = "ref_keepers (\<lambda>_. 0) (\<lambda>_. False) ''aakk''" and ?m = "\<lparr>msgSender = 3, msgRecipient = Some 156, msgGasPrice = 3\<rparr>"
  let ?r = "NewRevenue ref_eth ref_codec 156 5 (Some 7)"
  have a: "AccAddressFromBech32 ref_codec (if WithdrawerAddress ?r = '''' then DeployerAddress ?r else WithdrawerAddress ?r) = Inr 7"
    using ref_codec.AccString_nonempty by (simp add: NewRevenue_def ref_codec.Bech_String)
  have "\<not> isl (SendCoinsFromModuleToAccount ?K (sdkState (revEvm ref_revenue)) ''fee_collector'' 7 (RawCoins ref_coins [(''aabtc'', 31)]))"
    by code_simp
  then obtain y where y: "SendCoinsFromModuleToAccount ?K (sdkState (revEvm ref_revenue)) ''fee_collector'' 7 (RawCoins ref_coins [(''aabtc'', 31)]) = Inr y"
    by (cases "SendCoinsFromModuleToAccount ?K (sdkState (revEvm ref_revenue)) ''fee_collector'' 7 (RawCoins ref_coins [(''aabtc'', 31)])") auto
  have evm: "revEvm ref_registered = revEvm ref_revenue" by (simp add: ref_registered_def rev_store_defs)
  have sums: "NewIntFromBigInt ref_dec 3 = Inr 3" "IMul ref_dec 21 3 = Inr 63" "DMulInt ref_dec 500000000000000000 63 = Inr 31500000000000000000"
    "DTruncateInt ref_dec 31500000000000000000 = 31" "EvmDenom (revEvm ref_revenue) = ''aabtc''"
    by (simp_all add: ref_dec_def ref_bounded_def dec_one_def ref_revenue_def)
  have w: "GetWithdrawerAddr ref_codec ?r = Inr (Some 7)" by (rule ref_rev.NewRevenue_ok)
  have run: "rv_PostTxProcessing ref_coins ?K ref_dec ref_codec ''fee_collector'' ?m 21 ref_registered =
      Inr (ref_registered\<lparr>revEvm := (revEvm ref_registered)\<lparr>sdkState := y\<rparr>\<rparr>)"
    unfolding rv_PostTxProcessing_def ref_registered_params using y w
    by (simp add: ref_registered_at evm sums rv_DefaultParams_def Let_def del: One_nat_def)
  have ps: "EnableRevenue (rv_GetParams ref_registered)" "rv_Validate (rv_GetParams ref_registered) = None"
    "DeveloperShares (rv_GetParams ref_registered) = Some 500000000000000000" "0 \<le> msgGasPrice ?m" "msgRecipient ?m = Some 156"
    by (simp_all add: ref_registered_params rv_DefaultParams_def rv_Validate_def validateShares_def dec_one_def)
  have "ref_module_address ''fee_collector'' \<noteq> 7" by code_simp
  then have bank: "GetModuleAddress ?K ''fee_collector'' \<noteq> 7" "BankBalance ?K (sdkState (revEvm ref_revenue)) 7 ''aabtc'' = 1000"
    by (simp_all add: ref_keepers_def ref_revenue_def ref_amount_def)
  have "BankBalance ?K y 7 ''aabtc'' = 1031"
    using developer_is_paid [OF ref_keepers.sdk_keepers_axioms ref_dec.sdk_dec_axioms ref_rev.rev_codecs_axioms ref_registered_ok
        run ps ref_registered_at a refl refl refl refl]
    by (simp add: evm sums at_addr_def dec_one_def bank)
  then show ?thesis using run by simp
qed

text \<open>
  C27.  Only the deployer decides.  A message that succeeds is signed by one address, and this address is the deployer of
  the revenue it creates, changes or removes; the revenues of all other contracts stay as they are.  A registration
  moreover proves the deployment: the contract has code, the deployer has none, and the contract address is derived
  from the deployer by the nonces of the message.
\<close>

theorem only_deployer_decides:
  assumes "rev_codecs B H" and "rev_ok H B st"
  shows "(\<forall>m. RegisterRevenue H B K keccak G m st = Inr st' \<longrightarrow>
      (\<exists>c d w da ca. c = HexToAddress H (rrContract m) \<and> GetSignersRegister B m = Inr [d] \<and>
        c = fold (\<lambda>n a. CreateAddress H a n) (Nonces m) d \<and>
        ek_GetAccountWithoutBalance K keccak (revEvm st) d = Some da \<and> \<not> arg_IsContract keccak da \<and>
        ek_GetAccountWithoutBalance K keccak (revEvm st) c = Some ca \<and> arg_IsContract keccak ca \<and>
        GetRevenue st c = None \<and> changes_only st c (Some (NewRevenue H B c d w)) st')) \<and>
    (\<forall>u. UpdateRevenue H B u st = Inr st' \<longrightarrow>
      (\<exists>c d r w. c = HexToAddress H (urContract u) \<and> GetSignersUpdate B u = Inr [d] \<and> GetRevenue st c = Some r \<and>
        AccAddressFromBech32 B (DeployerAddress r) = Inr d \<and> changes_only st c (Some (r\<lparr>WithdrawerAddress := w\<rparr>)) st')) \<and>
    (\<forall>m. CancelRevenue H B m st = Inr st' \<longrightarrow>
      (\<exists>c d r. c = HexToAddress H (crContract m) \<and> GetSignersCancel B m = Inr [d] \<and> GetRevenue st c = Some r \<and>
        AccAddressFromBech32 B (DeployerAddress r) = Inr d \<and> changes_only st c None st'))"
proof (intro conjI allI impI)
  fix m assume "RegisterRevenue H B K keccak G m st = Inr st'"
  from rev_codecs.Register_effect [OF assms(1) this refl] show "\<exists>c d w da ca. c = HexToAddress H (rrContract m) \<and>
      GetSignersRegister B m = Inr [d] \<and> c = fold (\<lambda>n a. CreateAddress H a n) (Nonces m) d \<and>
      ek_GetAccountWithoutBalance K keccak (revEvm st) d = Some da \<and> \<not> arg_IsContract keccak da \<and>
      ek_GetAccountWithoutBalance K keccak (revEvm st) c = Some ca \<and> arg_IsContract keccak ca \<and>
      GetRevenue st c = None \<and> changes_only st c (Some (NewRevenue H B c d w)) st'" by simp
next
  fix u assume "UpdateRevenue H B u st = Inr st'"
  from rev_codecs.Update_effect [OF assms(1) this assms(2) refl] show "\<exists>c d r w. c = HexToAddress H (urContract u) \<and>
      GetSignersUpdate B u = Inr [d] \<and> GetRevenue st c = Some r \<and> AccAddressFromBech32 B (DeployerAddress r) = Inr d \<and>
      changes_only st c (Some (r\<lparr>WithdrawerAddress := w\<rparr>)) st'" by simp
next
  fix m assume "CancelRevenue H B m st = Inr st'"
  from rev_codecs.Cancel_effect [OF assms(1) this assms(2) refl] show "\<exists>c d r. c = HexToAddress H (crContract m) \<and>
      GetSignersCancel B m = Inr [d] \<and> GetRevenue st c = Some r \<and> AccAddressFromBech32 B (DeployerAddress r) = Inr d \<and>
      changes_only st c None st'" by simp
qed

theorem only_deployer_decides_witness:
  "\<exists>d. GetSignersRegister ref_codec (NewMsgRegisterRevenue ref_eth ref_codec 156 5 (Some 7) [0]) = Inr [d] \<and>
    156 = CreateAddress ref_eth d 0 \<and> GetRevenue ref_registered 156 \<noteq> None"
proof -
  let ?m = "NewMsgRegisterRevenue ref_eth ref_codec 156 5 (Some 7) [0]"
  have m: "HexToAddress ref_eth (rrContract ?m) = 156" "Nonces ?m = [0]"
    by (simp_all add: NewMsgRegisterRevenue_def ref_eth.Hex_String)
  note only_deployer_decides [OF ref_rev.rev_codecs_axioms ref_revenue_ok, THEN conjunct1, rule_format, OF ref_registered, unfolded m]
  then show ?thesis by (auto simp: changes_only_def)
qed

text \<open>
  C39.  The message server of the revenue module does not panic.  On a consistent store a message that passed its stateless checks
  returns or fails with an error, as long as the gas meter does not run out.
\<close>

theorem revenue_messages_never_panic:
  assumes "rev_codecs B H" and "rev_ok H B st" and "\<forall>x n. \<exists>y. G x n = Inr y"
  shows "(\<forall>m. ValidateBasicRegister H B m = None \<longrightarrow> RegisterRevenue H B K keccak G m st \<noteq> Inl (Panicked p)) \<and>
    (\<forall>m. ValidateBasicUpdate H B m = None \<longrightarrow> UpdateRevenue H B m st \<noteq> Inl (Panicked p)) \<and>
    (\<forall>m. ValidateBasicCancel H B m = None \<longrightarrow> CancelRevenue H B m st \<noteq> Inl (Panicked p))"
proof (intro conjI allI impI)
  show "RegisterRevenue H B K keccak G m st \<noteq> Inl (Panicked p)" if "ValidateBasicRegister H B m = None" for m
    using rev_codecs.no_panic(1) [OF assms(1,2) _ that] assms(3) by blast
qed (rule rev_codecs.no_panic(2,3) [OF assms(1,2)], assumption)+

theorem revenue_messages_never_panic_witness:
  "CancelRevenue ref_eth ref_codec (NewMsgCancelRevenue ref_eth ref_codec 156 5) ref_registered \<noteq> Inl (Panicked NilDereference)"
proof -
  have "ValidateBasicCancel ref_eth ref_codec (NewMsgCancelRevenue ref_eth ref_codec 156 5) = None"
    by (simp add: ValidateBasicCancel_def NewMsgCancelRevenue_def badAddress_def ref_codec.Bech_String ValidateNonZeroAddress_def
        IsZeroAddress_def ref_eth.Hex_String ValidateAddress_def ref_eth.Hex_valid)
  then show ?thesis
    using revenue_messages_never_panic [OF ref_rev.rev_codecs_axioms ref_registered_ok, where G = "\<lambda>x _. Inr x" and p = NilDereference] by blast
qed

text \<open>
  The revenues survive an export.  Importing the exported genesis of a consistent store into an empty store does not
  fail and gives back the parameters, the revenues and both indexes.
\<close>

theorem revenue_genesis_round_trip:
  assumes "rev_codecs B H" and "rev_ok H B st" and "rev_ok H B st0" and "revenueStore st0 = fmempty"
  shows "\<exists>st'. rv_InitGenesis H B (rv_ExportGenesis st) st0 = Inr st' \<and> rv_GetParams st' = rv_GetParams st \<and>
    revenueStore st' = revenueStore st \<and> deployerStore st' = deployerStore st \<and> withdrawerStore st' = withdrawerStore st"
proof -
  let ?cs = "sorted_list_of_fset (fmdom (revenueStore st))" and ?f = "\<lambda>c. the (fmlookup (revenueStore st) c)"
  have dom: "c \<in> set ?cs \<longleftrightarrow> fmlookup (revenueStore st) c \<noteq> None" for c
    by (simp add: fmlookup_dom_iff)
  have "\<exists>st'. foldM (importRevenue H B) (map ?f ?cs) (rv_SetParams (rv_GetParams st) st0) = Inr st' \<and> rev_ok H B st' \<and>
      revParams st' = revParams (rv_SetParams (rv_GetParams st) st0) \<and>
      (\<forall>c. GetRevenue st' c = (if c \<in> set ?cs then Some (?f c) else GetRevenue (rv_SetParams (rv_GetParams st) st0) c))"
    using assms dom
    by (intro rev_codecs.import_all [OF assms(1)]) (auto simp: rev_ok_def rv_SetParams_def GetRevenue_def sorted_list_of_fset.rep_eq)
  then obtain st' where st': "rv_InitGenesis H B (rv_ExportGenesis st) st0 = Inr st'" "rev_ok H B st'"
    "revParams st' = Some (rv_GetParams st)" "\<forall>c. GetRevenue st' c = (if c \<in> set ?cs then Some (?f c) else None)"
    using assms(4)
    by (auto simp: rv_InitGenesis_def rv_ExportGenesis_def GetRevenues_def revenueEntries_def rv_SetParams_def GetRevenue_def)
  have "\<forall>c. GetRevenue st' c = GetRevenue st c" using st'(4) dom by (auto simp: GetRevenue_def)
  from rev_ok_determined [OF assms(2) st'(2) this] st'(1,3) show ?thesis by (auto simp: rv_GetParams_def)
qed

theorem revenue_genesis_round_trip_witness:
  "\<exists>st'. rv_InitGenesis ref_eth ref_codec (rv_ExportGenesis ref_registered) ref_revenue = Inr st' \<and>
    deployerStore st' = {(5, 156)} \<and> withdrawerStore st' = {(7, 156)}"
proof -
  have "revenueStore ref_revenue = fmempty" "deployerStore ref_registered = {(5, 156)}" "withdrawerStore ref_registered = {(7, 156)}"
    by (simp_all add: ref_registered_def ref_revenue_def rev_store_defs)
  then show ?thesis
    using revenue_genesis_round_trip [OF ref_rev.rev_codecs_axioms ref_registered_ok ref_revenue_ok] by auto
qed

end
