(* ===== verification/Ibc_Utils.thy ===== *)
theory Ibc_Utils
  imports Addresses Sdk
begin

text \<open>
  What the modules read from a packet of a token transfer (\<^verbatim>\<open>ibc/utils.go\<close> and the address conversion
  of \<^verbatim>\<open>utils/utils.go\<close>).  The JSON codec, the Bech32 decoder and the denomination traces of ibc-go and the
  SDK are the record \<open>IbcLib\<close>.
\<close>

record FungibleTokenPacketData =
  ftDenom :: string
  ftAmount :: string
  ftSender :: string
  ftReceiver :: string

record Packet =
  SourcePort :: string
  SourceChannel :: string
  DestinationPort :: string
  DestinationChannel :: string
  PacketData :: bytes

text \<open>A denomination trace is given by its path and its denomination on this chain.\<close>

record IbcLib =
  UnmarshalPacketData :: "bytes \<Rightarrow> string + FungibleTokenPacketData"
  UnmarshalAcknowledgement :: "bytes \<Rightarrow> string + bool"
  GetFromBech32 :: "string \<Rightarrow> string \<Rightarrow> string + address"
  VerifyAddressFormat :: "address \<Rightarrow> string option"
  NewIntFromString :: "string \<Rightarrow> int option"
  ReceiverChainIsSource :: "string \<Rightarrow> string \<Rightarrow> string \<Rightarrow> bool"
  GetDenomPrefix :: "string \<Rightarrow> string \<Rightarrow> string"
  TracePath :: "string \<Rightarrow> string"
  IBCDenom :: "string \<Rightarrow> string"

definition GetEvmosAddressFromBech32 :: "IbcLib \<Rightarrow> string \<Rightarrow> string + address" where
  "GetEvmosAddressFromBech32 T s =
     (let bech32Prefix = takeWhile (\<lambda>c. c \<noteq> CHR ''1'') s in
      if bech32Prefix = s then Inl ''invalid bech32 address''
      else rbind (GetFromBech32 T s bech32Prefix) (\<lambda>addressBz.
        case VerifyAddressFormat T addressBz of Some e \<Rightarrow> Inl e | None \<Rightarrow> Inr addressBz))"

definition GetTransferSenderRecipient :: "IbcLib \<Rightarrow> Packet \<Rightarrow> string + address \<times> address \<times> string \<times> string" where
  "GetTransferSenderRecipient T packet =
     (case UnmarshalPacketData T (PacketData packet) of
        Inl _ \<Rightarrow> Inl ''cannot unmarshal ICS-20 transfer packet data''
      | Inr data \<Rightarrow>
          rbind (GetEvmosAddressFromBech32 T (ftSender data)) (\<lambda>sender.
          rbind (GetEvmosAddressFromBech32 T (ftReceiver data)) (\<lambda>recipient.
            Inr (sender, recipient, ftSender data, ftReceiver data))))"

definition GetTransferAmount :: "IbcLib \<Rightarrow> Packet \<Rightarrow> string + string" where
  "GetTransferAmount T packet =
     (case UnmarshalPacketData T (PacketData packet) of
        Inl _ \<Rightarrow> Inl ''cannot unmarshal ICS-20 transfer packet data''
      | Inr data \<Rightarrow>
          if ftAmount data = '''' then Inl ''empty amount''
          else if NewIntFromString T (ftAmount data) = None then Inl ''invalid amount''
          else Inr (ftAmount data))"

text \<open>A slice expression past the end of a string panics.\<close>

definition GetReceivedCoin ::
    "IbcLib \<Rightarrow> string \<Rightarrow> string \<Rightarrow> string \<Rightarrow> string \<Rightarrow> string \<Rightarrow> string \<Rightarrow> panic + string \<times> int option" where
  "GetReceivedCoin T srcPort srcChannel dstPort dstChannel rawDenom rawAmt =
     (let amount = NewIntFromString T rawAmt in
      if ReceiverChainIsSource T srcPort srcChannel rawDenom then
        let voucherPrefix = GetDenomPrefix T srcPort srcChannel in
        if length voucherPrefix > length rawDenom then Inl IndexOutOfRange
        else
          let unprefixedDenom = drop (length voucherPrefix) rawDenom;
              denom = (if TracePath T unprefixedDenom \<noteq> '''' then IBCDenom T unprefixedDenom else unprefixedDenom)
          in Inr (denom, amount)
      else
        let prefixedDenom = GetDenomPrefix T dstPort dstChannel @ rawDenom
        in Inr (IBCDenom T prefixedDenom, amount))"

definition GetSentCoin :: "IbcLib \<Rightarrow> string \<Rightarrow> string \<Rightarrow> string \<times> int option" where
  "GetSentCoin T rawDenom rawAmt = (IBCDenom T rawDenom, NewIntFromString T rawAmt)"

section \<open>Reference instance\<close>

text \<open>Any data but the empty one decodes to the given transfer; an address is the number of characters after the prefix.\<close>

definition ref_ibc :: "FungibleTokenPacketData \<Rightarrow> IbcLib" where
  "ref_ibc data =
     \<lparr>UnmarshalPacketData = (\<lambda>bz. if bz = [] then Inl ''empty'' else Inr data),
      UnmarshalAcknowledgement = (\<lambda>bz. if bz = [] then Inl ''empty'' else Inr (hd bz = 1)),
      GetFromBech32 = (\<lambda>s p. Inr (of_nat (length s - length p - 1))),
      VerifyAddressFormat = (\<lambda>_. None),
      NewIntFromString = (\<lambda>s. Some (int (length s))),
      ReceiverChainIsSource = (\<lambda>_ _ _. False),
      GetDenomPrefix = (\<lambda>p c. p @ ''/'' @ c @ ''/''),
      TracePath = (\<lambda>_. ''''),
      IBCDenom = (\<lambda>s. ''ibc/'' @ s)\<rparr>"

end
