(* ===== verification/Claims.thy ===== *)
theory Claims
  imports Sdk_Keepers Sdk_Dec Ibc_Utils
begin

text \<open>
  The claims module (\<^verbatim>\<open>x/claims\<close>): the airdrop.  Each record has an initial amount, a quarter of which is
  paid for each of four actions, in full until the decay starts and then less and less until the airdrop ends; what is
  not paid goes to the community pool.  A failing call leaves the changes it made before
  it failed, so the result of a claim carries the state in both cases.  Times and durations are in
  nanoseconds; a difference of times saturates and a sum of durations wraps, as in Go.  Sums of \<^verbatim>\<open>sdk.Int\<close>
  are exact.  Events and logging are left out.
\<close>

section \<open>Parameters\<close>

record ClaimsParams =
  EnableClaims :: bool
  ClaimsDenom :: string
  AirdropStartTime :: int
  DurationUntilDecay :: int
  DurationOfDecay :: int
  AuthorizedChannels :: "string list"
  EVMChannels :: "string list"

text \<open>The zero value of \<^verbatim>\<open>time.Time\<close>, the first of January of year 1.\<close>

definition zeroTime :: int where
  "zeroTime = - 62135596800 * 10 ^ 9"

definition timeSub :: "int \<Rightarrow> int \<Rightarrow> int" where
  "timeSub t u = max (- (2 ^ 63)) (min (2 ^ 63 - 1) (t - u))"

definition cm_NewParams ::
    "bool \<Rightarrow> string \<Rightarrow> int \<Rightarrow> int \<Rightarrow> int \<Rightarrow> string list \<Rightarrow> string list \<Rightarrow> ClaimsParams" where
  "cm_NewParams enableClaim claimsDenom airdropStartTime durationUntilDecay durationOfDecay authorizedChannels evmChannels =
     \<lparr>EnableClaims = enableClaim, ClaimsDenom = claimsDenom, AirdropStartTime = airdropStartTime,
      DurationUntilDecay = durationUntilDecay, DurationOfDecay = durationOfDecay,
      AuthorizedChannels = authorizedChannels, EVMChannels = evmChannels\<rparr>"

text \<open>\<open>baseDenom\<close> is the base denomination of \<^verbatim>\<open>utils\<close>.\<close>

definition cm_DefaultParams :: "string \<Rightarrow> ClaimsParams" where
  "cm_DefaultParams baseDenom =
     \<lparr>EnableClaims = True, ClaimsDenom = baseDenom, AirdropStartTime = zeroTime,
      DurationUntilDecay = 2629800 * 10 ^ 9, DurationOfDecay = 2 * (2629800 * 10 ^ 9),
      AuthorizedChannels = [''channel-0'', ''channel-3''], EVMChannels = [''channel-2'']\<rparr>"

text \<open>The check of a channel identifier and of a denomination are those of ibc-go and the SDK.\<close>

fun ValidateChannels :: "(string \<Rightarrow> string option) \<Rightarrow> string list \<Rightarrow> string option" where
  "ValidateChannels channelValidator [] = None"
| "ValidateChannels channelValidator (channel # channels) =
     (case channelValidator channel of Some e \<Rightarrow> Some e | None \<Rightarrow> ValidateChannels channelValidator channels)"

definition cm_Validate :: "(string \<Rightarrow> string option) \<Rightarrow> (string \<Rightarrow> string option) \<Rightarrow> ClaimsParams \<Rightarrow> string option" where
  "cm_Validate validateDenom channelValidator p =
     (if DurationOfDecay p \<le> 0 then Some ''duration of decay must be positive''
      else if DurationUntilDecay p \<le> 0 then Some ''duration until decay must be positive''
      else case validateDenom (ClaimsDenom p) of
        Some e \<Rightarrow> Some e
      | None \<Rightarrow>
          (case ValidateChannels channelValidator (AuthorizedChannels p) of
             Some e \<Rightarrow> Some e
           | None \<Rightarrow> ValidateChannels channelValidator (EVMChannels p)))"

definition DecayStartTime :: "ClaimsParams \<Rightarrow> int" where
  "DecayStartTime p = AirdropStartTime p + DurationUntilDecay p"

definition AirdropEndTime :: "ClaimsParams \<Rightarrow> int" where
  "AirdropEndTime p = AirdropStartTime p + DurationUntilDecay p + DurationOfDecay p"

definition IsClaimsActive :: "ClaimsParams \<Rightarrow> int \<Rightarrow> bool" where
  "IsClaimsActive p blockTime \<longleftrightarrow> \<not> (\<not> EnableClaims p \<or> blockTime < AirdropStartTime p \<or> blockTime > AirdropEndTime p)"

definition IsAuthorizedChannel :: "ClaimsParams \<Rightarrow> string \<Rightarrow> bool" where
  "IsAuthorizedChannel p channel \<longleftrightarrow> list_ex (\<lambda>c. channel = c) (AuthorizedChannels p)"

definition IsEVMChannel :: "ClaimsParams \<Rightarrow> string \<Rightarrow> bool" where
  "IsEVMChannel p channel \<longleftrightarrow> list_ex (\<lambda>c. channel = c) (EVMChannels p)"

section \<open>Claims records\<close>

text \<open>An action is a number; 1 to 4 are the actions that can be claimed.\<close>

type_synonym Action = nat

definition ActionUnspecified :: Action where "ActionUnspecified = 0"
definition ActionVote :: Action where "ActionVote = 1"
definition ActionDelegate :: Action where "ActionDelegate = 2"
definition ActionEVM :: Action where "ActionEVM = 3"
definition ActionIBCTransfer :: Action where "ActionIBCTransfer = 4"

lemmas action_defs = ActionUnspecified_def ActionVote_def ActionDelegate_def ActionEVM_def ActionIBCTransfer_def

record ClaimsRecord =
  InitialClaimableAmount :: "int option"
  ActionsCompleted :: "bool list"

record ClaimsRecordAddress =
  craAddress :: string
  craInitial :: "int option"
  craActions :: "bool list"

definition NewClaimsRecord :: "int \<Rightarrow> ClaimsRecord" where
  "NewClaimsRecord amt = \<lparr>InitialClaimableAmount = Some amt, ActionsCompleted = [False, False, False, False]\<rparr>"

definition cr_Validate :: "ClaimsRecord \<Rightarrow> string option" where
  "cr_Validate cr =
     (case InitialClaimableAmount cr of
        None \<Rightarrow> Some ''initial claimable amount is nil''
      | Some n \<Rightarrow>
          if \<not> n > 0 then Some ''initial claimable amount is not positive''
          else if length (ActionsCompleted cr) = 0 \<or> length (ActionsCompleted cr) \<noteq> 4 then Some ''action length mismatch''
          else None)"

definition MarkClaimed :: "Action \<Rightarrow> ClaimsRecord \<Rightarrow> ClaimsRecord" where
  "MarkClaimed action cr =
     (if length (ActionsCompleted cr) \<noteq> 4 then cr
      else if action = ActionUnspecified \<or> action > 4 then cr
      else cr\<lparr>ActionsCompleted := (ActionsCompleted cr)[action - 1 := True]\<rparr>)"

definition HasClaimedAction :: "ClaimsRecord \<Rightarrow> Action \<Rightarrow> bool" where
  "HasClaimedAction cr action =
     (if length (ActionsCompleted cr) \<noteq> 4 then False
      else if action = 0 \<or> action > 4 then False
      else ActionsCompleted cr ! (action - 1))"

definition HasClaimedAny :: "ClaimsRecord \<Rightarrow> bool" where
  "HasClaimedAny cr \<longleftrightarrow> list_ex (\<lambda>completed. completed) (ActionsCompleted cr)"

definition HasClaimedAll :: "ClaimsRecord \<Rightarrow> bool" where
  "HasClaimedAll cr =
     (if length (ActionsCompleted cr) = 0 then False else list_all (\<lambda>completed. completed) (ActionsCompleted cr))"

definition NewClaimsRecordAddress :: "Bech32 \<Rightarrow> address \<Rightarrow> int \<Rightarrow> ClaimsRecordAddress" where
  "NewClaimsRecordAddress B a amt =
     \<lparr>craAddress = AccString B a, craInitial = Some amt, craActions = [False, False, False, False]\<rparr>"

definition cra_Validate :: "Bech32 \<Rightarrow> ClaimsRecordAddress \<Rightarrow> string option" where
  "cra_Validate B cra =
     (if badAddress B (craAddress cra) then Some ''invalid address''
      else case craInitial cra of
        None \<Rightarrow> Some ''initial claimable amount is nil''
      | Some n \<Rightarrow>
          if \<not> n > 0 then Some ''initial claimable amount is not positive''
          else if length (craActions cra) \<noteq> 4 then Some ''action length mismatch''
          else None)"

section \<open>The store\<close>

record 'x ClaimsState =
  cmSdk :: 'x
  cmParams :: "ClaimsParams option"
  cmRecords :: "(address, ClaimsRecord) fmap"

definition cm_GetParams :: "'x ClaimsState \<Rightarrow> ClaimsParams" where
  "cm_GetParams st =
     (case cmParams st of
        None \<Rightarrow> \<lparr>EnableClaims = False, ClaimsDenom = '''', AirdropStartTime = zeroTime, DurationUntilDecay = 0,
                 DurationOfDecay = 0, AuthorizedChannels = [], EVMChannels = []\<rparr>
      | Some p \<Rightarrow> p)"

definition cm_SetParams :: "ClaimsParams \<Rightarrow> 'x ClaimsState \<Rightarrow> 'x ClaimsState" where
  "cm_SetParams p st = st\<lparr>cmParams := Some p\<rparr>"

definition GetClaimsRecord :: "'x ClaimsState \<Rightarrow> address \<Rightarrow> ClaimsRecord option" where
  "GetClaimsRecord st addr = fmlookup (cmRecords st) addr"

definition HasClaimsRecord :: "'x ClaimsState \<Rightarrow> address \<Rightarrow> bool" where
  "HasClaimsRecord st addr \<longleftrightarrow> fmlookup (cmRecords st) addr \<noteq> None"

definition SetClaimsRecord :: "address \<Rightarrow> ClaimsRecord \<Rightarrow> 'x ClaimsState \<Rightarrow> 'x ClaimsState" where
  "SetClaimsRecord addr cr st = st\<lparr>cmRecords := fmupd addr cr (cmRecords st)\<rparr>"

definition DeleteClaimsRecord :: "address \<Rightarrow> 'x ClaimsState \<Rightarrow> 'x ClaimsState" where
  "DeleteClaimsRecord addr st = st\<lparr>cmRecords := fmdrop addr (cmRecords st)\<rparr>"

text \<open>The entries of the store when an iteration starts, in the order of the addresses.\<close>

definition claimEntries :: "'x ClaimsState \<Rightarrow> (address \<times> ClaimsRecord) list" where
  "claimEntries st = map (\<lambda>a. (a, the (fmlookup (cmRecords st) a))) (sorted_list_of_fset (fmdom (cmRecords st)))"

fun claimLoop :: "(address \<Rightarrow> ClaimsRecord \<Rightarrow> 's \<Rightarrow> bool \<times> 's) \<Rightarrow> (address \<times> ClaimsRecord) list \<Rightarrow> 's \<Rightarrow> 's" where
  "claimLoop handlerFn [] s = s"
| "claimLoop handlerFn ((a, cr) # rest) s =
     (case handlerFn a cr s of (stop, s') \<Rightarrow> if stop then s' else claimLoop handlerFn rest s')"

definition IterateClaimsRecords :: "(address \<Rightarrow> ClaimsRecord \<Rightarrow> 's \<Rightarrow> bool \<times> 's) \<Rightarrow> 'x ClaimsState \<Rightarrow> 's \<Rightarrow> 's" where
  "IterateClaimsRecords handlerFn st = claimLoop handlerFn (claimEntries st)"

definition recordAddress :: "Bech32 \<Rightarrow> address \<Rightarrow> ClaimsRecord \<Rightarrow> ClaimsRecordAddress" where
  "recordAddress B addr cr =
     \<lparr>craAddress = AccString B addr, craInitial = InitialClaimableAmount cr, craActions = ActionsCompleted cr\<rparr>"

definition GetClaimsRecords :: "Bech32 \<Rightarrow> 'x ClaimsState \<Rightarrow> ClaimsRecordAddress list" where
  "GetClaimsRecords B st =
     IterateClaimsRecords (\<lambda>addr cr claimsRecords. (False, claimsRecords @ [recordAddress B addr cr])) st []"

section \<open>Claiming\<close>

definition claimsModule :: string where "claimsModule = ''claims''"

definition GetModuleAccountAddress :: "('x, 'c) Keepers \<Rightarrow> address" where
  "GetModuleAccountAddress K = GetModuleAddress K claimsModule"

definition GetModuleAccountBalances :: "('x, 'c) Keepers \<Rightarrow> 'x ClaimsState \<Rightarrow> 'c" where
  "GetModuleAccountBalances K st = GetAllBalances K (cmSdk st) (GetModuleAccountAddress K)"

text \<open>Integer division that truncates towards zero.\<close>

definition intQuo :: "int \<Rightarrow> int \<Rightarrow> int" where
  "intQuo a b = sgn a * sgn b * (\<bar>a\<bar> div \<bar>b\<bar>)"

definition ClaimableAmountForAction :: "Decs \<Rightarrow> int \<Rightarrow> ClaimsRecord \<Rightarrow> Action \<Rightarrow> ClaimsParams \<Rightarrow> panic + int \<times> int" where
  "ClaimableAmountForAction D blockTime cr action params =
     (case InitialClaimableAmount cr of
        None \<Rightarrow> Inr (0, 0)
      | Some initial \<Rightarrow>
          if initial = 0 then Inr (0, 0)
          else if HasClaimedAction cr action then Inr (0, 0)
          else
            let initialClaimablePerAction = intQuo initial 4; decayStartTime = DecayStartTime params in
            if \<not> blockTime > decayStartTime then Inr (initialClaimablePerAction, 0)
            else
              let elapsedDecay = timeSub blockTime decayStartTime in
              rbind (DQuoInt D (NewDec elapsedDecay) (DurationOfDecay params)) (\<lambda>elapsedDecayRatio.
                let claimableRatio = dec_one - elapsedDecayRatio in
                rbind (DMulInt D claimableRatio initialClaimablePerAction) (\<lambda>c.
                  let claimableCoins = DRoundInt D c in
                  Inr (claimableCoins, initialClaimablePerAction - claimableCoins))))"

definition GetClaimableAmountForAction :: "Decs \<Rightarrow> int \<Rightarrow> ClaimsRecord \<Rightarrow> Action \<Rightarrow> ClaimsParams \<Rightarrow> panic + int \<times> int" where
  "GetClaimableAmountForAction D blockTime cr action params =
     (if \<not> IsClaimsActive params blockTime then Inr (0, 0) else ClaimableAmountForAction D blockTime cr action params)"

text \<open>The result is an error or the claimed amount, with the state reached.\<close>

definition ClaimCoinsForAction ::
    "'c Coins \<Rightarrow> ('x, 'c) Keepers \<Rightarrow> Decs \<Rightarrow> int \<Rightarrow> address \<Rightarrow> ClaimsRecord \<Rightarrow> Action \<Rightarrow> ClaimsParams \<Rightarrow>
      'x ClaimsState \<Rightarrow> panic + (string + int) \<times> 'x ClaimsState" where
  "ClaimCoinsForAction C K D blockTime addr cr action params st =
     (if action = ActionUnspecified \<or> action > ActionIBCTransfer then Inr (Inl ''invalid action'', st)
      else if \<not> IsClaimsActive params blockTime then Inr (Inr 0, st)
      else if HasClaimedAction cr action then Inr (Inr 0, st)
      else rbind (GetClaimableAmountForAction D blockTime cr action params) (\<lambda>(claimableAmount, remainderAmount).
        if claimableAmount = 0 then Inr (Inr 0, st)
        else
          case SendCoinsFromModuleToAccount K (cmSdk st) claimsModule addr (RawCoins C [(ClaimsDenom params, claimableAmount)]) of
            Inl e \<Rightarrow> Inr (Inl e, st)
          | Inr x \<Rightarrow>
              let st = st\<lparr>cmSdk := x\<rparr> in
              (case (if remainderAmount \<noteq> 0
                     then FundCommunityPool K x (RawCoins C [(ClaimsDenom params, remainderAmount)]) (GetModuleAccountAddress K)
                     else Inr x) of
                 Inl e \<Rightarrow> Inr (Inl e, st)
               | Inr x \<Rightarrow> Inr (Inr claimableAmount, SetClaimsRecord addr (MarkClaimed action cr) (st\<lparr>cmSdk := x\<rparr>)))))"

text \<open>One action of a merge: the amounts and the merged record so far.\<close>

definition mergeStep ::
    "Decs \<Rightarrow> int \<Rightarrow> ClaimsRecord \<Rightarrow> ClaimsRecord \<Rightarrow> ClaimsParams \<Rightarrow> Action \<Rightarrow> int \<times> int \<times> ClaimsRecord \<Rightarrow>
      failure + int \<times> int \<times> ClaimsRecord" where
  "mergeStep D blockTime sender recipient params action = (\<lambda>(claimedAmt, remainderAmt, merged).
     if HasClaimedAction sender action then Inl (Err ''non-evmos sender must not have claimed action'')
     else if HasClaimedAction recipient action then
       rbind (panicking (GetClaimableAmountForAction D blockTime sender action params)) (\<lambda>(amt, remainder).
         Inr (claimedAmt + amt, remainderAmt + remainder, MarkClaimed action merged))
     else if action \<noteq> ActionIBCTransfer then Inr (claimedAmt, remainderAmt, merged)
     else
       rbind (panicking (GetClaimableAmountForAction D blockTime recipient action params)) (\<lambda>(amtR, remainderR).
       rbind (panicking (GetClaimableAmountForAction D blockTime sender action params)) (\<lambda>(amtS, remainderS).
         Inr (claimedAmt + amtR + amtS, remainderAmt + remainderR + remainderS, MarkClaimed action merged))))"

definition MergeClaimsRecords ::
    "'c Coins \<Rightarrow> ('x, 'c) Keepers \<Rightarrow> Decs \<Rightarrow> int \<Rightarrow> address \<Rightarrow> ClaimsRecord \<Rightarrow> ClaimsRecord \<Rightarrow> ClaimsParams \<Rightarrow>
      'x ClaimsState \<Rightarrow> panic + (string + ClaimsRecord) \<times> 'x ClaimsState" where
  "MergeClaimsRecords C K D blockTime recipient sr rr params st =
     (case (InitialClaimableAmount sr, InitialClaimableAmount rr) of
        (Some s, Some r) \<Rightarrow>
          (case foldM (mergeStep D blockTime sr rr params) [ActionVote, ActionDelegate, ActionEVM, ActionIBCTransfer]
                  (0, 0, NewClaimsRecord (s + r)) of
             Inl (Panicked p) \<Rightarrow> Inl p
           | Inl (Err e) \<Rightarrow> Inr (Inl e, st)
           | Inr (claimedAmt, remainderAmt, merged) \<Rightarrow>
               if claimedAmt = 0 then Inr (Inr merged, st)
               else
                 case SendCoinsFromModuleToAccount K (cmSdk st) claimsModule recipient (RawCoins C [(ClaimsDenom params, claimedAmt)]) of
                   Inl e \<Rightarrow> Inr (Inl e, st)
                 | Inr x \<Rightarrow>
                     let st = st\<lparr>cmSdk := x\<rparr>; remainderCoins = RawCoins C [(ClaimsDenom params, remainderAmt)] in
                     if IsZero C remainderCoins then Inr (Inr merged, st)
                     else
                       (case FundCommunityPool K x remainderCoins (GetModuleAccountAddress K) of
                          Inl e \<Rightarrow> Inr (Inl e, st)
                        | Inr x \<Rightarrow> Inr (Inr merged, st\<lparr>cmSdk := x\<rparr>)))
      | _ \<Rightarrow> Inl NilDereference)"

section \<open>The end of the airdrop\<close>

definition GenesisDust :: int where
  "GenesisDust = 10 ^ 15"

definition ClawbackEscrowedTokens :: "'c Coins \<Rightarrow> ('x, 'c) Keepers \<Rightarrow> 'x \<Rightarrow> string + 'x" where
  "ClawbackEscrowedTokens C K x =
     (let moduleAccAddr = GetModuleAccountAddress K; balances = GetAllBalances K x moduleAccAddr in
      if IsZero C balances then Inr x
      else case FundCommunityPool K x balances moduleAccAddr of
        Inl e \<Rightarrow> Inl ''failed to transfer escrowed airdrop tokens'' | Inr x \<Rightarrow> Inr x)"

text \<open>
  What is done to the account of one record: an empty Ethereum account that was never used is removed, one that
  still holds the dust of the genesis returns it.
\<close>

definition clawbackAccount :: "'c Coins \<Rightarrow> ('x, 'c) Keepers \<Rightarrow> string \<Rightarrow> address \<Rightarrow> 'x \<Rightarrow> 'x" where
  "clawbackAccount C K claimsDenom addr x =
     (case GetAccount K x addr of
        None \<Rightarrow> x
      | Some (ClawbackAcc _) \<Rightarrow> x
      | Some (OtherVestingAcc _) \<Rightarrow> x
      | Some (OtherAcc _) \<Rightarrow> x
      | Some (EthAcc e) \<Rightarrow>
          if GetSequence (EthAcc e :: 'c AccountI) \<noteq> 0 then x
          else
            let accountBalances = GetAllBalances K x addr in
            if IsZero C accountBalances then RemoveAccount K x (EthAcc e)
            else if AmountOf C accountBalances claimsDenom \<noteq> GenesisDust then x
            else case FundCommunityPool K x (RawCoins C [(claimsDenom, GenesisDust)]) addr of
              Inl _ \<Rightarrow> x | Inr x' \<Rightarrow> x')"

definition ClawbackEmptyAccounts :: "'c Coins \<Rightarrow> ('x, 'c) Keepers \<Rightarrow> string \<Rightarrow> 'x ClaimsState \<Rightarrow> 'x ClaimsState" where
  "ClawbackEmptyAccounts C K claimsDenom st =
     (let (x, addresses) = IterateClaimsRecords
            (\<lambda>addr _ (x, addresses). (False, clawbackAccount C K claimsDenom addr x, addresses @ [addr])) st (cmSdk st, [])
      in fold DeleteClaimsRecord addresses (st\<lparr>cmSdk := x\<rparr>))"

definition EndAirdrop :: "'c Coins \<Rightarrow> ('x, 'c) Keepers \<Rightarrow> ClaimsParams \<Rightarrow> 'x ClaimsState \<Rightarrow> string + 'x ClaimsState" where
  "EndAirdrop C K params st =
     rbind (ClawbackEscrowedTokens C K (cmSdk st)) (\<lambda>x.
       let st = ClawbackEmptyAccounts C K (ClaimsDenom params) (st\<lparr>cmSdk := x\<rparr>) in
       Inr (cm_SetParams (params\<lparr>EnableClaims := False\<rparr>) st))"

definition cm_EndBlocker :: "'c Coins \<Rightarrow> ('x, 'c) Keepers \<Rightarrow> int \<Rightarrow> 'x ClaimsState \<Rightarrow> panic + 'x ClaimsState" where
  "cm_EndBlocker C K blockTime st =
     (let params = cm_GetParams st in
      if \<not> EnableClaims params then Inr st
      else
        let elapsedAirdropTime = timeSub blockTime (AirdropStartTime params) in
        if elapsedAirdropTime \<le> add64 (DurationUntilDecay params) (DurationOfDecay params) then Inr st
        else case EndAirdrop C K params st of Inl e \<Rightarrow> Inl (Panic e) | Inr st' \<Rightarrow> Inr st')"

section \<open>Hooks\<close>

text \<open>A hook claims one action for one address; an error is logged, and what it changed stays.\<close>

definition claimHook ::
    "'c Coins \<Rightarrow> ('x, 'c) Keepers \<Rightarrow> Decs \<Rightarrow> int \<Rightarrow> Action \<Rightarrow> address \<Rightarrow> 'x ClaimsState \<Rightarrow> panic + 'x ClaimsState" where
  "claimHook C K D blockTime action addr st =
     (let params = cm_GetParams st in
      case GetClaimsRecord st addr of
        None \<Rightarrow> Inr st
      | Some claimsRecord \<Rightarrow>
          rbind (ClaimCoinsForAction C K D blockTime addr claimsRecord action params st) (\<lambda>(_, st'). Inr st'))"

definition AfterProposalVote ::
    "'c Coins \<Rightarrow> ('x, 'c) Keepers \<Rightarrow> Decs \<Rightarrow> int \<Rightarrow> address \<Rightarrow> 'x ClaimsState \<Rightarrow> panic + 'x ClaimsState" where
  "AfterProposalVote C K D blockTime voterAddr st = claimHook C K D blockTime ActionVote voterAddr st"

definition AfterDelegationModified ::
    "'c Coins \<Rightarrow> ('x, 'c) Keepers \<Rightarrow> Decs \<Rightarrow> int \<Rightarrow> address \<Rightarrow> 'x ClaimsState \<Rightarrow> panic + 'x ClaimsState" where
  "AfterDelegationModified C K D blockTime delAddr st = claimHook C K D blockTime ActionDelegate delAddr st"

definition cm_PostTxProcessing ::
    "'c Coins \<Rightarrow> ('x, 'c) Keepers \<Rightarrow> Decs \<Rightarrow> int \<Rightarrow> address \<Rightarrow> 'x ClaimsState \<Rightarrow> panic + 'x ClaimsState" where
  "cm_PostTxProcessing C K D blockTime fromAddr st = claimHook C K D blockTime ActionEVM fromAddr st"

section \<open>IBC callbacks\<close>

definition IBCTriggerAmt :: string where "IBCTriggerAmt = ''63743''"

text \<open>The callback returns an error, if any, with the state.\<close>

definition cm_OnAcknowledgementPacket ::
    "'c Coins \<Rightarrow> ('x, 'c) Keepers \<Rightarrow> Decs \<Rightarrow> IbcLib \<Rightarrow> int \<Rightarrow> Packet \<Rightarrow> bytes \<Rightarrow> 'x ClaimsState \<Rightarrow>
      panic + string option \<times> 'x ClaimsState" where
  "cm_OnAcknowledgementPacket C K D T blockTime packet acknowledgement st =
     (let params = cm_GetParams st in
      if \<not> IsClaimsActive params blockTime then Inr (None, st)
      else case UnmarshalAcknowledgement T acknowledgement of
        Inl _ \<Rightarrow> Inr (Some ''cannot unmarshal ICS-20 transfer packet acknowledgement'', st)
      | Inr success \<Rightarrow>
          if \<not> success then Inr (None, st)
          else case GetTransferSenderRecipient T packet of
            Inl e \<Rightarrow> Inr (Some e, st)
          | Inr (sender, _, _, _) \<Rightarrow>
              (case GetClaimsRecord st sender of
                 None \<Rightarrow> Inr (None, st)
               | Some claimsRecord \<Rightarrow>
                   rbind (ClaimCoinsForAction C K D blockTime sender claimsRecord ActionIBCTransfer params st)
                     (\<lambda>(r, st'). Inr (case r of Inl e \<Rightarrow> Some e | Inr _ \<Rightarrow> None, st'))))"

text \<open>
  \<^verbatim>\<open>OnRecvPacket\<close> returns the acknowledgement it was given (\<open>None\<close>) or an error acknowledgement (\<open>Some\<close>).
  The last part, after the checks, is the switch over the two records.
\<close>

definition receiveClaims ::
    "'c Coins \<Rightarrow> ('x, 'c) Keepers \<Rightarrow> Decs \<Rightarrow> int \<Rightarrow> ClaimsParams \<Rightarrow> address \<Rightarrow> address \<Rightarrow> bool \<Rightarrow> bool \<Rightarrow> 'x ClaimsState \<Rightarrow>
      panic + string option \<times> 'x ClaimsState" where
  "receiveClaims C K D blockTime params sender recipient fromEVMChain isTriggerAmt st =
     (let sameAddress = (sender = recipient) in
      case (GetClaimsRecord st sender, GetClaimsRecord st recipient) of
        (Some sr, Some rr) \<Rightarrow>
          if \<not> sameAddress \<and> isTriggerAmt then
            rbind (MergeClaimsRecords C K D blockTime recipient sr rr params st) (\<lambda>(r, st').
              case r of
                Inl e \<Rightarrow> Inr (Some e, st')
              | Inr merged \<Rightarrow> Inr (None, DeleteClaimsRecord sender (SetClaimsRecord recipient merged st')))
          else if sameAddress \<and> fromEVMChain then
            rbind (ClaimCoinsForAction C K D blockTime recipient rr ActionIBCTransfer params st)
              (\<lambda>(r, st'). Inr (case r of Inl e \<Rightarrow> Some e | Inr _ \<Rightarrow> None, st'))
          else Inr (None, st)
      | (Some sr, None) \<Rightarrow>
          if isTriggerAmt then
            rbind (ClaimCoinsForAction C K D blockTime recipient sr ActionIBCTransfer params st) (\<lambda>(r, st').
              case r of
                Inl e \<Rightarrow> Inr (Some e, st')
              | Inr claimedAmt \<Rightarrow> Inr (None, if claimedAmt = 0 then st' else DeleteClaimsRecord sender st'))
          else Inr (None, st)
      | (None, Some rr) \<Rightarrow>
          rbind (ClaimCoinsForAction C K D blockTime recipient rr ActionIBCTransfer params st)
            (\<lambda>(r, st'). Inr (case r of Inl e \<Rightarrow> Some e | Inr _ \<Rightarrow> None, st'))
      | (None, None) \<Rightarrow> Inr (None, st))"

definition cm_OnRecvPacket ::
    "'c Coins \<Rightarrow> ('x, 'c) Keepers \<Rightarrow> Decs \<Rightarrow> IbcLib \<Rightarrow> int \<Rightarrow> Packet \<Rightarrow> 'x ClaimsState \<Rightarrow> panic + string option \<times> 'x ClaimsState" where
  "cm_OnRecvPacket C K D T blockTime packet st =
     (let params = cm_GetParams st in
      if \<not> IsClaimsActive params blockTime then Inr (None, st)
      else case GetTransferSenderRecipient T packet of
        Inl e \<Rightarrow> Inr (Some e, st)
      | Inr (sender, recipient, _, _) \<Rightarrow>
          if BlockedAddr K sender \<or> BlockedAddr K recipient then Inr (Some ''address are in the deny list'', st)
          else
            let senderRecord = GetClaimsRecord st sender;
                sameAddress = (sender = recipient); fromEVMChain = IsEVMChannel params (DestinationChannel packet)
            in if (case senderRecord of None \<Rightarrow> False | Some sr \<Rightarrow> HasClaimedAction sr ActionIBCTransfer) then Inr (None, st)
            else if sameAddress \<and> \<not> fromEVMChain then
              (case senderRecord of
                 Some sr \<Rightarrow> if \<not> HasClaimedAny sr then Inr (Some ''receiver address is not a valid ethereum address'', st) else Inr (None, st)
               | None \<Rightarrow> Inr (None, st))
            else if \<not> IsAuthorizedChannel params (DestinationChannel packet) then Inr (None, st)
            else case GetTransferAmount T packet of
              Inl e \<Rightarrow> Inr (Some e, st)
            | Inr amt \<Rightarrow> receiveClaims C K D blockTime params sender recipient fromEVMChain (amt = IBCTriggerAmt) st)"

text \<open>The middleware runs the wrapped module first; an error acknowledgement ends the callback.\<close>

definition cm_MiddlewareRecv ::
    "'c Coins \<Rightarrow> ('x, 'c) Keepers \<Rightarrow> Decs \<Rightarrow> IbcLib \<Rightarrow> ('x ClaimsState \<Rightarrow> panic + string option \<times> 'x ClaimsState) \<Rightarrow>
      int \<Rightarrow> Packet \<Rightarrow> 'x ClaimsState \<Rightarrow> panic + string option \<times> 'x ClaimsState" where
  "cm_MiddlewareRecv C K D T inner blockTime packet st =
     rbind (inner st) (\<lambda>(ack, st'). if ack \<noteq> None then Inr (ack, st') else cm_OnRecvPacket C K D T blockTime packet st')"

definition cm_MiddlewareAck ::
    "'c Coins \<Rightarrow> ('x, 'c) Keepers \<Rightarrow> Decs \<Rightarrow> IbcLib \<Rightarrow> ('x ClaimsState \<Rightarrow> panic + string option \<times> 'x ClaimsState) \<Rightarrow>
      int \<Rightarrow> Packet \<Rightarrow> bytes \<Rightarrow> 'x ClaimsState \<Rightarrow> panic + string option \<times> 'x ClaimsState" where
  "cm_MiddlewareAck C K D T inner blockTime packet acknowledgement st =
     rbind (inner st) (\<lambda>(err, st'). if err \<noteq> None then Inr (err, st')
       else cm_OnAcknowledgementPacket C K D T blockTime packet acknowledgement st')"

section \<open>Messages, genesis and queries\<close>

text \<open>The channel keeper of ibc-go tells whether a channel of the transfer port exists and is open.\<close>

definition checkIfChannelOpen :: "('x \<Rightarrow> string \<Rightarrow> bool option) \<Rightarrow> 'x \<Rightarrow> string \<Rightarrow> string option" where
  "checkIfChannelOpen getChannel x channelID =
     (case getChannel x channelID of
        None \<Rightarrow> Some ''not found in the channel keeper''
      | Some isOpen \<Rightarrow> if \<not> isOpen then Some ''not in the OPEN state'' else None)"

definition cm_UpdateParams ::
    "('x \<Rightarrow> string \<Rightarrow> bool option) \<Rightarrow> string \<Rightarrow> string \<Rightarrow> ClaimsParams \<Rightarrow> 'x ClaimsState \<Rightarrow> string + 'x ClaimsState" where
  "cm_UpdateParams getChannel authority reqAuthority params st =
     (if authority \<noteq> reqAuthority then Inl ''invalid authority''
      else if list_ex (\<lambda>c. checkIfChannelOpen getChannel (cmSdk st) c \<noteq> None) (AuthorizedChannels params) then Inl ''invalid authorized channel''
      else if list_ex (\<lambda>c. checkIfChannelOpen getChannel (cmSdk st) c \<noteq> None) (EVMChannels params) then Inl ''invalid evm channel''
      else Inr (cm_SetParams params st))"

definition cm_ValidateBasic ::
    "(string \<Rightarrow> string option) \<Rightarrow> (string \<Rightarrow> string option) \<Rightarrow> Bech32 \<Rightarrow> string \<Rightarrow> ClaimsParams \<Rightarrow> string option" where
  "cm_ValidateBasic validateDenom channelValidator B authority params =
     (if badAddress B authority then Some ''invalid authority address'' else cm_Validate validateDenom channelValidator params)"

record ClaimsGenesis =
  cmgParams :: ClaimsParams
  cmgRecords :: "ClaimsRecordAddress list"

definition cm_DefaultGenesis :: "string \<Rightarrow> ClaimsGenesis" where
  "cm_DefaultGenesis baseDenom = \<lparr>cmgParams = cm_DefaultParams baseDenom, cmgRecords = []\<rparr>"

fun recordErrors :: "Bech32 \<Rightarrow> string set \<Rightarrow> ClaimsRecordAddress list \<Rightarrow> string option" where
  "recordErrors B seenClaims [] = None"
| "recordErrors B seenClaims (cra # rest) =
     (if craAddress cra \<in> seenClaims then Some ''duplicated claims record entry''
      else case cra_Validate B cra of
        Some e \<Rightarrow> Some e
      | None \<Rightarrow> recordErrors B (insert (craAddress cra) seenClaims) rest)"

definition cm_GenesisValidate ::
    "(string \<Rightarrow> string option) \<Rightarrow> (string \<Rightarrow> string option) \<Rightarrow> Bech32 \<Rightarrow> ClaimsGenesis \<Rightarrow> string option" where
  "cm_GenesisValidate validateDenom channelValidator B gs =
     (case recordErrors B {} (cmgRecords gs) of
        Some e \<Rightarrow> Some e | None \<Rightarrow> cm_Validate validateDenom channelValidator (cmgParams gs))"

text \<open>The sum of the unclaimed amounts that \<^verbatim>\<open>InitGenesis\<close> computes is not used by it.\<close>

definition importClaim :: "Bech32 \<Rightarrow> ClaimsRecordAddress \<Rightarrow> 'x ClaimsState \<Rightarrow> failure + 'x ClaimsState" where
  "importClaim B cra st =
     rbind (MustAccAddressFromBech32 B (craAddress cra)) (\<lambda>addr.
       if length (craActions cra) \<noteq> 4 then Inl (Panicked (Panic ''invalid actions completed length''))
       else case craInitial cra of
         None \<Rightarrow> Inl (Panicked NilDereference)
       | Some n \<Rightarrow> Inr (SetClaimsRecord addr \<lparr>InitialClaimableAmount = Some n, ActionsCompleted = craActions cra\<rparr> st))"

definition cm_InitGenesis :: "Bech32 \<Rightarrow> bool \<Rightarrow> int \<Rightarrow> ClaimsGenesis \<Rightarrow> 'x ClaimsState \<Rightarrow> failure + 'x ClaimsState" where
  "cm_InitGenesis B moduleAccountSet blockTime data st =
     (if \<not> moduleAccountSet then Inl (Panicked (Panic ''the claim module account has not been set''))
      else
        let params = cmgParams data;
            params = (if AirdropStartTime params = zeroTime then params\<lparr>AirdropStartTime := blockTime\<rparr> else params)
        in foldM (importClaim B) (cmgRecords data) (cm_SetParams params st))"

definition cm_ExportGenesis :: "Bech32 \<Rightarrow> 'x ClaimsState \<Rightarrow> ClaimsGenesis" where
  "cm_ExportGenesis B st = \<lparr>cmgParams = cm_GetParams st, cmgRecords = GetClaimsRecords B st\<rparr>"

definition TotalUnclaimed :: "('x, 'c) Keepers \<Rightarrow> 'x ClaimsState \<Rightarrow> 'c" where
  "TotalUnclaimed K st = GetModuleAccountBalances K st"

definition cm_QueryParams :: "'x ClaimsState \<Rightarrow> ClaimsParams" where
  "cm_QueryParams st = cm_GetParams st"

definition cm_QueryClaimsRecords ::
    "Bech32 \<Rightarrow> ((address \<times> ClaimsRecord) list \<Rightarrow> 'p \<Rightarrow> string + (address \<times> ClaimsRecord) list \<times> 'q) \<Rightarrow> 'p option \<Rightarrow>
      'x ClaimsState \<Rightarrow> string + ClaimsRecordAddress list \<times> 'q" where
  "cm_QueryClaimsRecords B Paginate req st =
     (case req of
        None \<Rightarrow> Inl ''empty request''
      | Some pagination \<Rightarrow>
          rbind (Paginate (claimEntries st) pagination) (\<lambda>(es, pageRes). Inr (map (\<lambda>(a, cr). recordAddress B a cr) es, pageRes)))"

text \<open>The query returns for each action whether it is completed and the claimable amount.\<close>

definition cm_QueryClaimsRecord ::
    "Bech32 \<Rightarrow> Decs \<Rightarrow> int \<Rightarrow> string option \<Rightarrow> 'x ClaimsState \<Rightarrow> failure + int option \<times> (Action \<times> bool \<times> int) list" where
  "cm_QueryClaimsRecord B D blockTime req st =
     (case req of
        None \<Rightarrow> Inl (Err ''empty request'')
      | Some s \<Rightarrow>
          rbind (failing (AccAddressFromBech32 B s)) (\<lambda>addr.
            case GetClaimsRecord st addr of
              None \<Rightarrow> Inl (Err ''claims record for address'')
            | Some cr \<Rightarrow>
                rbind (foldM (\<lambda>action claims.
                    rbind (panicking (ClaimableAmountForAction D blockTime cr action (cm_GetParams st))) (\<lambda>(claimableAmt, _).
                      Inr (claims @ [(action, HasClaimedAction cr action, claimableAmt)])))
                  [ActionVote, ActionDelegate, ActionEVM, ActionIBCTransfer] [])
                (\<lambda>claims. Inr (InitialClaimableAmount cr, claims))))"

section \<open>Amounts of a claim\<close>

lemma intQuo_div: "0 \<le> n \<Longrightarrow> intQuo n 4 = n div 4"
  by (simp add: intQuo_def sgn_if)

lemma record_cases:
  assumes "cr_Validate cr = None"
  obtains n b1 b2 b3 b4 where "cr = \<lparr>InitialClaimableAmount = Some n, ActionsCompleted = [b1, b2, b3, b4]\<rparr>" "0 < n"
proof -
  obtain n where n: "InitialClaimableAmount cr = Some n" "0 < n" "length (ActionsCompleted cr) = 4"
    using assms by (auto simp: cr_Validate_def split: option.splits if_splits)
  from n(3) obtain b1 b2 b3 b4 where "ActionsCompleted cr = [b1, b2, b3, b4]"
    by (auto simp: length_Suc_conv numeral_eq_Suc)
  then show ?thesis using that n(1,2) by (metis ClaimsRecord.surjective unit.exhaust)
qed

lemma action_cases:
  assumes "\<not> (action = ActionUnspecified \<or> action > ActionIBCTransfer)"
  obtains "action = 1" | "action = 2" | "action = 3" | "action = 4"
  using assms by (fastforce simp: action_defs)

context sdk_dec
begin

lemma RoundInt_between: "0 \<le> a \<Longrightarrow> a \<le> n * dec_one \<Longrightarrow> 0 \<le> DRoundInt D a \<and> DRoundInt D a \<le> n"
proof -
  assume a: "0 \<le> a" "a \<le> n * dec_one"
  have "- 1 * dec_one < DRoundInt D a * dec_one" "DRoundInt D a * dec_one < (n + 1) * dec_one"
    using near [OF RoundInt_near dec_one_pos(1), of a] a by (simp_all add: distrib_right)
  then show ?thesis by (simp only: mult_less_cancel_right_pos dec_one_pos) linarith
qed

lemma decay_ratio:
  assumes "0 < dur" and "0 \<le> e" and "e \<le> dur"
  shows "DQuoInt D (NewDec e) dur = Inr (NewDec e div dur)" "0 \<le> NewDec e div dur" "NewDec e div dur \<le> dec_one"
proof -
  have e: "0 \<le> NewDec e" using assms(2) by (simp add: NewDec_def)
  then show "DQuoInt D (NewDec e) dur = Inr (NewDec e div dur)" by (rule QuoInt_ok) (rule assms(1))
  show "0 \<le> NewDec e div dur" using e assms(1) by (simp add: pos_imp_zdiv_nonneg_iff)
  have "NewDec e \<le> dec_one * dur" using assms(3) by (simp add: NewDec_def mult.commute)
  then show "NewDec e div dur \<le> dec_one" using assms(1) zdiv_mono1 [of "NewDec e" "dec_one * dur" dur] by simp
qed

text \<open>While the airdrop is active a claim and its remainder make up a quarter of the record.\<close>

lemma claimable_split:
  assumes "GetClaimableAmountForAction D now cr action p = Inr (c, r)" and "InitialClaimableAmount cr = Some n" and "0 \<le> n"
    and "0 < DurationOfDecay p"
  shows "0 \<le> c \<and> 0 \<le> r \<and> (c + r = n div 4 \<or> c = 0 \<and> r = 0) \<and>
    (IsClaimsActive p now \<and> \<not> HasClaimedAction cr action \<longrightarrow> c + r = n div 4)"
proof (cases "IsClaimsActive p now \<and> n \<noteq> 0 \<and> \<not> HasClaimedAction cr action \<and> now > DecayStartTime p")
  case False
  then show ?thesis
    using assms by (auto simp: GetClaimableAmountForAction_def ClaimableAmountForAction_def intQuo_div pos_imp_zdiv_nonneg_iff
        Let_def split: if_splits)
next
  case True
  define e where "e = timeSub now (DecayStartTime p)"
  have e: "0 \<le> e" "e \<le> DurationOfDecay p"
    using True by (auto simp: e_def timeSub_def IsClaimsActive_def AirdropEndTime_def DecayStartTime_def)
  note q = decay_ratio [OF assms(4) e]
  define ratio where "ratio = dec_one - NewDec e div DurationOfDecay p"
  have ratio: "0 \<le> ratio" "ratio \<le> dec_one" using q by (simp_all add: ratio_def)
  obtain a where a: "DMulInt D ratio (n div 4) = Inr a" "c = DRoundInt D a" "r = n div 4 - c"
    using assms True q(1) by (auto simp: GetClaimableAmountForAction_def ClaimableAmountForAction_def Let_def e_def [symmetric]
        ratio_def intQuo_div)
  have n: "0 \<le> n div 4" using assms(3) by simp
  have "a = ratio * (n div 4)" by (rule MulInt_exact [OF a(1)])
  then have "0 \<le> a" "a \<le> (n div 4) * dec_one" using ratio n mult_right_mono [OF ratio(2) n] by (simp_all add: mult.commute)
  from RoundInt_between [OF this] a show ?thesis by auto
qed

lemma claimable_total:
  assumes "InitialClaimableAmount cr = Some n" and "0 \<le> n" and "n < 2 ^ 240" and "0 < DurationOfDecay p"
  shows "\<exists>v. GetClaimableAmountForAction D now cr action p = Inr v"
proof (cases "IsClaimsActive p now \<and> n \<noteq> 0 \<and> \<not> HasClaimedAction cr action \<and> now > DecayStartTime p")
  case False
  then show ?thesis
    using assms by (auto simp: GetClaimableAmountForAction_def ClaimableAmountForAction_def Let_def split: if_splits)
next
  case True
  define e where "e = timeSub now (DecayStartTime p)"
  have e: "0 \<le> e" "e \<le> DurationOfDecay p"
    using True by (auto simp: e_def timeSub_def IsClaimsActive_def AirdropEndTime_def DecayStartTime_def)
  note q = decay_ratio [OF assms(4) e]
  define ratio where "ratio = dec_one - NewDec e div DurationOfDecay p"
  have ratio: "0 \<le> ratio" "ratio \<le> dec_one" using q by (simp_all add: ratio_def)
  have "\<bar>ratio * (n div 4)\<bar> \<le> dec_one * (n div 4)" using ratio assms(2) by (simp add: abs_mult mult_right_mono)
  also have "\<dots> \<le> dec_one * 2 ^ 240" using assms(2,3) by (intro mult_left_mono) auto
  also have "\<dots> < 2 ^ 300" by (simp add: dec_one_def)
  finally have "DMulInt D ratio (n div 4) = Inr (ratio * (n div 4))" by (rule MulInt_ok)
  then show ?thesis
    using assms True q(1) by (simp add: GetClaimableAmountForAction_def ClaimableAmountForAction_def Let_def e_def [symmetric]
        ratio_def intQuo_div)
qed

end
section \<open>The escrow covers the records\<close>

text \<open>Four times what a record may still cost, and the sum over all records.\<close>

definition unclaimed :: "ClaimsRecord \<Rightarrow> int" where
  "unclaimed cr = int (length (filter Not (ActionsCompleted cr)))"

definition owed :: "ClaimsRecord \<Rightarrow> int" where
  "owed cr = (case InitialClaimableAmount cr of None \<Rightarrow> 0 | Some n \<Rightarrow> n * unclaimed cr)"

definition owed_at :: "(address, ClaimsRecord) fmap \<Rightarrow> address \<Rightarrow> int" where
  "owed_at m a = (case fmlookup m a of None \<Rightarrow> 0 | Some cr \<Rightarrow> owed cr)"

definition owed_total :: "(address, ClaimsRecord) fmap \<Rightarrow> int" where
  "owed_total m = (\<Sum>a\<in>fset (fmdom m). owed_at m a)"

lemma owed_at_upd [simp]: "owed_at (fmupd a cr m) b = (if b = a then owed cr else owed_at m b)"
  by (simp add: owed_at_def)

lemma owed_at_drop [simp]: "owed_at (fmdrop a m) b = (if b = a then 0 else owed_at m b)"
  by (simp add: owed_at_def)

lemma owed_total_remove: "owed_total m = owed_at m a + (\<Sum>b\<in>fset (fmdom m) - {a}. owed_at m b)"
proof (cases "a \<in> fset (fmdom m)")
  case True
  then show ?thesis unfolding owed_total_def by (simp add: sum.remove)
next
  case False
  then have "owed_at m a = 0" by (simp add: owed_at_def fmdom_notD)
  then show ?thesis using False by (simp add: owed_total_def)
qed

lemma owed_total_upd: "owed_total (fmupd a cr m) = owed_total m - owed_at m a + owed cr"
proof -
  have "(\<Sum>b\<in>fset (fmdom (fmupd a cr m)) - {a}. owed_at (fmupd a cr m) b) = (\<Sum>b\<in>fset (fmdom m) - {a}. owed_at m b)"
    by (rule sum.cong) auto
  then show ?thesis using owed_total_remove [of m a] owed_total_remove [of "fmupd a cr m" a] by simp
qed

lemma owed_total_drop: "owed_total (fmdrop a m) = owed_total m - owed_at m a"
proof -
  have "(\<Sum>b\<in>fset (fmdom (fmdrop a m)) - {a}. owed_at (fmdrop a m) b) = (\<Sum>b\<in>fset (fmdom m) - {a}. owed_at m b)"
    by (rule sum.cong) (auto simp: fmlookup_dom_iff)
  then show ?thesis using owed_total_remove [of m a] owed_total_remove [of "fmdrop a m" a] by simp
qed

lemma owed_total_empty [simp]: "owed_total fmempty = 0"
  by (simp add: owed_total_def)

text \<open>Marking an action takes a quarter off what is owed.\<close>

lemma owed_MarkClaimed:
  assumes "cr_Validate cr = None" and "InitialClaimableAmount cr = Some n"
    and "\<not> (action = ActionUnspecified \<or> action > ActionIBCTransfer)" and "\<not> HasClaimedAction cr action"
  shows "owed (MarkClaimed action cr) = owed cr - n" "cr_Validate (MarkClaimed action cr) = None"
    "InitialClaimableAmount (MarkClaimed action cr) = Some n"
proof -
  obtain b1 b2 b3 b4 where cr: "cr = \<lparr>InitialClaimableAmount = Some n, ActionsCompleted = [b1, b2, b3, b4]\<rparr>" "0 < n"
    using record_cases [OF assms(1)] assms(2) by (metis ClaimsRecord.select_convs(1) option.inject)
  have "owed (MarkClaimed action cr) = owed cr - n \<and> cr_Validate (MarkClaimed action cr) = None \<and>
      InitialClaimableAmount (MarkClaimed action cr) = Some n"
    using assms(3)
    by (cases rule: action_cases) (use assms(4) cr(2) in \<open>auto simp: cr(1) owed_def unclaimed_def MarkClaimed_def HasClaimedAction_def
        cr_Validate_def action_defs algebra_simps\<close>)
  then show "owed (MarkClaimed action cr) = owed cr - n" "cr_Validate (MarkClaimed action cr) = None"
    "InitialClaimableAmount (MarkClaimed action cr) = Some n" by blast+
qed

lemma owed_nonneg: "cr_Validate cr = None \<Longrightarrow> 0 \<le> owed cr"
  by (auto simp: cr_Validate_def owed_def unclaimed_def split: option.splits if_splits)
definition escrow_ok :: "('x, 'c) Keepers \<Rightarrow> string \<Rightarrow> 'x ClaimsState \<Rightarrow> bool" where
  "escrow_ok K denom st \<longleftrightarrow>
     (\<forall>a cr. GetClaimsRecord st a = Some cr \<longrightarrow> cr_Validate cr = None) \<and>
     owed_total (cmRecords st) \<le> 4 * BankBalance K (cmSdk st) (GetModuleAccountAddress K) denom"

lemma escrow_ok_record: "escrow_ok K denom st \<Longrightarrow> GetClaimsRecord st a = Some cr \<Longrightarrow> cr_Validate cr = None"
  by (simp add: escrow_ok_def)

lemma owed_at_le:
  assumes "\<forall>a cr. fmlookup m a = Some cr \<longrightarrow> cr_Validate cr = None"
  shows "0 \<le> owed_at m a" "owed_at m a \<le> owed_total m"
proof -
  have nn: "0 \<le> owed_at m b" for b
    using assms owed_nonneg by (auto simp: owed_at_def split: option.splits)
  then show "0 \<le> owed_at m a" .
  have "0 \<le> (\<Sum>b\<in>fset (fmdom m) - {a}. owed_at m b)" by (rule sum_nonneg) (rule nn)
  then show "owed_at m a \<le> owed_total m" using owed_total_remove [of m a] by simp
qed

text \<open>A record with an open action can be paid from the escrow.\<close>

lemma escrow_covers:
  assumes "escrow_ok K denom st" and "GetClaimsRecord st a = Some cr" and "InitialClaimableAmount cr = Some n"
    and "\<not> (action = ActionUnspecified \<or> action > ActionIBCTransfer)" and "\<not> HasClaimedAction cr action"
  shows "n div 4 \<le> BankBalance K (cmSdk st) (GetModuleAccountAddress K) denom"
proof -
  have v: "cr_Validate cr = None" by (rule escrow_ok_record [OF assms(1,2)])
  have "0 \<le> owed cr - n" using owed_MarkClaimed(1,2) [OF v assms(3-5)] owed_nonneg by metis
  moreover have "owed cr \<le> owed_total (cmRecords st)"
    using owed_at_le(2) [of "cmRecords st" a] assms(1,2) by (simp add: escrow_ok_def GetClaimsRecord_def owed_at_def)
  ultimately have "n \<le> 4 * BankBalance K (cmSdk st) (GetModuleAccountAddress K) denom"
    using assms(1) by (simp add: escrow_ok_def)
  then show ?thesis by simp
qed

locale claims_keepers = sdk_keepers C K keccak + sdk_dec D
  for C :: "'c Coins" and K :: "('x, 'c) Keepers" and keccak :: "bytes \<Rightarrow> hash" and D :: Decs +
  assumes Fund_total: "(\<And>d. AmountOf C c d \<le> BankBalance K x a d) \<Longrightarrow> \<exists>x'. FundCommunityPool K x c a = Inr x'"
begin

lemma balance_nonneg: "0 \<le> BankBalance K x a d"
  using AllBalances_law [of x a d] AmountOf_nonneg by metis

text \<open>A claim changes nothing, or pays at most a quarter and marks the action.\<close>

lemma claim_effect:
  assumes "ClaimCoinsForAction C K D now addr cr action p st = Inr (res, st')"
    and "escrow_ok K (ClaimsDenom p) st" and "GetClaimsRecord st a = Some cr" and "InitialClaimableAmount cr = Some n"
    and "0 < DurationOfDecay p"
  shows "st' = st \<and> (res = Inr 0 \<or> isl res) \<or>
    (\<exists>c. res = Inr c \<and> 0 < c \<and> c \<le> n div 4 \<and> \<not> (action = ActionUnspecified \<or> action > ActionIBCTransfer) \<and>
      \<not> HasClaimedAction cr action \<and> cmParams st' = cmParams st \<and>
      cmRecords st' = fmupd addr (MarkClaimed action cr) (cmRecords st) \<and>
      BankBalance K (cmSdk st) (GetModuleAccountAddress K) (ClaimsDenom p) - n div 4
        \<le> BankBalance K (cmSdk st') (GetModuleAccountAddress K) (ClaimsDenom p))"
proof (cases "(action = ActionUnspecified \<or> action > ActionIBCTransfer) \<or> \<not> IsClaimsActive p now \<or> HasClaimedAction cr action")
  case True
  then show ?thesis using assms(1) by (auto simp: ClaimCoinsForAction_def split: if_splits)
next
  case False
  then have act: "\<not> (action = ActionUnspecified \<or> action > ActionIBCTransfer)" "IsClaimsActive p now" "\<not> HasClaimedAction cr action" by auto
  have n: "0 \<le> n" using escrow_ok_record [OF assms(2,3)] assms(4) by (auto simp: cr_Validate_def split: if_splits)
  obtain c r where cr: "GetClaimableAmountForAction D now cr action p = Inr (c, r)"
    using assms(1) act by (auto simp: ClaimCoinsForAction_def)
  have amt: "0 \<le> c" "0 \<le> r" "c + r = n div 4" using claimable_split [OF cr assms(4) n assms(5)] act by auto
  let ?m = "GetModuleAccountAddress K" and ?d = "ClaimsDenom p"
  have bal: "n div 4 \<le> BankBalance K (cmSdk st) ?m ?d" by (rule escrow_covers [OF assms(2-4) act(1,3)])
  show ?thesis
  proof (cases "c = 0 \<or> isl (SendCoinsFromModuleToAccount K (cmSdk st) claimsModule addr (RawCoins C [(?d, c)]))")
    case True
    then show ?thesis using assms(1) act cr by (auto simp: ClaimCoinsForAction_def split: sum.splits if_splits)
  next
    case False
    then obtain x where x: "SendCoinsFromModuleToAccount K (cmSdk st) claimsModule addr (RawCoins C [(?d, c)]) = Inr x"
      by (cases "SendCoinsFromModuleToAccount K (cmSdk st) claimsModule addr (RawCoins C [(?d, c)])") auto
    have b1: "BankBalance K (cmSdk st) ?m ?d - c \<le> BankBalance K x ?m ?d"
      using transferred_balance [OF ModuleToAccount_law [OF x], of ?m ?d] amt(1) AmountOf_RawCoins [OF amt(1)]
      by (simp add: at_addr_def GetModuleAccountAddress_def)
    show ?thesis
    proof (cases "r = 0")
      case True
      then have "res = Inr c" "st' = SetClaimsRecord addr (MarkClaimed action cr) (st\<lparr>cmSdk := x\<rparr>)"
        using assms(1) act cr x False by (simp_all add: ClaimCoinsForAction_def)
      then show ?thesis using False amt True b1 act by (simp add: SetClaimsRecord_def)
    next
      case rem: False
      have "AmountOf C (RawCoins C [(?d, r)]) d \<le> BankBalance K x ?m d" for d
        using AmountOf_RawCoins [OF amt(2)] b1 bal amt balance_nonneg by auto
      then obtain y where y: "FundCommunityPool K x (RawCoins C [(?d, r)]) ?m = Inr y" using Fund_total by blast
      have b2: "BankBalance K x ?m ?d - r \<le> BankBalance K y ?m ?d"
        using transferred_balance [OF Fund_law [OF y], of ?m ?d] amt(2) AmountOf_RawCoins [OF amt(2)] by (simp add: at_addr_def)
      have "res = Inr c" "st' = SetClaimsRecord addr (MarkClaimed action cr) (st\<lparr>cmSdk := x, cmSdk := y\<rparr>)"
        using assms(1) act cr x y False rem by (simp_all add: ClaimCoinsForAction_def)
      then show ?thesis using False amt b1 b2 act by (simp add: SetClaimsRecord_def)
    qed
  qed
qed

end
context claims_keepers
begin

lemma claim_keeps_escrow:
  assumes "ClaimCoinsForAction C K D now addr cr action p st = Inr (res, st')" and "escrow_ok K (ClaimsDenom p) st"
    and "GetClaimsRecord st addr = Some cr" and "0 < DurationOfDecay p"
  shows "escrow_ok K (ClaimsDenom p) st' \<and> cmParams st' = cmParams st"
proof -
  have v: "cr_Validate cr = None" by (rule escrow_ok_record [OF assms(2,3)])
  obtain n where n: "InitialClaimableAmount cr = Some n" using v by (auto simp: cr_Validate_def split: option.splits)
  from claim_effect [OF assms(1-3) n assms(4)] show ?thesis
  proof (elim disjE exE)
    fix c assume c: "res = Inr c \<and> 0 < c \<and> c \<le> n div 4 \<and> \<not> (action = ActionUnspecified \<or> action > ActionIBCTransfer) \<and>
      \<not> HasClaimedAction cr action \<and> cmParams st' = cmParams st \<and>
      cmRecords st' = fmupd addr (MarkClaimed action cr) (cmRecords st) \<and>
      BankBalance K (cmSdk st) (GetModuleAccountAddress K) (ClaimsDenom p) - n div 4
        \<le> BankBalance K (cmSdk st') (GetModuleAccountAddress K) (ClaimsDenom p)"
    then have m: "owed (MarkClaimed action cr) = owed cr - n" "cr_Validate (MarkClaimed action cr) = None"
      using owed_MarkClaimed [OF v n] by simp_all
    have "owed_total (cmRecords st') = owed_total (cmRecords st) - n"
      using c m(1) assms(3) by (simp add: owed_total_upd owed_at_def GetClaimsRecord_def)
    then show ?thesis
      using c m(2) assms(2) by (auto simp: escrow_ok_def GetClaimsRecord_def)
  qed (use assms(2) in simp)
qed

lemma hook_keeps_escrow:
  assumes "claimHook C K D now action addr st = Inr st'" and "escrow_ok K (ClaimsDenom (cm_GetParams st)) st"
    and "0 < DurationOfDecay (cm_GetParams st)"
  shows "escrow_ok K (ClaimsDenom (cm_GetParams st)) st' \<and> cmParams st' = cmParams st"
proof (cases "GetClaimsRecord st addr")
  case None
  then show ?thesis using assms by (simp add: claimHook_def)
next
  case (Some cr)
  then obtain r where "ClaimCoinsForAction C K D now addr cr action (cm_GetParams st) st = Inr (r, st')"
    using assms(1) by (auto simp: claimHook_def)
  from claim_keeps_escrow [OF this assms(2) Some assms(3)] show ?thesis .
qed

lemma ack_keeps_escrow:
  assumes "cm_OnAcknowledgementPacket C K D T now packet ack st = Inr (e, st')" and "escrow_ok K (ClaimsDenom (cm_GetParams st)) st"
    and "0 < DurationOfDecay (cm_GetParams st)"
  shows "escrow_ok K (ClaimsDenom (cm_GetParams st)) st' \<and> cmParams st' = cmParams st"
proof -
  from assms(1) have "st' = st \<or> (\<exists>sender cr r. GetClaimsRecord st sender = Some cr \<and>
      ClaimCoinsForAction C K D now sender cr ActionIBCTransfer (cm_GetParams st) st = Inr (r, st'))"
    by (fastforce simp: cm_OnAcknowledgementPacket_def Let_def split: if_splits sum.splits option.splits)
  then show ?thesis using claim_keeps_escrow assms(2,3) by blast
qed

text \<open>A record moves to an address that had none, with the IBC action claimed.\<close>

lemma migrate_keeps_escrow:
  assumes "ClaimCoinsForAction C K D now recipient cr action p st = Inr (Inr c, st')" and "c \<noteq> 0" and "escrow_ok K (ClaimsDenom p) st"
    and "GetClaimsRecord st sender = Some cr" and "GetClaimsRecord st recipient = None" and "0 < DurationOfDecay p"
  shows "escrow_ok K (ClaimsDenom p) (DeleteClaimsRecord sender st') \<and> cmParams st' = cmParams st"
proof -
  have v: "cr_Validate cr = None" by (rule escrow_ok_record [OF assms(3,4)])
  obtain n where n: "InitialClaimableAmount cr = Some n" using v by (auto simp: cr_Validate_def split: option.splits)
  have c: "\<not> (action = ActionUnspecified \<or> action > ActionIBCTransfer)" "\<not> HasClaimedAction cr action" "cmParams st' = cmParams st"
    "cmRecords st' = fmupd recipient (MarkClaimed action cr) (cmRecords st)"
    "BankBalance K (cmSdk st) (GetModuleAccountAddress K) (ClaimsDenom p) - n div 4
        \<le> BankBalance K (cmSdk st') (GetModuleAccountAddress K) (ClaimsDenom p)"
    using claim_effect [OF assms(1,3,4) n assms(6)] assms(2) by auto
  note m = owed_MarkClaimed [OF v n c(1,2)]
  have "sender \<noteq> recipient" using assms(4,5) by auto
  then have "owed_total (fmdrop sender (cmRecords st')) = owed_total (cmRecords st) - n"
    using c(4) m(1) assms(4,5) by (simp add: owed_total_drop owed_total_upd) (simp add: owed_at_def GetClaimsRecord_def)
  then show ?thesis
    using c(3-5) m(2) assms(3) by (auto simp: escrow_ok_def GetClaimsRecord_def DeleteClaimsRecord_def split: if_splits)
qed

text \<open>One action of a merge, for a sender with \<open>s\<close> and a recipient with \<open>r\<close>.\<close>

lemma mergeStep_effect:
  assumes "mergeStep D now sr rr p action (c, q, m) = Inr (c', q', m')"
    and "InitialClaimableAmount sr = Some s" and "InitialClaimableAmount rr = Some r" and "0 \<le> s" and "0 \<le> r" and "0 < DurationOfDecay p"
  shows "\<not> HasClaimedAction sr action" and "c \<le> c'" and "q \<le> q'"
    and "4 * (c' + q') \<le> 4 * (c + q) + (if HasClaimedAction rr action then s else if action = ActionIBCTransfer then s + r else 0)"
    and "m' = (if HasClaimedAction rr action \<or> action = ActionIBCTransfer then MarkClaimed action m else m)"
proof -
  have S: "0 \<le> a \<and> 0 \<le> b \<and> 4 * (a + b) \<le> s" if "GetClaimableAmountForAction D now sr act p = Inr (a, b)" for a b act
    using claimable_split [OF that assms(2,4,6)] assms(4) by auto
  have R: "0 \<le> a \<and> 0 \<le> b \<and> 4 * (a + b) \<le> r" if "GetClaimableAmountForAction D now rr act p = Inr (a, b)" for a b act
    using claimable_split [OF that assms(3,5,6)] assms(5) by auto
  have "\<not> HasClaimedAction sr action \<and> c \<le> c' \<and> q \<le> q' \<and>
    4 * (c' + q') \<le> 4 * (c + q) + (if HasClaimedAction rr action then s else if action = ActionIBCTransfer then s + r else 0) \<and>
    m' = (if HasClaimedAction rr action \<or> action = ActionIBCTransfer then MarkClaimed action m else m)"
    using assms(1) by (auto simp: mergeStep_def split: if_splits dest!: S R)
  then show "\<not> HasClaimedAction sr action" "c \<le> c'" "q \<le> q'"
    "4 * (c' + q') \<le> 4 * (c + q) + (if HasClaimedAction rr action then s else if action = ActionIBCTransfer then s + r else 0)"
    "m' = (if HasClaimedAction rr action \<or> action = ActionIBCTransfer then MarkClaimed action m else m)" by auto
qed

end
context claims_keepers
begin

lemma merge_fold:
  assumes "foldM (mergeStep D now sr rr p) [ActionVote, ActionDelegate, ActionEVM, ActionIBCTransfer] (0, 0, NewClaimsRecord (s + r)) = Inr (c, q, m)"
    and "cr_Validate sr = None" and "cr_Validate rr = None"
    and "InitialClaimableAmount sr = Some s" and "InitialClaimableAmount rr = Some r" and "0 < DurationOfDecay p"
  shows "0 \<le> c \<and> 0 \<le> q \<and> 4 * (c + q) \<le> owed sr + owed rr - owed m \<and> \<not> HasClaimedAny sr \<and>
    m = \<lparr>InitialClaimableAmount = Some (s + r), ActionsCompleted = take 3 (ActionsCompleted rr) @ [True]\<rparr>"
proof -
  obtain b1 b2 b3 b4 where sr: "sr = \<lparr>InitialClaimableAmount = Some s, ActionsCompleted = [b1, b2, b3, b4]\<rparr>" "0 < s"
    using record_cases [OF assms(2)] assms(4) by (metis ClaimsRecord.select_convs(1) option.inject)
  obtain r1 r2 r3 r4 where rr: "rr = \<lparr>InitialClaimableAmount = Some r, ActionsCompleted = [r1, r2, r3, r4]\<rparr>" "0 < r"
    using record_cases [OF assms(3)] assms(5) by (metis ClaimsRecord.select_convs(1) option.inject)
  obtain c1 q1 m1 c2 q2 m2 c3 q3 m3 where
    steps: "mergeStep D now sr rr p ActionVote (0, 0, NewClaimsRecord (s + r)) = Inr (c1, q1, m1)"
      "mergeStep D now sr rr p ActionDelegate (c1, q1, m1) = Inr (c2, q2, m2)"
      "mergeStep D now sr rr p ActionEVM (c2, q2, m2) = Inr (c3, q3, m3)"
      "mergeStep D now sr rr p ActionIBCTransfer (c3, q3, m3) = Inr (c, q, m)"
    using assms(1) by auto
  note e = mergeStep_effect [OF _ assms(4,5) less_imp_le [OF sr(2)] less_imp_le [OF rr(2)] assms(6)]
  note e1 = e [OF steps(1)] and e2 = e [OF steps(2)] and e3 = e [OF steps(3)] and e4 = e [OF steps(4)]
  have has: "HasClaimedAction rr ActionVote = r1" "HasClaimedAction rr ActionDelegate = r2" "HasClaimedAction rr ActionEVM = r3"
    "HasClaimedAction rr ActionIBCTransfer = r4" "HasClaimedAction sr ActionVote = b1" "HasClaimedAction sr ActionDelegate = b2"
    "HasClaimedAction sr ActionEVM = b3" "HasClaimedAction sr ActionIBCTransfer = b4"
    by (simp_all add: HasClaimedAction_def action_defs sr rr)
  have b: "\<not> b1" "\<not> b2" "\<not> b3" "\<not> b4" using e1(1) e2(1) e3(1) e4(1) by (simp_all add: has)
  have m: "m = \<lparr>InitialClaimableAmount = Some (s + r), ActionsCompleted = [r1, r2, r3, True]\<rparr>"
    using e1(5) e2(5) e3(5) e4(5) unfolding has by (simp add: NewClaimsRecord_def MarkClaimed_def action_defs split: if_splits)
  have "4 * (c + q) \<le> (if r1 then s else 0) + (if r2 then s else 0) + (if r3 then s else 0) + (if r4 then s else s + r)"
    using e1(4) e2(4) e3(4) e4(4) unfolding has by (simp add: action_defs split: if_splits)
  also have "\<dots> \<le> owed sr + owed rr - owed m"
    using b by (simp add: m sr rr owed_def unclaimed_def algebra_simps)
  finally show ?thesis using e1(2,3) e2(2,3) e3(2,3) e4(2,3) b m by (simp add: HasClaimedAny_def sr rr)
qed

lemma merge_effect:
  assumes "MergeClaimsRecords C K D now recipient sr rr p st = Inr (Inr m, st')" and "escrow_ok K (ClaimsDenom p) st"
    and "GetClaimsRecord st sender = Some sr" and "GetClaimsRecord st recipient = Some rr" and "0 < DurationOfDecay p"
    and "InitialClaimableAmount sr = Some s" and "InitialClaimableAmount rr = Some r"
  shows "m = \<lparr>InitialClaimableAmount = Some (s + r), ActionsCompleted = take 3 (ActionsCompleted rr) @ [True]\<rparr> \<and>
    \<not> HasClaimedAny sr \<and> cmRecords st' = cmRecords st \<and> cmParams st' = cmParams st \<and>
    4 * BankBalance K (cmSdk st) (GetModuleAccountAddress K) (ClaimsDenom p) - (owed sr + owed rr - owed m)
      \<le> 4 * BankBalance K (cmSdk st') (GetModuleAccountAddress K) (ClaimsDenom p)"
proof -
  let ?m = "GetModuleAccountAddress K" and ?d = "ClaimsDenom p"
  have v: "cr_Validate sr = None" "cr_Validate rr = None"
    using escrow_ok_record [OF assms(2)] assms(3,4) by blast+
  obtain c q where f: "foldM (mergeStep D now sr rr p) [ActionVote, ActionDelegate, ActionEVM, ActionIBCTransfer] (0, 0, NewClaimsRecord (s + r)) = Inr (c, q, m)"
    using assms(1,6,7) unfolding MergeClaimsRecords_def
    by (auto simp del: foldM.simps simp: Let_def split: sum.splits failure.splits if_splits prod.splits)
  note e = merge_fold [OF f v assms(6,7,5)]
  have "cmRecords st' = cmRecords st \<and> cmParams st' = cmParams st \<and>
      BankBalance K (cmSdk st) ?m ?d - (c + q) \<le> BankBalance K (cmSdk st') ?m ?d"
  proof (cases "c = 0")
    case True
    then show ?thesis using assms(1,6,7) f e unfolding MergeClaimsRecords_def by (simp del: foldM.simps)
  next
    case False
    obtain x where x: "SendCoinsFromModuleToAccount K (cmSdk st) claimsModule recipient (RawCoins C [(?d, c)]) = Inr x"
      and rest: "st' = st\<lparr>cmSdk := x\<rparr> \<or>
        (\<exists>y. FundCommunityPool K x (RawCoins C [(?d, q)]) ?m = Inr y \<and> st' = st\<lparr>cmSdk := y\<rparr>)"
      using assms(1,6,7) f False unfolding MergeClaimsRecords_def
      by (auto simp del: foldM.simps simp: Let_def split: sum.splits if_splits)
    have b1: "BankBalance K (cmSdk st) ?m ?d - c \<le> BankBalance K x ?m ?d"
      using transferred_balance [OF ModuleToAccount_law [OF x], of ?m ?d] e AmountOf_RawCoins [of c]
      by (simp add: at_addr_def GetModuleAccountAddress_def)
    have b2: "BankBalance K x ?m ?d - q \<le> BankBalance K y ?m ?d" if "FundCommunityPool K x (RawCoins C [(?d, q)]) ?m = Inr y" for y
      using transferred_balance [OF Fund_law [OF that], of ?m ?d] e AmountOf_RawCoins [of q] by (simp add: at_addr_def)
    from rest show ?thesis using b1 b2 e by fastforce
  qed
  then show ?thesis using e by auto
qed

lemma merge_keeps_escrow:
  assumes "MergeClaimsRecords C K D now recipient sr rr p st = Inr (Inr m, st')" and "escrow_ok K (ClaimsDenom p) st"
    and "GetClaimsRecord st sender = Some sr" and "GetClaimsRecord st recipient = Some rr" and "sender \<noteq> recipient"
    and "0 < DurationOfDecay p"
  shows "escrow_ok K (ClaimsDenom p) (DeleteClaimsRecord sender (SetClaimsRecord recipient m st')) \<and> cmParams st' = cmParams st"
proof -
  have v: "cr_Validate sr = None" "cr_Validate rr = None"
    using escrow_ok_record [OF assms(2)] assms(3,4) by blast+
  obtain s r where sr: "InitialClaimableAmount sr = Some s" "0 < s" "InitialClaimableAmount rr = Some r" "0 < r" "length (ActionsCompleted rr) = 4"
    using v by (auto simp: cr_Validate_def split: option.splits if_splits)
  note e = merge_effect [OF assms(1-4,6) sr(1,3)]
  have valid: "cr_Validate m = None" using e sr by (auto simp: cr_Validate_def)
  have "owed_total (fmdrop sender (fmupd recipient m (cmRecords st))) = owed_total (cmRecords st) - owed rr + owed m - owed sr"
    using assms(3-5) by (simp add: owed_total_drop owed_total_upd) (simp add: owed_at_def GetClaimsRecord_def)
  then show ?thesis
    using e valid assms(2) by (auto simp: escrow_ok_def GetClaimsRecord_def DeleteClaimsRecord_def SetClaimsRecord_def split: if_splits)
qed

text \<open>A received packet whose acknowledgement is not an error.\<close>

lemma recv_keeps_escrow:
  assumes "cm_OnRecvPacket C K D T now packet st = Inr (None, st')" and "escrow_ok K (ClaimsDenom (cm_GetParams st)) st"
    and "0 < DurationOfDecay (cm_GetParams st)"
  shows "escrow_ok K (ClaimsDenom (cm_GetParams st)) st' \<and> cmParams st' = cmParams st"
proof -
  let ?p = "cm_GetParams st"
  from assms(1) have "st' = st \<or> (\<exists>sender recipient evm trigger. receiveClaims C K D now ?p sender recipient evm trigger st = Inr (None, st'))"
    by (fastforce simp: cm_OnRecvPacket_def Let_def split: if_splits sum.splits option.splits)
  then show ?thesis
  proof (elim disjE exE)
    fix sender recipient evm trigger
    assume r: "receiveClaims C K D now ?p sender recipient evm trigger st = Inr (None, st')"
    show ?thesis
    proof (cases "GetClaimsRecord st sender")
      case None
      then show ?thesis
        using r assms(2,3) claim_keeps_escrow
        by (cases "GetClaimsRecord st recipient") (auto simp: receiveClaims_def)
    next
      case (Some sr)
      show ?thesis
      proof (cases "GetClaimsRecord st recipient")
        case None
        then consider "st' = st" | c st1 where "ClaimCoinsForAction C K D now recipient sr ActionIBCTransfer ?p st = Inr (Inr c, st1)"
            "st' = (if c = 0 then st1 else DeleteClaimsRecord sender st1)"
        proof (cases trigger)
          case True
          with r Some None obtain res st1 where "ClaimCoinsForAction C K D now recipient sr ActionIBCTransfer ?p st = Inr (res, st1)"
            by (auto simp: receiveClaims_def)
          then show ?thesis using that r Some None True by (cases res) (auto simp: receiveClaims_def)
        qed (use that r Some None in \<open>simp add: receiveClaims_def\<close>)
        then show ?thesis
        proof cases
          case 2
          have v: "cr_Validate sr = None" by (rule escrow_ok_record [OF assms(2) Some])
          obtain n where n: "InitialClaimableAmount sr = Some n" using v by (auto simp: cr_Validate_def split: option.splits)
          show ?thesis
            using 2 claim_effect [OF 2(1) assms(2) Some n assms(3)] migrate_keeps_escrow [OF 2(1) _ assms(2) Some None assms(3)] assms(2)
            by (auto simp: DeleteClaimsRecord_def)
        qed (use assms(2) in simp)
      next
        case rr: (Some rr)
        from r Some rr consider "st' = st"
          | st1 m where "MergeClaimsRecords C K D now recipient sr rr ?p st = Inr (Inr m, st1)" "sender \<noteq> recipient"
            "st' = DeleteClaimsRecord sender (SetClaimsRecord recipient m st1)"
          | res where "ClaimCoinsForAction C K D now recipient rr ActionIBCTransfer ?p st = Inr (res, st')"
        proof (cases "sender \<noteq> recipient \<and> trigger")
          case True
          with r Some rr obtain res st1 where "MergeClaimsRecords C K D now recipient sr rr ?p st = Inr (res, st1)"
            by (auto simp: receiveClaims_def)
          then show ?thesis using that r Some rr True by (cases res) (auto simp: receiveClaims_def)
        qed (use that r Some rr in \<open>auto simp: receiveClaims_def Let_def split: if_splits\<close>)
        then show ?thesis
        proof cases
          case 2
          then show ?thesis using merge_keeps_escrow [OF 2(1) assms(2) Some rr 2(2) assms(3)]
            by (simp add: DeleteClaimsRecord_def SetClaimsRecord_def)
        qed (use assms(2,3) rr claim_keeps_escrow in auto)
      qed
    qed
  qed (use assms(2) in simp)
qed

end
section \<open>The clawback\<close>

lemma claimLoop_fold:
  "claimLoop (\<lambda>addr _ (x, l). (False, f addr x, l @ [addr])) es (x, l) = (fold f (map fst es) x, l @ map fst es)"
  by (induction es arbitrary: x l) (auto split: prod.splits)

lemma fold_Delete: "fold DeleteClaimsRecord as st = st\<lparr>cmRecords := fold fmdrop as (cmRecords st)\<rparr>"
  by (induction as arbitrary: st) (simp_all add: DeleteClaimsRecord_def)

lemma fold_fmdrop: "fmlookup (fold fmdrop as m) a = (if a \<in> set as then None else fmlookup m a)"
  by (induction as arbitrary: m) auto

lemma fst_claimEntries: "map fst (claimEntries st) = sorted_list_of_fset (fmdom (cmRecords st))"
  by (simp add: claimEntries_def comp_def)

lemma ClawbackEmptyAccounts_eq:
  "ClawbackEmptyAccounts C K denom st =
    st\<lparr>cmSdk := fold (clawbackAccount C K denom) (sorted_list_of_fset (fmdom (cmRecords st))) (cmSdk st), cmRecords := fmempty\<rparr>"
proof -
  have "fold fmdrop (sorted_list_of_fset (fmdom (cmRecords st))) (cmRecords st) = fmempty"
    by (rule fmap_ext) (auto simp: fold_fmdrop sorted_list_of_fset.rep_eq fmdom_notD)
  then show ?thesis
    by (simp add: ClawbackEmptyAccounts_def IterateClaimsRecords_def claimLoop_fold fst_claimEntries fold_Delete)
qed

context claims_keepers
begin

lemma clawbackAccount_effect:
  "GetSupply K (clawbackAccount C K denom addr x) = GetSupply K x \<and>
   (\<forall>z d. z \<noteq> GetModuleAddress K distrModule \<longrightarrow> BankBalance K (clawbackAccount C K denom addr x) z d \<le> BankBalance K x z d) \<and>
   (\<forall>d. BankBalance K x (GetModuleAddress K distrModule) d \<le> BankBalance K (clawbackAccount C K denom addr x) (GetModuleAddress K distrModule) d)"
proof -
  have send: "GetSupply K y = GetSupply K x \<and>
      (\<forall>z d. z \<noteq> GetModuleAddress K distrModule \<longrightarrow> BankBalance K y z d \<le> BankBalance K x z d) \<and>
      (\<forall>d. BankBalance K x (GetModuleAddress K distrModule) d \<le> BankBalance K y (GetModuleAddress K distrModule) d)"
    if "FundCommunityPool K x c addr = Inr y" for c y
    using Fund_law [OF that] AmountOf_nonneg by (auto simp: transferred_def at_addr_def)
  show ?thesis
    by (auto simp: clawbackAccount_def Let_def RemoveAccount_law send split: option.splits AccountI.splits sum.splits)
qed

lemma clawback_fold:
  "GetSupply K (fold (clawbackAccount C K denom) as x) = GetSupply K x \<and>
   (\<forall>z d. z \<noteq> GetModuleAddress K distrModule \<longrightarrow> BankBalance K (fold (clawbackAccount C K denom) as x) z d \<le> BankBalance K x z d) \<and>
   (\<forall>d. BankBalance K x (GetModuleAddress K distrModule) d \<le>
     BankBalance K (fold (clawbackAccount C K denom) as x) (GetModuleAddress K distrModule) d)"
proof (induction as arbitrary: x)
  case (Cons a as)
  note * = clawbackAccount_effect [of denom a x] and IH = Cons.IH [of "clawbackAccount C K denom a x"]
  show ?case
    using * IH by (fastforce intro: order_trans)
qed simp

lemma escrowed_effect:
  "\<exists>x'. ClawbackEscrowedTokens C K x = Inr x' \<and> GetSupply K x' = GetSupply K x \<and>
    (GetModuleAccountAddress K \<noteq> GetModuleAddress K distrModule \<longrightarrow>
      (\<forall>d. BankBalance K x' (GetModuleAccountAddress K) d = 0 \<and>
        BankBalance K x' (GetModuleAddress K distrModule) d =
          BankBalance K x (GetModuleAddress K distrModule) d + BankBalance K x (GetModuleAccountAddress K) d))"
proof (cases "IsZero C (GetAllBalances K x (GetModuleAccountAddress K))")
  case True
  then show ?thesis by (simp add: ClawbackEscrowedTokens_def IsZero_iff AllBalances_law Let_def)
next
  case False
  obtain x' where x': "FundCommunityPool K x (GetAllBalances K x (GetModuleAccountAddress K)) (GetModuleAccountAddress K) = Inr x'"
    using Fund_total AllBalances_law by (metis order_refl)
  then show ?thesis
    using False Fund_law [OF x']
    by (auto simp: ClawbackEscrowedTokens_def Let_def transferred_def at_addr_def AllBalances_law fun_eq_iff)
qed

end

section \<open>Sequences of claims\<close>

text \<open>
  What happens to the module in a block: the three hooks, the two callbacks of IBC when they return no error (the effects of
  a callback that fails are discarded by IBC), the end of the block, and changes of the bank that do not touch the escrow.
\<close>

inductive claims_chain ::
    "'c Coins \<Rightarrow> ('x, 'c) Keepers \<Rightarrow> Decs \<Rightarrow> IbcLib \<Rightarrow> 'x ClaimsState \<Rightarrow> 'x ClaimsState \<Rightarrow> bool" for C K D T where
  start: "claims_chain C K D T st st"
| vote: "claims_chain C K D T st st1 \<Longrightarrow> AfterProposalVote C K D now a st1 = Inr st2 \<Longrightarrow> claims_chain C K D T st st2"
| delegate: "claims_chain C K D T st st1 \<Longrightarrow> AfterDelegationModified C K D now a st1 = Inr st2 \<Longrightarrow> claims_chain C K D T st st2"
| tx: "claims_chain C K D T st st1 \<Longrightarrow> cm_PostTxProcessing C K D now a st1 = Inr st2 \<Longrightarrow> claims_chain C K D T st st2"
| recv: "claims_chain C K D T st st1 \<Longrightarrow> cm_OnRecvPacket C K D T now pkt st1 = Inr (None, st2) \<Longrightarrow> claims_chain C K D T st st2"
| acked: "claims_chain C K D T st st1 \<Longrightarrow> cm_OnAcknowledgementPacket C K D T now pkt bz st1 = Inr (None, st2) \<Longrightarrow> claims_chain C K D T st st2"
| end_block: "claims_chain C K D T st st1 \<Longrightarrow> cm_EndBlocker C K now st1 = Inr st2 \<Longrightarrow> claims_chain C K D T st st2"
| bank: "claims_chain C K D T st st1 \<Longrightarrow>
    (\<forall>d. BankBalance K (cmSdk st1) (GetModuleAccountAddress K) d \<le> BankBalance K x (GetModuleAccountAddress K) d) \<Longrightarrow>
    claims_chain C K D T st (st1\<lparr>cmSdk := x\<rparr>)"

context claims_keepers
begin

lemma EndBlocker_cases:
  assumes "cm_EndBlocker C K now st = Inr st'"
  obtains (running) "st' = st"
  | (ended) x as where "EnableClaims (cm_GetParams st)" "ClawbackEscrowedTokens C K (cmSdk st) = Inr x"
    "cmSdk st' = fold (clawbackAccount C K (ClaimsDenom (cm_GetParams st))) as x"
    "cm_GetParams st' = (cm_GetParams st)\<lparr>EnableClaims := False\<rparr>" "cmRecords st' = fmempty"
proof (cases "st' = st")
  case False
  then have en: "EnableClaims (cm_GetParams st)" and run: "EndAirdrop C K (cm_GetParams st) st = Inr st'"
    using assms by (auto simp: cm_EndBlocker_def Let_def split: if_splits sum.splits)
  obtain x where x: "ClawbackEscrowedTokens C K (cmSdk st) = Inr x"
    "st' = cm_SetParams ((cm_GetParams st)\<lparr>EnableClaims := False\<rparr>) (ClawbackEmptyAccounts C K (ClaimsDenom (cm_GetParams st)) (st\<lparr>cmSdk := x\<rparr>))"
    using run by (auto simp: EndAirdrop_def Let_def)
  show ?thesis
    by (rule ended [OF en x(1)]) (simp_all add: x(2) ClawbackEmptyAccounts_eq cm_SetParams_def cm_GetParams_def [of "_\<lparr>cmParams := _\<rparr>"])
qed (rule running)

lemma chain_escrow:
  assumes "claims_chain C K D T st st'" and "escrow_ok K (ClaimsDenom (cm_GetParams st)) st" and "0 < DurationOfDecay (cm_GetParams st)"
  shows "escrow_ok K (ClaimsDenom (cm_GetParams st)) st' \<and> ClaimsDenom (cm_GetParams st') = ClaimsDenom (cm_GetParams st) \<and>
    0 < DurationOfDecay (cm_GetParams st')"
  using assms
proof (induction rule: claims_chain.induct)
  case (vote st st1 now a st2)
  then show ?case using hook_keeps_escrow [of now ActionVote a st1 st2] by (simp add: AfterProposalVote_def cm_GetParams_def)
next
  case (delegate st st1 now a st2)
  then show ?case using hook_keeps_escrow [of now ActionDelegate a st1 st2] by (simp add: AfterDelegationModified_def cm_GetParams_def)
next
  case (tx st st1 now a st2)
  then show ?case using hook_keeps_escrow [of now ActionEVM a st1 st2] by (simp add: cm_PostTxProcessing_def cm_GetParams_def)
next
  case (recv st st1 now pkt st2)
  then show ?case using recv_keeps_escrow [of T now pkt st1 st2] by (simp add: cm_GetParams_def)
next
  case (acked st st1 now pkt bz st2)
  then show ?case using ack_keeps_escrow [of T now pkt bz st1 None st2] by (simp add: cm_GetParams_def)
next
  case (end_block st st1 now st2)
  from end_block.hyps(2) show ?case
    by (cases rule: EndBlocker_cases)
      (use end_block balance_nonneg in \<open>simp_all add: escrow_ok_def GetClaimsRecord_def\<close>)
next
  case (bank st st1 x)
  then show ?case by (auto simp: escrow_ok_def GetClaimsRecord_def cm_GetParams_def intro: order_trans)
qed simp

end

section \<open>Properties\<close>

text \<open>The claim at a time of the airdrop.\<close>

definition claim_at :: "Decs \<Rightarrow> ClaimsParams \<Rightarrow> int \<Rightarrow> int \<Rightarrow> int" where
  "claim_at D p n now =
     (if now \<le> DecayStartTime p then n div 4
      else DRoundInt D ((dec_one - NewDec (timeSub now (DecayStartTime p)) div DurationOfDecay p) * (n div 4)))"

context sdk_dec
begin

lemma claim_value:
  assumes "GetClaimableAmountForAction D now cr action p = Inr (c, r)" and "InitialClaimableAmount cr = Some n" and "0 < n"
    and "0 < DurationOfDecay p" and "IsClaimsActive p now" and "\<not> HasClaimedAction cr action"
  shows "c = claim_at D p n now"
proof (cases "now \<le> DecayStartTime p")
  case True
  then show ?thesis
    using assms by (simp add: GetClaimableAmountForAction_def ClaimableAmountForAction_def claim_at_def intQuo_div Let_def)
next
  case False
  then have e: "0 \<le> timeSub now (DecayStartTime p)" "timeSub now (DecayStartTime p) \<le> DurationOfDecay p"
    using assms(5) by (auto simp: timeSub_def IsClaimsActive_def AirdropEndTime_def DecayStartTime_def)
  show ?thesis
    using assms False decay_ratio(1) [OF assms(4) e]
    by (auto simp: GetClaimableAmountForAction_def ClaimableAmountForAction_def claim_at_def intQuo_div Let_def dest: MulInt_exact)
qed

lemma claim_at_antimono:
  assumes "0 < n" and "0 < DurationOfDecay p" and "IsClaimsActive p t" and "IsClaimsActive p u" and "t \<le> u"
  shows "claim_at D p n u \<le> claim_at D p n t"
proof (cases "u \<le> DecayStartTime p")
  case True
  then show ?thesis using assms(5) by (simp add: claim_at_def)
next
  case late: False
  define q where "q v = NewDec (timeSub v (DecayStartTime p)) div DurationOfDecay p" for v
  have n: "0 \<le> n div 4" using assms(1) by simp
  have range: "0 \<le> timeSub v (DecayStartTime p) \<and> timeSub v (DecayStartTime p) \<le> DurationOfDecay p"
    if "IsClaimsActive p v" "\<not> v \<le> DecayStartTime p" for v
    using that by (auto simp: timeSub_def IsClaimsActive_def AirdropEndTime_def DecayStartTime_def)
  show ?thesis
  proof (cases "t \<le> DecayStartTime p")
    case True
    have "0 \<le> q u" "q u \<le> dec_one" using range [OF assms(4) late] decay_ratio(2,3) [OF assms(2)] by (auto simp: q_def)
    then have "0 \<le> (dec_one - q u) * (n div 4)" "(dec_one - q u) * (n div 4) \<le> n div 4 * dec_one"
      using n mult_right_mono [of "dec_one - q u" dec_one "n div 4"] by (simp_all add: mult.commute)
    from RoundInt_between [OF this] show ?thesis using True late by (simp add: claim_at_def q_def)
  next
    case False
    have "timeSub t (DecayStartTime p) \<le> timeSub u (DecayStartTime p)" using assms(5) by (auto simp: timeSub_def)
    then have "q t \<le> q u" unfolding q_def NewDec_def by (intro zdiv_mono1) (simp_all add: assms(2))
    then have "(dec_one - q u) * (n div 4) \<le> (dec_one - q t) * (n div 4)" using n by (simp add: mult_right_mono)
    from RoundInt_mono [OF this] show ?thesis using False late by (simp add: claim_at_def q_def)
  qed
qed

lemma claim_at_end:
  assumes "0 < DurationOfDecay p" and "DurationOfDecay p < 2 ^ 63"
  shows "claim_at D p n (AirdropEndTime p) = 0"
proof -
  have "timeSub (AirdropEndTime p) (DecayStartTime p) = DurationOfDecay p"
    using assms by (simp add: timeSub_def AirdropEndTime_def DecayStartTime_def)
  then have "claim_at D p n (AirdropEndTime p) = DRoundInt D 0"
    using assms(1) by (simp add: claim_at_def AirdropEndTime_def DecayStartTime_def NewDec_def)
  then show ?thesis using RoundInt_between [of 0 0] by simp
qed

end

text \<open>
  C29.  Claims decay.  While the airdrop is active, the amount claimable for an open action of a record is
  computed without a panic, is not negative, and makes up with its remainder a quarter of the record; it is
  the whole quarter until the decay starts, never grows with time, and is zero at the end of the airdrop.
\<close>

theorem claims_decay:
  assumes "sdk_dec D" and "InitialClaimableAmount cr = Some n" and "0 < n" and "n < 2 ^ 240"
    and "0 < DurationOfDecay p" and "DurationOfDecay p < 2 ^ 63"
    and "IsClaimsActive p t" and "IsClaimsActive p u" and "t \<le> u" and "\<not> HasClaimedAction cr action"
  shows "\<exists>c c'. GetClaimableAmountForAction D t cr action p = Inr (c, n div 4 - c) \<and>
    GetClaimableAmountForAction D u cr action p = Inr (c', n div 4 - c') \<and> 0 \<le> c' \<and> c' \<le> c \<and> c \<le> n div 4 \<and>
    (t \<le> DecayStartTime p \<longrightarrow> c = n div 4) \<and> (u = AirdropEndTime p \<longrightarrow> c' = 0)"
proof -
  have nn: "0 \<le> n" using assms(3) by simp
  obtain c r c' r' where t: "GetClaimableAmountForAction D t cr action p = Inr (c, r)"
    and u: "GetClaimableAmountForAction D u cr action p = Inr (c', r')"
    using sdk_dec.claimable_total [OF assms(1,2) nn assms(4,5)] by (metis surj_pair)
  note st = sdk_dec.claimable_split [OF assms(1) t assms(2) nn assms(5)] and su = sdk_dec.claimable_split [OF assms(1) u assms(2) nn assms(5)]
  have vt: "c = claim_at D p n t" and vu: "c' = claim_at D p n u"
    using sdk_dec.claim_value [OF assms(1) t assms(2,3,5,7,10)] sdk_dec.claim_value [OF assms(1) u assms(2,3,5,8,10)] by simp_all
  show ?thesis
  proof (intro exI conjI impI)
    show "GetClaimableAmountForAction D t cr action p = Inr (c, n div 4 - c)"
      "GetClaimableAmountForAction D u cr action p = Inr (c', n div 4 - c')" using t u st su assms(7,8,10) by auto
    show "0 \<le> c'" "c \<le> n div 4" using st su assms(7,8,10) by auto
    show "c' \<le> c" unfolding vt vu by (rule sdk_dec.claim_at_antimono [OF assms(1,3,5,7,8,9)])
    show "c = n div 4" if "t \<le> DecayStartTime p" using that by (simp add: vt claim_at_def)
    show "c' = 0" if "u = AirdropEndTime p" using sdk_dec.claim_at_end [OF assms(1,5,6)] that by (simp add: vu)
  qed
qed

text \<open>A concrete airdrop: two records, one action claimed, and an escrow of 1000.\<close>

definition ref_claims_params :: ClaimsParams where
  "ref_claims_params = \<lparr>EnableClaims = True, ClaimsDenom = ''aabtc'', AirdropStartTime = 0, DurationUntilDecay = 100,
     DurationOfDecay = 100, AuthorizedChannels = [''channel-0''], EVMChannels = []\<rparr>"

definition ref_claims :: "ledger ClaimsState" where
  "ref_claims =
     \<lparr>cmSdk = \<lparr>lAccounts = (\<lambda>_. None), lBalances = (\<lambda>a. if a = ref_module_address claimsModule then [(''aabtc'', 1000)] else []),
               lSupply = (\<lambda>_. 1000), lNumber = 0\<rparr>,
      cmParams = Some ref_claims_params,
      cmRecords = fmap_of_list
        [(4, \<lparr>InitialClaimableAmount = Some 400, ActionsCompleted = [False, False, False, False]\<rparr>),
         (5, \<lparr>InitialClaimableAmount = Some 200, ActionsCompleted = [True, False, False, False]\<rparr>)]\<rparr>"

abbreviation ref_claims_bank :: "(ledger, amounts) Keepers" where
  "ref_claims_bank \<equiv> ref_keepers (\<lambda>_. 0) (\<lambda>_. False) ''aakk''"

interpretation ref_claims: claims_keepers ref_coins "ref_keepers keccak blocked bond" keccak ref_dec
  for keccak blocked bond
proof unfold_locales
  fix c :: amounts and x :: ledger and a
  assume "\<And>d. AmountOf ref_coins c d \<le> BankBalance (ref_keepers keccak blocked bond) x a d"
  then show "\<exists>x'. FundCommunityPool (ref_keepers keccak blocked bond) x c a = Inr x'"
    by (simp add: ref_keepers_def ref_coins_def ref_send_def ref_debit_def ref_below_def list_all_iff Let_def)
qed

theorem claims_decay_witness:
  "\<exists>c c'. GetClaimableAmountForAction ref_dec 50 (NewClaimsRecord 400) ActionVote ref_claims_params = Inr (c, 400 div 4 - c) \<and>
    GetClaimableAmountForAction ref_dec 200 (NewClaimsRecord 400) ActionVote ref_claims_params = Inr (c', 400 div 4 - c') \<and> c = 100 \<and> c' = 0"
proof -
  have "InitialClaimableAmount (NewClaimsRecord 400) = Some 400" "IsClaimsActive ref_claims_params 50" "IsClaimsActive ref_claims_params 200"
    "\<not> HasClaimedAction (NewClaimsRecord 400) ActionVote" "0 < DurationOfDecay ref_claims_params" "DurationOfDecay ref_claims_params < 2 ^ 63"
    "50 \<le> DecayStartTime ref_claims_params" "200 = AirdropEndTime ref_claims_params"
    by (simp_all add: NewClaimsRecord_def ref_claims_params_def IsClaimsActive_def AirdropEndTime_def DecayStartTime_def
        HasClaimedAction_def action_defs)
  then show ?thesis
    using claims_decay [OF ref_dec.sdk_dec_axioms, of "NewClaimsRecord 400" 400 ref_claims_params 50 200 ActionVote] by auto
qed

lemma ref_claims_keepers: "claims_keepers ref_coins ref_claims_bank (\<lambda>_. 0) ref_dec"
  by (rule ref_claims.claims_keepers_axioms)

lemma ref_claims_at:
  "GetClaimsRecord ref_claims a =
    (if a = 4 then Some \<lparr>InitialClaimableAmount = Some 400, ActionsCompleted = [False, False, False, False]\<rparr>
     else if a = 5 then Some \<lparr>InitialClaimableAmount = Some 200, ActionsCompleted = [True, False, False, False]\<rparr> else None)"
  by (simp add: GetClaimsRecord_def ref_claims_def fmlookup_of_list)

lemma ref_claims_params: "cm_GetParams ref_claims = ref_claims_params" "0 < DurationOfDecay (cm_GetParams ref_claims)"
  by (simp_all add: cm_GetParams_def ref_claims_def ref_claims_params_def)

lemma ref_claims_escrow: "escrow_ok ref_claims_bank (ClaimsDenom (cm_GetParams ref_claims)) ref_claims"
proof -
  have "fset (fmdom (cmRecords ref_claims)) = {4, 5}"
    by (auto simp: ref_claims_def fmdom_fmap_of_list)
  then have "owed_total (cmRecords ref_claims) = owed_at (cmRecords ref_claims) 4 + owed_at (cmRecords ref_claims) 5"
    by (simp add: owed_total_def)
  also have "\<dots> = 2200"
    using ref_claims_at [unfolded GetClaimsRecord_def] by (simp add: owed_at_def owed_def unclaimed_def)
  finally have total: "owed_total (cmRecords ref_claims) = 2200" .
  have bal: "BankBalance ref_claims_bank (cmSdk ref_claims) (GetModuleAccountAddress ref_claims_bank) ''aabtc'' = 1000"
    by (simp add: ref_keepers_def GetModuleAccountAddress_def ref_claims_def ref_amount_def)
  show ?thesis unfolding escrow_ok_def ref_claims_params(1)
    using bal total by (auto simp: ref_claims_at ref_claims_params_def cr_Validate_def split: if_splits)
qed

text \<open>
  C28.  The escrow covers the records.  If at the start every record is valid and the module account holds a
  quarter of each record for each of its open actions, then this is so after any sequence of votes,
  delegations, transactions, IBC packets and ends of blocks; in particular any open action can be paid in full.
\<close>

theorem escrow_covers_claims:
  assumes "claims_keepers C K keccak D" and "claims_chain C K D T st st'"
    and "escrow_ok K (ClaimsDenom (cm_GetParams st)) st" and "0 < DurationOfDecay (cm_GetParams st)"
  shows "escrow_ok K (ClaimsDenom (cm_GetParams st)) st' \<and>
    (\<forall>a cr n action. GetClaimsRecord st' a = Some cr \<and> InitialClaimableAmount cr = Some n \<and>
        action \<in> {ActionVote, ActionDelegate, ActionEVM, ActionIBCTransfer} \<and> \<not> HasClaimedAction cr action \<longrightarrow>
      n div 4 \<le> BankBalance K (cmSdk st') (GetModuleAccountAddress K) (ClaimsDenom (cm_GetParams st)))"
proof -
  have e: "escrow_ok K (ClaimsDenom (cm_GetParams st)) st'"
    using claims_keepers.chain_escrow [OF assms] by blast
  moreover have "n div 4 \<le> BankBalance K (cmSdk st') (GetModuleAccountAddress K) (ClaimsDenom (cm_GetParams st))"
    if "GetClaimsRecord st' a = Some cr" "InitialClaimableAmount cr = Some n"
      "action \<in> {ActionVote, ActionDelegate, ActionEVM, ActionIBCTransfer}" "\<not> HasClaimedAction cr action" for a cr n action
    by (rule escrow_covers [OF e that(1,2) _ that(4)]) (use that(3) in \<open>auto simp: action_defs\<close>)
  ultimately show ?thesis by blast
qed

theorem escrow_covers_claims_witness:
  "\<exists>st'. AfterProposalVote ref_coins ref_claims_bank ref_dec 150 4 ref_claims = Inr st' \<and> escrow_ok ref_claims_bank ''aabtc'' st'"
proof -
  have "\<not> isl (AfterProposalVote ref_coins ref_claims_bank ref_dec 150 4 ref_claims)" by code_simp
  then obtain st' where st': "AfterProposalVote ref_coins ref_claims_bank ref_dec 150 4 ref_claims = Inr st'"
    by (cases "AfterProposalVote ref_coins ref_claims_bank ref_dec 150 4 ref_claims") auto
  have "claims_chain ref_coins ref_claims_bank ref_dec (ref_ibc d) ref_claims st'" for d
    by (rule claims_chain.vote [OF claims_chain.start st'])
  from escrow_covers_claims [OF ref_claims_keepers this ref_claims_escrow ref_claims_params(2)] st'
  show ?thesis by (simp add: ref_claims_params(1)) (simp add: ref_claims_params_def)
qed

text \<open>
  Merging two records.  A merge that succeeds found a sender without any claimed action, and gives a
  record with the sum of both amounts in which the actions of the recipient and the IBC action are completed; it
  changes no other record, and takes from the escrow no more than the quarters it settles.
\<close>

theorem merge_settles_actions:
  assumes "claims_keepers C K keccak D" and "MergeClaimsRecords C K D now recipient sr rr p st = Inr (Inr m, st')"
    and "escrow_ok K (ClaimsDenom p) st" and "GetClaimsRecord st sender = Some sr" and "GetClaimsRecord st recipient = Some rr"
    and "0 < DurationOfDecay p" and "InitialClaimableAmount sr = Some s" and "InitialClaimableAmount rr = Some r"
  shows "m = \<lparr>InitialClaimableAmount = Some (s + r), ActionsCompleted = take 3 (ActionsCompleted rr) @ [True]\<rparr> \<and>
    \<not> HasClaimedAny sr \<and> cmRecords st' = cmRecords st \<and> cmParams st' = cmParams st \<and>
    4 * BankBalance K (cmSdk st) (GetModuleAccountAddress K) (ClaimsDenom p) - (owed sr + owed rr - owed m)
      \<le> 4 * BankBalance K (cmSdk st') (GetModuleAccountAddress K) (ClaimsDenom p)"
  by (rule claims_keepers.merge_effect [OF assms])

theorem merge_settles_actions_witness:
  "\<exists>m st'. MergeClaimsRecords ref_coins ref_claims_bank ref_dec 150 5 (the (GetClaimsRecord ref_claims 4)) (the (GetClaimsRecord ref_claims 5))
      ref_claims_params ref_claims = Inr (Inr m, st') \<and> m = \<lparr>InitialClaimableAmount = Some 600, ActionsCompleted = [True, False, False, True]\<rparr>"
proof -
  let ?run = "MergeClaimsRecords ref_coins ref_claims_bank ref_dec 150 5 (the (GetClaimsRecord ref_claims 4)) (the (GetClaimsRecord ref_claims 5))
      ref_claims_params ref_claims"
  have "case ?run of Inl _ \<Rightarrow> False | Inr (r, _) \<Rightarrow> \<not> isl r" by code_simp
  then obtain res st' where "?run = Inr (res, st')" "\<not> isl res" by (auto split: sum.splits prod.splits)
  then obtain m where run: "?run = Inr (Inr m, st')" by (cases res) auto
  have "escrow_ok ref_claims_bank (ClaimsDenom ref_claims_params) ref_claims" using ref_claims_escrow by (simp add: ref_claims_params(1))
  from merge_settles_actions [OF ref_claims_keepers run this, of 4 400 200] run show ?thesis
    by (simp add: ref_claims_at ref_claims_params_def)
qed

text \<open>
  C30.  The airdrop ends.  In the first block after its end time, and in no block before that, the end blocker
  moves the whole escrow to the community pool, deletes every record and disables the claims, without a panic and without
  a change of supply.
\<close>

theorem airdrop_ends:
  assumes "claims_keepers C K keccak D" and "EnableClaims (cm_GetParams st)"
    and "in64 (DurationUntilDecay (cm_GetParams st) + DurationOfDecay (cm_GetParams st))"
    and "in64 (now - AirdropStartTime (cm_GetParams st))"
    and "GetModuleAccountAddress K \<noteq> GetModuleAddress K distrModule"
  shows "\<exists>st'. cm_EndBlocker C K now st = Inr st' \<and>
    (if now \<le> AirdropEndTime (cm_GetParams st) then st' = st
     else cmRecords st' = fmempty \<and> cm_GetParams st' = (cm_GetParams st)\<lparr>EnableClaims := False\<rparr> \<and>
       GetSupply K (cmSdk st') = GetSupply K (cmSdk st) \<and>
       (\<forall>d. BankBalance K (cmSdk st') (GetModuleAccountAddress K) d = 0 \<and>
         BankBalance K (cmSdk st) (GetModuleAddress K distrModule) d + BankBalance K (cmSdk st) (GetModuleAccountAddress K) d
           \<le> BankBalance K (cmSdk st') (GetModuleAddress K distrModule) d))"
proof -
  let ?p = "cm_GetParams st"
  have cond: "timeSub now (AirdropStartTime ?p) \<le> add64 (DurationUntilDecay ?p) (DurationOfDecay ?p) \<longleftrightarrow> now \<le> AirdropEndTime ?p"
    using assms(3,4) by (auto simp: timeSub_def in64_def AirdropEndTime_def)
  show ?thesis
  proof (cases "now \<le> AirdropEndTime ?p")
    case True
    then show ?thesis using assms(2) cond by (simp add: cm_EndBlocker_def Let_def)
  next
    case False
    obtain x where x: "ClawbackEscrowedTokens C K (cmSdk st) = Inr x" "GetSupply K x = GetSupply K (cmSdk st)"
      "\<forall>d. BankBalance K x (GetModuleAccountAddress K) d = 0 \<and> BankBalance K x (GetModuleAddress K distrModule) d =
          BankBalance K (cmSdk st) (GetModuleAddress K distrModule) d + BankBalance K (cmSdk st) (GetModuleAccountAddress K) d"
      using claims_keepers.escrowed_effect [OF assms(1), of "cmSdk st"] assms(5) by blast
    define st' where "st' = cm_SetParams (?p\<lparr>EnableClaims := False\<rparr>) (ClawbackEmptyAccounts C K (ClaimsDenom ?p) (st\<lparr>cmSdk := x\<rparr>))"
    have run: "cm_EndBlocker C K now st = Inr st'"
      using False cond assms(2) x(1) by (simp add: cm_EndBlocker_def EndAirdrop_def Let_def st'_def)
    have bank: "cmSdk st' = fold (clawbackAccount C K (ClaimsDenom ?p)) (sorted_list_of_fset (fmdom (cmRecords st))) x"
      and "cmRecords st' = fmempty" "cm_GetParams st' = ?p\<lparr>EnableClaims := False\<rparr>"
      by (simp_all add: st'_def ClawbackEmptyAccounts_eq cm_SetParams_def cm_GetParams_def [of "_\<lparr>cmParams := _\<rparr>"])
    moreover have "0 \<le> BankBalance K (cmSdk st') (GetModuleAccountAddress K) d" for d
      by (rule claims_keepers.balance_nonneg [OF assms(1)])
    moreover note claims_keepers.clawback_fold [OF assms(1), of "ClaimsDenom ?p" "sorted_list_of_fset (fmdom (cmRecords st))" x, folded bank]
    ultimately show ?thesis using run False x(2,3) assms(5) by (auto intro: order_antisym) (metis order_antisym)
  qed
qed

theorem airdrop_ends_witness:
  "\<exists>st'. cm_EndBlocker ref_coins ref_claims_bank 201 ref_claims = Inr st' \<and> cmRecords st' = fmempty \<and> \<not> EnableClaims (cm_GetParams st')"
proof -
  have "ref_module_address claimsModule \<noteq> ref_module_address distrModule" by code_simp
  then have "GetModuleAccountAddress ref_claims_bank \<noteq> GetModuleAddress ref_claims_bank distrModule"
    by (simp add: GetModuleAccountAddress_def ref_keepers_def)
  moreover have "EnableClaims (cm_GetParams ref_claims)" "\<not> 201 \<le> AirdropEndTime (cm_GetParams ref_claims)"
    "in64 (DurationUntilDecay (cm_GetParams ref_claims) + DurationOfDecay (cm_GetParams ref_claims))"
    "in64 (201 - AirdropStartTime (cm_GetParams ref_claims))"
    by (simp_all add: ref_claims_params(1)) (simp_all add: ref_claims_params_def AirdropEndTime_def in64_def)
  ultimately show ?thesis
    using airdrop_ends [OF ref_claims_keepers, of ref_claims 201] by auto
qed

text \<open>
  The query of a record ignores whether claims are active: with claims disabled it still reports a quarter of the
  record for an open action, as long as the decay has not started.
\<close>

theorem query_ignores_activity:
  assumes "AccAddressFromBech32 B s = Inr a" and "GetClaimsRecord st a = Some cr" and "InitialClaimableAmount cr = Some n"
    and "0 < n" and "\<not> HasClaimedAny cr" and "now \<le> DecayStartTime (cm_GetParams st)"
    and "\<not> IsClaimsActive (cm_GetParams st) now"
  shows "GetClaimableAmountForAction D now cr ActionVote (cm_GetParams st) = Inr (0, 0) \<and>
    cm_QueryClaimsRecord B D now (Some s) st =
      Inr (Some n, map (\<lambda>action. (action, False, n div 4)) [ActionVote, ActionDelegate, ActionEVM, ActionIBCTransfer])"
proof -
  have "\<not> HasClaimedAction cr action" for action
    using assms(5) by (auto simp: HasClaimedAction_def HasClaimedAny_def list_ex_iff all_set_conv_all_nth)
  then show ?thesis
    using assms by (simp add: cm_QueryClaimsRecord_def GetClaimableAmountForAction_def ClaimableAmountForAction_def intQuo_div Let_def)
qed

theorem query_ignores_activity_witness:
  "cm_QueryClaimsRecord ref_codec ref_dec 50 (Some (AccString ref_codec 4)) (cm_SetParams (ref_claims_params\<lparr>EnableClaims := False\<rparr>) ref_claims) =
    Inr (Some 400, map (\<lambda>action. (action, False, 400 div 4)) [ActionVote, ActionDelegate, ActionEVM, ActionIBCTransfer])"
proof -
  let ?st = "cm_SetParams (ref_claims_params\<lparr>EnableClaims := False\<rparr>) ref_claims"
  have "GetClaimsRecord ?st 4 = Some \<lparr>InitialClaimableAmount = Some 400, ActionsCompleted = [False, False, False, False]\<rparr>"
    using ref_claims_at [of 4] by (simp add: GetClaimsRecord_def cm_SetParams_def)
  moreover have "cm_GetParams ?st = ref_claims_params\<lparr>EnableClaims := False\<rparr>"
    by (simp add: cm_GetParams_def cm_SetParams_def)
  ultimately show ?thesis
    using query_ignores_activity [OF ref_codec.Bech_String, of ?st 4 _ 400 50 ref_dec]
    by (simp add: HasClaimedAny_def IsClaimsActive_def DecayStartTime_def ref_claims_params_def)
qed

end
