(* ===== verification/Evm_Tx.thy ===== *)
theory Evm_Tx
  imports Feemarket Addresses
begin

text \<open>
  Ethereum transactions as messages of the chain: \<^verbatim>\<open>x/evm/types/{legacy_tx,access_list_tx,dynamic_fee_tx}.go\<close>,
  \<^verbatim>\<open>tx_data.go\<close>, \<^verbatim>\<open>access_list.go\<close>, \<^verbatim>\<open>msg.go\<close>, \<^verbatim>\<open>tx.go\<close>, \<^verbatim>\<open>utils.go\<close>, \<^verbatim>\<open>codec.go\<close> and
  \<^verbatim>\<open>types/int.go\<close>.  The three kinds of transaction are records, the interface \<^verbatim>\<open>TxData\<close> is the datatype of
  the three.  A nil pointer is \<open>None\<close>, and an arithmetic operation on it panics.

  The transaction type of go-ethereum is \<open>EthTransaction\<close>, the values its accessors return, and the structs
  that \<^verbatim>\<open>AsEthereumData\<close> builds are \<open>EthTxData\<close>.  What go-ethereum computes from them (the hash, the
  sender recovered from the signature) is the record \<open>TxLib\<close>.
\<close>

section \<open>Big integers\<close>

text \<open>\<^verbatim>\<open>big.Int.Bytes\<close>: the big-endian bytes of the absolute value, without leading zeros.\<close>

function natBytes :: "nat \<Rightarrow> bytes" where
  "natBytes n = (if n = 0 then [] else natBytes (n div 256) @ [word_of_nat (n mod 256)])"
  by pat_completeness auto
termination
  by (relation "measure id") auto

declare natBytes.simps [simp del]

definition bigBytes :: "int \<Rightarrow> bytes" where
  "bigBytes x = natBytes (nat \<bar>x\<bar>)"

text \<open>\<^verbatim>\<open>big.Int.Quo\<close>: division truncated towards zero.\<close>

definition bigQuo :: "int \<Rightarrow> int \<Rightarrow> int" where
  "bigQuo x y = sgn x * sgn y * (\<bar>x\<bar> div \<bar>y\<bar>)"

definition SafeInt64 :: "u64 \<Rightarrow> string + int" where
  "SafeInt64 value =
     (if uint value > 2 ^ 63 - 1 then Inl ''uint64 value cannot exceed'' else Inr (uint value))"

definition IsValidInt256 :: "int option \<Rightarrow> bool" where
  "IsValidInt256 i = (case i of None \<Rightarrow> True | Some n \<Rightarrow> \<bar>n\<bar> < 2 ^ 256)"

definition SafeNewIntFromBigInt :: "Decs \<Rightarrow> int \<Rightarrow> failure + int" where
  "SafeNewIntFromBigInt D i =
     (if \<not> IsValidInt256 (Some i) then Inl (Err ''big int out of bound'')
      else panicking (NewIntFromBigInt D i))"

section \<open>Transactions of go-ethereum\<close>

type_synonym accesses = "(address \<times> hash list) list"

datatype EthTxData =
    EthLegacyTx (iNonce: u64) (iGasPrice: "int option") (iGas: u64) (iTo: "address option")
      (iValue: "int option") (iData: bytes) (iV: "int option") (iR: "int option") (iS: "int option")
  | EthAccessListTx (iChainID: "int option") (iNonce: u64) (iGasPrice: "int option") (iGas: u64)
      (iTo: "address option") (iValue: "int option") (iData: bytes) (iAccessList: "accesses option")
      (iV: "int option") (iR: "int option") (iS: "int option")
  | EthDynamicFeeTx (iChainID: "int option") (iNonce: u64) (iGasTipCap: "int option")
      (iGasFeeCap: "int option") (iGas: u64) (iTo: "address option") (iValue: "int option")
      (iData: bytes) (iAccessList: "accesses option") (iV: "int option") (iR: "int option")
      (iS: "int option")

record EthTransaction =
  etType :: "8 word"
  etChainId :: "int option"
  etNonce :: u64
  etData :: bytes
  etGas :: u64
  etTo :: "address option"
  etValue :: "int option"
  etGasPrice :: "int option"
  etGasTipCap :: "int option"
  etGasFeeCap :: "int option"
  etAccessList :: "accesses option"
  etV :: "int option"
  etR :: "int option"
  etS :: "int option"

definition LegacyTxType :: "8 word" where "LegacyTxType = 0"
definition AccessListTxType :: "8 word" where "AccessListTxType = 1"
definition DynamicFeeTxType :: "8 word" where "DynamicFeeTxType = 2"

section \<open>Access lists\<close>

record AccessTuple =
  tupAddress :: string
  tupStorageKeys :: "string list"

definition NewAccessList :: "EthLib \<Rightarrow> accesses option \<Rightarrow> AccessTuple list option" where
  "NewAccessList H ethAccessList =
     map_option (map (\<lambda>(a, keys). \<lparr>tupAddress = AddressHex H a, tupStorageKeys = map (HashHex H) keys\<rparr>)) ethAccessList"

text \<open>The slice is nil until the first tuple is appended.\<close>

definition ToEthAccessList :: "EthLib \<Rightarrow> AccessTuple list \<Rightarrow> accesses option" where
  "ToEthAccessList H al =
     (if al = [] then None
      else Some (map (\<lambda>t. (HexToAddress H (tupAddress t), map (HexToHash H) (tupStorageKeys t))) al))"

section \<open>Helpers of the three kinds\<close>

definition DeriveChainID :: "int option \<Rightarrow> int option" where
  "DeriveChainID v =
     (case v of
        None \<Rightarrow> None
      | Some v \<Rightarrow>
          if v < 1 then None
          else if v < 2 ^ 64 then
            let v = word_of_int v :: u64 in
            if v = 27 \<or> v = 28 then Some 0
            else if v < 35 then None
            else Some (uint ((v - 35) div 2))
          else Some ((v - 35) div 2))"

definition rawSignatureValue :: "bytes \<Rightarrow> int option" where
  "rawSignatureValue bz = (if bz = [] then None else Some (SetBytes bz))"

definition rawSignatureValues :: "bytes \<Rightarrow> bytes \<Rightarrow> bytes \<Rightarrow> int option \<times> int option \<times> int option" where
  "rawSignatureValues vBz rBz sBz = (rawSignatureValue vBz, rawSignatureValue rBz, rawSignatureValue sBz)"

definition tx_fee :: "int option \<Rightarrow> u64 \<Rightarrow> panic + int" where
  "tx_fee gasPrice gas =
     (case gasPrice of None \<Rightarrow> Inl NilDereference | Some p \<Rightarrow> Inr (p * uint gas))"

definition tx_cost :: "int \<Rightarrow> int option \<Rightarrow> int" where
  "tx_cost f value = (case value of None \<Rightarrow> f | Some v \<Rightarrow> f + v)"

definition EffectiveGasPrice :: "int option \<Rightarrow> int \<Rightarrow> int \<Rightarrow> panic + int" where
  "EffectiveGasPrice baseFee feeCap tipCap =
     (case baseFee of None \<Rightarrow> Inl NilDereference | Some b \<Rightarrow> Inr (min (tipCap + b) feeCap))"

text \<open>The checks that the three \<^verbatim>\<open>Validate\<close> methods share.\<close>

definition checkAmount :: "int option \<Rightarrow> string option" where
  "checkAmount amount =
     (if (case amount of None \<Rightarrow> False | Some n \<Rightarrow> n < 0) then Some ''amount cannot be negative''
      else if \<not> IsValidInt256 amount then Some ''amount out of bound'' else None)"

definition checkTo :: "EthLib \<Rightarrow> string \<Rightarrow> string option" where
  "checkTo H to =
     (if to \<noteq> '''' \<and> ValidateAddress H to \<noteq> None then Some ''invalid to address'' else None)"

definition checkChainID :: "int option \<Rightarrow> string option" where
  "checkChainID chainID =
     (if chainID = None then Some ''chain ID must be present on AccessList txs'' else None)"

text \<open>Run checks in order; the first error is returned.\<close>

fun firstError :: "string option list \<Rightarrow> failure + unit" where
  "firstError [] = Inr ()"
| "firstError (None # es) = firstError es"
| "firstError (Some e # es) = Inl (Err e)"

definition setBytesOf :: "int option \<Rightarrow> bytes \<Rightarrow> bytes" where
  "setBytesOf v old = (case v of None \<Rightarrow> old | Some n \<Rightarrow> bigBytes n)"

definition optInt :: "Decs \<Rightarrow> int option \<Rightarrow> failure + int option" where
  "optInt D v = (case v of None \<Rightarrow> Inr None | Some n \<Rightarrow> rbind (SafeNewIntFromBigInt D n) (\<lambda>m. Inr (Some m)))"

definition optHex :: "EthLib \<Rightarrow> address option \<Rightarrow> string" where
  "optHex H to = (case to of None \<Rightarrow> '''' | Some a \<Rightarrow> AddressHex H a)"

definition hexOpt :: "EthLib \<Rightarrow> string \<Rightarrow> address option" where
  "hexOpt H to = (if to = '''' then None else Some (HexToAddress H to))"

section \<open>Legacy transactions\<close>

record LegacyTx =
  ltNonce :: u64
  ltGasPrice :: "int option"
  ltGasLimit :: u64
  ltTo :: string
  ltAmount :: "int option"
  ltData :: bytes
  ltV :: bytes
  ltR :: bytes
  ltS :: bytes

definition lt_SetSignatureValues :: "int option \<Rightarrow> int option \<Rightarrow> int option \<Rightarrow> LegacyTx \<Rightarrow> LegacyTx" where
  "lt_SetSignatureValues v r s tx =
     tx\<lparr>ltV := setBytesOf v (ltV tx), ltR := setBytesOf r (ltR tx), ltS := setBytesOf s (ltS tx)\<rparr>"

definition NewLegacyTx :: "EthLib \<Rightarrow> Decs \<Rightarrow> EthTransaction \<Rightarrow> failure + LegacyTx" where
  "NewLegacyTx H D tx =
     rbind (optInt D (etValue tx)) (\<lambda>amount.
     rbind (optInt D (etGasPrice tx)) (\<lambda>gasPrice.
       Inr (lt_SetSignatureValues (etV tx) (etR tx) (etS tx)
         \<lparr>ltNonce = etNonce tx, ltGasPrice = gasPrice, ltGasLimit = etGas tx, ltTo = optHex H (etTo tx),
          ltAmount = amount, ltData = etData tx, ltV = [], ltR = [], ltS = []\<rparr>)))"

definition lt_TxType :: "LegacyTx \<Rightarrow> 8 word" where
  "lt_TxType tx = LegacyTxType"

definition lt_Copy :: "LegacyTx \<Rightarrow> LegacyTx" where
  "lt_Copy tx =
     \<lparr>ltNonce = ltNonce tx, ltGasPrice = ltGasPrice tx, ltGasLimit = ltGasLimit tx, ltTo = ltTo tx,
      ltAmount = ltAmount tx, ltData = ltData tx, ltV = ltV tx, ltR = ltR tx, ltS = ltS tx\<rparr>"

definition lt_GetRawSignatureValues :: "LegacyTx \<Rightarrow> int option \<times> int option \<times> int option" where
  "lt_GetRawSignatureValues tx = rawSignatureValues (ltV tx) (ltR tx) (ltS tx)"

definition lt_GetChainID :: "LegacyTx \<Rightarrow> int option" where
  "lt_GetChainID tx = (let (v, _, _) = lt_GetRawSignatureValues tx in DeriveChainID v)"

definition lt_GetAccessList :: "LegacyTx \<Rightarrow> accesses option" where
  "lt_GetAccessList tx = None"

definition lt_GetGasPrice :: "LegacyTx \<Rightarrow> int option" where
  "lt_GetGasPrice tx = ltGasPrice tx"

definition lt_GetGasTipCap :: "LegacyTx \<Rightarrow> int option" where
  "lt_GetGasTipCap tx = lt_GetGasPrice tx"

definition lt_GetGasFeeCap :: "LegacyTx \<Rightarrow> int option" where
  "lt_GetGasFeeCap tx = lt_GetGasPrice tx"

definition lt_GetValue :: "LegacyTx \<Rightarrow> int option" where
  "lt_GetValue tx = ltAmount tx"

definition lt_GetTo :: "EthLib \<Rightarrow> LegacyTx \<Rightarrow> address option" where
  "lt_GetTo H tx = hexOpt H (ltTo tx)"

definition lt_AsEthereumData :: "EthLib \<Rightarrow> LegacyTx \<Rightarrow> EthTxData" where
  "lt_AsEthereumData H tx =
     (let (v, r, s) = lt_GetRawSignatureValues tx in
      EthLegacyTx (ltNonce tx) (lt_GetGasPrice tx) (ltGasLimit tx) (lt_GetTo H tx) (lt_GetValue tx)
        (ltData tx) v r s)"

definition lt_Fee :: "LegacyTx \<Rightarrow> panic + int" where
  "lt_Fee tx = tx_fee (lt_GetGasPrice tx) (ltGasLimit tx)"

definition lt_Validate :: "EthLib \<Rightarrow> LegacyTx \<Rightarrow> failure + unit" where
  "lt_Validate H tx =
     (case lt_GetGasPrice tx of
        None \<Rightarrow> Inl (Err ''gas price cannot be nil'')
      | Some gasPrice \<Rightarrow>
          if gasPrice < 0 then Inl (Err ''gas price cannot be negative'')
          else if \<not> IsValidInt256 (Some gasPrice) then Inl (Err ''gas price out of bound'')
          else rbind (panicking (lt_Fee tx)) (\<lambda>f.
            if \<not> IsValidInt256 (Some f) then Inl (Err ''gas fee out of bound'')
            else firstError [checkAmount (lt_GetValue tx), checkTo H (ltTo tx), checkChainID (lt_GetChainID tx)]))"

definition lt_Cost :: "LegacyTx \<Rightarrow> panic + int" where
  "lt_Cost tx = rbind (lt_Fee tx) (\<lambda>f. Inr (tx_cost f (lt_GetValue tx)))"

definition lt_EffectiveGasPrice :: "int option \<Rightarrow> LegacyTx \<Rightarrow> int option" where
  "lt_EffectiveGasPrice baseFee tx = lt_GetGasPrice tx"

definition lt_EffectiveFee :: "int option \<Rightarrow> LegacyTx \<Rightarrow> panic + int" where
  "lt_EffectiveFee baseFee tx = lt_Fee tx"

definition lt_EffectiveCost :: "int option \<Rightarrow> LegacyTx \<Rightarrow> panic + int" where
  "lt_EffectiveCost baseFee tx = lt_Cost tx"

section \<open>Access list transactions\<close>

record AccessListTx =
  atChainID :: "int option"
  atNonce :: u64
  atGasPrice :: "int option"
  atGasLimit :: u64
  atTo :: string
  atAmount :: "int option"
  atData :: bytes
  atAccesses :: "AccessTuple list option"
  atV :: bytes
  atR :: bytes
  atS :: bytes

text \<open>The signature values and, with \<^verbatim>\<open>sdkmath.NewIntFromBigInt\<close>, the chain identifier.\<close>

definition optChainID :: "Decs \<Rightarrow> int option \<Rightarrow> int option \<Rightarrow> failure + int option" where
  "optChainID D chainID old =
     (case chainID of None \<Rightarrow> Inr old | Some c \<Rightarrow> rbind (panicking (NewIntFromBigInt D c)) (\<lambda>i. Inr (Some i)))"

definition at_SetSignatureValues ::
    "Decs \<Rightarrow> int option \<Rightarrow> int option \<Rightarrow> int option \<Rightarrow> int option \<Rightarrow> AccessListTx \<Rightarrow> failure + AccessListTx" where
  "at_SetSignatureValues D chainID v r s tx =
     rbind (optChainID D chainID (atChainID tx)) (\<lambda>c.
       Inr (tx\<lparr>atV := setBytesOf v (atV tx), atR := setBytesOf r (atR tx), atS := setBytesOf s (atS tx),
               atChainID := c\<rparr>))"

definition newAccessListTx :: "EthLib \<Rightarrow> Decs \<Rightarrow> EthTransaction \<Rightarrow> failure + AccessListTx" where
  "newAccessListTx H D tx =
     rbind (optInt D (etValue tx)) (\<lambda>amount.
     rbind (optInt D (etGasPrice tx)) (\<lambda>gasPrice.
       at_SetSignatureValues D (etChainId tx) (etV tx) (etR tx) (etS tx)
         \<lparr>atChainID = None, atNonce = etNonce tx, atGasPrice = gasPrice, atGasLimit = etGas tx,
          atTo = optHex H (etTo tx), atAmount = amount, atData = etData tx,
          atAccesses = NewAccessList H (etAccessList tx), atV = [], atR = [], atS = []\<rparr>))"

definition at_TxType :: "AccessListTx \<Rightarrow> 8 word" where
  "at_TxType tx = AccessListTxType"

definition at_Copy :: "AccessListTx \<Rightarrow> AccessListTx" where
  "at_Copy tx =
     \<lparr>atChainID = atChainID tx, atNonce = atNonce tx, atGasPrice = atGasPrice tx, atGasLimit = atGasLimit tx,
      atTo = atTo tx, atAmount = atAmount tx, atData = atData tx, atAccesses = atAccesses tx,
      atV = atV tx, atR = atR tx, atS = atS tx\<rparr>"

definition at_GetRawSignatureValues :: "AccessListTx \<Rightarrow> int option \<times> int option \<times> int option" where
  "at_GetRawSignatureValues tx = rawSignatureValues (atV tx) (atR tx) (atS tx)"

definition at_GetChainID :: "AccessListTx \<Rightarrow> int option" where
  "at_GetChainID tx = atChainID tx"

definition at_GetAccessList :: "EthLib \<Rightarrow> AccessListTx \<Rightarrow> accesses option" where
  "at_GetAccessList H tx = (case atAccesses tx of None \<Rightarrow> None | Some al \<Rightarrow> ToEthAccessList H al)"

definition at_GetGasPrice :: "AccessListTx \<Rightarrow> int option" where
  "at_GetGasPrice tx = atGasPrice tx"

definition at_GetGasTipCap :: "AccessListTx \<Rightarrow> int option" where
  "at_GetGasTipCap tx = at_GetGasPrice tx"

definition at_GetGasFeeCap :: "AccessListTx \<Rightarrow> int option" where
  "at_GetGasFeeCap tx = at_GetGasPrice tx"

definition at_GetValue :: "AccessListTx \<Rightarrow> int option" where
  "at_GetValue tx = atAmount tx"

definition at_GetTo :: "EthLib \<Rightarrow> AccessListTx \<Rightarrow> address option" where
  "at_GetTo H tx = hexOpt H (atTo tx)"

definition at_AsEthereumData :: "EthLib \<Rightarrow> AccessListTx \<Rightarrow> EthTxData" where
  "at_AsEthereumData H tx =
     (let (v, r, s) = at_GetRawSignatureValues tx in
      EthAccessListTx (at_GetChainID tx) (atNonce tx) (at_GetGasPrice tx) (atGasLimit tx) (at_GetTo H tx)
        (at_GetValue tx) (atData tx) (at_GetAccessList H tx) v r s)"

definition at_Fee :: "AccessListTx \<Rightarrow> panic + int" where
  "at_Fee tx = tx_fee (at_GetGasPrice tx) (atGasLimit tx)"

definition at_Validate :: "EthLib \<Rightarrow> AccessListTx \<Rightarrow> failure + unit" where
  "at_Validate H tx =
     (case at_GetGasPrice tx of
        None \<Rightarrow> Inl (Err ''gas price cannot be nil'')
      | Some gasPrice \<Rightarrow>
          if \<not> IsValidInt256 (Some gasPrice) then Inl (Err ''gas price out of bound'')
          else if gasPrice < 0 then Inl (Err ''gas price cannot be negative'')
          else rbind (firstError [checkAmount (at_GetValue tx)]) (\<lambda>_.
            rbind (panicking (at_Fee tx)) (\<lambda>f.
              if \<not> IsValidInt256 (Some f) then Inl (Err ''gas fee out of bound'')
              else firstError [checkTo H (atTo tx), checkChainID (at_GetChainID tx)])))"

definition at_Cost :: "AccessListTx \<Rightarrow> panic + int" where
  "at_Cost tx = rbind (at_Fee tx) (\<lambda>f. Inr (tx_cost f (at_GetValue tx)))"

definition at_EffectiveGasPrice :: "int option \<Rightarrow> AccessListTx \<Rightarrow> int option" where
  "at_EffectiveGasPrice baseFee tx = at_GetGasPrice tx"

definition at_EffectiveFee :: "int option \<Rightarrow> AccessListTx \<Rightarrow> panic + int" where
  "at_EffectiveFee baseFee tx = at_Fee tx"

definition at_EffectiveCost :: "int option \<Rightarrow> AccessListTx \<Rightarrow> panic + int" where
  "at_EffectiveCost baseFee tx = at_Cost tx"

section \<open>Dynamic fee transactions\<close>

record DynamicFeeTx =
  dtChainID :: "int option"
  dtNonce :: u64
  dtGasTipCap :: "int option"
  dtGasFeeCap :: "int option"
  dtGasLimit :: u64
  dtTo :: string
  dtAmount :: "int option"
  dtData :: bytes
  dtAccesses :: "AccessTuple list option"
  dtV :: bytes
  dtR :: bytes
  dtS :: bytes

definition dt_SetSignatureValues ::
    "Decs \<Rightarrow> int option \<Rightarrow> int option \<Rightarrow> int option \<Rightarrow> int option \<Rightarrow> DynamicFeeTx \<Rightarrow> failure + DynamicFeeTx" where
  "dt_SetSignatureValues D chainID v r s tx =
     rbind (optChainID D chainID (dtChainID tx)) (\<lambda>c.
       Inr (tx\<lparr>dtV := setBytesOf v (dtV tx), dtR := setBytesOf r (dtR tx), dtS := setBytesOf s (dtS tx),
               dtChainID := c\<rparr>))"

definition NewDynamicFeeTx :: "EthLib \<Rightarrow> Decs \<Rightarrow> EthTransaction \<Rightarrow> failure + DynamicFeeTx" where
  "NewDynamicFeeTx H D tx =
     rbind (optInt D (etValue tx)) (\<lambda>amount.
     rbind (optInt D (etGasFeeCap tx)) (\<lambda>gasFeeCap.
     rbind (optInt D (etGasTipCap tx)) (\<lambda>gasTipCap.
       dt_SetSignatureValues D (etChainId tx) (etV tx) (etR tx) (etS tx)
         \<lparr>dtChainID = None, dtNonce = etNonce tx, dtGasTipCap = gasTipCap, dtGasFeeCap = gasFeeCap,
          dtGasLimit = etGas tx, dtTo = optHex H (etTo tx), dtAmount = amount, dtData = etData tx,
          dtAccesses = NewAccessList H (etAccessList tx), dtV = [], dtR = [], dtS = []\<rparr>)))"

definition dt_TxType :: "DynamicFeeTx \<Rightarrow> 8 word" where
  "dt_TxType tx = DynamicFeeTxType"

definition dt_Copy :: "DynamicFeeTx \<Rightarrow> DynamicFeeTx" where
  "dt_Copy tx =
     \<lparr>dtChainID = dtChainID tx, dtNonce = dtNonce tx, dtGasTipCap = dtGasTipCap tx, dtGasFeeCap = dtGasFeeCap tx,
      dtGasLimit = dtGasLimit tx, dtTo = dtTo tx, dtAmount = dtAmount tx, dtData = dtData tx,
      dtAccesses = dtAccesses tx, dtV = dtV tx, dtR = dtR tx, dtS = dtS tx\<rparr>"

definition dt_GetRawSignatureValues :: "DynamicFeeTx \<Rightarrow> int option \<times> int option \<times> int option" where
  "dt_GetRawSignatureValues tx = rawSignatureValues (dtV tx) (dtR tx) (dtS tx)"

definition dt_GetChainID :: "DynamicFeeTx \<Rightarrow> int option" where
  "dt_GetChainID tx = dtChainID tx"

definition dt_GetAccessList :: "EthLib \<Rightarrow> DynamicFeeTx \<Rightarrow> accesses option" where
  "dt_GetAccessList H tx = (case dtAccesses tx of None \<Rightarrow> None | Some al \<Rightarrow> ToEthAccessList H al)"

definition dt_GetGasTipCap :: "DynamicFeeTx \<Rightarrow> int option" where
  "dt_GetGasTipCap tx = dtGasTipCap tx"

definition dt_GetGasFeeCap :: "DynamicFeeTx \<Rightarrow> int option" where
  "dt_GetGasFeeCap tx = dtGasFeeCap tx"

definition dt_GetGasPrice :: "DynamicFeeTx \<Rightarrow> int option" where
  "dt_GetGasPrice tx = dt_GetGasFeeCap tx"

definition dt_GetValue :: "DynamicFeeTx \<Rightarrow> int option" where
  "dt_GetValue tx = dtAmount tx"

definition dt_GetTo :: "EthLib \<Rightarrow> DynamicFeeTx \<Rightarrow> address option" where
  "dt_GetTo H tx = hexOpt H (dtTo tx)"

definition dt_AsEthereumData :: "EthLib \<Rightarrow> DynamicFeeTx \<Rightarrow> EthTxData" where
  "dt_AsEthereumData H tx =
     (let (v, r, s) = dt_GetRawSignatureValues tx in
      EthDynamicFeeTx (dt_GetChainID tx) (dtNonce tx) (dt_GetGasTipCap tx) (dt_GetGasFeeCap tx) (dtGasLimit tx)
        (dt_GetTo H tx) (dt_GetValue tx) (dtData tx) (dt_GetAccessList H tx) v r s)"

definition dt_Fee :: "DynamicFeeTx \<Rightarrow> panic + int" where
  "dt_Fee tx = tx_fee (dt_GetGasFeeCap tx) (dtGasLimit tx)"

definition dt_Validate :: "EthLib \<Rightarrow> DynamicFeeTx \<Rightarrow> failure + unit" where
  "dt_Validate H tx =
     (case dtGasTipCap tx of
        None \<Rightarrow> Inl (Err ''gas tip cap cannot nil'')
      | Some tip \<Rightarrow>
          (case dtGasFeeCap tx of
             None \<Rightarrow> Inl (Err ''gas fee cap cannot nil'')
           | Some cap \<Rightarrow>
               if tip < 0 then Inl (Err ''gas tip cap cannot be negative'')
               else if cap < 0 then Inl (Err ''gas fee cap cannot be negative'')
               else if \<not> IsValidInt256 (dt_GetGasTipCap tx) then Inl (Err ''gas tip cap out of bound'')
               else if \<not> IsValidInt256 (dt_GetGasFeeCap tx) then Inl (Err ''gas fee cap out of bound'')
               else if cap < tip then Inl (Err ''max priority fee per gas higher than max fee per gas'')
               else rbind (panicking (dt_Fee tx)) (\<lambda>f.
                 if \<not> IsValidInt256 (Some f) then Inl (Err ''gas fee out of bound'')
                 else firstError [checkAmount (dt_GetValue tx), checkTo H (dtTo tx), checkChainID (dt_GetChainID tx)])))"

definition dt_Cost :: "DynamicFeeTx \<Rightarrow> panic + int" where
  "dt_Cost tx = rbind (dt_Fee tx) (\<lambda>f. Inr (tx_cost f (dt_GetValue tx)))"

definition dt_EffectiveGasPrice :: "int option \<Rightarrow> DynamicFeeTx \<Rightarrow> panic + int" where
  "dt_EffectiveGasPrice baseFee tx =
     (case (dtGasFeeCap tx, dtGasTipCap tx) of
        (Some cap, Some tip) \<Rightarrow> EffectiveGasPrice baseFee cap tip
      | _ \<Rightarrow> Inl NilDereference)"

definition dt_EffectiveFee :: "int option \<Rightarrow> DynamicFeeTx \<Rightarrow> panic + int" where
  "dt_EffectiveFee baseFee tx =
     rbind (dt_EffectiveGasPrice baseFee tx) (\<lambda>p. tx_fee (Some p) (dtGasLimit tx))"

definition dt_EffectiveCost :: "int option \<Rightarrow> DynamicFeeTx \<Rightarrow> panic + int" where
  "dt_EffectiveCost baseFee tx = rbind (dt_EffectiveFee baseFee tx) (\<lambda>f. Inr (tx_cost f (dt_GetValue tx)))"

section \<open>The interface TxData\<close>

datatype TxData = Legacy LegacyTx | AccessListed AccessListTx | DynamicFee DynamicFeeTx

definition NewTxDataFromTx :: "EthLib \<Rightarrow> Decs \<Rightarrow> EthTransaction \<Rightarrow> failure + TxData" where
  "NewTxDataFromTx H D tx =
     (if etType tx = DynamicFeeTxType then rbind (NewDynamicFeeTx H D tx) (\<lambda>t. Inr (DynamicFee t))
      else if etType tx = AccessListTxType then rbind (newAccessListTx H D tx) (\<lambda>t. Inr (AccessListed t))
      else rbind (NewLegacyTx H D tx) (\<lambda>t. Inr (Legacy t)))"

fun td_TxType :: "TxData \<Rightarrow> 8 word" where
  "td_TxType (Legacy t) = lt_TxType t"
| "td_TxType (AccessListed t) = at_TxType t"
| "td_TxType (DynamicFee t) = dt_TxType t"

fun td_GetChainID :: "TxData \<Rightarrow> int option" where
  "td_GetChainID (Legacy t) = lt_GetChainID t"
| "td_GetChainID (AccessListed t) = at_GetChainID t"
| "td_GetChainID (DynamicFee t) = dt_GetChainID t"

fun td_GetAccessList :: "EthLib \<Rightarrow> TxData \<Rightarrow> accesses option" where
  "td_GetAccessList H (Legacy t) = lt_GetAccessList t"
| "td_GetAccessList H (AccessListed t) = at_GetAccessList H t"
| "td_GetAccessList H (DynamicFee t) = dt_GetAccessList H t"

fun td_GetData :: "TxData \<Rightarrow> bytes" where
  "td_GetData (Legacy t) = ltData t"
| "td_GetData (AccessListed t) = atData t"
| "td_GetData (DynamicFee t) = dtData t"

fun td_GetNonce :: "TxData \<Rightarrow> u64" where
  "td_GetNonce (Legacy t) = ltNonce t"
| "td_GetNonce (AccessListed t) = atNonce t"
| "td_GetNonce (DynamicFee t) = dtNonce t"

fun td_GetGas :: "TxData \<Rightarrow> u64" where
  "td_GetGas (Legacy t) = ltGasLimit t"
| "td_GetGas (AccessListed t) = atGasLimit t"
| "td_GetGas (DynamicFee t) = dtGasLimit t"

fun td_GetGasFeeCap :: "TxData \<Rightarrow> int option" where
  "td_GetGasFeeCap (Legacy t) = lt_GetGasFeeCap t"
| "td_GetGasFeeCap (AccessListed t) = at_GetGasFeeCap t"
| "td_GetGasFeeCap (DynamicFee t) = dt_GetGasFeeCap t"

fun td_GetValue :: "TxData \<Rightarrow> int option" where
  "td_GetValue (Legacy t) = lt_GetValue t"
| "td_GetValue (AccessListed t) = at_GetValue t"
| "td_GetValue (DynamicFee t) = dt_GetValue t"

fun td_GetTo :: "EthLib \<Rightarrow> TxData \<Rightarrow> address option" where
  "td_GetTo H (Legacy t) = lt_GetTo H t"
| "td_GetTo H (AccessListed t) = at_GetTo H t"
| "td_GetTo H (DynamicFee t) = dt_GetTo H t"

fun td_AsEthereumData :: "EthLib \<Rightarrow> TxData \<Rightarrow> EthTxData" where
  "td_AsEthereumData H (Legacy t) = lt_AsEthereumData H t"
| "td_AsEthereumData H (AccessListed t) = at_AsEthereumData H t"
| "td_AsEthereumData H (DynamicFee t) = dt_AsEthereumData H t"

fun td_Validate :: "EthLib \<Rightarrow> TxData \<Rightarrow> failure + unit" where
  "td_Validate H (Legacy t) = lt_Validate H t"
| "td_Validate H (AccessListed t) = at_Validate H t"
| "td_Validate H (DynamicFee t) = dt_Validate H t"

fun td_Fee :: "TxData \<Rightarrow> panic + int" where
  "td_Fee (Legacy t) = lt_Fee t"
| "td_Fee (AccessListed t) = at_Fee t"
| "td_Fee (DynamicFee t) = dt_Fee t"

fun td_Cost :: "TxData \<Rightarrow> panic + int" where
  "td_Cost (Legacy t) = lt_Cost t"
| "td_Cost (AccessListed t) = at_Cost t"
| "td_Cost (DynamicFee t) = dt_Cost t"

fun td_EffectiveGasPrice :: "int option \<Rightarrow> TxData \<Rightarrow> panic + int option" where
  "td_EffectiveGasPrice baseFee (Legacy t) = Inr (lt_EffectiveGasPrice baseFee t)"
| "td_EffectiveGasPrice baseFee (AccessListed t) = Inr (at_EffectiveGasPrice baseFee t)"
| "td_EffectiveGasPrice baseFee (DynamicFee t) = rbind (dt_EffectiveGasPrice baseFee t) (\<lambda>p. Inr (Some p))"

fun td_EffectiveFee :: "int option \<Rightarrow> TxData \<Rightarrow> panic + int" where
  "td_EffectiveFee baseFee (Legacy t) = lt_EffectiveFee baseFee t"
| "td_EffectiveFee baseFee (AccessListed t) = at_EffectiveFee baseFee t"
| "td_EffectiveFee baseFee (DynamicFee t) = dt_EffectiveFee baseFee t"

fun td_EffectiveCost :: "int option \<Rightarrow> TxData \<Rightarrow> panic + int" where
  "td_EffectiveCost baseFee (Legacy t) = lt_EffectiveCost baseFee t"
| "td_EffectiveCost baseFee (AccessListed t) = at_EffectiveCost baseFee t"
| "td_EffectiveCost baseFee (DynamicFee t) = dt_EffectiveCost baseFee t"

section \<open>The priority of a transaction\<close>

text \<open>\<^verbatim>\<open>DefaultPriorityReduction\<close> is \<^verbatim>\<open>sdk.DefaultPowerReduction\<close>, an argument here.\<close>

definition GetTxPriority :: "int \<Rightarrow> TxData \<Rightarrow> int option \<Rightarrow> panic + int" where
  "GetTxPriority reduction txData baseFee =
     rbind (td_EffectiveGasPrice baseFee txData) (\<lambda>price.
       case price of
         None \<Rightarrow> Inl NilDereference
       | Some p \<Rightarrow>
           let tipPrice = (case baseFee of None \<Rightarrow> p | Some b \<Rightarrow> p - b) in
           if reduction = 0 then Inl DivisionByZero
           else
             let priorityBig = bigQuo tipPrice reduction
             in Inr (if in64 priorityBig then priorityBig else 2 ^ 63 - 1))"

section \<open>Gas search\<close>

text \<open>
  \<^verbatim>\<open>BinSearch\<close> with its bounds as 64-bit words: the sum of the bounds wraps around, so the loop need
  not end, and not returning is \<open>None\<close>.  \<open>executable\<close> returns whether the execution failed, or an error.
\<close>

partial_function (option) BinSearch :: "u64 \<Rightarrow> u64 \<Rightarrow> (u64 \<Rightarrow> 'e + bool) \<Rightarrow> ('e + u64) option" where
  "BinSearch lo hi executable =
     (if lo + 1 < hi then
        let mid = (hi + lo) div 2 in
        case executable mid of
          Inl err \<Rightarrow> Some (Inl err)
        | Inr failed \<Rightarrow> if failed then BinSearch mid hi executable else BinSearch lo mid executable
      else Some (Inr hi))"

declare BinSearch.simps [code]

section \<open>Messages\<close>

text \<open>
  What go-ethereum computes from a transaction: its construction from a struct, its hash, and the sender that
  the signer for a chain identifier recovers.
\<close>

record TxLib =
  NewEthTx :: "EthTxData \<Rightarrow> EthTransaction"
  TxHashOf :: "EthTransaction \<Rightarrow> hash"
  LatestSender :: "int option \<Rightarrow> EthTransaction \<Rightarrow> string + address"

text \<open>
  \<^verbatim>\<open>MsgEthereumTx\<close>.  The packed value \<^verbatim>\<open>Data\<close> is \<open>None\<close> when it is nil or does not hold a \<^verbatim>\<open>TxData\<close>;
  \<open>meSized\<close> says that the deprecated field \<^verbatim>\<open>Size_\<close> is not zero.
\<close>

record MsgEthereumTx =
  meData :: "TxData option"
  meSized :: bool
  meHash :: string
  meFrom :: string

definition UnpackTxData :: "TxData option \<Rightarrow> string + TxData" where
  "UnpackTxData any = (case any of None \<Rightarrow> Inl ''cannot unpack Any into TxData'' | Some d \<Rightarrow> Inr d)"

definition AsTransaction :: "EthLib \<Rightarrow> TxLib \<Rightarrow> MsgEthereumTx \<Rightarrow> EthTransaction option" where
  "AsTransaction H X msg =
     (case UnpackTxData (meData msg) of
        Inl _ \<Rightarrow> None
      | Inr txData \<Rightarrow> Some (NewEthTx X (td_AsEthereumData H txData)))"

record EvmTxArgs =
  eaNonce :: u64
  eaGasLimit :: u64
  eaInput :: bytes
  eaGasFeeCap :: "int option"
  eaGasPrice :: "int option"
  eaChainID :: "int option"
  eaAmount :: "int option"
  eaGasTipCap :: "int option"
  eaTo :: "address option"
  eaAccesses :: "accesses option"

definition newMsgEthereumTx :: "EthLib \<Rightarrow> Decs \<Rightarrow> TxLib \<Rightarrow> EvmTxArgs \<Rightarrow> failure + MsgEthereumTx" where
  "newMsgEthereumTx H D X tx =
     (let toAddr = optHex H (eaTo tx) in
      rbind (optChainID D (eaAmount tx) None) (\<lambda>amt.
      rbind (optChainID D (eaChainID tx) None) (\<lambda>cid.
      rbind (optChainID D (eaGasPrice tx) None) (\<lambda>gp.
      rbind
        (case eaAccesses tx of
           None \<Rightarrow>
             Inr (Legacy \<lparr>ltNonce = eaNonce tx, ltGasPrice = gp, ltGasLimit = eaGasLimit tx, ltTo = toAddr,
               ltAmount = amt, ltData = eaInput tx, ltV = [], ltR = [], ltS = []\<rparr>)
         | Some al \<Rightarrow>
             (case (eaGasFeeCap tx, eaGasTipCap tx) of
                (Some feeCap, Some tipCap) \<Rightarrow>
                  rbind (panicking (NewIntFromBigInt D tipCap)) (\<lambda>gtc.
                  rbind (panicking (NewIntFromBigInt D feeCap)) (\<lambda>gfc.
                    Inr (DynamicFee \<lparr>dtChainID = cid, dtNonce = eaNonce tx, dtGasTipCap = Some gtc,
                      dtGasFeeCap = Some gfc, dtGasLimit = eaGasLimit tx, dtTo = toAddr, dtAmount = amt,
                      dtData = eaInput tx, dtAccesses = NewAccessList H (eaAccesses tx),
                      dtV = [], dtR = [], dtS = []\<rparr>)))
              | _ \<Rightarrow>
                  Inr (AccessListed \<lparr>atChainID = cid, atNonce = eaNonce tx, atGasPrice = gp,
                    atGasLimit = eaGasLimit tx, atTo = toAddr, atAmount = amt, atData = eaInput tx,
                    atAccesses = NewAccessList H (eaAccesses tx), atV = [], atR = [], atS = []\<rparr>)))
      (\<lambda>txData.
        Inr \<lparr>meData = Some txData, meSized = False,
             meHash = HashHex H (TxHashOf X (NewEthTx X (td_AsEthereumData H txData))), meFrom = ''''\<rparr>)))))"

definition FromEthereumTx ::
    "EthLib \<Rightarrow> Decs \<Rightarrow> TxLib \<Rightarrow> EthTransaction \<Rightarrow> MsgEthereumTx \<Rightarrow> failure + MsgEthereumTx" where
  "FromEthereumTx H D X tx msg =
     rbind (NewTxDataFromTx H D tx) (\<lambda>txData.
       Inr (msg\<lparr>meData := Some txData, meHash := HashHex H (TxHashOf X tx)\<rparr>))"

definition me_ValidateBasic :: "EthLib \<Rightarrow> TxLib \<Rightarrow> MsgEthereumTx \<Rightarrow> failure + unit" where
  "me_ValidateBasic H X msg =
     (if meFrom msg \<noteq> '''' \<and> ValidateAddress H (meFrom msg) \<noteq> None then Inl (Err ''invalid from address'')
      else if meSized msg then Inl (Err ''tx size is deprecated'')
      else rbind (failing (UnpackTxData (meData msg))) (\<lambda>txData.
        let gas = td_GetGas txData in
        if gas = 0 then Inl (Err ''gas limit must not be zero'')
        else if \<not> in64 (uint gas) then Inl (Err ''gas limit must be less than math.MaxInt64'')
        else rbind (td_Validate H txData) (\<lambda>_.
          case AsTransaction H X msg of
            None \<Rightarrow> Inl (Panicked NilDereference)
          | Some tx \<Rightarrow>
              if meHash msg \<noteq> HashHex H (TxHashOf X tx) then Inl (Err ''invalid tx hash'') else Inr ())))"

definition GetSender :: "EthLib \<Rightarrow> TxLib \<Rightarrow> int option \<Rightarrow> MsgEthereumTx \<Rightarrow> failure + (address \<times> MsgEthereumTx)" where
  "GetSender H X chainID msg =
     (case AsTransaction H X msg of
        None \<Rightarrow> Inl (Panicked NilDereference)
      | Some tx \<Rightarrow> rbind (failing (LatestSender X chainID tx)) (\<lambda>from. Inr (from, msg\<lparr>meFrom := AddressHex H from\<rparr>)))"

definition me_GetSigners :: "EthLib \<Rightarrow> TxLib \<Rightarrow> MsgEthereumTx \<Rightarrow> failure + (address list \<times> MsgEthereumTx)" where
  "me_GetSigners H X msg =
     (case UnpackTxData (meData msg) of
        Inl e \<Rightarrow> Inl (Panicked (Panic e))
      | Inr data \<Rightarrow>
          (case GetSender H X (td_GetChainID data) msg of
             Inl (Err e) \<Rightarrow> Inl (Panicked (Panic e))
           | Inl (Panicked p) \<Rightarrow> Inl (Panicked p)
           | Inr (sender, msg') \<Rightarrow> Inr ([sender], msg')))"

definition me_GetGas :: "MsgEthereumTx \<Rightarrow> u64" where
  "me_GetGas msg = (case UnpackTxData (meData msg) of Inl _ \<Rightarrow> 0 | Inr txData \<Rightarrow> td_GetGas txData)"

definition me_GetFee :: "MsgEthereumTx \<Rightarrow> panic + int option" where
  "me_GetFee msg =
     (case UnpackTxData (meData msg) of Inl _ \<Rightarrow> Inr None | Inr txData \<Rightarrow> rbind (td_Fee txData) (\<lambda>f. Inr (Some f)))"

definition me_GetEffectiveFee :: "int option \<Rightarrow> MsgEthereumTx \<Rightarrow> panic + int option" where
  "me_GetEffectiveFee baseFee msg =
     (case UnpackTxData (meData msg) of
        Inl _ \<Rightarrow> Inr None | Inr txData \<Rightarrow> rbind (td_EffectiveFee baseFee txData) (\<lambda>f. Inr (Some f)))"

definition me_GetFrom :: "EthLib \<Rightarrow> MsgEthereumTx \<Rightarrow> address option" where
  "me_GetFrom H msg = (if meFrom msg = '''' then None else Some (HexToAddress H (meFrom msg)))"

text \<open>What \<^verbatim>\<open>BuildTx\<close> puts into the transaction: the message without sender, the fee and the gas limit.\<close>

definition BuildTx :: "'c Coins \<Rightarrow> Decs \<Rightarrow> string \<Rightarrow> MsgEthereumTx \<Rightarrow> failure + (MsgEthereumTx \<times> 'c \<times> u64)" where
  "BuildTx C D evmDenom msg =
     rbind (failing (UnpackTxData (meData msg))) (\<lambda>txData.
     rbind (panicking (td_Fee txData)) (\<lambda>f.
     rbind (panicking (NewIntFromBigInt D f)) (\<lambda>feeAmt.
       let fees = (if feeAmt > 0 then RawCoins C [(evmDenom, feeAmt)] else NoCoins C);
           msg = msg\<lparr>meFrom := ''''\<rparr>
       in Inr (msg, fees, me_GetGas msg))))"

section \<open>Conversions\<close>

lemma SetBytes_snoc: "SetBytes (bz @ [b]) = 256 * SetBytes bz + uint b"
  by (simp add: SetBytes_def)

lemma SetBytes_natBytes: "SetBytes (natBytes n) = int n"
proof (induction n rule: natBytes.induct)
  case (1 n)
  show ?case
  proof (cases "n = 0")
    case True
    then show ?thesis by (simp add: natBytes.simps SetBytes_def)
  next
    case False
    have "SetBytes (natBytes n) = 256 * int (n div 256) + int (n mod 256)"
      using 1 [OF False] False by (simp add: natBytes.simps [of n] SetBytes_snoc unsigned_of_nat take_bit_eq_mod zmod_int)
    then show ?thesis by (simp only: zdiv_int zmod_int of_nat_numeral mult_div_mod_eq)
  qed
qed

lemma natBytes_empty [simp]: "natBytes n = [] \<longleftrightarrow> n = 0"
  by (simp add: natBytes.simps [of n])

text \<open>A signature value as it comes back: zero becomes nil.\<close>

definition sigval :: "int option \<Rightarrow> int option" where
  "sigval v = (case v of None \<Rightarrow> None | Some n \<Rightarrow> if n = 0 then None else Some \<bar>n\<bar>)"

lemma rawSignatureValue_set [simp]: "rawSignatureValue (setBytesOf v []) = sigval v"
  by (simp add: rawSignatureValue_def setBytesOf_def sigval_def bigBytes_def SetBytes_natBytes split: option.split)

context eth_lib
begin

lemma hexOpt_optHex [simp]: "hexOpt H (optHex H to) = to"
  by (simp add: hexOpt_def optHex_def Hex_nonempty Hex_String split: option.split)

lemma accesses_back [simp]:
  "(case NewAccessList H al of None \<Rightarrow> None | Some l \<Rightarrow> ToEthAccessList H l) = (if al = Some [] then None else al)"
  by (auto simp: NewAccessList_def ToEthAccessList_def Hex_String Hash_String case_prod_beta o_def split: option.split)

end

context sdk_dec
begin

lemma SafeNewInt_ok [simp]: "\<bar>n\<bar> < 2 ^ 256 \<Longrightarrow> SafeNewIntFromBigInt D n = Inr n"
  by (simp add: SafeNewIntFromBigInt_def IsValidInt256_def NewInt_ok)

lemma SafeNewInt_bound: "\<not> \<bar>n\<bar> < 2 ^ 256 \<Longrightarrow> SafeNewIntFromBigInt D n = Inl (Err ''big int out of bound'')"
  by (simp add: SafeNewIntFromBigInt_def IsValidInt256_def)

lemma optInt_cases: "optInt D v = (if IsValidInt256 v then Inr v else Inl (Err ''big int out of bound''))"
  by (auto simp: optInt_def IsValidInt256_def SafeNewInt_bound split: option.split)

lemma optChainID_ok: "IsValidInt256 c \<Longrightarrow> optChainID D c None = Inr c"
  by (auto simp: optChainID_def IsValidInt256_def NewInt_ok split: option.splits)

lemma optChainID_id: "optChainID D c None = Inr c' \<Longrightarrow> c' = c"
  by (auto simp: optChainID_def NewInt_id split: option.splits)

end

text \<open>The struct of go-ethereum with the values of a transaction.\<close>

definition inner_of :: "EthTransaction \<Rightarrow> EthTxData" where
  "inner_of tx =
     (let al = (if etAccessList tx = Some [] then None else etAccessList tx) in
      if etType tx = DynamicFeeTxType then
        EthDynamicFeeTx (etChainId tx) (etNonce tx) (etGasTipCap tx) (etGasFeeCap tx) (etGas tx) (etTo tx)
          (etValue tx) (etData tx) al (sigval (etV tx)) (sigval (etR tx)) (sigval (etS tx))
      else if etType tx = AccessListTxType then
        EthAccessListTx (etChainId tx) (etNonce tx) (etGasPrice tx) (etGas tx) (etTo tx) (etValue tx)
          (etData tx) al (sigval (etV tx)) (sigval (etR tx)) (sigval (etS tx))
      else EthLegacyTx (etNonce tx) (etGasPrice tx) (etGas tx) (etTo tx) (etValue tx) (etData tx)
        (sigval (etV tx)) (sigval (etR tx)) (sigval (etS tx)))"

text \<open>The numbers of a transaction that the message stores with a bound of 256 bits.\<close>

definition bounded_tx :: "EthTransaction \<Rightarrow> bool" where
  "bounded_tx tx \<longleftrightarrow>
     IsValidInt256 (etValue tx) \<and>
     (if etType tx = DynamicFeeTxType
      then IsValidInt256 (etGasFeeCap tx) \<and> IsValidInt256 (etGasTipCap tx) else IsValidInt256 (etGasPrice tx))"

lemmas tx_new_defs =
  NewTxDataFromTx_def NewDynamicFeeTx_def newAccessListTx_def NewLegacyTx_def dt_SetSignatureValues_def
  at_SetSignatureValues_def lt_SetSignatureValues_def

lemmas tx_as_defs =
  lt_AsEthereumData_def at_AsEthereumData_def dt_AsEthereumData_def lt_GetRawSignatureValues_def
  at_GetRawSignatureValues_def dt_GetRawSignatureValues_def rawSignatureValues_def lt_GetTo_def at_GetTo_def
  dt_GetTo_def lt_GetGasPrice_def at_GetGasPrice_def dt_GetGasTipCap_def dt_GetGasFeeCap_def lt_GetValue_def
  at_GetValue_def dt_GetValue_def at_GetChainID_def dt_GetChainID_def at_GetAccessList_def dt_GetAccessList_def

text \<open>
  A transaction survives the trip through the message.  When the numbers of a transaction of go-ethereum
  have at most 256 bits, the conversion succeeds for each of the three kinds and the converted data turns back into
  the struct with the same chain identifier, nonce, prices, gas, recipient, value, input, access list and
  signature values; a signature value of zero and an empty access list become nil.  When one of the value, the gas
  price or the two fee caps is longer, the conversion returns an error and does not panic.
\<close>

theorem tx_round_trip:
  assumes "eth_lib H" and "sdk_dec D" and "IsValidInt256 (etChainId tx)"
  shows "if bounded_tx tx
    then \<exists>d. NewTxDataFromTx H D tx = Inr d \<and> td_AsEthereumData H d = inner_of tx
    else NewTxDataFromTx H D tx = Inl (Err ''big int out of bound'')"
  unfolding bounded_tx_def inner_of_def Let_def
  by (simp add: tx_new_defs tx_as_defs sdk_dec.optInt_cases [OF assms(2)] sdk_dec.optChainID_ok [OF assms(2,3)]
      eth_lib.hexOpt_optHex [OF assms(1)] eth_lib.accesses_back [OF assms(1)])

definition ref_tx :: EthTransaction where
  "ref_tx =
     \<lparr>etType = DynamicFeeTxType, etChainId = Some 9000, etNonce = 3, etData = [1, 2], etGas = 21000,
      etTo = Some 77, etValue = Some 5, etGasPrice = Some 40, etGasTipCap = Some 2, etGasFeeCap = Some 40,
      etAccessList = Some [(77, [1])], etV = Some 0, etR = Some 300, etS = Some 7\<rparr>"

theorem tx_round_trip_witness:
  "\<exists>d. NewTxDataFromTx ref_eth ref_dec ref_tx = Inr d \<and>
    td_AsEthereumData ref_eth d =
      EthDynamicFeeTx (Some 9000) 3 (Some 2) (Some 40) 21000 (Some 77) (Some 5) [1, 2] (Some [(77, [1])])
        None (Some 300) (Some 7)"
  using tx_round_trip [OF ref_eth.eth_lib_axioms ref_dec.sdk_dec_axioms, of ref_tx]
  by (simp add: ref_tx_def bounded_tx_def inner_of_def sigval_def IsValidInt256_def)

section \<open>Chain identifiers\<close>

lemma uint_small: "0 \<le> n \<Longrightarrow> n < 2 ^ 64 \<Longrightarrow> uint (word_of_int n :: u64) = n"
  by (simp add: uint_word_of_int)

lemma DeriveChainID_small:
  assumes "35 \<le> n" and "n < 2 ^ 64"
  shows "DeriveChainID (Some n) = Some ((n - 35) div 2)"
proof -
  let ?v = "word_of_int n :: u64"
  have v: "uint ?v = n" using assms by (intro uint_small) auto
  have "?v - 35 = word_of_int (n - 35)" by simp
  then have "uint (?v - 35) = n - 35" using uint_small [of "n - 35"] assms by simp
  then have "uint ((?v - 35) div 2) = (n - 35) div 2" by (simp add: uint_div_distrib)
  moreover have "uint ?v \<noteq> uint (27 :: u64)" "uint ?v \<noteq> uint (28 :: u64)" "\<not> ?v < 35"
    using v assms by (simp_all add: word_less_def)
  then have "?v \<noteq> 27" "?v \<noteq> 28" "\<not> ?v < 35" by metis+
  ultimately show ?thesis using assms by (simp add: DeriveChainID_def Let_def)
qed

lemma DeriveChainID_inverse:
  assumes "0 \<le> c" and "p = 0 \<or> p = 1"
  shows "DeriveChainID (Some (p + c * 2 + 35)) = Some c"
proof (cases "p + c * 2 + 35 < 2 ^ 64")
  case True
  then show ?thesis using assms DeriveChainID_small [of "p + c * 2 + 35"] by auto
next
  case False
  then show ?thesis using assms by (auto simp: DeriveChainID_def)
qed

section \<open>Gas search\<close>

lemma BinSearch_returns:
  assumes "unat lo < unat hi" and "unat hi \<le> 2 ^ 63"
  shows "(\<exists>e g. BinSearch lo hi executable = Some (Inl e) \<and> executable g = Inl e) \<or>
    (\<exists>g. BinSearch lo hi executable = Some (Inr g) \<and> unat lo < unat g \<and> unat g \<le> unat hi \<and>
      (g = hi \<or> executable g = Inr False) \<and> (unat g = unat lo + 1 \<or> executable (g - 1) = Inr True))"
  using assms
proof (induction "unat hi - unat lo" arbitrary: lo hi rule: less_induct)
  case less
  have nov: "unat (lo + 1) = unat lo + 1" "unat (hi + lo) = unat hi + unat lo"
    using less.prems by (simp_all add: unat_word_ariths)
  show ?case
  proof (cases "lo + 1 < hi")
    case False
    then have "unat hi = unat lo + 1" using nov(1) less.prems by (simp add: word_less_nat_alt)
    then show ?thesis using False by (subst (1 2) BinSearch.simps) auto
  next
    case step: True
    let ?mid = "(hi + lo) div 2"
    have mid: "unat ?mid = (unat hi + unat lo) div 2" using nov(2) by (simp add: unat_div_distrib)
    have lt: "unat lo < unat ?mid" "unat ?mid < unat hi"
      using step nov(1) unfolding mid by (auto simp: word_less_nat_alt)
    have dec: "unat hi - unat ?mid < unat hi - unat lo" "unat ?mid - unat lo < unat hi - unat lo"
      using lt by linarith+
    have half: "unat ?mid \<le> 2 ^ 63" using lt(2) less.prems(2) by linarith
    consider (err) e where "executable ?mid = Inl e" | (up) "executable ?mid = Inr True" | (down) "executable ?mid = Inr False"
      by (metis (full_types) obj_sumE)
    then show ?thesis
    proof cases
      case err
      then have "BinSearch lo hi executable = Some (Inl e)" using step by (subst BinSearch.simps) (simp add: Let_def)
      then show ?thesis using err by blast
    next
      case up
      then have eq: "BinSearch lo hi executable = BinSearch ?mid hi executable"
        using step by (subst BinSearch.simps) (simp add: Let_def)
      have "g - 1 = ?mid" if "unat g = unat ?mid + 1" for g :: u64
        using arg_cong [OF that, of "word_of_nat :: nat \<Rightarrow> u64"] by simp
      then show ?thesis using less.hyps [OF dec(1) lt(2) less.prems(2)] up lt(1) unfolding eq
        by (elim disjE exE conjE) (blast, auto)
    next
      case down
      then have eq: "BinSearch lo hi executable = BinSearch lo ?mid executable"
        using step by (subst BinSearch.simps) (simp add: Let_def)
      show ?thesis using less.hyps [OF dec(2) lt(1) half] down lt(2) unfolding eq
        by (elim disjE exE conjE) (blast, auto)
    qed
  qed
qed

text \<open>
  The gas search ends and finds the least gas limit.  With bounds of at most \<open>2 ^ 63\<close> and an execution that does not
  fail with a consensus error, \<^verbatim>\<open>BinSearch\<close> returns; when more gas never makes an execution fail, every
  limit between the lower bound and the result fails and the result succeeds or is the upper bound.
\<close>

theorem gas_search_least:
  assumes "unat lo < unat hi" and "unat hi \<le> 2 ^ 63" and "\<forall>g. \<exists>b. executable g = Inr b"
    and "\<forall>g h. g \<le> h \<and> executable g = Inr False \<longrightarrow> executable h = Inr False"
  shows "\<exists>g. BinSearch lo hi executable = Some (Inr g) \<and> lo < g \<and> g \<le> hi \<and>
    (g = hi \<or> executable g = Inr False) \<and> (\<forall>h. lo < h \<and> h < g \<longrightarrow> executable h = Inr True)"
proof -
  have "executable g \<noteq> Inl e" for g e using assms(3) by (metis sum.distinct(1))
  then obtain g where g: "BinSearch lo hi executable = Some (Inr g)" "unat lo < unat g" "unat g \<le> unat hi"
    "g = hi \<or> executable g = Inr False" "unat g = unat lo + 1 \<or> executable (g - 1) = Inr True"
    using BinSearch_returns [OF assms(1,2), of executable] by blast
  have "executable h = Inr True" if h: "lo < h" "h < g" for h
  proof -
    have "unat (g - 1) = unat g - 1" using g(2) by (intro unat_minus_one) auto
    then have le: "h \<le> g - 1" using h(2) by (simp add: word_less_nat_alt word_le_nat_alt)
    have "executable (g - 1) = Inr True" using g(5) h by (auto simp: word_less_nat_alt)
    moreover obtain b where b: "executable h = Inr b" using assms(3) by blast
    moreover have "executable (g - 1) = Inr False" if "executable h = Inr False" using assms(4) le that by blast
    ultimately show ?thesis by (cases b) auto
  qed
  then show ?thesis using g by (intro exI [of _ g]) (simp add: word_less_nat_alt word_le_nat_alt)
qed

theorem gas_search_least_witness:
  "\<exists>g. BinSearch 20999 60000 (\<lambda>g. Inr (g < 30000) :: string + bool) = Some (Inr g) \<and> 20999 < g \<and> g \<le> 60000 \<and>
    (g = 60000 \<or> \<not> g < 30000) \<and> (\<forall>h. 20999 < h \<and> h < g \<longrightarrow> h < 30000)"
proof -
  have "\<forall>g h :: u64. g \<le> h \<and> Inr (g < 30000) = (Inr False :: string + bool) \<longrightarrow>
      Inr (h < 30000) = (Inr False :: string + bool)"
    using order_less_le_trans leD by (auto simp: not_less)
  then show ?thesis using gas_search_least [of 20999 60000 "\<lambda>g. Inr (g < 30000) :: string + bool"] by simp
qed

lemma div_2_bound: "unat (w div 2) < 2 ^ 63" for w :: u64
proof -
  have "unat w < 2 ^ 64" using unsigned_less [of w] by simp
  then show ?thesis by (simp add: unat_div_distrib)
qed

text \<open>
  Beyond that range the sum of the bounds wraps around: with an upper bound above \<open>2 ^ 63 + 1\<close> and an execution that
  always fails the search never returns.
\<close>

theorem gas_search_overflow:
  assumes "2 ^ 63 + 2 \<le> hi" and "lo \<le> 2 ^ 63"
  shows "BinSearch lo hi (\<lambda>_. Inr True) = None"
proof -
  have low: "hi < 2 ^ 63 + 2" if "BinSearch lo hi ex = Some y" and "ex = (\<lambda>_. Inr True)" "unat lo \<le> 2 ^ 63" for lo hi ex y
    using that
  proof (induction lo hi ex y rule: BinSearch.raw_induct [rotated, consumes 1, case_names step])
    case (step BS lo hi ex y)
    show ?case
    proof (rule ccontr)
      assume "\<not> hi < 2 ^ 63 + 2"
      then have "2 ^ 63 + 2 \<le> unat hi" by (simp add: word_less_nat_alt)
      moreover have "unat (lo + 1) = unat lo + 1" using step.prems(2) by (subst unat_word_ariths) simp
      ultimately have "lo + 1 < hi" using step.prems(2) by (simp add: word_less_nat_alt)
      then have "BS ((hi + lo) div 2) hi ex = Some y" using step.hyps step.prems(1) by (simp add: Let_def)
      then show False using step.IH [OF _ step.prems(1)] div_2_bound [of "hi + lo"] \<open>\<not> hi < 2 ^ 63 + 2\<close> by fastforce
    qed
  qed
  have lo: "unat lo \<le> 2 ^ 63" using assms(2) by (simp add: word_le_nat_alt)
  have "BinSearch lo hi (\<lambda>_. Inr True) \<noteq> Some y" for y
    using low [OF _ refl lo, of hi y] assms(1) by auto
  then show ?thesis by (cases "BinSearch lo hi (\<lambda>_. Inr True)") auto
qed

theorem gas_search_overflow_witness:
  "BinSearch 20999 (2 ^ 64 - 1) (\<lambda>_. Inr True :: string + bool) = None"
  by (rule gas_search_overflow) simp_all

section \<open>Validated transactions\<close>

lemma firstError_Inr: "firstError es = Inr () \<longleftrightarrow> (\<forall>e \<in> set es. e = None)"
  by (induction es rule: firstError.induct) auto

lemma firstError_no_panic: "firstError es \<noteq> Inl (Panicked p)"
  by (induction es rule: firstError.induct) auto

lemmas tx_get_defs =
  lt_GetGasPrice_def at_GetGasPrice_def lt_GetGasFeeCap_def at_GetGasFeeCap_def dt_GetGasFeeCap_def
  dt_GetGasTipCap_def lt_Fee_def at_Fee_def dt_Fee_def tx_fee_def lt_GetValue_def at_GetValue_def dt_GetValue_def

lemmas tx_effective_defs =
  lt_EffectiveGasPrice_def at_EffectiveGasPrice_def dt_EffectiveGasPrice_def EffectiveGasPrice_def
  lt_EffectiveFee_def at_EffectiveFee_def dt_EffectiveFee_def lt_EffectiveCost_def at_EffectiveCost_def
  dt_EffectiveCost_def lt_Cost_def at_Cost_def dt_Cost_def

lemma td_Validate_no_panic: "td_Validate H d \<noteq> Inl (Panicked p)"
  by (cases d)
    (simp_all add: lt_Validate_def at_Validate_def dt_Validate_def tx_get_defs firstError_no_panic
      split: option.split)

text \<open>What the fee market needs to know of a validated transaction.\<close>

lemma td_Validate_fees:
  assumes "td_Validate H d = Inr ()"
  obtains cap where "td_GetGasFeeCap d = Some cap" "0 \<le> cap" "td_Fee d = Inr (cap * uint (td_GetGas d))"
    "cap * uint (td_GetGas d) < 2 ^ 256" "\<And>v. td_GetValue d = Some v \<Longrightarrow> 0 \<le> v \<and> v < 2 ^ 256"
    "td_GetChainID d \<noteq> None"
    "\<And>b. 0 \<le> b \<Longrightarrow> b \<le> cap \<Longrightarrow> \<exists>p. td_EffectiveGasPrice (Some b) d = Inr (Some p) \<and> b \<le> p \<and> p \<le> cap \<and>
       td_EffectiveFee (Some b) d = Inr (p * uint (td_GetGas d))"
proof (cases d)
  case (Legacy t)
  with assms that show ?thesis
    by (auto simp: lt_Validate_def tx_get_defs tx_effective_defs firstError_Inr checkAmount_def checkChainID_def
        IsValidInt256_def split: option.splits if_splits)
next
  case (AccessListed t)
  with assms that show ?thesis
    by (auto simp: at_Validate_def tx_get_defs tx_effective_defs firstError_Inr checkAmount_def checkChainID_def
        IsValidInt256_def split: option.splits if_splits)
next
  case (DynamicFee t)
  with assms that show ?thesis
    by (auto simp: dt_Validate_def tx_get_defs tx_effective_defs firstError_Inr checkAmount_def checkChainID_def
        IsValidInt256_def split: option.splits if_splits)
qed


fun ref_NewEthTx :: "EthTxData \<Rightarrow> EthTransaction" where
  "ref_NewEthTx (EthLegacyTx n p g to v dt V R S) =
     \<lparr>etType = LegacyTxType, etChainId = None, etNonce = n, etData = dt, etGas = g, etTo = to, etValue = v, etGasPrice = p,
      etGasTipCap = p, etGasFeeCap = p, etAccessList = None, etV = V, etR = R, etS = S\<rparr>"
| "ref_NewEthTx (EthAccessListTx c n p g to v dt al V R S) =
     \<lparr>etType = AccessListTxType, etChainId = c, etNonce = n, etData = dt, etGas = g, etTo = to, etValue = v, etGasPrice = p,
      etGasTipCap = p, etGasFeeCap = p, etAccessList = al, etV = V, etR = R, etS = S\<rparr>"
| "ref_NewEthTx (EthDynamicFeeTx c n tip cap g to v dt al V R S) =
     \<lparr>etType = DynamicFeeTxType, etChainId = c, etNonce = n, etData = dt, etGas = g, etTo = to, etValue = v, etGasPrice = cap,
      etGasTipCap = tip, etGasFeeCap = cap, etAccessList = al, etV = V, etR = R, etS = S\<rparr>"

definition ref_txlib :: TxLib where
  "ref_txlib =
     \<lparr>NewEthTx = ref_NewEthTx, TxHashOf = (\<lambda>tx. ucast (etNonce tx) + 1), LatestSender = (\<lambda>_ tx. Inr (ucast (etNonce tx) + 5))\<rparr>"

definition ref_msg :: MsgEthereumTx where
  "ref_msg =
     \<lparr>meData = Some (Legacy \<lparr>ltNonce = 3, ltGasPrice = Some 10, ltGasLimit = 21000, ltTo = '''', ltAmount = Some 5,
        ltData = [], ltV = bigBytes 18035, ltR = [1], ltS = [1]\<rparr>),
      meSized = False, meHash = HashHex ref_eth 4, meFrom = ''''\<rparr>"

lemma ref_msg_chain: "DeriveChainID (Some 18035) = Some 9000"
  using DeriveChainID_inverse [of 9000 0] by simp

lemma ref_msg_valid: "me_ValidateBasic ref_eth ref_txlib ref_msg = Inr ()"
  by (simp add: me_ValidateBasic_def ref_msg_def UnpackTxData_def AsTransaction_def lt_Validate_def tx_get_defs
      IsValidInt256_def checkAmount_def checkTo_def checkChainID_def lt_GetChainID_def lt_GetRawSignatureValues_def
      rawSignatureValues_def rawSignatureValue_def bigBytes_def SetBytes_natBytes ref_msg_chain in64_def
      lt_AsEthereumData_def ref_txlib_def ref_tx_def)


end
