(* ===== verification/Evm_Params.thy ===== *)
theory Evm_Params
  imports Evm_Keeper Evm_Tx Epochs
begin

text \<open>
  Configuration and block state of the EVM module: \<^verbatim>\<open>x/evm/types/{params,chain_config,logs,tx}.go\<close>,
  \<^verbatim>\<open>x/evm/keeper/{params,config,block_proposer}.go\<close>, the transient counters of
  \<^verbatim>\<open>x/evm/keeper/keeper.go\<close> and \<^verbatim>\<open>types/block.go\<close>, \<^verbatim>\<open>types/gasmeter.go\<close>.

  What go-ethereum decides from a chain configuration (which forks are active at a height, the
  precompiled contracts, the intrinsic gas, the message behind a transaction) is the record \<open>EthCore\<close>.  The
  state of the module is \<open>EvmState\<close>: the store of \<open>Evm_Keeper\<close>, the parameters, the store of the fee market, the
  transient store of the block, the gas meter of the transaction and the stores \<open>'w\<close> of the modules that hook
  into transactions.  Stores are typed, so big-endian and protobuf encodings are left out.  The denomination is kept
  in the store that the \<open>StateDB\<close> runs on.
\<close>

section \<open>Chain configuration\<close>

record ChainConfig =
  HomesteadBlock :: "int option"
  DAOForkBlock :: "int option"
  DAOForkSupport :: bool
  EIP150Block :: "int option"
  EIP150Hash :: string
  EIP155Block :: "int option"
  EIP158Block :: "int option"
  ByzantiumBlock :: "int option"
  ConstantinopleBlock :: "int option"
  PetersburgBlock :: "int option"
  IstanbulBlock :: "int option"
  MuirGlacierBlock :: "int option"
  BerlinBlock :: "int option"
  LondonBlock :: "int option"
  ArrowGlacierBlock :: "int option"
  GrayGlacierBlock :: "int option"
  MergeNetsplitBlock :: "int option"
  ShanghaiBlock :: "int option"
  CancunBlock :: "int option"

text \<open>The \<^verbatim>\<open>params.ChainConfig\<close> of go-ethereum: the chain identifier, the hash and the fork blocks.\<close>

record EthChainConfig =
  ecChainID :: "int option"
  ecEIP150Hash :: hash
  ecForks :: ChainConfig

definition getBlockValue :: "int option \<Rightarrow> int option" where
  "getBlockValue block = (case block of None \<Rightarrow> None | Some b \<Rightarrow> if b < 0 then None else Some b)"

definition EthereumConfig :: "EthLib \<Rightarrow> ChainConfig \<Rightarrow> int option \<Rightarrow> EthChainConfig" where
  "EthereumConfig H cc chainID =
     \<lparr>ecChainID = chainID, ecEIP150Hash = HexToHash H (EIP150Hash cc),
      ecForks =
        \<lparr>HomesteadBlock = getBlockValue (HomesteadBlock cc), DAOForkBlock = getBlockValue (DAOForkBlock cc),
         DAOForkSupport = DAOForkSupport cc, EIP150Block = getBlockValue (EIP150Block cc), EIP150Hash = EIP150Hash cc,
         EIP155Block = getBlockValue (EIP155Block cc), EIP158Block = getBlockValue (EIP158Block cc),
         ByzantiumBlock = getBlockValue (ByzantiumBlock cc), ConstantinopleBlock = getBlockValue (ConstantinopleBlock cc),
         PetersburgBlock = getBlockValue (PetersburgBlock cc), IstanbulBlock = getBlockValue (IstanbulBlock cc),
         MuirGlacierBlock = getBlockValue (MuirGlacierBlock cc), BerlinBlock = getBlockValue (BerlinBlock cc),
         LondonBlock = getBlockValue (LondonBlock cc), ArrowGlacierBlock = getBlockValue (ArrowGlacierBlock cc),
         GrayGlacierBlock = getBlockValue (GrayGlacierBlock cc), MergeNetsplitBlock = getBlockValue (MergeNetsplitBlock cc),
         ShanghaiBlock = getBlockValue (ShanghaiBlock cc), CancunBlock = getBlockValue (CancunBlock cc)\<rparr>\<rparr>"

definition DefaultChainConfig :: "EthLib \<Rightarrow> ChainConfig" where
  "DefaultChainConfig H =
     \<lparr>HomesteadBlock = Some 0, DAOForkBlock = Some 0, DAOForkSupport = True, EIP150Block = Some 0,
      EIP150Hash = HashHex H 0, EIP155Block = Some 0, EIP158Block = Some 0, ByzantiumBlock = Some 0,
      ConstantinopleBlock = Some 0, PetersburgBlock = Some 0, IstanbulBlock = Some 0, MuirGlacierBlock = Some 0,
      BerlinBlock = Some 0, LondonBlock = Some 0, ArrowGlacierBlock = Some 0, GrayGlacierBlock = Some 0,
      MergeNetsplitBlock = Some 0, ShanghaiBlock = Some 0, CancunBlock = Some 0\<rparr>"

text \<open>What go-ethereum computes; the signer is made from the configuration and the height.\<close>

record Message =
  mFrom :: address
  mTo :: "address option"
  mNonce :: u64
  mValue :: int
  mGas :: u64
  mGasPrice :: int
  mGasFeeCap :: int
  mGasTipCap :: int
  mData :: bytes
  mAccessList :: "accesses option"

record EthCore =
  IsHomestead :: "EthChainConfig \<Rightarrow> int \<Rightarrow> bool"
  IsIstanbul :: "EthChainConfig \<Rightarrow> int \<Rightarrow> bool"
  IsBerlin :: "EthChainConfig \<Rightarrow> int \<Rightarrow> bool"
  IsLondon :: "EthChainConfig \<Rightarrow> int \<Rightarrow> bool"
  ActivePrecompiles :: "EthChainConfig \<Rightarrow> int \<Rightarrow> address list"
  CheckConfigForkOrder :: "EthChainConfig \<Rightarrow> string option"
  ValidEip :: "int \<Rightarrow> bool"
  IntrinsicGas :: "bytes \<Rightarrow> accesses option \<Rightarrow> bool \<Rightarrow> bool \<Rightarrow> bool \<Rightarrow> string + u64"
  RefundQuotient :: u64
  RefundQuotientEIP3529 :: u64
  AsMessage :: "EthChainConfig \<Rightarrow> int \<Rightarrow> int option \<Rightarrow> EthTransaction \<Rightarrow> string + Message"
  SenderAt :: "EthChainConfig \<Rightarrow> int \<Rightarrow> EthTransaction \<Rightarrow> string + address"
  Protected :: "EthTransaction \<Rightarrow> bool"
  LogsBloom :: "Log list \<Rightarrow> int"

definition validateBlock :: "int option \<Rightarrow> string option" where
  "validateBlock block =
     (case block of None \<Rightarrow> None | Some b \<Rightarrow> if b < 0 then Some ''block value cannot be negative'' else None)"

definition validateHash :: "string \<Rightarrow> string option" where
  "validateHash hex = (if hex \<noteq> '''' \<and> TrimSpace hex = '''' then Some ''hash cannot be blank'' else None)"

fun firstSome :: "string option list \<Rightarrow> string option" where
  "firstSome [] = None"
| "firstSome (None # es) = firstSome es"
| "firstSome (Some e # es) = Some e"

definition cc_Validate :: "EthLib \<Rightarrow> EthCore \<Rightarrow> ChainConfig \<Rightarrow> string option" where
  "cc_Validate H G cc =
     firstSome
       [validateBlock (HomesteadBlock cc), validateBlock (DAOForkBlock cc), validateBlock (EIP150Block cc),
        validateHash (EIP150Hash cc), validateBlock (EIP155Block cc), validateBlock (EIP158Block cc),
        validateBlock (ByzantiumBlock cc), validateBlock (ConstantinopleBlock cc), validateBlock (PetersburgBlock cc),
        validateBlock (IstanbulBlock cc), validateBlock (MuirGlacierBlock cc), validateBlock (BerlinBlock cc),
        validateBlock (LondonBlock cc), validateBlock (ArrowGlacierBlock cc), validateBlock (GrayGlacierBlock cc),
        validateBlock (MergeNetsplitBlock cc), validateBlock (ShanghaiBlock cc), validateBlock (CancunBlock cc),
        CheckConfigForkOrder G (EthereumConfig H cc None)]"

section \<open>Parameters\<close>

record EvmParams =
  pEvmDenom :: string
  pEnableCreate :: bool
  pEnableCall :: bool
  pExtraEIPs :: "int list"
  pChainConfig :: ChainConfig
  pAllowUnprotectedTxs :: bool

definition ev_NewParams :: "string \<Rightarrow> bool \<Rightarrow> bool \<Rightarrow> bool \<Rightarrow> ChainConfig \<Rightarrow> int list \<Rightarrow> EvmParams" where
  "ev_NewParams evmDenom allowUnprotectedTxs enableCreate enableCall config extraEIPs =
     \<lparr>pEvmDenom = evmDenom, pEnableCreate = enableCreate, pEnableCall = enableCall, pExtraEIPs = extraEIPs,
      pChainConfig = config, pAllowUnprotectedTxs = allowUnprotectedTxs\<rparr>"

definition ev_DefaultParams :: "EthLib \<Rightarrow> string \<Rightarrow> EvmParams" where
  "ev_DefaultParams H baseDenom =
     \<lparr>pEvmDenom = baseDenom, pEnableCreate = True, pEnableCall = True, pExtraEIPs = [],
      pChainConfig = DefaultChainConfig H, pAllowUnprotectedTxs = False\<rparr>"

definition validateEIPs :: "EthCore \<Rightarrow> int list \<Rightarrow> string option" where
  "validateEIPs G eips = (if list_all (ValidEip G) eips then None else Some ''EIP is not activateable'')"

text \<open>\<open>validateDenom\<close> is \<^verbatim>\<open>sdk.ValidateDenom\<close>.\<close>

definition ev_Validate :: "EthLib \<Rightarrow> EthCore \<Rightarrow> (string \<Rightarrow> string option) \<Rightarrow> EvmParams \<Rightarrow> string option" where
  "ev_Validate H G validateDenom p =
     firstSome [validateDenom (pEvmDenom p), validateEIPs G (pExtraEIPs p), cc_Validate H G (pChainConfig p)]"

section \<open>The state of the module\<close>

record ('x, 'w) EvmState =
  esEvm :: "'x EvmCtx"
  esParams :: "EvmParams option"
  esLegacyParams :: EvmParams
  esFm :: FmStore
  esBloom :: "(int, int) fmap"
  esTxIndex :: "u64 option"
  esLogSize :: "u64 option"
  esGasUsed :: "u64 option"
  esGasMeter :: u64
  esMods :: 'w

definition ev_GetParams :: "('x, 'w) EvmState \<Rightarrow> EvmParams" where
  "ev_GetParams es = (case esParams es of None \<Rightarrow> esLegacyParams es | Some p \<Rightarrow> p)"

definition ev_SetParams ::
    "EthLib \<Rightarrow> EthCore \<Rightarrow> (string \<Rightarrow> string option) \<Rightarrow> EvmParams \<Rightarrow> ('x, 'w) EvmState \<Rightarrow> string + ('x, 'w) EvmState" where
  "ev_SetParams H G validateDenom params es =
     (case ev_Validate H G validateDenom params of
        Some e \<Rightarrow> Inl e
      | None \<Rightarrow> Inr (es\<lparr>esParams := Some params, esEvm := (esEvm es)\<lparr>EvmDenom := pEvmDenom params\<rparr>\<rparr>))"

definition ev_UpdateParams ::
    "EthLib \<Rightarrow> EthCore \<Rightarrow> (string \<Rightarrow> string option) \<Rightarrow> string \<Rightarrow> string \<Rightarrow> EvmParams \<Rightarrow> ('x, 'w) EvmState \<Rightarrow>
      string + ('x, 'w) EvmState" where
  "ev_UpdateParams H G validateDenom authority reqAuthority params es =
     (if authority \<noteq> reqAuthority then Inl ''invalid authority'' else ev_SetParams H G validateDenom params es)"

subsection \<open>Transient counters of the block\<close>

definition GetBlockBloomTransient :: "int \<Rightarrow> ('x, 'w) EvmState \<Rightarrow> int" where
  "GetBlockBloomTransient height es = (case fmlookup (esBloom es) height of None \<Rightarrow> 0 | Some b \<Rightarrow> b)"

definition SetBlockBloomTransient :: "int \<Rightarrow> int \<Rightarrow> ('x, 'w) EvmState \<Rightarrow> ('x, 'w) EvmState" where
  "SetBlockBloomTransient height bloom es = es\<lparr>esBloom := fmupd height bloom (esBloom es)\<rparr>"

definition SetTxIndexTransient :: "u64 \<Rightarrow> ('x, 'w) EvmState \<Rightarrow> ('x, 'w) EvmState" where
  "SetTxIndexTransient index es = es\<lparr>esTxIndex := Some index\<rparr>"

definition GetTxIndexTransient :: "('x, 'w) EvmState \<Rightarrow> u64" where
  "GetTxIndexTransient es = (case esTxIndex es of None \<Rightarrow> 0 | Some i \<Rightarrow> i)"

definition GetLogSizeTransient :: "('x, 'w) EvmState \<Rightarrow> u64" where
  "GetLogSizeTransient es = (case esLogSize es of None \<Rightarrow> 0 | Some n \<Rightarrow> n)"

definition SetLogSizeTransient :: "u64 \<Rightarrow> ('x, 'w) EvmState \<Rightarrow> ('x, 'w) EvmState" where
  "SetLogSizeTransient logSize es = es\<lparr>esLogSize := Some logSize\<rparr>"

definition ResetTransientGasUsed :: "('x, 'w) EvmState \<Rightarrow> ('x, 'w) EvmState" where
  "ResetTransientGasUsed es = es\<lparr>esGasUsed := None\<rparr>"

definition GetTransientGasUsed :: "('x, 'w) EvmState \<Rightarrow> u64" where
  "GetTransientGasUsed es = (case esGasUsed es of None \<Rightarrow> 0 | Some g \<Rightarrow> g)"

definition SetTransientGasUsed :: "u64 \<Rightarrow> ('x, 'w) EvmState \<Rightarrow> ('x, 'w) EvmState" where
  "SetTransientGasUsed gasUsed es = es\<lparr>esGasUsed := Some gasUsed\<rparr>"

definition AddTransientGasUsed :: "u64 \<Rightarrow> ('x, 'w) EvmState \<Rightarrow> string + (u64 \<times> ('x, 'w) EvmState)" where
  "AddTransientGasUsed gasUsed es =
     (let result = GetTransientGasUsed es + gasUsed in
      if result < gasUsed then Inl ''gas computation overflow/underflow''
      else Inr (result, SetTransientGasUsed result es))"

subsection \<open>The gas meter with a limit\<close>

definition addUint64Overflow :: "u64 \<Rightarrow> u64 \<Rightarrow> u64 \<times> bool" where
  "addUint64Overflow a b = (if - 1 - a < b then (0, True) else (a + b, False))"

definition ConsumeGas :: "u64 \<Rightarrow> u64 \<Rightarrow> panic + u64" where
  "ConsumeGas amount consumed =
     (let (g, overflow) = addUint64Overflow consumed amount in
      if overflow then Inl (Panic ''ErrorGasOverflow'') else Inr g)"

definition gm_RefundGas :: "u64 \<Rightarrow> u64 \<Rightarrow> panic + u64" where
  "gm_RefundGas amount consumed =
     (if consumed < amount then Inl (Panic ''ErrorNegativeGasConsumed'') else Inr (consumed - amount))"

text \<open>\<^verbatim>\<open>ResetGasMeterAndConsumeGas\<close> of \<^verbatim>\<open>x/evm/keeper/gas.go\<close>.\<close>

definition ResetGasMeterAndConsumeGas :: "u64 \<Rightarrow> ('x, 'w) EvmState \<Rightarrow> panic + ('x, 'w) EvmState" where
  "ResetGasMeterAndConsumeGas gasUsed es =
     rbind (gm_RefundGas (esGasMeter es) (esGasMeter es)) (\<lambda>g.
     rbind (ConsumeGas gasUsed g) (\<lambda>g. Inr (es\<lparr>esGasMeter := g\<rparr>)))"

section \<open>The block\<close>

text \<open>
  The block as the context gives it.  The header hash is \<open>None\<close> when it is not set, \<open>bRecomputed\<close> is then the hash
  recomputed from the header; the gas meter of the block is its limit and consumption.
\<close>

record EvmBlock =
  bHeight :: int
  bTime :: int
  bHeaderHash :: "hash option"
  bRecomputed :: "string + hash"
  bProposer :: bytes
  bGasMeter :: "(u64 \<times> u64) option"
  bMaxGas :: "int option option"

definition BlockGasLimit :: "EvmBlock \<Rightarrow> u64" where
  "BlockGasLimit b =
     (case bGasMeter b of
        Some (limit, _) \<Rightarrow> if limit \<noteq> 0 then limit else
          (case bMaxGas b of Some (Some maxGas) \<Rightarrow> if maxGas > 0 then word_of_int maxGas else 0 | _ \<Rightarrow> 0)
      | None \<Rightarrow> (case bMaxGas b of Some (Some maxGas) \<Rightarrow> if maxGas > 0 then word_of_int maxGas else 0 | _ \<Rightarrow> 0))"

text \<open>The staking keeper: validators by consensus address and header hashes of earlier blocks.\<close>

record 'x Staking =
  GetValidatorByConsAddr :: "'x \<Rightarrow> bytes \<Rightarrow> address option"
  GetHistoricalHash :: "'x \<Rightarrow> int \<Rightarrow> (string + hash) option"

definition GetProposerAddress :: "EvmBlock \<Rightarrow> bytes \<Rightarrow> bytes" where
  "GetProposerAddress b proposerAddress = (if proposerAddress = [] then bProposer b else proposerAddress)"

definition GetCoinbaseAddress :: "'x Staking \<Rightarrow> EvmBlock \<Rightarrow> bytes \<Rightarrow> 'x \<Rightarrow> string + address" where
  "GetCoinbaseAddress S b proposerAddress x =
     (case GetValidatorByConsAddr S x (GetProposerAddress b proposerAddress) of
        None \<Rightarrow> Inl ''failed to retrieve validator from block proposer address'' | Some a \<Rightarrow> Inr a)"

definition ev_getBaseFee :: "bool \<Rightarrow> ('x, 'w) EvmState \<Rightarrow> int option" where
  "ev_getBaseFee london es =
     (if \<not> london then None
      else case fm_GetBaseFee (esFm es) of None \<Rightarrow> Some 0 | Some f \<Rightarrow> Some f)"

definition ev_GetBaseFee :: "EthCore \<Rightarrow> EvmBlock \<Rightarrow> EthChainConfig \<Rightarrow> ('x, 'w) EvmState \<Rightarrow> int option" where
  "ev_GetBaseFee G b ethCfg es = ev_getBaseFee (IsLondon G ethCfg (bHeight b)) es"

definition GetMinGasMultiplier :: "('x, 'w) EvmState \<Rightarrow> dec" where
  "GetMinGasMultiplier es = (case MinGasMultiplier (fm_GetParams (esFm es)) of None \<Rightarrow> 0 | Some m \<Rightarrow> m)"

record EVMConfig =
  cfgParams :: EvmParams
  cfgChain :: EthChainConfig
  cfgCoinBase :: address
  cfgBaseFee :: "int option"

definition ev_EVMConfig ::
    "EthLib \<Rightarrow> EthCore \<Rightarrow> 'x Staking \<Rightarrow> EvmBlock \<Rightarrow> bytes \<Rightarrow> int option \<Rightarrow> ('x, 'w) EvmState \<Rightarrow> string + EVMConfig" where
  "ev_EVMConfig H G S b proposerAddress chainID es =
     (let params = ev_GetParams es; ethCfg = EthereumConfig H (pChainConfig params) chainID in
      rbind (GetCoinbaseAddress S b proposerAddress (sdkState (esEvm es))) (\<lambda>coinbase.
        Inr \<lparr>cfgParams = params, cfgChain = ethCfg, cfgCoinBase = coinbase, cfgBaseFee = ev_GetBaseFee G b ethCfg es\<rparr>))"

definition ev_TxConfig :: "EvmBlock \<Rightarrow> hash \<Rightarrow> ('x, 'w) EvmState \<Rightarrow> TxConfig" where
  "ev_TxConfig b txHash es =
     NewTxConfig (case bHeaderHash b of None \<Rightarrow> 0 | Some h \<Rightarrow> h) txHash (GetTxIndexTransient es) (GetLogSizeTransient es)"

text \<open>The configuration of the interpreter, without the tracer.\<close>

record VmConfig =
  vmNoBaseFee :: bool
  vmExtraEips :: "int list"

definition ev_VMConfig :: "EthCore \<Rightarrow> EvmBlock \<Rightarrow> EVMConfig \<Rightarrow> ('x, 'w) EvmState \<Rightarrow> VmConfig" where
  "ev_VMConfig G b cfg es =
     \<lparr>vmNoBaseFee = (if IsLondon G (cfgChain cfg) (bHeight b) then NoBaseFee (fm_GetParams (esFm es)) else True),
      vmExtraEips = pExtraEIPs (cfgParams cfg)\<rparr>"

section \<open>Logs\<close>

record ProtoLog =
  plAddress :: string
  plTopics :: "string list"
  plData :: bytes
  plBlockNumber :: u64
  plTxHash :: string
  plTxIndex :: u64
  plBlockHash :: string
  plIndex :: u64
  plRemoved :: bool

definition NewLogFromEth :: "EthLib \<Rightarrow> Log \<Rightarrow> ProtoLog" where
  "NewLogFromEth H l =
     \<lparr>plAddress = AddressHex H (logAddress l), plTopics = map (HashHex H) (logTopics l), plData = logData l,
      plBlockNumber = logBlockNumber l, plTxHash = HashHex H (logTxHash l), plTxIndex = logTxIndex l,
      plBlockHash = HashHex H (logBlockHash l), plIndex = logIndex l, plRemoved = logRemoved l\<rparr>"

definition ToEthereum :: "EthLib \<Rightarrow> ProtoLog \<Rightarrow> Log" where
  "ToEthereum H l =
     \<lparr>logAddress = HexToAddress H (plAddress l), logTopics = map (HexToHash H) (plTopics l), logData = plData l,
      logTxHash = HexToHash H (plTxHash l), logBlockHash = HexToHash H (plBlockHash l), logTxIndex = plTxIndex l,
      logIndex = plIndex l, logBlockNumber = plBlockNumber l, logRemoved = plRemoved l\<rparr>"

definition NewLogsFromEth :: "EthLib \<Rightarrow> Log list \<Rightarrow> ProtoLog list" where
  "NewLogsFromEth H ls = map (NewLogFromEth H) ls"

definition LogsToEthereum :: "EthLib \<Rightarrow> ProtoLog list \<Rightarrow> Log list" where
  "LogsToEthereum H ls = map (ToEthereum H) ls"

definition pl_Validate :: "EthLib \<Rightarrow> ProtoLog \<Rightarrow> string option" where
  "pl_Validate H l =
     (if ValidateAddress H (plAddress l) \<noteq> None then Some ''invalid log address''
      else if IsEmptyHash H (plBlockHash l) then Some ''block hash cannot be the empty''
      else if plBlockNumber l = 0 then Some ''block number cannot be zero''
      else if IsEmptyHash H (plTxHash l) then Some ''tx hash cannot be the empty''
      else None)"

text \<open>\<^verbatim>\<open>TransactionLogs\<close> is a hash with logs, each of which may be nil.\<close>

definition tl_Validate :: "EthLib \<Rightarrow> string \<Rightarrow> ProtoLog option list \<Rightarrow> string option" where
  "tl_Validate H h ls =
     (if IsEmptyHash H h then Some ''hash cannot be the empty''
      else firstSome (map (\<lambda>l. case l of
        None \<Rightarrow> Some ''log cannot be nil''
      | Some l \<Rightarrow> if pl_Validate H l \<noteq> None then Some ''invalid log''
                  else if plTxHash l \<noteq> h then Some ''log tx hash mismatch'' else None) ls))"

context eth_lib
begin

lemma ToEthereum_New [simp]: "ToEthereum H (NewLogFromEth H l) = l"
  by (simp add: ToEthereum_def NewLogFromEth_def Hex_String Hash_String o_def)

lemma LogsToEthereum_New [simp]: "LogsToEthereum H (NewLogsFromEth H ls) = ls"
  by (simp add: LogsToEthereum_def NewLogsFromEth_def o_def)

end

end
