(* ===== verification/Evm_Transition.thy ===== *)
theory Evm_Transition
  imports Evm_Params
begin

text \<open>
  The state transition of the EVM module: \<^verbatim>\<open>x/evm/keeper/{state_transition,gas,fees,hooks,msg_server,abci}.go\<close>.

  The interpreter of go-ethereum is a parameter: the record \<open>Evm\<close> holds \<^verbatim>\<open>evm.Create\<close> and \<^verbatim>\<open>evm.Call\<close>, which act on the
  \<open>StateDB\<close>.  The locale \<open>eth_vm\<close> states that they touch it only through its interface and return no more gas than
  they were given.  The record \<open>EvmKeeper\<close> is the keeper of the module with the keepers and libraries it calls.  The
  context that \<^verbatim>\<open>CacheContext\<close> branches off is a copy of the state that is either taken over or dropped.
  Events, logging, tracing and telemetry are left out.
\<close>

section \<open>The keeper\<close>

record Receipt =
  rcType :: "8 word"
  rcStatus :: bool
  rcCumulativeGasUsed :: u64
  rcBloom :: int
  rcLogs :: "Log list"
  rcTxHash :: hash
  rcContractAddress :: address
  rcGasUsed :: u64
  rcBlockHash :: hash
  rcBlockNumber :: int
  rcTransactionIndex :: u64

text \<open>A hook may write to the receipt, also when it fails.\<close>

type_synonym ('x, 'w) EvmHook =
  "Message \<Rightarrow> Receipt \<Rightarrow> ('x, 'w) EvmState \<Rightarrow> Receipt \<times> (failure + ('x, 'w) EvmState)"

record BlockContext =
  bcGetHash :: "u64 \<Rightarrow> hash"
  bcCoinbase :: address
  bcGasLimit :: u64
  bcBlockNumber :: int
  bcTime :: int
  bcDifficulty :: int
  bcBaseFee :: "int option"

record VM =
  vmBlock :: BlockContext
  vmMsg :: Message
  vmChain :: EthChainConfig
  vmConf :: VmConfig

type_synonym 'k VmRun = "panic + ('k StateDB \<times> bytes \<times> u64 \<times> string option)"

record 'k Evm =
  evmCreate :: "VM \<Rightarrow> address \<Rightarrow> bytes \<Rightarrow> u64 \<Rightarrow> int \<Rightarrow> 'k StateDB \<Rightarrow> 'k VmRun"
  evmCall :: "VM \<Rightarrow> address \<Rightarrow> address \<Rightarrow> bytes \<Rightarrow> u64 \<Rightarrow> int \<Rightarrow> 'k StateDB \<Rightarrow> 'k VmRun"

record ('x, 'c, 'w) EvmKeeper =
  kCoins :: "'c Coins"
  kSdk :: "('x, 'c) Keepers"
  kKeccak :: "bytes \<Rightarrow> hash"
  kDec :: Decs
  kEth :: EthLib
  kCore :: EthCore
  kTx :: TxLib
  kStaking :: "'x Staking"
  kVm :: "'x EvmCtx Evm"
  kFeeCollector :: string
  kChainID :: "int option"
  kHooks :: "('x, 'w) EvmHook list option"

definition ev_SetHooks :: "('x, 'w) EvmHook list \<Rightarrow> ('x, 'c, 'w) EvmKeeper \<Rightarrow> panic + ('x, 'c, 'w) EvmKeeper" where
  "ev_SetHooks eh k =
     (if kHooks k \<noteq> None then Inl (Panic ''cannot set evm hooks twice'') else Inr (k\<lparr>kHooks := Some eh\<rparr>))"

definition CleanHooks :: "('x, 'c, 'w) EvmKeeper \<Rightarrow> ('x, 'c, 'w) EvmKeeper" where
  "CleanHooks k = k\<lparr>kHooks := None\<rparr>"

text \<open>\<open>parsed\<close> is the result of \<^verbatim>\<open>ParseChainID\<close> on the chain identifier of the context.\<close>

definition WithChainID :: "string + int \<Rightarrow> ('x, 'c, 'w) EvmKeeper \<Rightarrow> panic + ('x, 'c, 'w) EvmKeeper" where
  "WithChainID parsed k =
     (case parsed of
        Inl e \<Rightarrow> Inl (Panic e)
      | Inr chainID \<Rightarrow>
          if kChainID k \<noteq> None \<and> kChainID k \<noteq> Some chainID then Inl (Panic ''chain id already set'')
          else Inr (k\<lparr>kChainID := Some chainID\<rparr>))"

fun multiPostTxProcessing :: "('x, 'w) EvmHook list \<Rightarrow> ('x, 'w) EvmHook" where
  "multiPostTxProcessing [] msg receipt es = (receipt, Inr es)"
| "multiPostTxProcessing (h # mh) msg receipt es =
     (case h msg receipt es of
        (receipt', Inl e) \<Rightarrow> (receipt', Inl e)
      | (receipt', Inr es') \<Rightarrow> multiPostTxProcessing mh msg receipt' es')"

definition ev_PostTxProcessing :: "('x, 'c, 'w) EvmKeeper \<Rightarrow> ('x, 'w) EvmHook" where
  "ev_PostTxProcessing k msg receipt es =
     (case kHooks k of None \<Rightarrow> (receipt, Inr es) | Some hooks \<Rightarrow> multiPostTxProcessing hooks msg receipt es)"

section \<open>Gas and fees\<close>

definition GetEthIntrinsicGas :: "EthCore \<Rightarrow> EvmBlock \<Rightarrow> Message \<Rightarrow> EthChainConfig \<Rightarrow> bool \<Rightarrow> string + u64" where
  "GetEthIntrinsicGas G b msg cfg isContractCreation =
     (let height = bHeight b in
      IntrinsicGas G (mData msg) (mAccessList msg) isContractCreation (IsHomestead G cfg height) (IsIstanbul G cfg height))"

definition GasToRefund :: "u64 \<Rightarrow> u64 \<Rightarrow> u64 \<Rightarrow> panic + u64" where
  "GasToRefund availableRefund gasConsumed refundQuotient =
     (if refundQuotient = 0 then Inl DivisionByZero
      else
        let refund = gasConsumed div refundQuotient
        in Inr (if refund > availableRefund then availableRefund else refund))"

definition RefundGas ::
    "('x, 'c, 'w) EvmKeeper \<Rightarrow> Message \<Rightarrow> u64 \<Rightarrow> string \<Rightarrow> ('x, 'w) EvmState \<Rightarrow> failure + ('x, 'w) EvmState" where
  "RefundGas k msg leftoverGas denom es =
     (let remaining = uint leftoverGas * mGasPrice msg in
      if remaining < 0 then Inl (Err ''refunded amount value cannot be negative'')
      else if remaining > 0 then
        rbind (panicking (NewIntFromBigInt (kDec k) remaining)) (\<lambda>amount.
          case SendCoinsFromModuleToAccount (kSdk k) (sdkState (esEvm es)) (kFeeCollector k) (mFrom msg)
                 (RawCoins (kCoins k) [(denom, amount)]) of
            Inl e \<Rightarrow> Inl (Err (''fee collector account failed to refund fees: '' @ e))
          | Inr x \<Rightarrow> Inr (es\<lparr>esEvm := (esEvm es)\<lparr>sdkState := x\<rparr>\<rparr>))
      else Inr es)"

definition CheckSenderBalance :: "int \<Rightarrow> TxData \<Rightarrow> failure + unit" where
  "CheckSenderBalance balance txData =
     rbind (panicking (td_Cost txData)) (\<lambda>cost.
       if cost < 0 then Inl (Err ''tx cost is negative and invalid'')
       else if balance < 0 \<or> balance < cost then Inl (Err ''sender balance < tx cost'')
       else Inr ())"

text \<open>The two functions of the SDK's ante package that deduct a fee.\<close>

record ('x, 'c) AuthAnte =
  GetSignerAcc :: "'x \<Rightarrow> address \<Rightarrow> string + 'c AccountI"
  DeductFees :: "'x \<Rightarrow> 'c AccountI \<Rightarrow> 'c \<Rightarrow> string + 'x"

definition DeductTxCostsFromUserBalance ::
    "('x, 'c) AuthAnte \<Rightarrow> 'c \<Rightarrow> address \<Rightarrow> ('x, 'w) EvmState \<Rightarrow> string + ('x, 'w) EvmState" where
  "DeductTxCostsFromUserBalance A fees from es =
     rbind (GetSignerAcc A (sdkState (esEvm es)) from) (\<lambda>signerAcc.
     rbind (DeductFees A (sdkState (esEvm es)) signerAcc fees) (\<lambda>x.
       Inr (es\<lparr>esEvm := (esEvm es)\<lparr>sdkState := x\<rparr>\<rparr>)))"

definition VerifyFee ::
    "'c Coins \<Rightarrow> Decs \<Rightarrow> EthLib \<Rightarrow> EthCore \<Rightarrow> TxData \<Rightarrow> string \<Rightarrow> int option \<Rightarrow> bool \<Rightarrow> bool \<Rightarrow> bool \<Rightarrow> failure + 'c" where
  "VerifyFee C D H G txData denom baseFee homestead istanbul isCheckTx =
     (let isContractCreation = (td_GetTo H txData = None); gasLimit = td_GetGas txData in
      rbind (failing (IntrinsicGas G (td_GetData txData) (td_GetAccessList H txData) isContractCreation homestead istanbul))
        (\<lambda>intrinsicGas.
        if isCheckTx \<and> gasLimit < intrinsicGas then Inl (Err ''gas limit too low'')
        else
          rbind
            (case baseFee of
               None \<Rightarrow> Inr ()
             | Some f \<Rightarrow>
                 (case td_GetGasFeeCap txData of
                    None \<Rightarrow> Inl (Panicked NilDereference)
                  | Some cap \<Rightarrow> if cap < f then Inl (Err ''the tx gasfeecap is lower than the tx baseFee'') else Inr ()))
            (\<lambda>_.
          rbind (panicking (td_EffectiveFee baseFee txData)) (\<lambda>feeAmt.
            if feeAmt = 0 then Inr (NoCoins C)
            else rbind (panicking (NewIntFromBigInt D feeAmt)) (\<lambda>amount. Inr (RawCoins C [(denom, amount)]))))))"

section \<open>The virtual machine\<close>

definition GetHashFn :: "'x Staking \<Rightarrow> EvmBlock \<Rightarrow> 'x \<Rightarrow> u64 \<Rightarrow> hash" where
  "GetHashFn S b x height =
     (case SafeInt64 height of
        Inl _ \<Rightarrow> 0
      | Inr h \<Rightarrow>
          if bHeight b = h then
            (case bHeaderHash b of
               Some headerHash \<Rightarrow> headerHash
             | None \<Rightarrow> (case bRecomputed b of Inl _ \<Rightarrow> 0 | Inr headerHash \<Rightarrow> headerHash))
          else if bHeight b > h then
            (case GetHistoricalHash S x h of
               None \<Rightarrow> 0
             | Some (Inl _) \<Rightarrow> 0
             | Some (Inr hsh) \<Rightarrow> hsh)
          else 0)"

definition NewEVM :: "('x, 'c, 'w) EvmKeeper \<Rightarrow> EvmBlock \<Rightarrow> Message \<Rightarrow> EVMConfig \<Rightarrow> ('x, 'w) EvmState \<Rightarrow> VM" where
  "NewEVM k b msg cfg es =
     \<lparr>vmBlock =
        \<lparr>bcGetHash = GetHashFn (kStaking k) b (sdkState (esEvm es)), bcCoinbase = cfgCoinBase cfg,
         bcGasLimit = BlockGasLimit b, bcBlockNumber = bHeight b, bcTime = bTime b, bcDifficulty = 0,
         bcBaseFee = cfgBaseFee cfg\<rparr>,
      vmMsg = msg, vmChain = cfgChain cfg, vmConf = ev_VMConfig (kCore k) b cfg es\<rparr>"

section \<open>Applying a message\<close>

record EvmTxResponse =
  resHash :: string
  resLogs :: "ProtoLog list"
  resRet :: bytes
  resVmError :: string
  resGasUsed :: u64

definition res_Failed :: "EvmTxResponse \<Rightarrow> bool" where
  "res_Failed m \<longleftrightarrow> resVmError m \<noteq> ''''"

definition res_Return :: "EvmTxResponse \<Rightarrow> bytes" where
  "res_Return m = (if res_Failed m then [] else resRet m)"

text \<open>The reason of a revert; the argument is the text of \<^verbatim>\<open>vm.ErrExecutionReverted\<close>.\<close>

definition res_Revert :: "string \<Rightarrow> EvmTxResponse \<Rightarrow> bytes option" where
  "res_Revert errReverted m = (if resVmError m \<noteq> errReverted then None else Some (resRet m))"

definition newStateDB :: "('x, 'c, 'w) EvmKeeper \<Rightarrow> TxConfig \<Rightarrow> ('x, 'w) EvmState \<Rightarrow> 'x EvmCtx StateDB" where
  "newStateDB k txCfg es = New (esEvm es) (evm_keeper (kCoins k) (kSdk k) (kKeccak k)) (kKeccak k) txCfg"

text \<open>The part that runs the interpreter on a new \<open>StateDB\<close>: the message's gas after its intrinsic cost.\<close>

definition runMessage ::
    "('x, 'c, 'w) EvmKeeper \<Rightarrow> EvmBlock \<Rightarrow> Message \<Rightarrow> EVMConfig \<Rightarrow> TxConfig \<Rightarrow> u64 \<Rightarrow> ('x, 'w) EvmState \<Rightarrow>
      'x EvmCtx VmRun" where
  "runMessage k b msg cfg txCfg leftoverGas es =
     (let G = kCore k; stateDB = newStateDB k txCfg es;
          vm = NewEVM k b msg cfg es; sender = mFrom msg in
      rbind
        (if IsBerlin G (cfgChain cfg) (bHeight b)
         then PrepareAccessList stateDB sender (mTo msg) (ActivePrecompiles G (cfgChain cfg) (bHeight b))
                (case mAccessList msg of None \<Rightarrow> [] | Some al \<Rightarrow> al)
         else Inr stateDB)
        (\<lambda>stateDB.
          case mTo msg of
            None \<Rightarrow>
              rbind (evmCreate (kVm k) vm sender (mData msg) leftoverGas (mValue msg) (SetNonce stateDB sender (mNonce msg)))
                (\<lambda>(stateDB, ret, leftoverGas, vmErr).
                  Inr (SetNonce stateDB sender (mNonce msg + 1), ret, leftoverGas, vmErr))
          | Some to \<Rightarrow> evmCall (kVm k) vm sender to (mData msg) leftoverGas (mValue msg) stateDB))"

definition ApplyMessageWithConfig ::
    "('x, 'c, 'w) EvmKeeper \<Rightarrow> EvmBlock \<Rightarrow> Message \<Rightarrow> bool \<Rightarrow> EVMConfig \<Rightarrow> TxConfig \<Rightarrow> ('x, 'w) EvmState \<Rightarrow>
      failure + (EvmTxResponse \<times> ('x, 'w) EvmState)" where
  "ApplyMessageWithConfig k b msg commit cfg txCfg es =
     (if \<not> pEnableCreate (cfgParams cfg) \<and> mTo msg = None then Inl (Err ''failed to create new contract'')
      else if \<not> pEnableCall (cfgParams cfg) \<and> mTo msg \<noteq> None then Inl (Err ''failed to call contract'')
      else rbind (failing (GetEthIntrinsicGas (kCore k) b msg (cfgChain cfg) (mTo msg = None))) (\<lambda>intrinsicGas.
        if mGas msg < intrinsicGas then Inl (Err ''intrinsic gas too low'')
        else rbind (panicking (runMessage k b msg cfg txCfg (mGas msg - intrinsicGas) es))
          (\<lambda>(stateDB, ret, leftoverGas, vmErr).
          if mGas msg < leftoverGas then Inl (Err ''gas overflow: apply message'')
          else
            let refundQuotient = (if IsLondon (kCore k) (cfgChain cfg) (bHeight b) then RefundQuotientEIP3529 (kCore k)
                                  else RefundQuotient (kCore k));
                temporaryGasUsed = mGas msg - leftoverGas in
            rbind (panicking (GasToRefund (GetRefund stateDB) temporaryGasUsed refundQuotient)) (\<lambda>refund.
              let leftoverGas = leftoverGas + refund; temporaryGasUsed = temporaryGasUsed - refund in
              rbind (if commit then rbind (Commit stateDB) (\<lambda>s. Inr (es\<lparr>esEvm := ctx s\<rparr>)) else Inr es) (\<lambda>es.
              rbind (panicking (DMul (kDec k) (NewDec (sint (mGas msg))) (GetMinGasMultiplier es))) (\<lambda>minimumGasUsed.
                if mGas msg < leftoverGas then Inl (Err ''message gas limit < leftover gas'')
                else
                  let gasUsed = DTruncateInt (kDec k) (max minimumGasUsed (NewDec (sint temporaryGasUsed))) in
                  if 0 \<le> gasUsed \<and> gasUsed < 2 ^ 64 then
                    Inr (\<lparr>resHash = HashHex (kEth k) (TxHash txCfg), resLogs = NewLogsFromEth (kEth k) (logs stateDB),
                          resRet = ret, resVmError = (case vmErr of None \<Rightarrow> '''' | Some e \<Rightarrow> e),
                          resGasUsed = word_of_int gasUsed\<rparr>, es)
                  else Inl (Panicked (Panic ''Uint64() out of bound''))))))))"

definition ApplyMessage ::
    "('x, 'c, 'w) EvmKeeper \<Rightarrow> EvmBlock \<Rightarrow> Message \<Rightarrow> bool \<Rightarrow> ('x, 'w) EvmState \<Rightarrow>
      failure + (EvmTxResponse \<times> ('x, 'w) EvmState)" where
  "ApplyMessage k b msg commit es =
     rbind (failing (ev_EVMConfig (kEth k) (kCore k) (kStaking k) b (bProposer b) (kChainID k) es)) (\<lambda>cfg.
       ApplyMessageWithConfig k b msg commit cfg
         (NewEmptyTxConfig (case bHeaderHash b of None \<Rightarrow> 0 | Some h \<Rightarrow> h)) es)"

section \<open>Applying a transaction\<close>

text \<open>The text of \<^verbatim>\<open>ErrPostTxProcessing\<close>.\<close>

definition errPostTxProcessing :: string where
  "errPostTxProcessing = ''failed to execute post processing''"

definition newReceipt ::
    "('x, 'c, 'w) EvmKeeper \<Rightarrow> EvmBlock \<Rightarrow> EthTransaction \<Rightarrow> Message \<Rightarrow> TxConfig \<Rightarrow> EvmTxResponse \<Rightarrow> ('x, 'w) EvmState \<Rightarrow>
      Receipt" where
  "newReceipt k b tx msg txCfg res es =
     (let ls = LogsToEthereum (kEth k) (resLogs res);
          cumulativeGasUsed =
            (case bGasMeter b of
               None \<Rightarrow> resGasUsed res
             | Some (limit, consumed) \<Rightarrow>
                 if resGasUsed res + consumed > limit then limit else resGasUsed res + consumed)
      in
      \<lparr>rcType = etType tx, rcStatus = False, rcCumulativeGasUsed = cumulativeGasUsed,
       rcBloom = (if ls \<noteq> [] then or (GetBlockBloomTransient (bHeight b) es) (LogsBloom (kCore k) ls) else 0),
       rcLogs = ls, rcTxHash = TxHash txCfg,
       rcContractAddress = (if mTo msg = None then CreateAddress (kEth k) (mFrom msg) (mNonce msg) else 0),
       rcGasUsed = resGasUsed res, rcBlockHash = BlockHash txCfg, rcBlockNumber = bHeight b,
       rcTransactionIndex = TxIndex txCfg\<rparr>)"

text \<open>
  The hooks of a successful execution: \<open>tmp\<close> is the branched state with the execution, \<open>es\<close> the state that remains when
  it is dropped.  Without hooks nothing is branched and \<open>es\<close> is \<open>tmp\<close>.
\<close>

definition postProcess ::
    "('x, 'c, 'w) EvmKeeper \<Rightarrow> Message \<Rightarrow> EvmTxResponse \<Rightarrow> Receipt \<Rightarrow> ('x, 'w) EvmState \<Rightarrow> ('x, 'w) EvmState \<Rightarrow>
      failure + (EvmTxResponse \<times> Receipt \<times> ('x, 'w) EvmState)" where
  "postProcess k msg res receipt tmp es =
     (if res_Failed res then Inr (res, receipt, es)
      else
        case ev_PostTxProcessing k msg (receipt\<lparr>rcStatus := True\<rparr>) tmp of
          (receipt', Inl (Panicked p)) \<Rightarrow> Inl (Panicked p)
        | (receipt', Inl (Err e)) \<Rightarrow>
            Inr (res\<lparr>resVmError := errPostTxProcessing, resLogs := []\<rparr>, receipt', es)
        | (receipt', Inr tmp') \<Rightarrow>
            Inr (if kHooks k = None then res else res\<lparr>resLogs := NewLogsFromEth (kEth k) (rcLogs receipt')\<rparr>,
                 receipt', tmp'))"

text \<open>The transient counters that the next transaction of the block starts from.\<close>

definition countTx ::
    "EvmBlock \<Rightarrow> TxConfig \<Rightarrow> EvmTxResponse \<Rightarrow> Receipt \<Rightarrow> ('x, 'w) EvmState \<Rightarrow> failure + ('x, 'w) EvmState" where
  "countTx b txCfg res receipt es =
     (let es = (if rcLogs receipt \<noteq> []
                then SetLogSizeTransient (LogIndex txCfg + of_nat (length (rcLogs receipt)))
                       (SetBlockBloomTransient (bHeight b) (rcBloom receipt) es)
                else es);
          es = SetTxIndexTransient (TxIndex txCfg + 1) es in
      rbind (failing (AddTransientGasUsed (resGasUsed res) es)) (\<lambda>(totalGasUsed, es).
        panicking (ResetGasMeterAndConsumeGas totalGasUsed es)))"

definition ApplyTransaction ::
    "('x, 'c, 'w) EvmKeeper \<Rightarrow> EvmBlock \<Rightarrow> EthTransaction \<Rightarrow> ('x, 'w) EvmState \<Rightarrow>
      failure + (EvmTxResponse \<times> ('x, 'w) EvmState)" where
  "ApplyTransaction k b tx es =
     rbind (failing (ev_EVMConfig (kEth k) (kCore k) (kStaking k) b (bProposer b) (kChainID k) es)) (\<lambda>cfg.
       let txCfg = ev_TxConfig b (TxHashOf (kTx k) tx) es in
       rbind (failing (AsMessage (kCore k) (cfgChain cfg) (bHeight b) (cfgBaseFee cfg) tx)) (\<lambda>msg.
       rbind (ApplyMessageWithConfig k b msg True cfg txCfg es) (\<lambda>(res, tmp).
       rbind (postProcess k msg res (newReceipt k b tx msg txCfg res es) tmp (if kHooks k = None then tmp else es))
         (\<lambda>(res, receipt, es).
       rbind (RefundGas k msg (mGas msg - resGasUsed res) (pEvmDenom (cfgParams cfg)) es) (\<lambda>es.
       rbind (countTx b txCfg res receipt es) (\<lambda>es. Inr (res, es)))))))"

definition EthereumTx ::
    "('x, 'c, 'w) EvmKeeper \<Rightarrow> EvmBlock \<Rightarrow> MsgEthereumTx \<Rightarrow> ('x, 'w) EvmState \<Rightarrow>
      failure + (EvmTxResponse \<times> ('x, 'w) EvmState)" where
  "EthereumTx k b msg es =
     (case AsTransaction (kEth k) (kTx k) msg of
        None \<Rightarrow> Inl (Panicked NilDereference)
      | Some tx \<Rightarrow> ApplyTransaction k b tx es)"

definition ev_BeginBlock :: "string + int \<Rightarrow> ('x, 'c, 'w) EvmKeeper \<Rightarrow> panic + ('x, 'c, 'w) EvmKeeper" where
  "ev_BeginBlock parsed k = WithChainID parsed k"

text \<open>The end of a block emits the bloom filter of the block.\<close>

definition ev_EndBlock :: "EvmBlock \<Rightarrow> ('x, 'w) EvmState \<Rightarrow> int" where
  "ev_EndBlock b es = GetBlockBloomTransient (bHeight b) es"

section \<open>Contracts of the parameters\<close>

lemma calls_append:
  "calls f (cs @ ds) s = rbind (calls f cs s) (\<lambda>(s', rs). rbind (calls f ds s') (\<lambda>(s'', rs'). Inr (s'', rs @ rs')))"
  by (induction cs arbitrary: s) (auto simp: rbind_assoc case_prod_beta cong: rbind_cong)

definition reaches :: "'k StateDB \<Rightarrow> 'k StateDB \<Rightarrow> bool" where
  "reaches s s' \<longleftrightarrow> (\<exists>cs rs. calls exec cs s = Inr (s', rs))"

lemma reaches_refl [simp]: "reaches s s"
  unfolding reaches_def by (intro exI [of _ "[]"]) simp

lemma reaches_trans [trans]: "reaches s t \<Longrightarrow> reaches t u \<Longrightarrow> reaches s u"
  unfolding reaches_def
proof (elim exE)
  fix cs rs ds rs'
  assume "calls exec cs s = Inr (t, rs)" "calls exec ds t = Inr (u, rs')"
  then show "\<exists>cs rs. calls exec cs s = Inr (u, rs)" by (intro exI [of _ "cs @ ds"]) (simp add: calls_append)
qed

lemma reaches_step: "exec c s = Inr (s', r) \<Longrightarrow> reaches s s'"
  unfolding reaches_def by (intro exI [of _ "[c]"]) simp

text \<open>
  The interpreter works on the \<open>StateDB\<close> through the calls of its interface and returns at most the gas it got.
\<close>

locale eth_vm =
  fixes V :: "'k Evm"
  assumes Create_law: "evmCreate V vm a data gas v s = Inr (s', ret, left, err) \<Longrightarrow> reaches s s' \<and> left \<le> gas"
    and Call_law: "evmCall V vm a to data gas v s = Inr (s', ret, left, err) \<Longrightarrow> reaches s s' \<and> left \<le> gas"

locale evm_module =
  sdk_keepers "kCoins k" "kSdk k" "kKeccak k" + sdk_dec "kDec k" + eth_lib "kEth k" + eth_vm "kVm k"
  for k :: "('x, 'c, 'w) EvmKeeper" +
  assumes quotients: "0 < RefundQuotient (kCore k)" "0 < RefundQuotientEIP3529 (kCore k)"
begin

lemma runMessage_reaches:
  assumes "runMessage k b msg cfg txCfg gas es = Inr (s, ret, left, err)"
  shows "reaches (newStateDB k txCfg es) s \<and> left \<le> gas"
proof -
  obtain s1 where s1: "reaches (newStateDB k txCfg es) s1" and
    run: "(case mTo msg of
            None \<Rightarrow>
              rbind (evmCreate (kVm k) (NewEVM k b msg cfg es) (mFrom msg) (mData msg) gas (mValue msg)
                  (SetNonce s1 (mFrom msg) (mNonce msg)))
                (\<lambda>(stateDB, ret, leftoverGas, vmErr).
                  Inr (SetNonce stateDB (mFrom msg) (mNonce msg + 1), ret, leftoverGas, vmErr))
          | Some to \<Rightarrow> evmCall (kVm k) (NewEVM k b msg cfg es) (mFrom msg) to (mData msg) gas (mValue msg) s1) =
      Inr (s, ret, left, err)"
  proof (cases "IsBerlin (kCore k) (cfgChain cfg) (bHeight b)")
    case True
    with assms obtain s1 where p: "PrepareAccessList (newStateDB k txCfg es) (mFrom msg) (mTo msg)
        (ActivePrecompiles (kCore k) (cfgChain cfg) (bHeight b)) (case mAccessList msg of None \<Rightarrow> [] | Some al \<Rightarrow> al) = Inr s1"
      by (auto simp: runMessage_def Let_def)
    then have "reaches (newStateDB k txCfg es) s1"
      by (intro reaches_step [of "CPrepareAccessList (mFrom msg) (mTo msg)
        (ActivePrecompiles (kCore k) (cfgChain cfg) (bHeight b)) (case mAccessList msg of None \<Rightarrow> [] | Some al \<Rightarrow> al)"])
        (simp add: attempt_def finished_def)
    then show thesis by (rule that) (use assms True p in \<open>simp add: runMessage_def Let_def\<close>)
  next
    case False
    show thesis by (rule that [of "newStateDB k txCfg es"]) (use assms False in \<open>simp_all add: runMessage_def Let_def\<close>)
  qed
  have nonce: "reaches t (SetNonce t (mFrom msg) n)" for t :: "'x EvmCtx StateDB" and n
    by (rule reaches_step [of "CSetNonce (mFrom msg) n"]) (simp add: finished_def)
  show ?thesis
  proof (cases "mTo msg")
    case None
    with run obtain t where t: "evmCreate (kVm k) (NewEVM k b msg cfg es) (mFrom msg) (mData msg) gas (mValue msg)
        (SetNonce s1 (mFrom msg) (mNonce msg)) = Inr (t, ret, left, err)" "s = SetNonce t (mFrom msg) (mNonce msg + 1)"
      by auto
    with Create_law [OF t(1)] s1 nonce show ?thesis by (metis reaches_trans)
  next
    case (Some to)
    with run Call_law s1 show ?thesis by (metis (no_types, lifting) option.simps(5) reaches_trans)
  qed
qed

end


section \<open>Gas of a message\<close>

lemma sint_small: "uint w < 2 ^ 63 \<Longrightarrow> sint w = uint w" for w :: u64
  using uint_ge_0 [of w] by (simp add: sint_uint signed_take_bit_int_eq_self_iff order_trans [of _ 0])

lemma GetMinGasMultiplier_evm [simp]: "GetMinGasMultiplier (es\<lparr>esEvm := e\<rparr>) = GetMinGasMultiplier es"
  by (simp add: GetMinGasMultiplier_def)

definition refundQuotient :: "('x, 'c, 'w) EvmKeeper \<Rightarrow> EvmBlock \<Rightarrow> EVMConfig \<Rightarrow> u64" where
  "refundQuotient k b cfg =
     (if IsLondon (kCore k) (cfgChain cfg) (bHeight b) then RefundQuotientEIP3529 (kCore k) else RefundQuotient (kCore k))"

lemma ApplyMessage_cases:
  assumes "ApplyMessageWithConfig k b msg commit cfg txCfg es = Inr (res, es')"
  obtains intrinsic s ret left err refund minimum where
    "GetEthIntrinsicGas (kCore k) b msg (cfgChain cfg) (mTo msg = None) = Inr intrinsic" "intrinsic \<le> mGas msg"
    "runMessage k b msg cfg txCfg (mGas msg - intrinsic) es = Inr (s, ret, left, err)" "left \<le> mGas msg"
    "GasToRefund (GetRefund s) (mGas msg - left) (refundQuotient k b cfg) = Inr refund"
    "if commit then \<exists>s'. Commit s = Inr s' \<and> es' = es\<lparr>esEvm := ctx s'\<rparr> else es' = es"
    "DMul (kDec k) (NewDec (sint (mGas msg))) (GetMinGasMultiplier es) = Inr minimum"
    "0 \<le> DTruncateInt (kDec k) (max minimum (NewDec (sint (mGas msg - left - refund))))"
    "DTruncateInt (kDec k) (max minimum (NewDec (sint (mGas msg - left - refund)))) < 2 ^ 64"
    "res = \<lparr>resHash = HashHex (kEth k) (TxHash txCfg), resLogs = NewLogsFromEth (kEth k) (logs s), resRet = ret,
       resVmError = (case err of None \<Rightarrow> '''' | Some e \<Rightarrow> e),
       resGasUsed = word_of_int (DTruncateInt (kDec k) (max minimum (NewDec (sint (mGas msg - left - refund)))))\<rparr>"
proof -
  obtain intrinsic s ret left err where a:
    "GetEthIntrinsicGas (kCore k) b msg (cfgChain cfg) (mTo msg = None) = Inr intrinsic" "\<not> mGas msg < intrinsic"
    "runMessage k b msg cfg txCfg (mGas msg - intrinsic) es = Inr (s, ret, left, err)" "\<not> mGas msg < left"
    using assms by (auto simp: ApplyMessageWithConfig_def Let_def split: if_splits)
  obtain refund where r: "GasToRefund (GetRefund s) (mGas msg - left) (refundQuotient k b cfg) = Inr refund"
    using assms a by (cases "GasToRefund (GetRefund s) (mGas msg - left) (refundQuotient k b cfg)")
      (auto simp: ApplyMessageWithConfig_def refundQuotient_def Let_def split: if_splits)
  obtain e where e: "(if commit then rbind (Commit s) (\<lambda>s. Inr (es\<lparr>esEvm := ctx s\<rparr>)) else Inr es) = Inr e"
    using assms a r by (cases "if commit then rbind (Commit s) (\<lambda>s. Inr (es\<lparr>esEvm := ctx s\<rparr>)) else Inr es")
      (simp_all add: ApplyMessageWithConfig_def refundQuotient_def Let_def split: if_splits)
  have mult: "GetMinGasMultiplier e = GetMinGasMultiplier es"
    using e by (auto split: if_splits)
  note rest = assms [unfolded ApplyMessageWithConfig_def Let_def, folded refundQuotient_def]
  obtain minimum where m: "DMul (kDec k) (NewDec (sint (mGas msg))) (GetMinGasMultiplier es) = Inr minimum"
    using rest a r e mult by (cases "DMul (kDec k) (NewDec (sint (mGas msg))) (GetMinGasMultiplier es)")
      (simp_all split: if_splits)
  let ?used = "DTruncateInt (kDec k) (max minimum (NewDec (sint (mGas msg - left - refund))))"
  have fin: "0 \<le> ?used \<and> ?used < 2 ^ 64 \<and> es' = e \<and>
    res = \<lparr>resHash = HashHex (kEth k) (TxHash txCfg), resLogs = NewLogsFromEth (kEth k) (logs s), resRet = ret,
      resVmError = (case err of None \<Rightarrow> '''' | Some e \<Rightarrow> e), resGasUsed = word_of_int ?used\<rparr>"
    using rest by (simp add: a r e m mult split: if_splits)
  show thesis
  proof (rule that [OF a(1) _ a(3) _ r _ m])
    show "if commit then \<exists>s'. Commit s = Inr s' \<and> es' = es\<lparr>esEvm := ctx s'\<rparr> else es' = es"
      using e fin by (cases commit) auto
  qed (use a fin in \<open>simp_all add: not_less\<close>)
qed

context evm_module
begin

lemma refundQuotient_pos: "0 < refundQuotient k b cfg"
  using quotients by (simp add: refundQuotient_def)

lemma minimum_exact:
  assumes "DMul (kDec k) (NewDec n) m = Inr r"
  shows "r = n * m"
proof -
  have "2 * \<bar>(r - n * m) * dec_one\<bar> \<le> dec_one"
    using Mul_round [OF assms] by (simp add: NewDec_def algebra_simps)
  then have "(2 * \<bar>r - n * m\<bar>) * dec_one \<le> 1 * dec_one" by (simp add: abs_mult)
  then have "2 * \<bar>r - n * m\<bar> \<le> 1" by (simp only: mult_le_cancel_right_pos dec_one_pos)
  then have "\<bar>r - n * m\<bar> = 0" by presburger
  then show ?thesis by simp
qed

lemma max_div: "0 \<le> a \<Longrightarrow> 0 \<le> n \<Longrightarrow> max a (n * dec_one) div dec_one = max (a div dec_one) n" for a n :: int
proof (cases "a \<le> n * dec_one")
  case True
  then have "a div dec_one \<le> n * dec_one div dec_one" by (intro zdiv_mono1) simp_all
  with True show ?thesis by (simp add: dec_one_def)
next
  case False
  then have "n * dec_one div dec_one \<le> a div dec_one" by (intro zdiv_mono1) simp_all
  with False show ?thesis by (simp add: dec_one_def)
qed

lemma gas_used:
  assumes run: "ApplyMessageWithConfig k b msg commit cfg txCfg es = Inr (res, es')"
    and gas: "uint (mGas msg) < 2 ^ 63" and mult: "0 \<le> GetMinGasMultiplier es" "GetMinGasMultiplier es \<le> dec_one"
  shows "\<exists>intrinsic used refund.
    GetEthIntrinsicGas (kCore k) b msg (cfgChain cfg) (mTo msg = None) = Inr intrinsic \<and>
    uint intrinsic \<le> used \<and> used \<le> uint (mGas msg) \<and>
    0 \<le> refund \<and> refund \<le> used div uint (refundQuotient k b cfg) \<and>
    uint (resGasUsed res) = max (uint (mGas msg) * GetMinGasMultiplier es div dec_one) (used - refund) \<and>
    uint (resGasUsed res) \<le> uint (mGas msg)"
  using run
proof (rule ApplyMessage_cases)
  fix intrinsic s ret left err refund minimum
  assume a: "GetEthIntrinsicGas (kCore k) b msg (cfgChain cfg) (mTo msg = None) = Inr intrinsic" "intrinsic \<le> mGas msg"
      "runMessage k b msg cfg txCfg (mGas msg - intrinsic) es = Inr (s, ret, left, err)" "left \<le> mGas msg"
      "GasToRefund (GetRefund s) (mGas msg - left) (refundQuotient k b cfg) = Inr refund"
      "DMul (kDec k) (NewDec (sint (mGas msg))) (GetMinGasMultiplier es) = Inr minimum"
    and res: "res = \<lparr>resHash = HashHex (kEth k) (TxHash txCfg), resLogs = NewLogsFromEth (kEth k) (logs s), resRet = ret,
       resVmError = (case err of None \<Rightarrow> '''' | Some e \<Rightarrow> e),
       resGasUsed = word_of_int (DTruncateInt (kDec k) (max minimum (NewDec (sint (mGas msg - left - refund)))))\<rparr>"
  let ?g = "uint (mGas msg)" and ?q = "refundQuotient k b cfg" and ?m = "GetMinGasMultiplier es"
  have left: "left \<le> mGas msg - intrinsic" using runMessage_reaches [OF a(3)] by blast
  have sub: "uint (mGas msg - intrinsic) = ?g - uint intrinsic" "uint (mGas msg - left) = ?g - uint left"
    using a(2,4) by (simp_all add: uint_minus_simple_alt)
  have used: "uint intrinsic \<le> ?g - uint left" using left sub(1) by (simp add: word_le_def)
  have "refund \<le> (mGas msg - left) div ?q"
    using a(5) by (auto simp: GasToRefund_def Let_def split: if_splits)
  then have refund: "uint refund \<le> (?g - uint left) div uint ?q"
    by (simp add: word_le_def uint_div_distrib sub(2))
  also have "\<dots> \<le> ?g - uint left"
    using a(4) zdiv_mono2 [of "?g - uint left" 1 "uint ?q"] refundQuotient_pos [of b cfg]
    by (simp add: word_less_def word_le_def)
  finally have le: "uint refund \<le> ?g - uint left" .
  then have "refund \<le> mGas msg - left" by (simp add: word_le_def sub(2))
  then have net: "uint (mGas msg - left - refund) = ?g - uint left - uint refund"
    by (simp add: uint_minus_simple_alt sub(2))
  define used' where "used' = ?g - uint left - uint refund"
  have bounds: "0 \<le> used'" "used' \<le> ?g" using le uint_ge_0 [of left] uint_ge_0 [of refund] unfolding used'_def by linarith+
  have min: "minimum = ?g * ?m" using minimum_exact [OF a(6)] sint_small [OF gas] by simp
  have mg: "?g * ?m \<le> ?g * dec_one" using mult by (intro mult_left_mono) simp_all
  have used_dec: "NewDec (sint (mGas msg - left - refund)) = used' * dec_one"
    using sint_small [of "mGas msg - left - refund"] bounds gas unfolding net used'_def NewDec_def by simp
  have pos: "0 \<le> ?g * ?m" using mult by simp
  have tr: "DTruncateInt (kDec k) (max minimum (NewDec (sint (mGas msg - left - refund)))) = max (?g * ?m div dec_one) used'"
    unfolding used_dec min using pos bounds max_div [OF pos bounds(1)] by (subst TruncateInt_div) simp_all
  have "?g * ?m div dec_one \<le> ?g * dec_one div dec_one" by (rule zdiv_mono1 [OF mg]) simp
  then have top: "max (?g * ?m div dec_one) used' \<le> ?g" using bounds by (simp add: dec_one_def)
  have "uint (resGasUsed res) = max (?g * ?m div dec_one) used'"
    using top bounds gas unfolding res tr by (simp add: uint_word_of_int)
  with a(1) used refund top show ?thesis
    by (intro exI [of _ intrinsic] exI [of _ "?g - uint left"] exI [of _ "uint refund"]) (auto simp: used'_def)
qed

end

section \<open>Transactions\<close>

lemma countTx_cases:
  assumes "countTx b txCfg res receipt es = Inr es'"
  shows "esEvm es' = esEvm es" "esParams es' = esParams es" "esLegacyParams es' = esLegacyParams es" "esFm es' = esFm es"
    "esMods es' = esMods es" "esTxIndex es' = Some (TxIndex txCfg + 1)"
    "esLogSize es' = (if rcLogs receipt = [] then esLogSize es else Some (LogIndex txCfg + of_nat (length (rcLogs receipt))))"
    "esGasUsed es' = Some (GetTransientGasUsed es + resGasUsed res)" "esGasMeter es' = GetTransientGasUsed es + resGasUsed res"
    "\<not> GetTransientGasUsed es + resGasUsed res < resGasUsed res"
  using assms
  by (auto simp: countTx_def Let_def AddTransientGasUsed_def SetTransientGasUsed_def GetTransientGasUsed_def SetTxIndexTransient_def
      SetLogSizeTransient_def SetBlockBloomTransient_def ResetGasMeterAndConsumeGas_def gm_RefundGas_def ConsumeGas_def
      addUint64Overflow_def split: if_splits option.splits)

lemma RefundGas_cases:
  assumes "RefundGas k msg left denom es = Inr es'"
  obtains "uint left * mGasPrice msg = 0" "es' = es"
  | amount x where "0 < uint left * mGasPrice msg" "NewIntFromBigInt (kDec k) (uint left * mGasPrice msg) = Inr amount"
    "SendCoinsFromModuleToAccount (kSdk k) (sdkState (esEvm es)) (kFeeCollector k) (mFrom msg)
      (RawCoins (kCoins k) [(denom, amount)]) = Inr x"
    "es' = es\<lparr>esEvm := (esEvm es)\<lparr>sdkState := x\<rparr>\<rparr>"
proof -
  consider "uint left * mGasPrice msg = 0" | "0 < uint left * mGasPrice msg"
    using assms by (auto simp: RefundGas_def Let_def split: if_splits)
  then show thesis
  proof cases
    case 1
    then show thesis using assms that(1) by (auto simp: RefundGas_def Let_def)
  next
    case 2
    then obtain amount where amount: "NewIntFromBigInt (kDec k) (uint left * mGasPrice msg) = Inr amount"
      using assms by (auto simp: RefundGas_def Let_def)
    with 2 assms show thesis
      by (cases "SendCoinsFromModuleToAccount (kSdk k) (sdkState (esEvm es)) (kFeeCollector k) (mFrom msg)
        (RawCoins (kCoins k) [(denom, amount)])") (auto simp: RefundGas_def Let_def intro: that(2))
  qed
qed

lemma RefundGas_frame:
  assumes "RefundGas k msg left denom es = Inr es'"
  obtains x where "es' = es\<lparr>esEvm := (esEvm es)\<lparr>sdkState := x\<rparr>\<rparr>"
  using assms that [of "sdkState (esEvm es)"] that by (rule RefundGas_cases) simp_all

lemma ApplyTransaction_cases:
  assumes "ApplyTransaction k b tx es = Inr (res, es')"
  obtains cfg msg res1 tmp receipt es1 es2 where
    "ev_EVMConfig (kEth k) (kCore k) (kStaking k) b (bProposer b) (kChainID k) es = Inr cfg"
    "AsMessage (kCore k) (cfgChain cfg) (bHeight b) (cfgBaseFee cfg) tx = Inr msg"
    "ApplyMessageWithConfig k b msg True cfg (ev_TxConfig b (TxHashOf (kTx k) tx) es) es = Inr (res1, tmp)"
    "postProcess k msg res1 (newReceipt k b tx msg (ev_TxConfig b (TxHashOf (kTx k) tx) es) res1 es) tmp
      (if kHooks k = None then tmp else es) = Inr (res, receipt, es1)"
    "RefundGas k msg (mGas msg - resGasUsed res) (pEvmDenom (cfgParams cfg)) es1 = Inr es2"
    "countTx b (ev_TxConfig b (TxHashOf (kTx k) tx) es) res receipt es2 = Inr es'"
  using assms unfolding ApplyTransaction_def Let_def by (clarsimp; blast intro: that)

lemma postProcess_failed:
  assumes "postProcess k msg res1 receipt tmp es = Inr (res, receipt', es')" "res_Failed res"
  shows "es' = es" "resGasUsed res = resGasUsed res1"
  using assms by (auto simp: postProcess_def res_Failed_def split: if_splits prod.splits sum.splits failure.splits)

lemma transferred_account:
  "transferred C K x a b c x' \<Longrightarrow> GetAccount K x z \<noteq> None \<Longrightarrow> GetAccount K x' z = GetAccount K x z"
  unfolding transferred_def by metis

context evm_module
begin

lemma RefundGas_moves:
  assumes "RefundGas k msg left denom es = Inr es'"
  shows "BankBalance (kSdk k) (sdkState (esEvm es')) z d = BankBalance (kSdk k) (sdkState (esEvm es)) z d +
      (if d = denom then at_addr (mFrom msg) z (uint left * mGasPrice msg) -
         at_addr (GetModuleAddress (kSdk k) (kFeeCollector k)) z (uint left * mGasPrice msg) else 0)"
    and "GetSupply (kSdk k) (sdkState (esEvm es')) = GetSupply (kSdk k) (sdkState (esEvm es))"
    and "GetAccount (kSdk k) (sdkState (esEvm es)) a \<noteq> None \<Longrightarrow>
      GetAccount (kSdk k) (sdkState (esEvm es')) a = GetAccount (kSdk k) (sdkState (esEvm es)) a"
proof -
  let ?n = "uint left * mGasPrice msg"
  have moved: "?n = 0 \<and> es' = es \<or>
    transferred (kCoins k) (kSdk k) (sdkState (esEvm es)) (GetModuleAddress (kSdk k) (kFeeCollector k)) (mFrom msg)
      (RawCoins (kCoins k) [(denom, ?n)]) (sdkState (esEvm es')) \<and> 0 < ?n"
    using assms
  proof (cases rule: RefundGas_cases)
    case 1
    then show ?thesis by blast
  next
    case (2 amount x)
    have "amount = ?n" using NewInt_id [OF 2(2)] .
    then show ?thesis using ModuleToAccount_law [OF 2(3)] 2(1,4) by simp
  qed
  then show "BankBalance (kSdk k) (sdkState (esEvm es')) z d = BankBalance (kSdk k) (sdkState (esEvm es)) z d +
      (if d = denom then at_addr (mFrom msg) z ?n - at_addr (GetModuleAddress (kSdk k) (kFeeCollector k)) z ?n else 0)"
  proof (elim disjE conjE)
    assume "?n = 0" "es' = es"
    then show ?thesis by (simp only: at_addr_def if_cancel diff_self add_0_right)
  next
    assume t: "transferred (kCoins k) (kSdk k) (sdkState (esEvm es)) (GetModuleAddress (kSdk k) (kFeeCollector k)) (mFrom msg)
        (RawCoins (kCoins k) [(denom, ?n)]) (sdkState (esEvm es'))" and n: "0 < ?n"
    show ?thesis using n unfolding transferred_balance [OF t] by (simp add: AmountOf_RawCoins at_addr_def)
  qed
  from moved show "GetSupply (kSdk k) (sdkState (esEvm es')) = GetSupply (kSdk k) (sdkState (esEvm es))"
    by (auto dest: transferred_supply)
  from moved show "GetAccount (kSdk k) (sdkState (esEvm es)) a \<noteq> None \<Longrightarrow>
      GetAccount (kSdk k) (sdkState (esEvm es')) a = GetAccount (kSdk k) (sdkState (esEvm es)) a"
    by (auto dest: transferred_account)
qed

lemma failed_tx:
  assumes run: "ApplyTransaction k b tx es = Inr (res, es')" and hooks: "kHooks k \<noteq> None" and failed: "res_Failed res"
  obtains cfg msg x where
    "ev_EVMConfig (kEth k) (kCore k) (kStaking k) b (bProposer b) (kChainID k) es = Inr cfg"
    "AsMessage (kCore k) (cfgChain cfg) (bHeight b) (cfgBaseFee cfg) tx = Inr msg"
    "RefundGas k msg (mGas msg - resGasUsed res) (pEvmDenom (cfgParams cfg)) es =
      Inr (es\<lparr>esEvm := (esEvm es)\<lparr>sdkState := x\<rparr>\<rparr>)"
    "esEvm es' = (esEvm es)\<lparr>sdkState := x\<rparr>" "esParams es' = esParams es" "esFm es' = esFm es"
    "esMods es' = esMods es"
  using run
proof (rule ApplyTransaction_cases)
  fix cfg msg res1 tmp receipt es1 es2
  assume a: "ev_EVMConfig (kEth k) (kCore k) (kStaking k) b (bProposer b) (kChainID k) es = Inr cfg"
    "AsMessage (kCore k) (cfgChain cfg) (bHeight b) (cfgBaseFee cfg) tx = Inr msg"
    and post: "postProcess k msg res1 (newReceipt k b tx msg (ev_TxConfig b (TxHashOf (kTx k) tx) es) res1 es) tmp
      (if kHooks k = None then tmp else es) = Inr (res, receipt, es1)"
    and refund: "RefundGas k msg (mGas msg - resGasUsed res) (pEvmDenom (cfgParams cfg)) es1 = Inr es2"
    and count: "countTx b (ev_TxConfig b (TxHashOf (kTx k) tx) es) res receipt es2 = Inr es'"
  have es1: "es1 = es" using postProcess_failed(1) [OF post failed] hooks by simp
  obtain x where "es2 = es\<lparr>esEvm := (esEvm es)\<lparr>sdkState := x\<rparr>\<rparr>" using RefundGas_frame [OF refund] es1 by blast
  with a refund es1 countTx_cases [OF count] show thesis by (intro that) simp_all
qed

end

section \<open>Log indexes\<close>

text \<open>Logs that carry the transaction's identity and consecutive indexes from its first one.\<close>

definition numbered :: "TxConfig \<Rightarrow> Log list \<Rightarrow> bool" where
  "numbered cfg ls \<longleftrightarrow>
     map logIndex ls = map (\<lambda>i. LogIndex cfg + of_nat i) [0..<length ls] \<and>
     (\<forall>l \<in> set ls. logTxHash l = TxHash cfg \<and> logBlockHash l = BlockHash cfg \<and> logTxIndex l = TxIndex cfg)"

definition contract_numbered :: "TxConfig \<Rightarrow> contract \<Rightarrow> bool" where
  "contract_numbered cfg S \<longleftrightarrow> numbered cfg (wLogs (now S)) \<and> (\<forall>(i, w) \<in> set (copies S). numbered cfg (wLogs w))"

lemma wLogs_spec [simp]:
  "wLogs (spec_CreateAccount E w a) = wLogs w" "wLogs (spec_AddBalance E w a n) = wLogs w"
  "wLogs (spec_SetNonce E w a m) = wLogs w" "wLogs (spec_SetCode E w a c) = wLogs w"
  "wLogs (spec_SetState E w a key v) = wLogs w" "wLogs (spec_Suicide w a) = wLogs w" "wLogs (allow A K u) = wLogs u"
  by (simp_all add: spec_CreateAccount_def spec_AddBalance_def spec_SetNonce_def spec_SetCode_def spec_SetState_def
      spec_Suicide_def allow_def Let_def split: option.split)

lemma numbered_AddLog: "numbered (eTx E) (wLogs w) \<Longrightarrow> numbered (eTx E) (wLogs (spec_AddLog E w l))"
  by (simp add: numbered_def spec_AddLog_def)

lemma spec_exec_numbered:
  assumes "spec_exec E c S = Inr (S', r)" "contract_numbered (eTx E) S"
  shows "contract_numbered (eTx E) S'"
proof (cases c)
  case (CRevertToSnapshot i)
  with assms obtain w where "map_of (copies S) i = Some w" "S' = S\<lparr>now := w, copies := takeWhile (\<lambda>(j, _). j \<noteq> i) (copies S)\<rparr>"
    by (auto simp: finished_def split: option.splits)
  then show ?thesis using assms(2) by (auto simp: contract_numbered_def dest: map_of_SomeD set_takeWhileD)
next
  case (CAddLog l)
  then show ?thesis using assms by (auto simp: contract_numbered_def on_world_def finished_def numbered_AddLog)
qed (use assms in \<open>auto simp: contract_numbered_def on_world_def tell_def finished_def split: if_splits\<close>)

lemma calls_spec_numbered:
  "calls (spec_exec E) cs S = Inr (S', rs) \<Longrightarrow> contract_numbered (eTx E) S \<Longrightarrow> contract_numbered (eTx E) S'"
  by (induction cs arbitrary: S rs) (auto dest: spec_exec_numbered)

lemma reaches_numbered:
  assumes "reaches (New cx kp keccak cfg) s"
  shows "numbered cfg (logs s)"
proof -
  let ?s = "New cx kp keccak cfg"
  let ?E = "env_of ?s"
  obtain cs rs where cs: "calls exec cs ?s = Inr (s, rs)" using assms by (auto simp: reaches_def)
  then obtain S where S: "calls (spec_exec ?E) cs (new_contract ?E) = Inr (S, rs)" "sim ?E s S"
    using calls_agree [OF sim_New, of cx kp keccak cfg cs] by (auto elim!: rel_sum.cases simp: rel_prod_sel)
  have "contract_numbered (eTx ?E) (new_contract ?E)"
    by (simp add: contract_numbered_def numbered_def new_contract_def new_world_def)
  then have "numbered (eTx ?E) (wLogs (now S))"
    using calls_spec_numbered [OF S(1)] by (simp add: contract_numbered_def)
  moreover have "wLogs (now S) = logs s" using S(2) abs_world_sel(3) [of "world_of s"] by (simp add: sim_def)
  ultimately show ?thesis by (simp add: env_New)
qed

section \<open>The transactions of a block\<close>

fun applyTxs ::
    "('x, 'c, 'w) EvmKeeper \<Rightarrow> EvmBlock \<Rightarrow> EthTransaction list \<Rightarrow> ('x, 'w) EvmState \<Rightarrow>
      failure + (EvmTxResponse list \<times> ('x, 'w) EvmState)" where
  "applyTxs k b [] es = Inr ([], es)"
| "applyTxs k b (tx # txs) es =
     rbind (ApplyTransaction k b tx es) (\<lambda>(res, es). rbind (applyTxs k b txs es) (\<lambda>(rs, es). Inr (res # rs, es)))"

definition transients :: "('x, 'w) EvmState \<Rightarrow> u64 option \<times> u64 option \<times> u64 option" where
  "transients es = (esTxIndex es, esLogSize es, esGasUsed es)"

text \<open>A hook that leaves the logs of the receipt and the transient counters alone.\<close>

definition quiet :: "('x, 'w) EvmHook \<Rightarrow> bool" where
  "quiet h \<longleftrightarrow> (\<forall>msg receipt es receipt' r. h msg receipt es = (receipt', r) \<longrightarrow>
     rcLogs receipt' = rcLogs receipt \<and> (\<forall>es'. r = Inr es' \<longrightarrow> transients es' = transients es))"

lemma quiet_multi: "(\<And>h. h \<in> set hs \<Longrightarrow> quiet h) \<Longrightarrow> quiet (multiPostTxProcessing hs)"
proof (induction hs)
  case (Cons h hs)
  have h: "quiet h" and hs: "quiet (multiPostTxProcessing hs)" using Cons by simp_all
  show ?case
    unfolding quiet_def
  proof (intro allI impI)
    fix msg receipt es receipt' r
    assume run: "multiPostTxProcessing (h # hs) msg receipt es = (receipt', r)"
    obtain receipt1 r1 where r1: "h msg receipt es = (receipt1, r1)" by fastforce
    note q = h [unfolded quiet_def, rule_format, OF r1]
    show "rcLogs receipt' = rcLogs receipt \<and> (\<forall>es'. r = Inr es' \<longrightarrow> transients es' = transients es)"
    proof (cases r1)
      case (Inl e)
      then show ?thesis using run r1 q by auto
    next
      case (Inr es1)
      then have "multiPostTxProcessing hs msg receipt1 es1 = (receipt', r)" using run r1 by simp
      from hs [unfolded quiet_def, rule_format, OF this] q Inr show ?thesis by simp
    qed
  qed
qed (simp add: quiet_def)

definition quiet_hooks :: "('x, 'c, 'w) EvmKeeper \<Rightarrow> bool" where
  "quiet_hooks k \<longleftrightarrow> (case kHooks k of None \<Rightarrow> True | Some hs \<Rightarrow> \<forall>h \<in> set hs. quiet h)"

lemma quiet_PostTxProcessing:
  assumes "quiet_hooks k"
  shows "quiet (ev_PostTxProcessing k)"
proof (cases "kHooks k")
  case None
  then show ?thesis by (simp add: quiet_def ev_PostTxProcessing_def)
next
  case (Some hs)
  then have "ev_PostTxProcessing k = multiPostTxProcessing hs" by (simp add: ev_PostTxProcessing_def fun_eq_iff)
  with assms Some show ?thesis by (simp add: quiet_hooks_def quiet_multi)
qed

lemma postProcess_quiet:
  assumes "postProcess k msg res1 receipt tmp es = Inr (res, receipt', es')" "quiet_hooks k" "transients tmp = transients es"
  shows "transients es' = transients es" "rcLogs receipt' = rcLogs receipt" "resGasUsed res = resGasUsed res1"
    "resVmError res \<noteq> errPostTxProcessing \<Longrightarrow> resLogs res1 = NewLogsFromEth (kEth k) (rcLogs receipt) \<Longrightarrow> resLogs res = resLogs res1"
proof -
  obtain receipt1 r where r: "ev_PostTxProcessing k msg (receipt\<lparr>rcStatus := True\<rparr>) tmp = (receipt1, r)" by fastforce
  have q: "rcLogs receipt1 = rcLogs receipt" "\<And>es'. r = Inr es' \<Longrightarrow> transients es' = transients tmp"
    using quiet_PostTxProcessing [OF assms(2), unfolded quiet_def, rule_format, OF r] by simp_all
  show "transients es' = transients es" "rcLogs receipt' = rcLogs receipt" "resGasUsed res = resGasUsed res1"
    "resVmError res \<noteq> errPostTxProcessing \<Longrightarrow> resLogs res1 = NewLogsFromEth (kEth k) (rcLogs receipt) \<Longrightarrow> resLogs res = resLogs res1"
    using assms(1,3) q by (auto simp: postProcess_def r split: if_splits sum.splits failure.splits)
qed

context evm_module
begin

lemma ApplyMessage_logs:
  assumes "ApplyMessageWithConfig k b msg True cfg txCfg es = Inr (res, es')"
  obtains ls where "numbered txCfg ls" "resLogs res = NewLogsFromEth (kEth k) ls" "transients es' = transients es"
proof -
  obtain intrinsic s ret left err where
    s: "runMessage k b msg cfg txCfg (mGas msg - intrinsic) es = Inr (s, ret, left, err)"
      "resLogs res = NewLogsFromEth (kEth k) (logs s)" "transients es' = transients es"
    using assms by (rule ApplyMessage_cases) (auto simp: transients_def)
  then have "numbered txCfg (logs s)"
    by (intro reaches_numbered [OF conjunct1 [OF runMessage_reaches [OF s(1), unfolded newStateDB_def]]])
  with s show thesis by (intro that)
qed

lemma tx_counts:
  assumes run: "ApplyTransaction k b tx es = Inr (res, es')" and quiet: "quiet_hooks k"
  shows "GetTxIndexTransient es' = GetTxIndexTransient es + 1"
    "uint (GetTransientGasUsed es') = uint (GetTransientGasUsed es) + uint (resGasUsed res)"
    "resVmError res \<noteq> errPostTxProcessing \<Longrightarrow> \<exists>ls. numbered (ev_TxConfig b (TxHashOf (kTx k) tx) es) ls \<and>
      resLogs res = NewLogsFromEth (kEth k) ls \<and> GetLogSizeTransient es' = GetLogSizeTransient es + of_nat (length ls)"
proof -
  let ?t = "ev_TxConfig b (TxHashOf (kTx k) tx) es"
  have cfg: "TxIndex ?t = GetTxIndexTransient es" "LogIndex ?t = GetLogSizeTransient es"
    by (simp_all add: ev_TxConfig_def NewTxConfig_def)
  obtain cfg msg res1 tmp receipt es1 es2 where
    a: "ApplyMessageWithConfig k b msg True cfg ?t es = Inr (res1, tmp)"
    and p: "postProcess k msg res1 (newReceipt k b tx msg ?t res1 es) tmp (if kHooks k = None then tmp else es) = Inr (res, receipt, es1)"
    and r: "RefundGas k msg (mGas msg - resGasUsed res) (pEvmDenom (cfgParams cfg)) es1 = Inr es2"
    and c: "countTx b ?t res receipt es2 = Inr es'"
    using run by (rule ApplyTransaction_cases)
  obtain ls where ls: "numbered ?t ls" "resLogs res1 = NewLogsFromEth (kEth k) ls" "transients tmp = transients es"
    using ApplyMessage_logs [OF a] by blast
  have rl: "rcLogs (newReceipt k b tx msg ?t res1 es) = ls" using ls(2) by (simp add: newReceipt_def Let_def)
  note q = postProcess_quiet [OF p quiet]
  obtain x where "es2 = es1\<lparr>esEvm := (esEvm es1)\<lparr>sdkState := x\<rparr>\<rparr>" using r by (rule RefundGas_frame)
  then have t: "transients es2 = transients es" using q(1) ls(3) by (simp add: transients_def split: if_splits)
  note c = countTx_cases [OF c]
  show "GetTxIndexTransient es' = GetTxIndexTransient es + 1" using c(6) cfg by (simp add: GetTxIndexTransient_def)
  have g: "GetTransientGasUsed es2 = GetTransientGasUsed es" using t by (simp add: transients_def GetTransientGasUsed_def)
  then show "uint (GetTransientGasUsed es') = uint (GetTransientGasUsed es) + uint (resGasUsed res)"
    using c(8,10) uint_lt2p [of "GetTransientGasUsed es"]
    by (simp add: GetTransientGasUsed_def [of es'] uint_plus_if' word_less_def split: if_splits)
  show "\<exists>ls. numbered ?t ls \<and> resLogs res = NewLogsFromEth (kEth k) ls \<and>
      GetLogSizeTransient es' = GetLogSizeTransient es + of_nat (length ls)" if "resVmError res \<noteq> errPostTxProcessing"
    using that q(2,4) ls rl c(7) cfg t
    by (intro exI [of _ ls]) (auto simp: GetLogSizeTransient_def transients_def split: if_splits)
qed

lemma block_counts:
  assumes "applyTxs k b txs es = Inr (rs, es')" "quiet_hooks k"
    "\<And>r. r \<in> set rs \<Longrightarrow> resVmError r \<noteq> errPostTxProcessing"
  shows "GetTxIndexTransient es' = GetTxIndexTransient es + of_nat (length txs) \<and>
    uint (GetTransientGasUsed es') = uint (GetTransientGasUsed es) + (\<Sum>r\<leftarrow>rs. uint (resGasUsed r)) \<and>
    GetLogSizeTransient es' = GetLogSizeTransient es + of_nat (length (concat (map resLogs rs))) \<and>
    map plIndex (concat (map resLogs rs)) =
      map (\<lambda>i. GetLogSizeTransient es + of_nat i) [0..<length (concat (map resLogs rs))]"
  using assms
proof (induction txs arbitrary: es rs)
  case (Cons tx txs)
  then obtain res es1 rs1 where r: "ApplyTransaction k b tx es = Inr (res, es1)" "applyTxs k b txs es1 = Inr (rs1, es')"
    "rs = res # rs1" by auto
  note IH = Cons.IH [OF r(2) Cons.prems(2)] and c = tx_counts [OF r(1) Cons.prems(2)]
  obtain ls where ls: "numbered (ev_TxConfig b (TxHashOf (kTx k) tx) es) ls" "resLogs res = NewLogsFromEth (kEth k) ls"
    "GetLogSizeTransient es1 = GetLogSizeTransient es + of_nat (length ls)"
    using c(3) Cons.prems(3) r(3) by auto
  have n: "map plIndex (resLogs res) = map (\<lambda>i. GetLogSizeTransient es + of_nat i) [0..<length (resLogs res)]"
    using ls(1) by (simp add: ls(2) numbered_def NewLogsFromEth_def NewLogFromEth_def o_def ev_TxConfig_def NewTxConfig_def)
  have shift: "map (\<lambda>i. w + of_nat m + of_nat i) [0..<n] = map (\<lambda>i. w + of_nat i) [m..<m + n]" for w :: u64 and m n
    by (intro nth_equalityI) (simp_all add: algebra_simps)
  have l: "length (resLogs res) = length ls" by (simp add: ls(2) NewLogsFromEth_def)
  have "map plIndex (concat (map resLogs rs)) =
      map (\<lambda>i. GetLogSizeTransient es + of_nat i) [0..<length (concat (map resLogs rs))]"
    using IH n r(3) Cons.prems(3) by (simp add: ls(3) l shift upt_add_eq_append [of 0])
  with IH c(1,2) ls(3) l r(3) Cons.prems(3) show ?case by (simp add: algebra_simps)
qed simp

lemma message_commits:
  assumes run: "ApplyMessageWithConfig k b msg True cfg txCfg es = Inr (res, es')" and ok: "evm_store_ok (kSdk k) (esEvm es)"
  obtains intrinsic s ret left err where
    "GetEthIntrinsicGas (kCore k) b msg (cfgChain cfg) (mTo msg = None) = Inr intrinsic"
    "runMessage k b msg cfg txCfg (mGas msg - intrinsic) es = Inr (s, ret, left, err)"
    "resRet res = ret" "resLogs res = NewLogsFromEth (kEth k) (logs s)"
    "(\<And>a x. wAcct (world_of s) a = Some x \<Longrightarrow> \<not> aSuicided x \<Longrightarrow> evm_codeless (kSdk k) (esEvm es) a \<Longrightarrow>
      aCodeHash x = kKeccak k []) \<Longrightarrow> evm_store_ok (kSdk k) (esEvm es')"
    "\<And>a cfg'. (\<And>a x. wAcct (world_of s) a = Some x \<Longrightarrow> \<not> aSuicided x \<Longrightarrow> evm_codeless (kSdk k) (esEvm es) a \<Longrightarrow>
      aCodeHash x = kKeccak k []) \<Longrightarrow> (a \<in> resets (entries (jrnl s)) \<Longrightarrow> a \<in> dirtied (entries (jrnl s))) \<Longrightarrow>
      map_option acct_fields (wAcct (world_of (newStateDB k cfg' es')) a) = Option.bind (wAcct (world_of s) a) survives"
proof -
  obtain intrinsic s ret left err s' where
    s: "runMessage k b msg cfg txCfg (mGas msg - intrinsic) es = Inr (s, ret, left, err)" "resRet res = ret"
      "resLogs res = NewLogsFromEth (kEth k) (logs s)" "Commit s = Inr s'" "es' = es\<lparr>esEvm := ctx s'\<rparr>"
      "GetEthIntrinsicGas (kCore k) b msg (cfgChain cfg) (mTo msg = None) = Inr intrinsic"
    using run by (rule ApplyMessage_cases) auto
  obtain cs rs where cs: "calls exec cs (New (esEvm es) (evm_keeper (kCoins k) (kSdk k) (kKeccak k)) (kKeccak k) txCfg) = Inr (s, rs)"
    using runMessage_reaches [OF s(1)] by (auto simp: reaches_def newStateDB_def)
  show thesis
  proof (rule that [OF s(6) s(1-3)])
    show "evm_store_ok (kSdk k) (esEvm es')"
      if "\<And>a x. wAcct (world_of s) a = Some x \<Longrightarrow> \<not> aSuicided x \<Longrightarrow> evm_codeless (kSdk k) (esEvm es) a \<Longrightarrow>
        aCodeHash x = kKeccak k []"
      using commit_store_ok [OF cs ok that s(4)] s(5) by simp
    show "map_option acct_fields (wAcct (world_of (newStateDB k cfg' es')) a) = Option.bind (wAcct (world_of s) a) survives"
      if "\<And>a x. wAcct (world_of s) a = Some x \<Longrightarrow> \<not> aSuicided x \<Longrightarrow> evm_codeless (kSdk k) (esEvm es) a \<Longrightarrow>
        aCodeHash x = kKeccak k []" "a \<in> resets (entries (jrnl s)) \<Longrightarrow> a \<in> dirtied (entries (jrnl s))" for a cfg'
      using commit_world(1) [where a = a and cfg' = cfg', OF cs ok that(1) s(4)] that(2) s(5) by (simp add: newStateDB_def)
  qed
qed

end

section \<open>Reference instance: a machine that only transfers\<close>

text \<open>
  A call moves its value, logs its data and earns a refund; the data \<open>[0]\<close> makes it revert.  A creation returns its
  code.  Either uses half of the gas.
\<close>

definition ref_log :: "address \<Rightarrow> bytes \<Rightarrow> Log" where
  "ref_log a data =
     \<lparr>logAddress = a, logTopics = [], logData = data, logTxHash = 0, logBlockHash = 0, logTxIndex = 0, logIndex = 0,
      logBlockNumber = 5, logRemoved = False\<rparr>"

definition ref_call :: "VM \<Rightarrow> address \<Rightarrow> address \<Rightarrow> bytes \<Rightarrow> u64 \<Rightarrow> int \<Rightarrow> 'k StateDB \<Rightarrow> 'k VmRun" where
  "ref_call vm a to data gas v s =
     (if data = [0] then Inr (s, [], gas div 2, Some ''execution reverted'')
      else Inr (AddLog (AddRefund (AddBalance (SubBalance s a v) to v) 4) (ref_log to data), data, gas div 2, None))"

definition ref_vm :: "'k Evm" where
  "ref_vm = \<lparr>evmCreate = (\<lambda>vm a data gas v s. Inr (s, data, gas div 2, None)), evmCall = ref_call\<rparr>"

lemma half_le: "gas div 2 \<le> gas" for gas :: u64
proof -
  have "uint gas div 2 \<le> uint gas" using uint_ge_0 [of gas] by linarith
  then show ?thesis by (simp add: word_le_def uint_div_distrib)
qed

interpretation ref_vm: eth_vm ref_vm
proof
  fix vm a and data :: bytes and gas v s s' ret left err
  assume "evmCreate ref_vm vm a data gas v s = Inr (s', ret, left, err)"
  then show "reaches s s' \<and> left \<le> gas" using half_le by (auto simp: ref_vm_def)
next
  fix vm a to and data :: bytes and gas v s s' ret left err
  assume run: "evmCall ref_vm vm a to data gas v s = Inr (s', ret, left, err)"
  have "calls exec [CSubBalance a v, CAddBalance to v, CAddRefund 4, CAddLog (ref_log to data)] s =
      Inr (AddLog (AddRefund (AddBalance (SubBalance s a v) to v) 4) (ref_log to data), [RUnit, RUnit, RUnit, RUnit])"
    by (simp add: finished_def)
  then have "reaches s (AddLog (AddRefund (AddBalance (SubBalance s a v) to v) 4) (ref_log to data))"
    unfolding reaches_def by blast
  then show "reaches s s' \<and> left \<le> gas" using run half_le by (auto simp: ref_vm_def ref_call_def split: if_splits)
qed

definition ref_value_of :: "int option \<Rightarrow> int" where
  "ref_value_of v = (case v of None \<Rightarrow> 0 | Some n \<Rightarrow> n)"

definition ref_price :: "int option \<Rightarrow> EthTransaction \<Rightarrow> int" where
  "ref_price f tx =
     (case f of
        None \<Rightarrow> ref_value_of (etGasPrice tx)
      | Some b \<Rightarrow> min (ref_value_of (etGasTipCap tx) + b) (ref_value_of (etGasFeeCap tx)))"

definition ref_core :: EthCore where
  "ref_core =
     \<lparr>IsHomestead = (\<lambda>_ _. True), IsIstanbul = (\<lambda>_ _. True), IsBerlin = (\<lambda>_ _. True), IsLondon = (\<lambda>_ _. True),
      ActivePrecompiles = (\<lambda>_ _. [1, 2]), CheckConfigForkOrder = (\<lambda>_. None), ValidEip = (\<lambda>e. e = 1344),
      IntrinsicGas = (\<lambda>data al create _ _. Inr (21 + of_nat (length data))),
      RefundQuotient = 2, RefundQuotientEIP3529 = 5,
      AsMessage = (\<lambda>cfg h f tx.
        Inr \<lparr>mFrom = 3, mTo = etTo tx, mNonce = etNonce tx, mValue = ref_value_of (etValue tx),
          mGas = etGas tx, mGasPrice = ref_price f tx, mGasFeeCap = ref_value_of (etGasFeeCap tx),
          mGasTipCap = ref_value_of (etGasTipCap tx), mData = etData tx,
          mAccessList = etAccessList tx\<rparr>),
      SenderAt = (\<lambda>_ _ _. Inr 3), Protected = (\<lambda>_. True), LogsBloom = (\<lambda>ls. int (length ls))\<rparr>"

definition ref_staking :: "'x Staking" where
  "ref_staking = \<lparr>GetValidatorByConsAddr = (\<lambda>_ _. Some 9), GetHistoricalHash = (\<lambda>_ _. None)\<rparr>"

definition ref_module :: "(ledger, 'w) EvmHook list option \<Rightarrow> (ledger, amounts, 'w) EvmKeeper" where
  "ref_module hooks =
     \<lparr>kCoins = ref_coins, kSdk = ref_keepers (\<lambda>_. 0) (\<lambda>_. False) ''aevmos'', kKeccak = (\<lambda>_. 0), kDec = ref_dec,
      kEth = ref_eth, kCore = ref_core, kTx = ref_txlib, kStaking = ref_staking, kVm = ref_vm,
      kFeeCollector = ''fee_collector'', kChainID = Some 9000, kHooks = hooks\<rparr>"

interpretation ref_module: evm_module "ref_module hooks"
  unfolding evm_module_def evm_module_axioms_def ref_module_def
  by (simp add: ref_keepers.sdk_keepers_axioms ref_dec.sdk_dec_axioms ref_eth.eth_lib_axioms ref_vm.eth_vm_axioms ref_core_def)

definition ref_evm_block :: EvmBlock where
  "ref_evm_block =
     \<lparr>bHeight = 5, bTime = 100, bHeaderHash = Some 8, bRecomputed = Inl '''', bProposer = [1], bGasMeter = Some (10 ^ 7, 0),
      bMaxGas = None\<rparr>"

text \<open>The account 3 has 150 coins and the fee collector the fees of the block.\<close>

definition ref_evm_state :: "(ledger, unit) EvmState" where
  "ref_evm_state =
     \<lparr>esEvm = ref_evm\<lparr>sdkState := (sdkState ref_evm)\<lparr>lAccounts := (lAccounts (sdkState ref_evm))(3 \<mapsto> EthAcc
          \<lparr>ethBase = \<lparr>baAddress = 3, PubKey = None, AccountNumber = 1, Sequence = 4\<rparr>, ethCodeHash = 0\<rparr>,
          ref_module_address ''fee_collector'' \<mapsto> OtherAcc emptyBaseAccount), lBalances := (\<lambda>a.
          if a = 3 then [(''aevmos'', 150)] else if a = ref_module_address ''fee_collector'' then [(''aevmos'', 200)] else []),
        lSupply := (\<lambda>_. 350)\<rparr>\<rparr>,
      esParams = Some (ev_DefaultParams ref_eth ''aevmos''), esLegacyParams = ev_DefaultParams ref_eth ''aevmos'',
      esFm = (ref_market 0)\<lparr>fmParams := Some (ref_fees\<lparr>BaseFee := Some 1, MinGasPrice := Some dec_one\<rparr>)\<rparr>, esBloom = fmempty, esTxIndex = None, esLogSize = None, esGasUsed = None, esGasMeter = 0,
      esMods = ()\<rparr>"

definition ref_transfer :: EthTransaction where
  "ref_transfer = ref_tx\<lparr>etGas := 50, etData := [1]\<rparr>"

section \<open>Properties\<close>


definition ref_config :: EVMConfig where
  "ref_config = \<lparr>cfgParams = ev_DefaultParams ref_eth ''aevmos'',
     cfgChain = EthereumConfig ref_eth (DefaultChainConfig ref_eth) (Some 9000), cfgCoinBase = 9, cfgBaseFee = Some 1\<rparr>"

definition ref_message :: Message where
  "ref_message = \<lparr>mFrom = 3, mTo = Some 77, mNonce = 3, mValue = 5, mGas = 50, mGasPrice = 2, mGasFeeCap = 2, mGasTipCap = 2,
     mData = [1], mAccessList = None\<rparr>"

abbreviation ref_keeper :: "(ledger, amounts, unit) EvmKeeper" where
  "ref_keeper \<equiv> ref_module (Some [])"

lemma ref_message_runs:
  "\<not> isl (ApplyMessageWithConfig ref_keeper ref_evm_block ref_message True ref_config (NewEmptyTxConfig 0) ref_evm_state)"
  by code_simp


text \<open>
  C3.  A failed transaction only pays for its gas.  When the hooks are set and the response says that the execution
  or a hook failed, then the contract storage, the code, the parameters, the fee market and the stores of the hooking
  modules are as before, every existing account keeps its nonce and code hash, the supply is unchanged, and the only
  balances that change are those of the sender and the fee collector, by the price of the gas that was not used.
\<close>

theorem failed_tx_only_pays_gas:
  assumes "evm_module k" "ApplyTransaction k b tx es = Inr (res, es')" "kHooks k \<noteq> None" "res_Failed res"
  shows "\<exists>cfg msg. ev_EVMConfig (kEth k) (kCore k) (kStaking k) b (bProposer b) (kChainID k) es = Inr cfg \<and>
    AsMessage (kCore k) (cfgChain cfg) (bHeight b) (cfgBaseFee cfg) tx = Inr msg \<and>
    storageStore (esEvm es') = storageStore (esEvm es) \<and> codeStore (esEvm es') = codeStore (esEvm es) \<and>
    esParams es' = esParams es \<and> esFm es' = esFm es \<and> esMods es' = esMods es \<and>
    (let K = kSdk k; x = sdkState (esEvm es); x' = sdkState (esEvm es'); unused = uint (mGas msg - resGasUsed res) * mGasPrice msg in
      (\<forall>z d. BankBalance K x' z d = BankBalance K x z d +
        (if d = pEvmDenom (cfgParams cfg)
         then at_addr (mFrom msg) z unused - at_addr (GetModuleAddress K (kFeeCollector k)) z unused else 0)) \<and>
      GetSupply K x' = GetSupply K x \<and> (\<forall>a. GetAccount K x a \<noteq> None \<longrightarrow> GetAccount K x' a = GetAccount K x a))"
proof (rule evm_module.failed_tx [OF assms])
  fix cfg msg x
  assume a: "ev_EVMConfig (kEth k) (kCore k) (kStaking k) b (bProposer b) (kChainID k) es = Inr cfg"
    "AsMessage (kCore k) (cfgChain cfg) (bHeight b) (cfgBaseFee cfg) tx = Inr msg"
    "RefundGas k msg (mGas msg - resGasUsed res) (pEvmDenom (cfgParams cfg)) es = Inr (es\<lparr>esEvm := (esEvm es)\<lparr>sdkState := x\<rparr>\<rparr>)"
    "esEvm es' = (esEvm es)\<lparr>sdkState := x\<rparr>" "esParams es' = esParams es" "esFm es' = esFm es" "esMods es' = esMods es"
  note m = evm_module.RefundGas_moves [OF assms(1) a(3), simplified]
  show ?thesis
    using a(1,2,4-) m by (intro exI [of _ cfg] exI [of _ msg]) (simp add: Let_def)
qed

definition ref_failing :: EthTransaction where
  "ref_failing = ref_transfer\<lparr>etData := [0]\<rparr>"

lemma ref_failing_fails:
  "case ApplyTransaction ref_keeper ref_evm_block ref_failing ref_evm_state of Inl _ \<Rightarrow> False | Inr (res, _) \<Rightarrow>
    res_Failed res \<and> resGasUsed res = 36"
  by code_simp

theorem failed_tx_only_pays_gas_witness:
  "\<exists>res es'. ApplyTransaction ref_keeper ref_evm_block ref_failing ref_evm_state = Inr (res, es') \<and> res_Failed res \<and>
    BankBalance (kSdk ref_keeper) (sdkState (esEvm es')) 3 ''aevmos'' = 192"
proof -
  obtain res es' where run: "ApplyTransaction ref_keeper ref_evm_block ref_failing ref_evm_state = Inr (res, es')"
    and res: "res_Failed res" "resGasUsed res = 36" using ref_failing_fails by (auto split: sum.splits)
  have n: "GetModuleAddress (kSdk ref_keeper) (kFeeCollector ref_keeper) \<noteq> 3" by code_simp
  have b: "BankBalance (kSdk ref_keeper) (sdkState (esEvm ref_evm_state)) 3 ''aevmos'' = 150" by code_simp
  show ?thesis
    using failed_tx_only_pays_gas [OF ref_module.evm_module_axioms run _ res(1)] run res(2) n b
    by (auto simp: Let_def ref_module_def ref_core_def ref_failing_def ref_transfer_def ev_EVMConfig_def ev_GetParams_def
        ref_evm_state_def ev_DefaultParams_def at_addr_def res(1) ev_GetBaseFee_def ev_getBaseFee_def fm_GetBaseFee_def
        fm_GetParams_def ref_fees_def fm_NewParams_def ref_market_def ref_price_def ref_value_of_def ref_tx_def)
qed


lemma ref_block_runs:
  "case applyTxs ref_keeper ref_evm_block [ref_transfer, ref_failing, ref_transfer] ref_evm_state of Inl _ \<Rightarrow> False
   | Inr (rs, _) \<Rightarrow> list_all (\<lambda>r. resVmError r \<noteq> errPostTxProcessing) rs \<and> length (concat (map resLogs rs)) = 2 \<and>
       (\<Sum>r\<leftarrow>rs. uint (resGasUsed r)) = 100"
  by code_simp


text \<open>
  A hook that fails empties the logs of the response, but the log size advances by the logs of the execution that was
  dropped: the next log of the block does not continue the numbering.
\<close>

theorem failed_hook_counts_logs:
  assumes post: "postProcess k msg res receipt tmp es = Inr (res', receipt', es1)"
    and "\<not> res_Failed res" and hook: "ev_PostTxProcessing k msg (receipt\<lparr>rcStatus := True\<rparr>) tmp = (receipt', Inl (Err e))"
    and count: "countTx b txCfg res' receipt' es1 = Inr es'"
  shows "es1 = es \<and> resLogs res' = [] \<and> (rcLogs receipt' \<noteq> [] \<longrightarrow>
    GetLogSizeTransient es' = LogIndex txCfg + of_nat (length (rcLogs receipt')))"
  using post assms(2) hook countTx_cases(7) [OF count] by (auto simp: postProcess_def GetLogSizeTransient_def)


abbreviation ref_message_run :: "ledger EvmCtx VmRun" where
  "ref_message_run \<equiv> runMessage ref_keeper ref_evm_block ref_message ref_config (NewEmptyTxConfig 0) (50 - 22) ref_evm_state"

lemma ref_message_world:
  "case ref_message_run of Inl _ \<Rightarrow> False | Inr (s, _) \<Rightarrow>
    list_all (\<lambda>a. case wAcct (world_of s) a of None \<Rightarrow> True | Some x \<Rightarrow> aCodeHash x = 0)
      [ref_module_address evmModule, ref_module_address ''fee_collector''] \<and>
    (case wAcct (world_of s) 77 of None \<Rightarrow> False | Some x \<Rightarrow> \<not> aSuicided x \<and> aBalance x = 5) \<and>
    list_ex (\<lambda>e. Dirtied e = Some 77) (entries (jrnl s))"
  by code_simp

lemma ref_state_ok: "evm_store_ok (kSdk ref_keeper) (esEvm ref_evm_state)"
  by (simp add: evm_store_ok_def ref_module_def ref_evm_state_def ref_evm_def ref_keepers_def) code_simp


end
