(* ===== verification/Evm_Ante.thy ===== *)
theory Evm_Ante
  imports Evm_Transition
begin

text \<open>
  The ante handler of Ethereum transactions: the decorators of \<^verbatim>\<open>app/ante/evm/{setup_ctx,fees,sigverify,eth,vesting,fee_market}.go\<close>
  in the order of \<^verbatim>\<open>newEVMAnteHandler\<close> of \<^verbatim>\<open>app/ante/handler_options.go\<close>.

  A decorator takes the context, the transaction and the state and hands them on, or fails; a failure drops what the
  decorators before it wrote.  The transaction is part of what is handed on because the signature check
  writes the sender into the messages.  \<open>AnteLib\<close> holds what the decorators call of the SDK and of go-ethereum: the
  fee deduction of the auth module, \<^verbatim>\<open>Tx.ValidateBasic\<close>, \<^verbatim>\<open>Coins.IsEqual\<close>, \<^verbatim>\<open>CanTransfer\<close>, the base vesting account and the divisor of the priority; the locale
  \<open>ante_module\<close> states what is used of the first.
\<close>

section \<open>Messages and transactions\<close>

text \<open>
  The messages the decorators tell apart.  The messages packed into a \<^verbatim>\<open>MsgExec\<close> and the authorization in a
  \<^verbatim>\<open>MsgGrant\<close> are \<open>None\<close> when they do not unpack.  A delegation carries its signers and the amount.
\<close>

datatype AnteMsg =
    EthMsg MsgEthereumTx
  | ExecMsg "AnteMsg option list"
  | GrantMsg "string option"
  | DelegateMsg "address list" int
  | OtherMsg string

text \<open>
  The transaction.  \<open>txWrapped\<close> says that it is the transaction type of the SDK, which has the interfaces the
  decorators ask for; lists whose elements do not matter are given by their length.  An extension option is given by its value:
  the Ethereum and Web3 options, the dynamic fee with its maximal priority price, which is nil when the field is missing, or another type.
\<close>

record Web3Option =
  TypedDataChainID :: u64
  extFeePayer :: string
  extFeePayerSig :: bytes

datatype ExtOption =
    EthereumTxOption
  | Web3TxOption Web3Option
  | DynamicFeeTxOption "int option"
  | UnknownOption string

record 'c AnteTx =
  txMsgs :: "AnteMsg list"
  txWrapped :: bool
  txMemo :: string
  txTimeoutHeight :: u64
  txNonCritical :: nat
  txExtensions :: "ExtOption list"
  txSignerInfos :: nat
  txSignatures :: nat
  txPayer :: string
  txGranter :: string
  txFeeAmount :: 'c
  txFeeGas :: u64

record AnteCtx =
  acCheckTx :: bool
  acReCheckTx :: bool
  acSimulate :: bool
  acMinGasPrices :: "string \<Rightarrow> dec"
  acMinGasDenoms :: "string list"
  acGasLimit :: "u64 option"
  acPriority :: int

record ('x, 'c) AnteLib = "('x, 'c) AuthAnte" +
  TxBasic :: "'c AnteTx \<Rightarrow> (string \<times> bool) option"
  CoinsEqual :: "'c \<Rightarrow> 'c \<Rightarrow> panic + bool"
  CanTransfer :: "'x EvmCtx StateDB \<Rightarrow> address \<Rightarrow> int \<Rightarrow> bool"
  baseVesting :: "'c BaseVesting"
  PriorityReduction :: int

type_synonym ('x, 'c, 'w) AnteHandler =
  "AnteCtx \<Rightarrow> 'c AnteTx \<Rightarrow> ('x, 'w) EvmState \<Rightarrow> failure + (AnteCtx \<times> 'c AnteTx \<times> ('x, 'w) EvmState)"

fun ChainAnteDecorators :: "('x, 'c, 'w) AnteHandler list \<Rightarrow> ('x, 'c, 'w) AnteHandler" where
  "ChainAnteDecorators [] cx tx es = Inr (cx, tx, es)"
| "ChainAnteDecorators (d # ds) cx tx es =
     rbind (d cx tx es) (\<lambda>(cx, tx, es). ChainAnteDecorators ds cx tx es)"

text \<open>A loop over the messages, all of which have to be Ethereum messages.\<close>

definition ethMsgs :: "(MsgEthereumTx \<Rightarrow> 's \<Rightarrow> failure + 's) \<Rightarrow> AnteMsg list \<Rightarrow> 's \<Rightarrow> failure + 's" where
  "ethMsgs f = foldM (\<lambda>msg s. case msg of EthMsg m \<Rightarrow> f m s | _ \<Rightarrow> Inl (Err ''invalid message type''))"

definition ethConfig :: "('x, 'c, 'w) EvmKeeper \<Rightarrow> ('x, 'w) EvmState \<Rightarrow> EthChainConfig" where
  "ethConfig k es = EthereumConfig (kEth k) (pChainConfig (ev_GetParams es)) (kChainID k)"

definition anteBaseFee :: "('x, 'c, 'w) EvmKeeper \<Rightarrow> EvmBlock \<Rightarrow> ('x, 'w) EvmState \<Rightarrow> int option" where
  "anteBaseFee k b es = ev_GetBaseFee (kCore k) b (ethConfig k es) es"

section \<open>The decorators\<close>

definition EthSetupContext :: "('x, 'c, 'w) AnteHandler" where
  "EthSetupContext cx tx es =
     (if \<not> txWrapped tx then Inl (Err ''invalid transaction type, expected GasTx'')
      else Inr (cx\<lparr>acGasLimit := None\<rparr>, tx, ResetTransientGasUsed (es\<lparr>esGasMeter := 0\<rparr>)))"

definition EthMempoolFee :: "('x, 'c, 'w) EvmKeeper \<Rightarrow> EvmBlock \<Rightarrow> ('x, 'c, 'w) AnteHandler" where
  "EthMempoolFee k b cx tx es =
     (if \<not> acCheckTx cx \<or> acSimulate cx \<or> anteBaseFee k b es \<noteq> None then Inr (cx, tx, es)
      else
        let minGasPrice = acMinGasPrices cx (pEvmDenom (ev_GetParams es)) in
        rbind (ethMsgs (\<lambda>m _.
            rbind (panicking (me_GetFee m)) (\<lambda>amount.
              case amount of
                None \<Rightarrow> Inl (Panicked NilDereference)
              | Some feeAmt \<Rightarrow>
                  rbind (panicking (DMul (kDec k) minGasPrice (NewDec (uint (me_GetGas m))))) (\<lambda>requiredFee.
                    if NewDec feeAmt < requiredFee then Inl (Err ''insufficient fee'') else Inr ())))
          (txMsgs tx) ()) (\<lambda>_. Inr (cx, tx, es)))"

text \<open>The message of the error converts both fees to 64 bits, which panics when they are larger.\<close>

definition lowFee :: "Decs \<Rightarrow> dec \<Rightarrow> dec \<Rightarrow> failure" where
  "lowFee D paid requiredFee =
     (if in64 (DTruncateInt D paid) \<and> in64 (DTruncateInt D requiredFee) then Err ''provided fee < minimum global fee''
      else Panicked (Panic ''Int64() out of bound''))"

definition EthMinGasPrice :: "('x, 'c, 'w) EvmKeeper \<Rightarrow> EvmBlock \<Rightarrow> ('x, 'c, 'w) AnteHandler" where
  "EthMinGasPrice k b cx tx es =
     (case MinGasPrice (fm_GetParams (esFm es)) of
        None \<Rightarrow> Inl (Panicked NilDereference)
      | Some minGasPrice \<Rightarrow>
          if minGasPrice = 0 then Inr (cx, tx, es)
          else rbind (ethMsgs (\<lambda>m _.
            rbind (panicking (me_GetFee m)) (\<lambda>feeAmt.
            rbind (failing (UnpackTxData (meData m))) (\<lambda>txData.
            rbind (if td_TxType txData \<noteq> LegacyTxType then panicking (me_GetEffectiveFee (anteBaseFee k b es) m)
                   else Inr feeAmt) (\<lambda>amount.
            rbind (panicking (DMul (kDec k) minGasPrice (NewDec (uint (me_GetGas m))))) (\<lambda>requiredFee.
              case amount of
                None \<Rightarrow> Inl (Panicked NilDereference)
              | Some a \<Rightarrow>
                  if NewDec a < requiredFee then Inl (lowFee (kDec k) (NewDec a) requiredFee) else Inr ())))))
          (txMsgs tx) ()) (\<lambda>_. Inr (cx, tx, es)))"

definition EthValidateBasic ::
    "('x, 'c) AnteLib \<Rightarrow> ('x, 'c, 'w) EvmKeeper \<Rightarrow> EvmBlock \<Rightarrow> ('x, 'c, 'w) AnteHandler" where
  "EthValidateBasic L k b cx tx es =
     (if acReCheckTx cx then Inr (cx, tx, es)
      else if (case TxBasic L tx of None \<Rightarrow> False | Some (_, noSignatures) \<Rightarrow> \<not> noSignatures)
      then Inl (Err ''tx basic validation failed'')
      else if \<not> txWrapped tx then Inl (Err ''invalid tx type'')
      else if txMemo tx \<noteq> '''' \<or> txTimeoutHeight tx \<noteq> 0 \<or> txNonCritical tx > 0
      then Inl (Err ''for eth tx body Memo TimeoutHeight NonCriticalExtensionOptions should be empty'')
      else if length (txExtensions tx) \<noteq> 1 then Inl (Err ''for eth tx length of ExtensionOptions should be 1'')
      else if txSignerInfos tx > 0 then Inl (Err ''for eth tx AuthInfo SignerInfos should be empty'')
      else if txPayer tx \<noteq> '''' \<or> txGranter tx \<noteq> ''''
      then Inl (Err ''for eth tx AuthInfo Fee payer and granter should be empty'')
      else if txSignatures tx > 0 then Inl (Err ''for eth tx Signatures should be empty'')
      else
        let evmParams = ev_GetParams es; baseFee = anteBaseFee k b es in
        rbind (ethMsgs (\<lambda>m (txFee, txGasLimit).
            if meFrom m \<noteq> '''' then Inl (Err ''invalid From, expect empty string'')
            else rbind (failing (UnpackTxData (meData m))) (\<lambda>txData.
              if \<not> pEnableCreate evmParams \<and> td_GetTo (kEth k) txData = None then Inl (Err ''failed to create new contract'')
              else if \<not> pEnableCall evmParams \<and> td_GetTo (kEth k) txData \<noteq> None then Inl (Err ''failed to call contract'')
              else if baseFee = None \<and> td_TxType txData = DynamicFeeTxType then Inl (Err ''dynamic fee tx not supported'')
              else rbind (panicking (td_Fee txData)) (\<lambda>f.
                rbind (panicking (NewIntFromBigInt (kDec k) f)) (\<lambda>amount.
                  Inr (CAdd (kCoins k) txFee (RawCoins (kCoins k) [(pEvmDenom evmParams, amount)]), txGasLimit + me_GetGas m)))))
          (txMsgs tx) (NoCoins (kCoins k), 0)) (\<lambda>(txFee, txGasLimit).
        rbind (panicking (CoinsEqual L (txFeeAmount tx) txFee)) (\<lambda>eq.
          if \<not> eq then Inl (Err ''invalid AuthInfo Fee Amount'')
          else if txFeeGas tx \<noteq> txGasLimit then Inl (Err ''invalid AuthInfo Fee GasLimit'')
          else Inr (cx, tx, es))))"

text \<open>\<open>recoverSender\<close> is the body of the loop: the message with the recovered sender.\<close>

definition recoverSender ::
    "('x, 'c, 'w) EvmKeeper \<Rightarrow> EvmBlock \<Rightarrow> ('x, 'w) EvmState \<Rightarrow> MsgEthereumTx \<Rightarrow> failure + MsgEthereumTx" where
  "recoverSender k b es m =
     (case AsTransaction (kEth k) (kTx k) m of
        None \<Rightarrow> Inl (Panicked NilDereference)
      | Some ethTx \<Rightarrow>
          if \<not> pAllowUnprotectedTxs (ev_GetParams es) \<and> \<not> Protected (kCore k) ethTx
          then Inl (Err ''rejected unprotected Ethereum transaction'')
          else rbind (failing (SenderAt (kCore k) (ethConfig k es) (bHeight b) ethTx)) (\<lambda>sender.
            Inr (m\<lparr>meFrom := AddressHex (kEth k) sender\<rparr>)))"

definition EthSigVerification :: "('x, 'c, 'w) EvmKeeper \<Rightarrow> EvmBlock \<Rightarrow> ('x, 'c, 'w) AnteHandler" where
  "EthSigVerification k b cx tx es =
     rbind (ethMsgs (\<lambda>m msgs. rbind (recoverSender k b es m) (\<lambda>m'. Inr (msgs @ [EthMsg m']))) (txMsgs tx) [])
       (\<lambda>msgs. Inr (cx, tx\<lparr>txMsgs := msgs\<rparr>, es))"

text \<open>\<^verbatim>\<open>sdk.AccAddress\<close> of a message without sender is nil; no account has it.\<close>

definition senderAccount ::
    "('x, 'c, 'w) EvmKeeper \<Rightarrow> MsgEthereumTx \<Rightarrow> ('x, 'w) EvmState \<Rightarrow> 'c AccountI option" where
  "senderAccount k m es =
     (case me_GetFrom (kEth k) m of None \<Rightarrow> None | Some from \<Rightarrow> GetAccount (kSdk k) (sdkState (esEvm es)) from)"

definition setSdk :: "'x \<Rightarrow> ('x, 'w) EvmState \<Rightarrow> ('x, 'w) EvmState" where
  "setSdk x es = es\<lparr>esEvm := (esEvm es)\<lparr>sdkState := x\<rparr>\<rparr>"

definition EthAccountVerification :: "('x, 'c, 'w) EvmKeeper \<Rightarrow> ('x, 'c, 'w) AnteHandler" where
  "EthAccountVerification k cx tx es =
     (if \<not> acCheckTx cx then Inr (cx, tx, es)
      else rbind (ethMsgs (\<lambda>m es.
          rbind (failing (UnpackTxData (meData m))) (\<lambda>txData.
            case me_GetFrom (kEth k) m of
              None \<Rightarrow> Inl (Err ''from address cannot be empty'')
            | Some from \<Rightarrow>
                rbind
                  (case ek_GetAccount (kSdk k) (kKeccak k) (esEvm es) from of
                     None \<Rightarrow>
                       let (acc, x) = NewAccountWithAddress (kSdk k) (sdkState (esEvm es)) from in
                       Inr (0, setSdk (SetAccount (kSdk k) x acc) es)
                   | Some acct \<Rightarrow>
                       if argCodeHash acct \<noteq> Some (kKeccak k []) then Inl (Err ''the sender is not EOA'')
                       else (case argBalance acct of None \<Rightarrow> Inl (Panicked NilDereference) | Some n \<Rightarrow> Inr (n, es)))
                  (\<lambda>(balance, es).
                rbind (panicking (NewIntFromBigInt (kDec k) balance)) (\<lambda>balance.
                rbind (CheckSenderBalance balance txData) (\<lambda>_. Inr es)))))
        (txMsgs tx) es) (\<lambda>es. Inr (cx, tx, es)))"

definition me_AsMessage ::
    "('x, 'c, 'w) EvmKeeper \<Rightarrow> EvmBlock \<Rightarrow> ('x, 'w) EvmState \<Rightarrow> int option \<Rightarrow> MsgEthereumTx \<Rightarrow> failure + Message" where
  "me_AsMessage k b es baseFee m =
     (case AsTransaction (kEth k) (kTx k) m of
        None \<Rightarrow> Inl (Panicked NilDereference)
      | Some ethTx \<Rightarrow> failing (AsMessage (kCore k) (ethConfig k es) (bHeight b) baseFee ethTx))"

definition CanTransferDecorator ::
    "('x, 'c) AnteLib \<Rightarrow> ('x, 'c, 'w) EvmKeeper \<Rightarrow> EvmBlock \<Rightarrow> ('x, 'c, 'w) AnteHandler" where
  "CanTransferDecorator L k b cx tx es =
     rbind (ethMsgs (\<lambda>m _.
         let baseFee = anteBaseFee k b es in
         rbind (me_AsMessage k b es baseFee m) (\<lambda>coreMsg.
         rbind (if IsLondon (kCore k) (ethConfig k es) (bHeight b) then
                  (case baseFee of
                     None \<Rightarrow> Inl (Err ''base fee is supported but evm block context value is nil'')
                   | Some f \<Rightarrow> if mGasFeeCap coreMsg < f then Inl (Err ''max fee per gas less than block base fee'') else Inr ())
                else Inr ()) (\<lambda>_.
           let stateDB = newStateDB k (NewEmptyTxConfig (case bHeaderHash b of None \<Rightarrow> 0 | Some h \<Rightarrow> h)) es in
           if mValue coreMsg > 0 \<and> \<not> CanTransfer L stateDB (mFrom coreMsg) (mValue coreMsg)
           then Inl (Err ''failed to transfer using the EVM block context transfer function'') else Inr ())))
       (txMsgs tx) ()) (\<lambda>_. Inr (cx, tx, es))"

text \<open>The expenses of an account: the total of the values sent and what may be spent.\<close>

type_synonym expenses = "(address, int \<times> int) fmap"

definition updateAccountExpenses ::
    "('x, 'c) AnteLib \<Rightarrow> ('x, 'c, 'w) EvmKeeper \<Rightarrow> EvmBlock \<Rightarrow> ('x, 'w) EvmState \<Rightarrow> 'c ClawbackVestingAccount \<Rightarrow> int \<Rightarrow> string \<Rightarrow>
      expenses \<Rightarrow> failure + (int \<times> int) \<times> expenses" where
  "updateAccountExpenses L k b es va addedExpense denom accountExpenses =
     (let addr = GetAddress (ClawbackAcc va) in
      case fmlookup accountExpenses addr of
        Some (spent, spendable) \<Rightarrow>
          let e = (spent + addedExpense, spendable) in Inr (e, fmupd addr e accountExpenses)
      | None \<Rightarrow>
          let balance = BankBalance (kSdk k) (sdkState (esEvm es)) addr denom in
          if balance = 0 then Inl (Err ''account has no balance to execute transaction'')
          else rbind (panicking (LockedCoins (kCoins k) (baseVesting L) va (bTime b))) (\<lambda>lockedBalances.
            let lockedBalance = AmountOf (kCoins k) lockedBalances denom;
                spendable = (if lockedBalance \<le> balance then balance - lockedBalance else 0);
                e = (addedExpense, spendable)
            in Inr (e, fmupd addr e accountExpenses)))"

definition EthVestingTransaction ::
    "('x, 'c) AnteLib \<Rightarrow> ('x, 'c, 'w) EvmKeeper \<Rightarrow> EvmBlock \<Rightarrow> ('x, 'c, 'w) AnteHandler" where
  "EthVestingTransaction L k b cx tx es =
     rbind (ethMsgs (\<lambda>m accountExpenses.
         case senderAccount k m es of
           None \<Rightarrow> Inl (Err ''account does not exist'')
         | Some (ClawbackAcc va) \<Rightarrow>
             (case AsTransaction (kEth k) (kTx k) m of
                None \<Rightarrow> Inl (Panicked NilDereference)
              | Some ethTx \<Rightarrow>
                  let msgValue = (case etValue ethTx of None \<Rightarrow> 0 | Some v \<Rightarrow> v) in
                  rbind (updateAccountExpenses L k b es va msgValue (pEvmDenom (ev_GetParams es)) accountExpenses)
                    (\<lambda>((spent, spendable), accountExpenses).
                    if spent > spendable
                    then Inl (Err ''clawback vesting account has insufficient unlocked tokens to execute transaction'')
                    else Inr accountExpenses))
         | Some _ \<Rightarrow> Inr accountExpenses)
       (txMsgs tx) fmempty) (\<lambda>_. Inr (cx, tx, es))"

text \<open>One message of the fee deduction: the gas wanted so far, the lowest priority so far and the state.\<close>

definition consumeGas ::
    "('x, 'c) AnteLib \<Rightarrow> ('x, 'c, 'w) EvmKeeper \<Rightarrow> EvmBlock \<Rightarrow> u64 \<Rightarrow> bool \<Rightarrow> int option \<Rightarrow> string \<Rightarrow> EthChainConfig \<Rightarrow>
      MsgEthereumTx \<Rightarrow> u64 \<times> int \<times> ('x, 'w) EvmState \<Rightarrow> failure + u64 \<times> int \<times> ('x, 'w) EvmState" where
  "consumeGas L k b maxGasWanted isCheckTx baseFee evmDenom ethCfg m = (\<lambda>(gasWanted, minPriority, es).
     rbind (failing (UnpackTxData (meData m))) (\<lambda>txData.
       let gasWanted = gasWanted + (if isCheckTx \<and> maxGasWanted \<noteq> 0 \<and> td_GetGas txData > maxGasWanted
                                    then maxGasWanted else td_GetGas txData) in
       rbind (VerifyFee (kCoins k) (kDec k) (kEth k) (kCore k) txData evmDenom baseFee
                (IsHomestead (kCore k) ethCfg (bHeight b)) (IsIstanbul (kCore k) ethCfg (bHeight b)) isCheckTx) (\<lambda>fees.
       rbind (failing (DeductTxCostsFromUserBalance (AuthAnte.truncate L) fees (HexToAddress (kEth k) (meFrom m)) es)) (\<lambda>es.
       rbind (panicking (GetTxPriority (PriorityReduction L) txData baseFee)) (\<lambda>priority.
         Inr (gasWanted, min priority minPriority, es))))))"

definition EthGasConsume ::
    "('x, 'c) AnteLib \<Rightarrow> ('x, 'c, 'w) EvmKeeper \<Rightarrow> EvmBlock \<Rightarrow> u64 \<Rightarrow> ('x, 'c, 'w) AnteHandler" where
  "EthGasConsume L k b maxGasWanted cx tx es =
     (if acReCheckTx cx then Inr (cx\<lparr>acGasLimit := Some 0\<rparr>, tx, es\<lparr>esGasMeter := 0\<rparr>)
      else
        rbind (ethMsgs (consumeGas L k b maxGasWanted (acCheckTx cx) (anteBaseFee k b es) (pEvmDenom (ev_GetParams es)) (ethConfig k es))
            (txMsgs tx) (0, 2 ^ 63 - 1, es)) (\<lambda>(gasWanted, minPriority, es).
          if gasWanted > BlockGasLimit b then Inl (Err ''tx gas exceeds block gas limit'')
          else Inr (cx\<lparr>acGasLimit := Some gasWanted, acPriority := minPriority\<rparr>, tx, es\<lparr>esGasMeter := 0\<rparr>)))"

definition incrementSequence ::
    "('x, 'c, 'w) EvmKeeper \<Rightarrow> MsgEthereumTx \<Rightarrow> ('x, 'w) EvmState \<Rightarrow> failure + ('x, 'w) EvmState" where
  "incrementSequence k m es =
     rbind (failing (UnpackTxData (meData m))) (\<lambda>txData.
       case senderAccount k m es of
         None \<Rightarrow> Inl (Err ''account is nil'')
       | Some acc \<Rightarrow>
           let nonce = GetSequence acc in
           if td_GetNonce txData \<noteq> nonce then Inl (Err ''invalid nonce'')
           else Inr (setSdk (SetAccount (kSdk k) (sdkState (esEvm es)) (SetSequence acc (nonce + 1))) es))"

definition EthIncrementSenderSequence :: "('x, 'c, 'w) EvmKeeper \<Rightarrow> ('x, 'c, 'w) AnteHandler" where
  "EthIncrementSenderSequence k cx tx es =
     rbind (ethMsgs (incrementSequence k) (txMsgs tx) es) (\<lambda>es. Inr (cx, tx, es))"

definition fmBlock :: "EvmBlock \<Rightarrow> FmCtx" where
  "fmBlock b = \<lparr>BlockHeight = bHeight b, ConsensusParams = bMaxGas b, BlockGasMeter = map_option snd (bGasMeter b)\<rparr>"

definition GasWanted :: "('x, 'c, 'w) EvmKeeper \<Rightarrow> EvmBlock \<Rightarrow> ('x, 'c, 'w) AnteHandler" where
  "GasWanted k b cx tx es =
     (if \<not> txWrapped tx \<or> \<not> IsLondon (kCore k) (ethConfig k es) (bHeight b) then Inr (cx, tx, es)
      else if txFeeGas tx > BlockGasLimit b then Inl (Err ''tx gas exceeds block gas limit'')
      else Inr (cx, tx,
        if GetBaseFeeEnabled (fmBlock b) (esFm es)
        then es\<lparr>esFm := snd (AddTransientGasWanted (txFeeGas tx) (esFm es))\<rparr> else es))"

text \<open>The events are left out; what remains is the check of the message types.\<close>

definition EthEmitEvent :: "('x, 'c, 'w) AnteHandler" where
  "EthEmitEvent cx tx es = rbind (ethMsgs (\<lambda>m _. Inr ()) (txMsgs tx) ()) (\<lambda>_. Inr (cx, tx, es))"

definition newEVMAnteHandler ::
    "('x, 'c) AnteLib \<Rightarrow> ('x, 'c, 'w) EvmKeeper \<Rightarrow> EvmBlock \<Rightarrow> u64 \<Rightarrow> ('x, 'c, 'w) AnteHandler" where
  "newEVMAnteHandler L k b maxTxGasWanted =
     ChainAnteDecorators
       [EthSetupContext, EthMempoolFee k b, EthMinGasPrice k b, EthValidateBasic L k b, EthSigVerification k b,
        EthAccountVerification k, CanTransferDecorator L k b, EthVestingTransaction L k b,
        EthGasConsume L k b maxTxGasWanted, EthIncrementSenderSequence k, GasWanted k b, EthEmitEvent]"

section \<open>What the chain of decorators does\<close>

lemma ethMsgs_simps [simp]:
  "ethMsgs f [] s = Inr s"
  "ethMsgs f (EthMsg m # msgs) s = rbind (f m s) (ethMsgs f msgs)"
  by (simp_all add: ethMsgs_def)

lemma ethMsgs_map [simp]: "ethMsgs f (map EthMsg ms) s = foldM f ms s"
  by (induction ms arbitrary: s) (simp_all cong: rbind_cong)

lemma ethMsgs_all:
  assumes "ethMsgs f msgs s = Inr s'"
  obtains ms where "msgs = map EthMsg ms" "foldM f ms s = Inr s'"
proof -
  have "\<exists>ms. msgs = map EthMsg ms" using assms
  proof (induction msgs arbitrary: s)
    case (Cons msg msgs)
    then obtain m s1 where m: "msg = EthMsg m" "ethMsgs f msgs s1 = Inr s'"
      by (auto simp: ethMsgs_def split: AnteMsg.splits)
    from Cons.IH [OF m(2)] m(1) show ?case by (auto intro: exI [of _ "m # _"])
  qed simp
  then show thesis using that assms by auto
qed

lemma foldM_collect:
  "foldM (\<lambda>x ys. rbind (f x) (\<lambda>y. Inr (ys @ [g y]))) xs ys = Inr zs \<Longrightarrow>
    \<exists>us. zs = ys @ map g us \<and> list_all2 (\<lambda>x u. f x = Inr u) xs us"
proof (induction xs arbitrary: ys)
  case (Cons x xs)
  then obtain u where u: "f x = Inr u" "foldM (\<lambda>x ys. rbind (f x) (\<lambda>y. Inr (ys @ [g y]))) xs (ys @ [g u]) = Inr zs" by auto
  obtain us where "zs = (ys @ [g u]) @ map g us" "list_all2 (\<lambda>x u. f x = Inr u) xs us" using Cons.IH [OF u(2)] by blast
  with u(1) show ?case by (intro exI [of _ "u # us"]) simp
qed simp

text \<open>A decorator that only checks.\<close>

definition checks :: "('x, 'c, 'w) AnteHandler \<Rightarrow> AnteCtx \<Rightarrow> 'c AnteTx \<Rightarrow> ('x, 'w) EvmState \<Rightarrow> bool" where
  "checks d cx tx es \<longleftrightarrow> (\<forall>r. d cx tx es = Inr r \<longrightarrow> r = (cx, tx, es))"

lemma EthMempoolFee_frame: "checks (EthMempoolFee k b) cx tx es"
  by (auto simp: checks_def EthMempoolFee_def Let_def split: if_splits)

lemma EthMinGasPrice_frame: "checks (EthMinGasPrice k b) cx tx es"
  by (auto simp: checks_def EthMinGasPrice_def split: if_splits option.splits)

lemma EthValidateBasic_frame: "checks (EthValidateBasic L k b) cx tx es"
  by (auto simp: checks_def EthValidateBasic_def Let_def split: if_splits)

lemma CanTransfer_frame: "checks (CanTransferDecorator L k b) cx tx es"
  by (auto simp: checks_def CanTransferDecorator_def)

lemma EthVesting_frame: "checks (EthVestingTransaction L k b) cx tx es"
  by (auto simp: checks_def EthVestingTransaction_def)

lemma EthEmitEvent_frame: "checks EthEmitEvent cx tx es"
  by (auto simp: checks_def EthEmitEvent_def)

lemma EthAccount_frame: "\<not> acCheckTx cx \<Longrightarrow> checks (EthAccountVerification k) cx tx es"
  by (simp add: checks_def EthAccountVerification_def)

lemma chain_step:
  assumes "ChainAnteDecorators (d # ds) cx tx es = Inr R"
  obtains cx1 tx1 es1 where "d cx tx es = Inr (cx1, tx1, es1)" "ChainAnteDecorators ds cx1 tx1 es1 = Inr R"
  using assms by auto

lemma chain_frame:
  "ChainAnteDecorators (d # ds) cx tx es = Inr R \<Longrightarrow> checks d cx tx es \<Longrightarrow>
    ChainAnteDecorators ds cx tx es = Inr R"
  by (auto simp: checks_def elim: chain_step)

declare ChainAnteDecorators.simps(2) [simp del]

lemma EthSig_cases:
  assumes "EthSigVerification k b cx tx es = Inr (cx', tx', es')"
  obtains ms0 ms where "txMsgs tx = map EthMsg ms0" "tx' = tx\<lparr>txMsgs := map EthMsg ms\<rparr>" "cx' = cx" "es' = es"
    "list_all2 (\<lambda>m0 m. recoverSender k b es m0 = Inr m) ms0 ms"
  using assms by (auto simp: EthSigVerification_def elim!: ethMsgs_all dest!: foldM_collect intro: that)

text \<open>
  In a block, the ante handler recovers the senders, deducts the fees and increments the sequences, and apart from that
  only resets the gas counters and adds to the gas wanted of the block.
\<close>

definition afterSetup :: "('x, 'w) EvmState \<Rightarrow> ('x, 'w) EvmState" where
  "afterSetup es = ResetTransientGasUsed (es\<lparr>esGasMeter := 0\<rparr>)"

lemma deliver_ante:
  assumes run: "newEVMAnteHandler L k b maxGas cx tx es = Inr (cx', tx', es')"
    and deliver: "\<not> acCheckTx cx" "\<not> acReCheckTx cx"
  obtains ms0 ms gas prio e1 e2 where
    "txMsgs tx = map EthMsg ms0" "txMsgs tx' = map EthMsg ms"
    "list_all2 (\<lambda>m0 m. recoverSender k b (afterSetup es) m0 = Inr m) ms0 ms"
    "foldM (consumeGas L k b maxGas False (anteBaseFee k b (afterSetup es)) (pEvmDenom (ev_GetParams (afterSetup es)))
      (ethConfig k (afterSetup es))) ms (0, 2 ^ 63 - 1, afterSetup es) = Inr (gas, prio, e1)"
    "foldM (incrementSequence k) ms (e1\<lparr>esGasMeter := 0\<rparr>) = Inr e2"
    "es' = e2 \<or> es' = e2\<lparr>esFm := snd (AddTransientGasWanted (txFeeGas tx) (esFm e2))\<rparr>"
proof -
  let ?e = "afterSetup es" and ?cx = "cx\<lparr>acGasLimit := None\<rparr>"
  have d: "\<not> acCheckTx ?cx" using deliver(1) by simp
  have c: "ChainAnteDecorators [EthMempoolFee k b, EthMinGasPrice k b, EthValidateBasic L k b, EthSigVerification k b,
      EthAccountVerification k, CanTransferDecorator L k b, EthVestingTransaction L k b, EthGasConsume L k b maxGas,
      EthIncrementSenderSequence k, GasWanted k b, EthEmitEvent] ?cx tx ?e = Inr (cx', tx', es')"
    using run unfolding newEVMAnteHandler_def
    by (rule chain_step) (simp add: EthSetupContext_def afterSetup_def split: if_splits)
  note c = chain_frame [OF chain_frame [OF chain_frame [OF c EthMempoolFee_frame] EthMinGasPrice_frame] EthValidateBasic_frame]
  obtain cx1 tx1 e0 where s: "EthSigVerification k b ?cx tx ?e = Inr (cx1, tx1, e0)"
    and c: "ChainAnteDecorators [EthAccountVerification k, CanTransferDecorator L k b, EthVestingTransaction L k b,
        EthGasConsume L k b maxGas, EthIncrementSenderSequence k, GasWanted k b, EthEmitEvent] cx1 tx1 e0 = Inr (cx', tx', es')"
    using c by (rule chain_step)
  obtain ms0 ms where sig: "txMsgs tx = map EthMsg ms0" "txMsgs tx1 = map EthMsg ms" "txFeeGas tx1 = txFeeGas tx"
      "cx1 = ?cx" "e0 = ?e" "list_all2 (\<lambda>m0 m. recoverSender k b ?e m0 = Inr m) ms0 ms"
    using s by (rule EthSig_cases) simp
  note c = c [unfolded sig(4,5)]
  note c = chain_frame [OF chain_frame [OF chain_frame [OF c EthAccount_frame [OF d]] CanTransfer_frame] EthVesting_frame]
  obtain gas prio e1 cx2 where gas: "foldM (consumeGas L k b maxGas False (anteBaseFee k b ?e) (pEvmDenom (ev_GetParams ?e))
        (ethConfig k ?e)) ms (0, 2 ^ 63 - 1, ?e) = Inr (gas, prio, e1)"
    and c: "ChainAnteDecorators [EthIncrementSenderSequence k, GasWanted k b, EthEmitEvent] cx2 tx1 (e1\<lparr>esGasMeter := 0\<rparr>) =
        Inr (cx', tx', es')"
    using c by (rule chain_step) (use deliver in \<open>auto simp: EthGasConsume_def sig(2) split: if_splits\<close>)
  obtain e2 where seq: "foldM (incrementSequence k) ms (e1\<lparr>esGasMeter := 0\<rparr>) = Inr e2"
    and c: "ChainAnteDecorators [GasWanted k b, EthEmitEvent] cx2 tx1 e2 = Inr (cx', tx', es')"
    using c by (rule chain_step) (auto simp: EthIncrementSenderSequence_def sig(2))
  have "tx' = tx1 \<and> (es' = e2 \<or> es' = e2\<lparr>esFm := snd (AddTransientGasWanted (txFeeGas tx) (esFm e2))\<rparr>)"
    using c
    by (rule chain_step) (auto simp: GasWanted_def sig(3) dest!: chain_frame [OF _ EthEmitEvent_frame] split: if_splits)
  with sig gas seq show thesis by (intro that) auto
qed

section \<open>Sequences\<close>

definition seqOf :: "('x, 'c, 'w) EvmKeeper \<Rightarrow> ('x, 'w) EvmState \<Rightarrow> address \<Rightarrow> u64 option" where
  "seqOf k es a = map_option GetSequence (GetAccount (kSdk k) (sdkState (esEvm es)) a)"

definition msgNonce :: "MsgEthereumTx \<Rightarrow> u64 option" where
  "msgNonce m = map_option td_GetNonce (meData m)"

definition sentBy :: "('x, 'c, 'w) EvmKeeper \<Rightarrow> address \<Rightarrow> MsgEthereumTx list \<Rightarrow> nat" where
  "sentBy k a ms = length (filter (\<lambda>m. me_GetFrom (kEth k) m = Some a) ms)"

lemma sentBy_simps [simp]:
  "sentBy k a [] = 0" "sentBy k a (m # ms) = (if me_GetFrom (kEth k) m = Some a then 1 else 0) + sentBy k a ms"
  by (simp_all add: sentBy_def)

lemma sdkState_setSdk [simp]: "sdkState (esEvm (setSdk x es)) = x"
  by (simp add: setSdk_def)

text \<open>The state apart from accounts and balances.\<close>

definition apart :: "('x, 'w) EvmState \<Rightarrow> ('x, 'w) EvmState \<Rightarrow> bool" where
  "apart es es' \<longleftrightarrow> (\<exists>x. es' = setSdk x es)"

lemma apart_refl [simp]: "apart es es"
  unfolding apart_def by (rule exI [of _ "sdkState (esEvm es)"]) (simp add: setSdk_def)

lemma apart_setSdk [simp]: "apart es (setSdk x es)"
  by (auto simp: apart_def)

lemma apart_trans: "apart a b \<Longrightarrow> apart b c \<Longrightarrow> apart a c"
  by (auto simp: apart_def setSdk_def)

context evm_module
begin

lemma incrementSequence_step:
  assumes "incrementSequence k m es = Inr es'"
  obtains a n where "me_GetFrom (kEth k) m = Some a" "seqOf k es a = Some n" "msgNonce m = Some n"
    "seqOf k es' = (seqOf k es)(a \<mapsto> n + 1)" "apart es es'"
    "BankBalance (kSdk k) (sdkState (esEvm es')) = BankBalance (kSdk k) (sdkState (esEvm es))"
    "GetSupply (kSdk k) (sdkState (esEvm es')) = GetSupply (kSdk k) (sdkState (esEvm es))"
proof -
  obtain d a acc where m: "meData m = Some d" "me_GetFrom (kEth k) m = Some a"
    "GetAccount (kSdk k) (sdkState (esEvm es)) a = Some acc" "td_GetNonce d = GetSequence acc"
    and es': "es' = setSdk (SetAccount (kSdk k) (sdkState (esEvm es)) (SetSequence acc (GetSequence acc + 1))) es"
    using assms by (auto simp: incrementSequence_def senderAccount_def UnpackTxData_def Let_def split: option.splits if_splits)
  have "GetAddress acc = a" using GetAccount_address [OF m(3)] .
  then have "seqOf k es' = (seqOf k es)(a \<mapsto> GetSequence acc + 1)"
    by (simp add: seqOf_def es' GetAccount_SetAccount fun_eq_iff)
  with m es' show thesis
    by (intro that [of a "GetSequence acc"]) (simp_all add: seqOf_def msgNonce_def Balance_SetAccount)
qed

lemma incrementSequences:
  assumes "foldM (incrementSequence k) ms es = Inr es'"
  shows "(\<forall>i < length ms. \<exists>a n. me_GetFrom (kEth k) (ms ! i) = Some a \<and> seqOf k es a = Some n \<and>
      msgNonce (ms ! i) = Some (n + of_nat (sentBy k a (take i ms)))) \<and>
    (\<forall>a. seqOf k es' a = map_option (\<lambda>n. n + of_nat (sentBy k a ms)) (seqOf k es a)) \<and> apart es es' \<and>
    BankBalance (kSdk k) (sdkState (esEvm es')) = BankBalance (kSdk k) (sdkState (esEvm es)) \<and>
    GetSupply (kSdk k) (sdkState (esEvm es')) = GetSupply (kSdk k) (sdkState (esEvm es))"
  using assms
proof (induction ms arbitrary: es)
  case Nil
  then show ?case by (simp add: option.map_ident)
next
  case (Cons m ms)
  then obtain e1 where e1: "incrementSequence k m es = Inr e1" "foldM (incrementSequence k) ms e1 = Inr es'" by auto
  obtain a n where s: "me_GetFrom (kEth k) m = Some a" "seqOf k es a = Some n" "msgNonce m = Some n"
    "seqOf k e1 = (seqOf k es)(a \<mapsto> n + 1)" "apart es e1"
    "BankBalance (kSdk k) (sdkState (esEvm e1)) = BankBalance (kSdk k) (sdkState (esEvm es))"
    "GetSupply (kSdk k) (sdkState (esEvm e1)) = GetSupply (kSdk k) (sdkState (esEvm es))"
    using e1(1) by (rule incrementSequence_step)
  note IH = Cons.IH [OF e1(2)]
  have "\<exists>a n. me_GetFrom (kEth k) ((m # ms) ! i) = Some a \<and> seqOf k es a = Some n \<and>
      msgNonce ((m # ms) ! i) = Some (n + of_nat (sentBy k a (take i (m # ms))))" if "i < length (m # ms)" for i
  proof (cases i)
    case 0
    then show ?thesis using s by simp
  next
    case (Suc j)
    then have "j < length ms" using that by simp
    then obtain a' n' where "me_GetFrom (kEth k) (ms ! j) = Some a'" "seqOf k e1 a' = Some n'"
      "msgNonce (ms ! j) = Some (n' + of_nat (sentBy k a' (take j ms)))" using IH by blast
    then show ?thesis using Suc s(1,2,4) by (cases "a' = a") auto
  qed
  moreover have "seqOf k es' c = map_option (\<lambda>n. n + of_nat (sentBy k c (m # ms))) (seqOf k es c)" for c
    using IH s(1,2,4) by (cases "c = a") (auto simp: option.map_ident)
  moreover have "apart es es'" using IH s(5) apart_trans by blast
  ultimately show ?case using IH s(6,7) by simp
qed

end

section \<open>Fees\<close>

text \<open>
  \<^verbatim>\<open>GetSignerAcc\<close> finds the account of the address, and \<^verbatim>\<open>DeductFees\<close> sends the fees to the fee collector.
\<close>

locale ante_module = evm_module k for k :: "('x, 'c, 'w) EvmKeeper" +
  fixes L :: "('x, 'c) AnteLib"
  assumes Signer_law: "GetSignerAcc L x a = Inr acc \<Longrightarrow> GetAccount (kSdk k) x a = Some acc"
    and Deduct_law: "DeductFees L x acc fees = Inr x' \<Longrightarrow>
      transferred (kCoins k) (kSdk k) x (GetAddress acc) (GetModuleAddress (kSdk k) (kFeeCollector k)) fees x'"

definition collector :: "('x, 'c, 'w) EvmKeeper \<Rightarrow> address" where
  "collector k = GetModuleAddress (kSdk k) (kFeeCollector k)"

definition balanceOf :: "('x, 'c, 'w) EvmKeeper \<Rightarrow> ('x, 'w) EvmState \<Rightarrow> address \<Rightarrow> string \<Rightarrow> int" where
  "balanceOf k es = BankBalance (kSdk k) (sdkState (esEvm es))"

definition accountOf :: "('x, 'c, 'w) EvmKeeper \<Rightarrow> ('x, 'w) EvmState \<Rightarrow> address \<Rightarrow> 'c AccountI option" where
  "accountOf k es = GetAccount (kSdk k) (sdkState (esEvm es))"

text \<open>The effective fee of a message, and its transfer to the collector as a change of a balance.\<close>

definition effFee :: "int option \<Rightarrow> MsgEthereumTx \<Rightarrow> int" where
  "effFee baseFee m = (case meData m of None \<Rightarrow> 0 | Some d \<Rightarrow> (case td_EffectiveFee baseFee d of Inl _ \<Rightarrow> 0 | Inr f \<Rightarrow> f))"

definition feeMove :: "('x, 'c, 'w) EvmKeeper \<Rightarrow> int option \<Rightarrow> address \<Rightarrow> MsgEthereumTx \<Rightarrow> int" where
  "feeMove k baseFee z m =
     at_addr (collector k) z (effFee baseFee m) - at_addr (HexToAddress (kEth k) (meFrom m)) z (effFee baseFee m)"

lemma transferred_accounts:
  "transferred C K x a b c x' \<Longrightarrow> GetAccount K x b \<noteq> None \<Longrightarrow> GetAccount K x' = GetAccount K x"
  by (auto simp: transferred_def)

context ante_module
begin

lemma VerifyFee_coins:
  assumes "VerifyFee (kCoins k) (kDec k) (kEth k) (kCore k) d denom baseFee homestead istanbul chk = Inr fees"
  obtains f where "td_EffectiveFee baseFee d = Inr f" "0 \<le> f \<Longrightarrow> AmountOf (kCoins k) fees e = (if e = denom then f else 0)"
proof -
  obtain f where f: "td_EffectiveFee baseFee d = Inr f"
    and c: "fees = NoCoins (kCoins k) \<and> f = 0 \<or> fees = RawCoins (kCoins k) [(denom, f)]"
    using assms by (auto simp: VerifyFee_def Let_def dest: NewInt_id split: if_splits)
  from c have "0 \<le> f \<Longrightarrow> AmountOf (kCoins k) fees e = (if e = denom then f else 0)"
    by (auto simp: AmountOf_NoCoins AmountOf_RawCoins)
  with f show thesis by (rule that)
qed

lemma VerifyFee_nonneg:
  assumes "VerifyFee (kCoins k) (kDec k) (kEth k) (kCore k) d denom baseFee homestead istanbul chk = Inr fees"
    and val: "td_Validate (kEth k) d = Inr ()" and base: "\<And>f. baseFee = Some f \<Longrightarrow> 0 \<le> f"
    and f: "td_EffectiveFee baseFee d = Inr f"
  shows "0 \<le> f"
  using val
proof (rule td_Validate_fees)
  fix cap
  assume cap: "td_GetGasFeeCap d = Some cap" "0 \<le> cap" "td_Fee d = Inr (cap * uint (td_GetGas d))"
    and eff: "\<And>b. 0 \<le> b \<Longrightarrow> b \<le> cap \<Longrightarrow> \<exists>p. td_EffectiveGasPrice (Some b) d = Inr (Some p) \<and> b \<le> p \<and> p \<le> cap \<and>
       td_EffectiveFee (Some b) d = Inr (p * uint (td_GetGas d))"
  show ?thesis
  proof (cases baseFee)
    case None
    have "td_EffectiveFee None d = td_Fee d \<or> (\<exists>p. td_EffectiveFee None d = Inl p)"
      by (cases d) (auto simp: tx_effective_defs tx_get_defs split: option.splits)
    then show ?thesis using None f cap(2,3) by auto
  next
    case (Some b)
    then have "b \<le> cap" using assms(1) cap(1) by (auto simp: VerifyFee_def Let_def split: if_splits)
    from eff [OF base [OF Some] this] base [OF Some] f Some show ?thesis by auto
  qed
qed

lemma consumeGas_cases:
  assumes run: "consumeGas L k b mx chk baseFee denom cfg m (gas, prio, es) = Inr (gas', prio', es')"
  obtains d fees f x where "meData m = Some d" "td_EffectiveFee baseFee d = Inr f" "es' = setSdk x es"
    "transferred (kCoins k) (kSdk k) (sdkState (esEvm es)) (HexToAddress (kEth k) (meFrom m)) (collector k) fees x"
    "td_Validate (kEth k) d = Inr () \<and> (\<forall>f. baseFee = Some f \<longrightarrow> 0 \<le> f) \<longrightarrow>
      0 \<le> f \<and> (\<forall>e. AmountOf (kCoins k) fees e = (if e = denom then f else 0))"
proof -
  obtain d fees where d: "meData m = Some d" and
    fees: "VerifyFee (kCoins k) (kDec k) (kEth k) (kCore k) d denom baseFee (IsHomestead (kCore k) cfg (bHeight b))
      (IsIstanbul (kCore k) cfg (bHeight b)) chk = Inr fees"
    and ded: "DeductTxCostsFromUserBalance (AuthAnte.truncate L) fees (HexToAddress (kEth k) (meFrom m)) es = Inr es'"
    using run by (auto simp: consumeGas_def UnpackTxData_def Let_def split: option.splits)
  obtain acc x where acc: "GetSignerAcc L (sdkState (esEvm es)) (HexToAddress (kEth k) (meFrom m)) = Inr acc"
    and x: "DeductFees L (sdkState (esEvm es)) acc fees = Inr x" and es': "es' = setSdk x es"
    using ded by (auto simp: DeductTxCostsFromUserBalance_def AuthAnte.truncate_def setSdk_def)
  have addr: "GetAddress acc = HexToAddress (kEth k) (meFrom m)" using GetAccount_address [OF Signer_law [OF acc]] .
  obtain f where f: "td_EffectiveFee baseFee d = Inr f" using fees by (rule VerifyFee_coins)
  have "AmountOf (kCoins k) fees e = (if e = denom then f else 0)" if "0 \<le> f" for e
    using VerifyFee_coins [OF fees, where e = e] f that by (metis sum.inject(2))
  with VerifyFee_nonneg [OF fees _ _ f] show thesis
    by (intro that [OF d f es' Deduct_law [OF x, unfolded addr, folded collector_def]]) blast
qed

lemma consumeGas_accounts:
  assumes "foldM (consumeGas L k b mx chk baseFee denom cfg) ms (gas, prio, es) = Inr (gas', prio', es')"
    and "accountOf k es (collector k) \<noteq> None"
  shows "apart es es' \<and> accountOf k es' = accountOf k es"
  using assms
proof (induction ms arbitrary: gas prio es)
  case (Cons m ms)
  then obtain g1 p1 e1 where e1: "consumeGas L k b mx chk baseFee denom cfg m (gas, prio, es) = Inr (g1, p1, e1)"
    "foldM (consumeGas L k b mx chk baseFee denom cfg) ms (g1, p1, e1) = Inr (gas', prio', es')" by auto
  obtain fees x where x: "e1 = setSdk x es"
    "transferred (kCoins k) (kSdk k) (sdkState (esEvm es)) (HexToAddress (kEth k) (meFrom m)) (collector k) fees x"
    using e1(1) by (rule consumeGas_cases)
  have a: "accountOf k e1 = accountOf k es"
    using transferred_accounts [OF x(2)] Cons.prems(2) by (simp add: accountOf_def x(1))
  have "apart e1 es' \<and> accountOf k es' = accountOf k e1" using Cons.IH [OF e1(2)] Cons.prems(2) a by simp
  with a x(1) show ?case using apart_trans [of es e1 es'] by simp
qed simp

lemma consumeGas_balances:
  assumes "foldM (consumeGas L k b mx chk baseFee denom cfg) ms (gas, prio, es) = Inr (gas', prio', es')"
    and "\<And>m. m \<in> set ms \<Longrightarrow> \<exists>d. meData m = Some d \<and> td_Validate (kEth k) d = Inr ()" and "\<And>f. baseFee = Some f \<Longrightarrow> 0 \<le> f"
  shows "GetSupply (kSdk k) (sdkState (esEvm es')) = GetSupply (kSdk k) (sdkState (esEvm es)) \<and>
    balanceOf k es' z e = balanceOf k es z e + (if e = denom then \<Sum>m\<leftarrow>ms. feeMove k baseFee z m else 0)"
  using assms(1,2)
proof (induction ms arbitrary: gas prio es)
  case (Cons m ms)
  then obtain g1 p1 e1 where e1: "consumeGas L k b mx chk baseFee denom cfg m (gas, prio, es) = Inr (g1, p1, e1)"
    "foldM (consumeGas L k b mx chk baseFee denom cfg) ms (g1, p1, e1) = Inr (gas', prio', es')" by auto
  obtain d fees f x where d: "meData m = Some d" "td_EffectiveFee baseFee d = Inr f" and x: "e1 = setSdk x es"
    and t: "transferred (kCoins k) (kSdk k) (sdkState (esEvm es)) (HexToAddress (kEth k) (meFrom m)) (collector k) fees x"
    and am: "td_Validate (kEth k) d = Inr () \<and> (\<forall>f. baseFee = Some f \<longrightarrow> 0 \<le> f) \<longrightarrow>
      0 \<le> f \<and> (\<forall>e. AmountOf (kCoins k) fees e = (if e = denom then f else 0))"
    using e1(1) by (rule consumeGas_cases)
  have "td_Validate (kEth k) d = Inr ()" using Cons.prems(2) [of m] d(1) by simp
  then have "AmountOf (kCoins k) fees e = (if e = denom then f else 0)" using am assms(3) by blast
  then have "balanceOf k e1 z e = balanceOf k es z e + (if e = denom then feeMove k baseFee z m else 0)"
    using transferred_balance [OF t, of z e] d by (simp add: balanceOf_def x feeMove_def effFee_def at_addr_def)
  moreover have "GetSupply (kSdk k) (sdkState (esEvm e1)) = GetSupply (kSdk k) (sdkState (esEvm es))"
    using transferred_supply [OF t] by (simp add: x)
  ultimately show ?case using Cons.IH [OF e1(2)] Cons.prems(2) by (simp split: if_splits)
qed simp

end

lemma afterSetup_sel [simp]:
  "ev_GetParams (afterSetup es) = ev_GetParams es" "esEvm (afterSetup es) = esEvm es" "esFm (afterSetup es) = esFm es"
  "esParams (afterSetup es) = esParams es" "esMods (afterSetup es) = esMods es"
  by (simp_all add: afterSetup_def ResetTransientGasUsed_def ev_GetParams_def cong: option.case_cong)

lemma ethConfig_afterSetup [simp]: "ethConfig k (afterSetup es) = ethConfig k es"
  by (simp add: ethConfig_def)

lemma afterSetup_reads [simp]:
  "anteBaseFee k b (afterSetup es) = anteBaseFee k b es"
  "seqOf k (afterSetup es) = seqOf k es"
  "accountOf k (afterSetup es) = accountOf k es" "balanceOf k (afterSetup es) = balanceOf k es"
  by (simp_all add: anteBaseFee_def ev_GetBaseFee_def ev_getBaseFee_def seqOf_def accountOf_def
      balanceOf_def fun_eq_iff cong: option.case_cong)

lemma recoverSender_afterSetup [simp]: "recoverSender k b (afterSetup es) = recoverSender k b es"
  unfolding fun_eq_iff recoverSender_def afterSetup_sel ethConfig_afterSetup by simp

lemma reads_esEvm [simp]:
  "seqOf k (es\<lparr>esGasMeter := g\<rparr>) = seqOf k es" "seqOf k (es\<lparr>esFm := f\<rparr>) = seqOf k es"
  "balanceOf k (es\<lparr>esGasMeter := g\<rparr>) = balanceOf k es" "balanceOf k (es\<lparr>esFm := f\<rparr>) = balanceOf k es"
  by (simp_all add: seqOf_def balanceOf_def fun_eq_iff)

lemma seqOf_account: "seqOf k es a = map_option GetSequence (accountOf k es a)"
  by (simp add: seqOf_def accountOf_def)

section \<open>Properties\<close>

context ante_module
begin

lemma ante_sequences:
  assumes run: "newEVMAnteHandler L k b maxGas cx tx es = Inr (cx', tx', es')"
    and deliver: "\<not> acCheckTx cx" "\<not> acReCheckTx cx" and fc: "accountOf k es (collector k) \<noteq> None"
  shows "\<exists>ms0 ms. txMsgs tx = map EthMsg ms0 \<and> txMsgs tx' = map EthMsg ms \<and>
    list_all2 (\<lambda>m0 m. recoverSender k b es m0 = Inr m) ms0 ms \<and>
    (\<forall>i < length ms. \<exists>a n. me_GetFrom (kEth k) (ms ! i) = Some a \<and> seqOf k es a = Some n \<and>
      msgNonce (ms ! i) = Some (n + of_nat (sentBy k a (take i ms)))) \<and>
    (\<forall>a. seqOf k es' a = map_option (\<lambda>n. n + of_nat (sentBy k a ms)) (seqOf k es a))"
  using run deliver
proof (rule deliver_ante)
  fix ms0 ms gas prio e1 e2
  assume ms: "txMsgs tx = map EthMsg ms0" "txMsgs tx' = map EthMsg ms"
      "list_all2 (\<lambda>m0 m. recoverSender k b (afterSetup es) m0 = Inr m) ms0 ms"
    and gas: "foldM (consumeGas L k b maxGas False (anteBaseFee k b (afterSetup es)) (pEvmDenom (ev_GetParams (afterSetup es)))
      (ethConfig k (afterSetup es))) ms (0, 2 ^ 63 - 1, afterSetup es) = Inr (gas, prio, e1)"
    and seq: "foldM (incrementSequence k) ms (e1\<lparr>esGasMeter := 0\<rparr>) = Inr e2"
    and es': "es' = e2 \<or> es' = e2\<lparr>esFm := snd (AddTransientGasWanted (txFeeGas tx) (esFm e2))\<rparr>"
  have "accountOf k e1 = accountOf k es" using consumeGas_accounts [OF gas] fc by simp
  then have s: "seqOf k (e1\<lparr>esGasMeter := 0\<rparr>) = seqOf k es" by (simp add: seqOf_account fun_eq_iff)
  have "seqOf k es' = seqOf k e2" using es' by auto
  with incrementSequences [OF seq] ms s show ?thesis by (intro exI [of _ ms0] exI [of _ ms]) simp
qed

end

text \<open>
  Nonces of a transaction.  When the ante handler accepts an Ethereum transaction in a block, every message comes from
  an account recovered from its signature, carries exactly the sequence of that account plus the number of
  earlier messages of the transaction from the same account, and afterwards the sequence of every
  account has grown by the number of its messages.
\<close>

theorem ante_checks_nonces:
  assumes "ante_module k L" "newEVMAnteHandler L k b maxGas cx tx es = Inr (cx', tx', es')"
    and "\<not> acCheckTx cx" "\<not> acReCheckTx cx" "accountOf k es (collector k) \<noteq> None"
  shows "\<exists>ms0 ms. txMsgs tx = map EthMsg ms0 \<and> txMsgs tx' = map EthMsg ms \<and>
    list_all2 (\<lambda>m0 m. recoverSender k b es m0 = Inr m) ms0 ms \<and>
    (\<forall>i < length ms. \<exists>a n. me_GetFrom (kEth k) (ms ! i) = Some a \<and> seqOf k es a = Some n \<and>
      msgNonce (ms ! i) = Some (n + of_nat (sentBy k a (take i ms)))) \<and>
    (\<forall>a. seqOf k es' a = map_option (\<lambda>n. n + of_nat (sentBy k a ms)) (seqOf k es a))"
  by (rule ante_module.ante_sequences [OF assms])


context ante_module
begin

lemma ante_fees:
  assumes run: "newEVMAnteHandler L k b maxGas cx tx es = Inr (cx', tx', es')"
    and deliver: "\<not> acCheckTx cx" "\<not> acReCheckTx cx" and msgs: "txMsgs tx = map EthMsg ms0"
    and val: "\<And>m. m \<in> set ms0 \<Longrightarrow> me_ValidateBasic (kEth k) (kTx k) m = Inr ()"
    and base: "\<And>f. anteBaseFee k b es = Some f \<Longrightarrow> 0 \<le> f"
  shows "\<exists>ms. txMsgs tx' = map EthMsg ms \<and> list_all2 (\<lambda>m0 m. recoverSender k b es m0 = Inr m) ms0 ms \<and>
    GetSupply (kSdk k) (sdkState (esEvm es')) = GetSupply (kSdk k) (sdkState (esEvm es)) \<and>
    (\<forall>z e. balanceOf k es' z e = balanceOf k es z e +
      (if e = pEvmDenom (ev_GetParams es) then \<Sum>m\<leftarrow>ms. feeMove k (anteBaseFee k b es) z m else 0))"
  using run deliver
proof (rule deliver_ante)
  fix ns0 ms gas prio e1 e2
  assume ms: "txMsgs tx = map EthMsg ns0" "txMsgs tx' = map EthMsg ms"
      "list_all2 (\<lambda>m0 m. recoverSender k b (afterSetup es) m0 = Inr m) ns0 ms"
    and gas: "foldM (consumeGas L k b maxGas False (anteBaseFee k b (afterSetup es)) (pEvmDenom (ev_GetParams (afterSetup es)))
      (ethConfig k (afterSetup es))) ms (0, 2 ^ 63 - 1, afterSetup es) = Inr (gas, prio, e1)"
    and seq: "foldM (incrementSequence k) ms (e1\<lparr>esGasMeter := 0\<rparr>) = Inr e2"
    and es': "es' = e2 \<or> es' = e2\<lparr>esFm := snd (AddTransientGasWanted (txFeeGas tx) (esFm e2))\<rparr>"
  have eq: "ns0 = ms0" using ms(1) msgs by (simp add: inj_map_eq_map inj_def)
  have "\<exists>d. meData m = Some d \<and> td_Validate (kEth k) d = Inr ()" if m: "m \<in> set ms" for m
  proof -
    obtain i where i: "i < length ms" "m = ms ! i" using m by (auto simp: in_set_conv_nth)
    then have "ms0 ! i \<in> set ms0" "recoverSender k b es (ms0 ! i) = Inr m"
      using ms(3) eq by (auto simp: list_all2_conv_all_nth)
    then have "me_ValidateBasic (kEth k) (kTx k) (ms0 ! i) = Inr ()" "meData m = meData (ms0 ! i)"
      using val by (auto simp: recoverSender_def split: option.splits if_splits)
    then show ?thesis
      by (cases "meData (ms0 ! i)") (auto simp: me_ValidateBasic_def UnpackTxData_def Let_def split: if_splits)
  qed
  note bal = consumeGas_balances [OF gas this]
  have inc: "balanceOf k e2 = balanceOf k e1"
    "GetSupply (kSdk k) (sdkState (esEvm e2)) = GetSupply (kSdk k) (sdkState (esEvm e1))"
    using incrementSequences [OF seq] by (simp_all add: balanceOf_def)
  have "balanceOf k es' = balanceOf k e2" "esEvm es' = esEvm e2" using es' by auto
  with bal inc base ms eq show ?thesis by (intro exI [of _ ms]) simp
qed

end

text \<open>
  C6.  Fees of a transaction.  When the ante handler accepts an Ethereum transaction of validated messages in a block, every
  sender has paid exactly the effective fees of its messages, gas limit times effective gas price, the fee collector
  has received their sum, and no other balance and no supply has changed.
\<close>

theorem ante_deducts_fees:
  assumes "ante_module k L" "newEVMAnteHandler L k b maxGas cx tx es = Inr (cx', tx', es')" "\<not> acCheckTx cx" "\<not> acReCheckTx cx"
    "txMsgs tx = map EthMsg ms0" "\<forall>m \<in> set ms0. me_ValidateBasic (kEth k) (kTx k) m = Inr ()"
    "\<forall>f. anteBaseFee k b es = Some f \<longrightarrow> 0 \<le> f"
  shows "\<exists>ms. txMsgs tx' = map EthMsg ms \<and> list_all2 (\<lambda>m0 m. recoverSender k b es m0 = Inr m) ms0 ms \<and>
    GetSupply (kSdk k) (sdkState (esEvm es')) = GetSupply (kSdk k) (sdkState (esEvm es)) \<and>
    (\<forall>z e. balanceOf k es' z e = balanceOf k es z e +
      (if e = pEvmDenom (ev_GetParams es) then \<Sum>m\<leftarrow>ms. feeMove k (anteBaseFee k b es) z m else 0))"
  using ante_module.ante_fees [OF assms(1-5)] assms(6,7) by blast

section \<open>Reference instance\<close>

definition ref_equal :: "amounts \<Rightarrow> amounts \<Rightarrow> panic + bool" where
  "ref_equal a c = Inr (list_all (\<lambda>(d, _). ref_amount a d = ref_amount c d) (a @ c))"

definition ref_signer :: "ledger \<Rightarrow> address \<Rightarrow> string + amounts AccountI" where
  "ref_signer x a = (case GetAccount (ref_keepers (\<lambda>_. 0) (\<lambda>_. False) ''aevmos'') x a of
     None \<Rightarrow> Inl ''account does not exist'' | Some acc \<Rightarrow> Inr acc)"

definition ref_deduct :: "ledger \<Rightarrow> amounts AccountI \<Rightarrow> amounts \<Rightarrow> string + ledger" where
  "ref_deduct x acc fees =
     SendCoinsFromAccountToModule (ref_keepers (\<lambda>_. 0) (\<lambda>_. False) ''aevmos'') x (GetAddress acc) ''fee_collector'' fees"

definition ref_can_transfer :: "ledger EvmCtx StateDB \<Rightarrow> address \<Rightarrow> int \<Rightarrow> bool" where
  "ref_can_transfer s a v \<longleftrightarrow> v \<le> snd (GetBalance s a)"

definition ref_ante :: "(ledger, amounts) AnteLib" where
  "ref_ante =
     \<lparr>GetSignerAcc = ref_signer, DeductFees = ref_deduct, TxBasic = (\<lambda>_. Some (''no signatures supplied'', True)),
      CoinsEqual = ref_equal, CanTransfer = ref_can_transfer,
      baseVesting = \<lparr>LockedCoinsFromVesting = (\<lambda>_ v. v), BaseTrackDelegation = (\<lambda>a _ _ _. Inr a), BaseValidate = (\<lambda>_. None)\<rparr>,
      PriorityReduction = 1\<rparr>"

interpretation ref_ante: ante_module "ref_module hooks" ref_ante
proof
  fix x a acc
  assume "GetSignerAcc ref_ante x a = Inr acc"
  then show "GetAccount (kSdk (ref_module hooks)) x a = Some acc"
    by (simp add: ref_ante_def ref_signer_def ref_module_def split: option.splits)
next
  fix x acc fees x'
  assume "DeductFees ref_ante x acc fees = Inr x'"
  then show "transferred (kCoins (ref_module hooks)) (kSdk (ref_module hooks)) x (GetAddress acc)
      (GetModuleAddress (kSdk (ref_module hooks)) (kFeeCollector (ref_module hooks))) fees x'"
    using ref_keepers.AccountToModule_law by (simp add: ref_ante_def ref_deduct_def ref_module_def)
qed

definition ref_eth_msg :: "u64 \<Rightarrow> bytes \<Rightarrow> MsgEthereumTx" where
  "ref_eth_msg n data =
     \<lparr>meData = Some (Legacy \<lparr>ltNonce = n, ltGasPrice = Some 2, ltGasLimit = 50, ltTo = ref_encode 77, ltAmount = Some 5,
        ltData = data, ltV = bigBytes 18035, ltR = [1], ltS = [1]\<rparr>),
      meSized = False, meHash = HashHex ref_eth (ucast n + 1), meFrom = ''''\<rparr>"

definition ref_ante_tx :: "MsgEthereumTx list \<Rightarrow> amounts AnteTx" where
  "ref_ante_tx ms =
     \<lparr>txMsgs = map EthMsg ms, txWrapped = True, txMemo = '''', txTimeoutHeight = 0, txNonCritical = 0,
      txExtensions = [EthereumTxOption], txSignerInfos = 0, txSignatures = 0, txPayer = '''',
      txGranter = '''', txFeeAmount = [(''aevmos'', 100 * length ms)], txFeeGas = 50 * of_nat (length ms)\<rparr>"

definition ref_deliver :: AnteCtx where
  "ref_deliver = \<lparr>acCheckTx = False, acReCheckTx = False, acSimulate = False, acMinGasPrices = (\<lambda>_. 0), acMinGasDenoms = [],
     acGasLimit = None,
     acPriority = 0\<rparr>"

abbreviation ref_ante_run :: "failure + AnteCtx \<times> amounts AnteTx \<times> (ledger, unit) EvmState" where
  "ref_ante_run \<equiv> newEVMAnteHandler ref_ante ref_keeper ref_evm_block 0 ref_deliver (ref_ante_tx [ref_eth_msg 4 [0]]) ref_evm_state"

lemma ref_ante_run_ok:
  "case ref_ante_run of Inl _ \<Rightarrow> False | Inr (_, _, e) \<Rightarrow> accountOf ref_keeper e (collector ref_keeper) \<noteq> None"
  by code_simp

lemma ref_ante_accepts: "\<not> isl ref_ante_run"
  using ref_ante_run_ok by (auto split: sum.splits)

lemma ref_collector: "accountOf ref_keeper ref_evm_state (collector ref_keeper) \<noteq> None" "collector ref_keeper \<noteq> 3"
  by code_simp+

lemma ref_mode: "\<not> acCheckTx ref_deliver" "\<not> acReCheckTx ref_deliver"
  by (simp_all add: ref_deliver_def)

lemma ref_eth_msg_valid: "me_ValidateBasic (kEth ref_keeper) (kTx ref_keeper) (ref_eth_msg 4 [0]) = Inr ()"
  by code_simp

lemma ref_recover:
  "recoverSender ref_keeper b es (ref_eth_msg n data) = Inr ((ref_eth_msg n data)\<lparr>meFrom := ref_encode 3\<rparr>)"
  by (simp add: recoverSender_def AsTransaction_def UnpackTxData_def ref_eth_msg_def ref_module_def ref_core_def ref_eth_def)

lemma ref_recover_any: "recoverSender ref_keeper b es = recoverSender ref_keeper b' es'"
  by (simp add: recoverSender_def ref_module_def ref_core_def fun_eq_iff split: option.split)

lemma ref_sender [simp]: "me_GetFrom ref_eth (m\<lparr>meFrom := ref_encode 3\<rparr>) = Some 3"
  using ref_encode_nonempty by (simp add: me_GetFrom_def ref_eth_def ref_decode_encode)

theorem ante_checks_nonces_witness:
  "\<exists>cx' tx' es'. ref_ante_run = Inr (cx', tx', es') \<and> seqOf ref_keeper ref_evm_state 3 = Some 4 \<and> seqOf ref_keeper es' 3 = Some 5"
proof -
  obtain cx' tx' es' where run: "ref_ante_run = Inr (cx', tx', es')" using ref_ante_accepts by (metis isl_def obj_sumE prod.exhaust)
  obtain ms where ms: "list_all2 (\<lambda>m0 m. recoverSender ref_keeper ref_evm_block ref_evm_state m0 = Inr m) [ref_eth_msg 4 [0]] ms"
    and seq: "\<forall>a. seqOf ref_keeper es' a = map_option (\<lambda>n. n + of_nat (sentBy ref_keeper a ms)) (seqOf ref_keeper ref_evm_state a)"
    using ante_checks_nonces [OF ref_ante.ante_module_axioms run ref_mode ref_collector(1)]
    by (auto simp: ref_ante_tx_def)
  have "ms = [(ref_eth_msg 4 [0])\<lparr>meFrom := ref_encode 3\<rparr>]" using ms by (auto simp: ref_recover list_all2_Cons1)
  then have "sentBy ref_keeper 3 ms = 1" by (simp add: sentBy_def ref_module_def)
  moreover have "seqOf ref_keeper ref_evm_state 3 = Some 4" by code_simp
  ultimately show ?thesis using run seq by auto
qed

lemma ref_sequences: "seqOf ref_keeper ref_evm_state a = Some n \<Longrightarrow> n \<le> 4"
  by (auto simp: seqOf_def ref_module_def ref_keepers_def ref_evm_state_def ref_evm_def GetSequence_def emptyBaseAccount_def
      split: if_splits option.splits)


theorem ante_deducts_fees_witness:
  "\<exists>cx' tx' es'. ref_ante_run = Inr (cx', tx', es') \<and> balanceOf ref_keeper es' 3 ''aevmos'' = 50 \<and>
    balanceOf ref_keeper es' (collector ref_keeper) ''aevmos'' = 300"
proof -
  obtain cx' tx' es' where run: "ref_ante_run = Inr (cx', tx', es')" using ref_ante_accepts by (metis isl_def obj_sumE prod.exhaust)
  have base: "anteBaseFee ref_keeper ref_evm_block ref_evm_state = Some 1" by code_simp
  obtain ms where ms: "list_all2 (\<lambda>m0 m. recoverSender ref_keeper ref_evm_block ref_evm_state m0 = Inr m) [ref_eth_msg 4 [0]] ms"
    and bal: "\<forall>z e. balanceOf ref_keeper es' z e = balanceOf ref_keeper ref_evm_state z e +
      (if e = pEvmDenom (ev_GetParams ref_evm_state)
       then \<Sum>m\<leftarrow>ms. feeMove ref_keeper (anteBaseFee ref_keeper ref_evm_block ref_evm_state) z m else 0)"
    using ante_deducts_fees [OF ref_ante.ante_module_axioms run ref_mode, of "[ref_eth_msg 4 [0]]"] ref_eth_msg_valid base
    by (auto simp: ref_ante_tx_def)
  have m: "ms = [(ref_eth_msg 4 [0])\<lparr>meFrom := ref_encode 3\<rparr>]" using ms by (auto simp: ref_recover list_all2_Cons1)
  have "pEvmDenom (ev_GetParams ref_evm_state) = ''aevmos''" "balanceOf ref_keeper ref_evm_state 3 ''aevmos'' = 150"
    "balanceOf ref_keeper ref_evm_state (collector ref_keeper) ''aevmos'' = 200"
    "effFee (Some 1) ((ref_eth_msg 4 [0])\<lparr>meFrom := ref_encode 3\<rparr>) = 100" by code_simp+
  moreover have "HexToAddress (kEth ref_keeper) (ref_encode 3) = 3" by (simp add: ref_module_def ref_eth_def ref_decode_encode)
  ultimately show ?thesis using run bal ref_collector(2)
    by (intro exI [of _ cx'] exI [of _ tx'] exI [of _ es']) (simp add: m base feeMove_def at_addr_def)
qed

section \<open>Messages of go-ethereum\<close>

text \<open>The price that \<^verbatim>\<open>Transaction.AsMessage\<close> computes from the struct of a transaction and the base fee.\<close>

fun innerPrice :: "int option \<Rightarrow> EthTxData \<Rightarrow> int option" where
  "innerPrice baseFee (EthDynamicFeeTx c n tip cap g to v dt al V R S) =
     (case (tip, cap) of
        (Some t, Some c) \<Rightarrow> Some (case baseFee of None \<Rightarrow> c | Some f \<Rightarrow> min (t + f) c)
      | _ \<Rightarrow> None)"
| "innerPrice baseFee d = map_option (\<lambda>p. case baseFee of None \<Rightarrow> p | Some f \<Rightarrow> min (p + f) p) (iGasPrice d)"

text \<open>\<^verbatim>\<open>AsMessage\<close> recovers the sender, keeps the gas limit and sets the effective price.\<close>

locale eth_messages = ante_module k L for k :: "('x, 'c, 'w) EvmKeeper" and L :: "('x, 'c) AnteLib" +
  assumes AsMessage_law: "AsMessage (kCore k) cfg h baseFee (NewEthTx (kTx k) d) = Inr msg \<Longrightarrow>
    SenderAt (kCore k) cfg h (NewEthTx (kTx k) d) = Inr (mFrom msg) \<and> mGas msg = iGas d \<and>
    (\<forall>p. innerPrice baseFee d = Some p \<longrightarrow> mGasPrice msg = p)"

lemma effective_inner:
  assumes "\<And>f. baseFee = Some f \<Longrightarrow> 0 \<le> f" "td_EffectiveFee baseFee d = Inr f"
  shows "\<exists>p. innerPrice baseFee (td_AsEthereumData H d) = Some p \<and> f = p * uint (td_GetGas d)"
  using assms
  by (cases d; cases baseFee)
    (auto simp: tx_get_defs tx_effective_defs tx_as_defs tx_fee_def EffectiveGasPrice_def min_def split: option.splits)

lemma inner_gas: "iGas (td_AsEthereumData H d) = td_GetGas d"
  by (cases d) (simp_all add: tx_as_defs rawSignatureValues_def case_prod_beta)

lemma foldM_member: "foldM f xs s = Inr s' \<Longrightarrow> x \<in> set xs \<Longrightarrow> \<exists>s1 s2. f x s1 = Inr s2"
  by (induction xs arbitrary: s) auto

lemma wanted_reads [simp]:
  "fm_GetParams (snd (AddTransientGasWanted g st)) = fm_GetParams st"
  "fm_GetBaseFee (snd (AddTransientGasWanted g st)) = fm_GetBaseFee st"
  by (simp_all add: AddTransientGasWanted_def SetTransientBlockGasWanted_def fm_GetParams_def fm_GetBaseFee_def GetBaseFeeV1_def Let_def
      cong: option.case_cong if_cong)

context ante_module
begin

lemma ante_effective:
  assumes run: "newEVMAnteHandler L k b maxGas cx tx es = Inr (cx', tx', es')"
    and deliver: "\<not> acCheckTx cx" "\<not> acReCheckTx cx" and m: "EthMsg m \<in> set (txMsgs tx')"
  shows "\<exists>d f. meData m = Some d \<and> td_EffectiveFee (anteBaseFee k b es) d = Inr f"
proof -
  obtain ms gas prio e1 where ms: "txMsgs tx' = map EthMsg ms" and
    gas: "foldM (consumeGas L k b maxGas False (anteBaseFee k b (afterSetup es)) (pEvmDenom (ev_GetParams (afterSetup es)))
      (ethConfig k (afterSetup es))) ms (0, 2 ^ 63 - 1, afterSetup es) = Inr (gas, prio, e1)"
    using run deliver by (rule deliver_ante)
  have "m \<in> set ms" using m ms by auto
  then obtain g p e g' p' e' where "consumeGas L k b maxGas False (anteBaseFee k b es) (pEvmDenom (ev_GetParams es))
      (ethConfig k es) m (g, p, e) = Inr (g', p', e')"
    using foldM_member [OF gas, of m] by auto
  then show ?thesis by (rule consumeGas_cases) blast
qed

lemma ante_keeps:
  assumes run: "newEVMAnteHandler L k b maxGas cx tx es = Inr (cx', tx', es')"
    and deliver: "\<not> acCheckTx cx" "\<not> acReCheckTx cx" and fc: "accountOf k es (collector k) \<noteq> None"
  shows "ev_GetParams es' = ev_GetParams es" "storageStore (esEvm es') = storageStore (esEvm es)"
    "codeStore (esEvm es') = codeStore (esEvm es)" "esMods es' = esMods es"
    "GetMinGasMultiplier es' = GetMinGasMultiplier es" "ethConfig k es' = ethConfig k es" "anteBaseFee k b es' = anteBaseFee k b es"
proof -
  obtain ms gas prio e1 e2 where
    gas: "foldM (consumeGas L k b maxGas False (anteBaseFee k b (afterSetup es)) (pEvmDenom (ev_GetParams (afterSetup es)))
      (ethConfig k (afterSetup es))) ms (0, 2 ^ 63 - 1, afterSetup es) = Inr (gas, prio, e1)"
    and seq: "foldM (incrementSequence k) ms (e1\<lparr>esGasMeter := 0\<rparr>) = Inr e2"
    and es': "es' = e2 \<or> es' = e2\<lparr>esFm := snd (AddTransientGasWanted (txFeeGas tx) (esFm e2))\<rparr>"
    using run deliver by (rule deliver_ante)
  obtain x where e1: "e1 = setSdk x (afterSetup es)" using consumeGas_accounts [OF gas] fc by (auto simp: apart_def)
  obtain y where e2: "e2 = setSdk y (e1\<lparr>esGasMeter := 0\<rparr>)" using incrementSequences [OF seq] by (auto simp: apart_def)
  have s: "esEvm es' = (esEvm es)\<lparr>sdkState := y\<rparr>" "esParams es' = esParams es" "esLegacyParams es' = esLegacyParams es"
    "esMods es' = esMods es" "fm_GetParams (esFm es') = fm_GetParams (esFm es)" "fm_GetBaseFee (esFm es') = fm_GetBaseFee (esFm es)"
    using es' by (auto simp: e1 e2 setSdk_def afterSetup_def ResetTransientGasUsed_def)
  then show p: "ev_GetParams es' = ev_GetParams es" "storageStore (esEvm es') = storageStore (esEvm es)"
    "codeStore (esEvm es') = codeStore (esEvm es)" "esMods es' = esMods es"
    by (simp_all add: ev_GetParams_def cong: option.case_cong)
  show "GetMinGasMultiplier es' = GetMinGasMultiplier es" "ethConfig k es' = ethConfig k es" "anteBaseFee k b es' = anteBaseFee k b es"
    using s p by (simp_all add: GetMinGasMultiplier_def ethConfig_def anteBaseFee_def ev_GetBaseFee_def ev_getBaseFee_def)
qed

end

lemma Validate_parts:
  assumes "me_ValidateBasic H X m = Inr ()"
  obtains d where "meData m = Some d" "uint (td_GetGas d) < 2 ^ 63" "me_GetGas m = td_GetGas d"
  using assms that
  by (cases "meData m") (auto simp: me_ValidateBasic_def me_GetGas_def UnpackTxData_def Let_def in64_def split: if_splits)

context evm_module
begin

lemma failed_tx_gas:
  assumes run: "ApplyTransaction k b tx es = Inr (res, es')" and failed: "res_Failed res"
    and cfg: "ev_EVMConfig (kEth k) (kCore k) (kStaking k) b (bProposer b) (kChainID k) es = Inr cfg"
      "AsMessage (kCore k) (cfgChain cfg) (bHeight b) (cfgBaseFee cfg) tx = Inr msg"
    and gas: "uint (mGas msg) < 2 ^ 63" "0 \<le> GetMinGasMultiplier es" "GetMinGasMultiplier es \<le> dec_one"
  shows "uint (resGasUsed res) \<le> uint (mGas msg)"
  using run
proof (rule ApplyTransaction_cases)
  fix cfg' msg' res1 tmp receipt es1
  assume a: "ev_EVMConfig (kEth k) (kCore k) (kStaking k) b (bProposer b) (kChainID k) es = Inr cfg'"
    "AsMessage (kCore k) (cfgChain cfg') (bHeight b) (cfgBaseFee cfg') tx = Inr msg'"
    "ApplyMessageWithConfig k b msg' True cfg' (ev_TxConfig b (TxHashOf (kTx k) tx) es) es = Inr (res1, tmp)"
    and post: "postProcess k msg' res1 (newReceipt k b tx msg' (ev_TxConfig b (TxHashOf (kTx k) tx) es) res1 es) tmp
      (if kHooks k = None then tmp else es) = Inr (res, receipt, es1)"
  have "cfg' = cfg" "msg' = msg" using a(1,2) cfg by auto
  with gas_used [OF a(3)] gas postProcess_failed(2) [OF post failed] show ?thesis by auto
qed

end

context eth_messages
begin

lemma failed_tx_price:
  assumes ante: "newEVMAnteHandler L k b maxGas cx tx es = Inr (cx', tx', es')" "\<not> acCheckTx cx" "\<not> acReCheckTx cx"
    and tx: "txMsgs tx = [EthMsg m0]" "me_ValidateBasic (kEth k) (kTx k) m0 = Inr ()"
    and base: "\<And>f. anteBaseFee k b es = Some f \<Longrightarrow> 0 \<le> f"
    and mult: "0 \<le> GetMinGasMultiplier es" "GetMinGasMultiplier es \<le> dec_one"
    and fc: "accountOf k es (collector k) \<noteq> None"
    and run: "txMsgs tx' = [EthMsg m]" "EthereumTx k b m es' = Inr (res, es'')" and hooks: "kHooks k \<noteq> None" and failed: "res_Failed res"
  shows "\<exists>a n price. recoverSender k b es m0 = Inr m \<and> me_GetFrom (kEth k) m = Some a \<and> seqOf k es a = Some n \<and>
    seqOf k es'' a = Some (n + 1) \<and> storageStore (esEvm es'') = storageStore (esEvm es) \<and> codeStore (esEvm es'') = codeStore (esEvm es) \<and>
    (\<forall>d. meData m0 = Some d \<longrightarrow> innerPrice (anteBaseFee k b es) (td_AsEthereumData (kEth k) d) = Some price) \<and>
    uint (resGasUsed res) \<le> uint (me_GetGas m0) \<and>
    (\<forall>z e. balanceOf k es'' z e = balanceOf k es z e +
      (if e = pEvmDenom (ev_GetParams es)
       then at_addr (collector k) z (uint (resGasUsed res) * price) - at_addr a z (uint (resGasUsed res) * price) else 0))"
proof -
  let ?f = "anteBaseFee k b es"
  note keeps = ante_keeps [OF ante fc]
  obtain d where d: "meData m0 = Some d" "uint (td_GetGas d) < 2 ^ 63" "me_GetGas m0 = td_GetGas d"
    using tx(2) by (rule Validate_parts)
  have one: "map EthMsg ms = [EthMsg y] \<longleftrightarrow> ms = [y]" for ms y by auto
  obtain a n where rec: "recoverSender k b es m0 = Inr m" and a: "me_GetFrom (kEth k) m = Some a" "seqOf k es a = Some n"
    "seqOf k es' a = Some (n + 1)"
    using ante_sequences [OF ante fc] tx(1) run(1) by (auto simp: one eq_commute [of "[EthMsg _]"])
  have bal: "balanceOf k es' z e = balanceOf k es z e + (if e = pEvmDenom (ev_GetParams es) then feeMove k ?f z m else 0)" for z e
    using ante_fees [OF ante, of "[m0]"] tx base run(1) by (auto simp: one eq_commute [of "[EthMsg _]"])
  obtain sender where tx0: "AsTransaction (kEth k) (kTx k) m0 = Some (NewEthTx (kTx k) (td_AsEthereumData (kEth k) d))"
    "SenderAt (kCore k) (ethConfig k es) (bHeight b) (NewEthTx (kTx k) (td_AsEthereumData (kEth k) d)) = Inr sender"
    and m: "m = m0\<lparr>meFrom := AddressHex (kEth k) sender\<rparr>"
    using rec d(1) by (auto simp: recoverSender_def AsTransaction_def UnpackTxData_def split: if_splits)
  let ?tx = "NewEthTx (kTx k) (td_AsEthereumData (kEth k) d)"
  have a_sender: "a = sender" "HexToAddress (kEth k) (meFrom m) = sender"
    using a(1) m by (auto simp: me_GetFrom_def Hex_String Hex_nonempty)
  have app: "ApplyTransaction k b ?tx es' = Inr (res, es'')"
    using run(2) tx0(1) by (simp add: EthereumTx_def AsTransaction_def m)
  show ?thesis
  proof (rule failed_tx [OF app hooks failed])
    fix cfg msg x
    assume cfg: "ev_EVMConfig (kEth k) (kCore k) (kStaking k) b (bProposer b) (kChainID k) es' = Inr cfg"
      "AsMessage (kCore k) (cfgChain cfg) (bHeight b) (cfgBaseFee cfg) ?tx = Inr msg"
      and ref: "RefundGas k msg (mGas msg - resGasUsed res) (pEvmDenom (cfgParams cfg)) es' = Inr (es'\<lparr>esEvm := (esEvm es')\<lparr>sdkState := x\<rparr>\<rparr>)"
      and es'': "esEvm es'' = (esEvm es')\<lparr>sdkState := x\<rparr>"
    have c: "cfgParams cfg = ev_GetParams es" "cfgChain cfg = ethConfig k es" "cfgBaseFee cfg = ?f"
      using cfg(1) keeps(1,6,7) by (auto simp: ev_EVMConfig_def Let_def ethConfig_def anteBaseFee_def)
    note law = AsMessage_law [OF cfg(2)]
    have from_gas: "mFrom msg = a" "mGas msg = td_GetGas d" using law tx0(2) a_sender(1) c(2) by (simp_all add: inner_gas)
    obtain f where f: "td_EffectiveFee ?f d = Inr f"
      using ante_effective [OF ante, of m] run(1) d(1) m by auto
    then have fee: "effFee ?f m = f" using d(1) m by (simp add: effFee_def)
    obtain p where p: "innerPrice ?f (td_AsEthereumData (kEth k) d) = Some p" "f = p * uint (td_GetGas d)"
      using effective_inner [OF base f, where H = "kEth k"] by blast
    have price: "mGasPrice msg = p" using law p(1) c(3) by simp
    have used: "uint (resGasUsed res) \<le> uint (mGas msg)"
      using failed_tx_gas [OF app failed cfg] d(2) from_gas(2) mult keeps(5) by simp
    then have "uint (mGas msg - resGasUsed res) = uint (td_GetGas d) - uint (resGasUsed res)"
      using from_gas(2) uint_minus_simple_alt [of "resGasUsed res" "td_GetGas d"] by (simp add: word_le_def)
    with RefundGas_moves [OF ref] have bal2: "balanceOf k es'' z e = balanceOf k es' z e +
      (if e = pEvmDenom (ev_GetParams es) then at_addr a z ((uint (td_GetGas d) - uint (resGasUsed res)) * p) -
        at_addr (collector k) z ((uint (td_GetGas d) - uint (resGasUsed res)) * p) else 0)" for z e
      by (simp add: balanceOf_def collector_def es'' c(1) from_gas price)
    have "seqOf k es'' a = Some (n + 1)" using RefundGas_moves(3) [OF ref, of a] a(3) es'' by (auto simp: seqOf_def)
    then show ?thesis
      using rec a(1,2) keeps(2,3) es'' p(1) d used from_gas(2) bal bal2
      by (intro exI [of _ a] exI [of _ n] exI [of _ p])
        (auto simp: feeMove_def fee p(2) a_sender at_addr_def algebra_simps)
  qed
qed

end

interpretation ref_messages: eth_messages "ref_module hooks" ref_ante
proof
  fix cfg h baseFee d msg
  assume "AsMessage (kCore (ref_module hooks)) cfg h baseFee (NewEthTx (kTx (ref_module hooks)) d) = Inr msg"
  then show "SenderAt (kCore (ref_module hooks)) cfg h (NewEthTx (kTx (ref_module hooks)) d) = Inr (mFrom msg) \<and>
      mGas msg = iGas d \<and> (\<forall>p. innerPrice baseFee d = Some p \<longrightarrow> mGasPrice msg = p)"
    by (cases d) (auto simp: ref_module_def ref_core_def ref_txlib_def ref_price_def ref_value_of_def split: option.splits)
qed

end
