(* ===== verification/Cosmos_Ante.thy ===== *)
theory Cosmos_Ante
  imports Evm_Ante
begin

text \<open>
  The ante handler of Cosmos transactions, \<^verbatim>\<open>app/ante/cosmos\<close>, the fee checker of \<^verbatim>\<open>app/ante/evm/fee_checker.go\<close>, the gas
  of signatures of \<^verbatim>\<open>app/ante/sigverify.go\<close>, and the dispatch of \<^verbatim>\<open>app/ante/ante.go\<close> between the handlers.  The decorators of
  the SDK that the chains contain are parameters.  The properties: no Ethereum message reaches the message server but
  through the Ethereum handler, however it is wrapped; the fee taken for a Cosmos transaction
  lies between the base fee and the fee offered; the gas consumed for signatures is what the keys cost.
\<close>

section \<open>Messages inside messages\<close>

definition MsgEthereumTxURL :: string where "MsgEthereumTxURL = ''/ethermint.evm.v1.MsgEthereumTx''"

definition MsgCreateVestingAccountURL :: string where
  "MsgCreateVestingAccountURL = ''/cosmos.vesting.v1beta1.MsgCreateVestingAccount''"

fun MsgTypeURL :: "AnteMsg \<Rightarrow> string" where
  "MsgTypeURL (EthMsg _) = MsgEthereumTxURL"
| "MsgTypeURL (ExecMsg _) = ''/cosmos.authz.v1beta1.MsgExec''"
| "MsgTypeURL (GrantMsg _) = ''/cosmos.authz.v1beta1.MsgGrant''"
| "MsgTypeURL (DelegateMsg _ _) = ''/cosmos.staking.v1beta1.MsgDelegate''"
| "MsgTypeURL (OtherMsg url) = url"

definition RejectMessages :: "('x, 'c, 'w) AnteHandler" where
  "RejectMessages cx tx es =
     (if \<exists>msg \<in> set (txMsgs tx). (case msg of EthMsg _ \<Rightarrow> True | _ \<Rightarrow> False) then Inl (Err ''MsgEthereumTx needs to be contained within a tx with ExtensionOptionsEthereumTx'')
      else Inr (cx, tx, es))"

definition maxNestedMsgs :: int where "maxNestedMsgs = 7"

text \<open>\<^verbatim>\<open>MsgExec.GetMessages\<close>: an error unless every message unpacks.\<close>

definition GetMessages :: "AnteMsg option list \<Rightarrow> string + AnteMsg list" where
  "GetMessages msgs = (if None \<in> set msgs then Inl ''messages contains a value which is not a sdk.MsgRequest'' else Inr (map the msgs))"

lemma size_unpacked [simp]:
  "None \<notin> set ms \<Longrightarrow> size_list size (map the ms) \<le> size_list (size_option size) ms" for ms :: "AnteMsg option list"
  by (induction ms) (auto simp: neq_commute [of None])

text \<open>
  \<open>checkDisabledMsgs\<close> is the function of the decorator and \<open>checkLoop\<close> its loop; the level is a variable of the function that every
  \<^verbatim>\<open>MsgExec\<close> of the loop increments.
\<close>

function checkDisabledMsgs :: "string list \<Rightarrow> AnteMsg list \<Rightarrow> bool \<Rightarrow> int \<Rightarrow> string + unit"
  and checkLoop :: "string list \<Rightarrow> AnteMsg list \<Rightarrow> bool \<Rightarrow> int \<Rightarrow> string + unit" where
  "checkDisabledMsgs disabled msgs isAuthzInnerMsg nestedLvl =
     (if nestedLvl \<ge> maxNestedMsgs then Inl ''found more nested msgs than permited''
      else checkLoop disabled msgs isAuthzInnerMsg nestedLvl)"
| "checkLoop disabled [] isAuthzInnerMsg nestedLvl = Inr ()"
| "checkLoop disabled (msg # msgs) isAuthzInnerMsg nestedLvl =
     (case msg of
        ExecMsg inner \<Rightarrow>
          (case GetMessages inner of
             Inl e \<Rightarrow> Inl e
           | Inr innerMsgs \<Rightarrow>
               (case checkDisabledMsgs disabled innerMsgs True (nestedLvl + 1) of
                  Inl e \<Rightarrow> Inl e
                | Inr _ \<Rightarrow> checkLoop disabled msgs isAuthzInnerMsg (nestedLvl + 1)))
      | GrantMsg authorization \<Rightarrow>
          (case authorization of
             None \<Rightarrow> Inl ''authorization does not unpack''
           | Some url \<Rightarrow>
               if url \<in> set disabled then Inl ''found disabled msg type''
               else checkLoop disabled msgs isAuthzInnerMsg nestedLvl)
      | _ \<Rightarrow>
          if isAuthzInnerMsg \<and> MsgTypeURL msg \<in> set disabled then Inl ''found disabled msg type''
          else checkLoop disabled msgs isAuthzInnerMsg nestedLvl)"
  by pat_completeness auto
termination
  by (relation "measure (\<lambda>x. case x of Inl (_, msgs, _, _) \<Rightarrow> 2 * size_list size msgs + 1 | Inr (_, msgs, _, _) \<Rightarrow> 2 * size_list size msgs)")
    (auto simp: GetMessages_def le_imp_less_Suc dest!: size_unpacked split: if_splits)

definition AuthzLimiter :: "string list \<Rightarrow> ('x, 'c, 'w) AnteHandler" where
  "AuthzLimiter disabled cx tx es =
     rbind (failing (checkDisabledMsgs disabled (txMsgs tx) False 1)) (\<lambda>_. Inr (cx, tx, es))"

section \<open>Fees\<close>

text \<open>
  What the decorators use of the SDK: the coins of a fee in order, \<^verbatim>\<open>Coins.IsAnyGTE\<close>, \<^verbatim>\<open>Dec.Ceil\<close>, who pays the fee of a
  transaction, the feegrant keeper when there is one, and the decorators of the SDK and of the IBC module.  The signature check of the legacy EIP-712
  transactions is a field too.
\<close>

datatype PubKey = EthSecp256k1Key | Ed25519Key | MultisigKey "PubKey list" | OtherKey

datatype SigData = SingleSig | MultiSig "bool list" "SigData list"

type_synonym SigGasConsumer = "(u64 \<Rightarrow> u64 \<Rightarrow> panic + u64) \<Rightarrow> u64 \<Rightarrow> PubKey \<Rightarrow> SigData \<Rightarrow> u64 \<Rightarrow> failure + u64"

record ('x, 'c, 'w) CosmosLib =
  CoinList :: "'c \<Rightarrow> (string \<times> int) list"
  IsAnyGTE :: "'c \<Rightarrow> 'c \<Rightarrow> bool"
  DCeil :: "dec \<Rightarrow> dec"
  FeePayer :: "'c AnteTx \<Rightarrow> address"
  FeeGranter :: "'c AnteTx \<Rightarrow> address option"
  UseGrantedFees :: "('x \<Rightarrow> address \<Rightarrow> address \<Rightarrow> 'c \<Rightarrow> AnteMsg list \<Rightarrow> string + 'x) option"
  SdkSetUpContext :: "('x, 'c, 'w) AnteHandler"
  SdkExtensionOptions :: "(ExtOption \<Rightarrow> bool) \<Rightarrow> ('x, 'c, 'w) AnteHandler"
  SdkValidateBasic :: "('x, 'c, 'w) AnteHandler"
  SdkTxTimeoutHeight :: "('x, 'c, 'w) AnteHandler"
  SdkValidateMemo :: "('x, 'c, 'w) AnteHandler"
  SdkConsumeGasForTxSize :: "('x, 'c, 'w) AnteHandler"
  SdkSetPubKey :: "('x, 'c, 'w) AnteHandler"
  SdkValidateSigCount :: "('x, 'c, 'w) AnteHandler"
  SdkSigGasConsume :: "SigGasConsumer \<Rightarrow> ('x, 'c, 'w) AnteHandler"
  SdkSigVerification :: "('x, 'c, 'w) AnteHandler"
  SdkIncrementSequence :: "('x, 'c, 'w) AnteHandler"
  RedundantRelay :: "('x, 'c, 'w) AnteHandler"
  LegacyEip712SigVerification :: "('x, 'c, 'w) AnteHandler"

definition MinGasPriceDecorator ::
    "('x, 'c, 'w) CosmosLib \<Rightarrow> ('x, 'c, 'w) EvmKeeper \<Rightarrow> EvmBlock \<Rightarrow> ('x, 'c, 'w) AnteHandler" where
  "MinGasPriceDecorator S k b cx tx es =
     (if \<not> txWrapped tx then Inl (Err ''invalid transaction type, expected sdk.FeeTx'')
      else
        case MinGasPrice (fm_GetParams (esFm es)) of
          None \<Rightarrow> Inl (Panicked NilDereference)
        | Some minGasPrice \<Rightarrow>
            if minGasPrice = 0 \<or> acSimulate cx \<or> bHeight b = 0 then Inr (cx, tx, es)
            else
              let evmDenom = pEvmDenom (ev_GetParams es); feeCoins = txFeeAmount tx in
              rbind (panicking (DMul (kDec k) minGasPrice (NewDec (uint (txFeeGas tx))))) (\<lambda>price.
                let fee = DRoundInt (kDec k) (DCeil S price);
                    requiredFees = (if 0 < fee then CAdd (kCoins k) (NoCoins (kCoins k)) (RawCoins (kCoins k) [(evmDenom, fee)])
                                    else NoCoins (kCoins k)) in
                if IsNil (kCoins k) feeCoins then Inl (Err ''fee not provided'')
                else if \<not> IsAnyGTE S feeCoins requiredFees then Inl (Err ''provided fee < minimum global fee'')
                else Inr (cx, tx, es)))"

text \<open>
  \<^verbatim>\<open>getTxPriority\<close> of \<^verbatim>\<open>fee_checker.go\<close>: the gas limit has been converted to a signed integer, and the division panics when it is zero.
\<close>

definition priorityStep :: "int \<Rightarrow> int \<Rightarrow> string \<times> int \<Rightarrow> int \<Rightarrow> failure + int" where
  "priorityStep reduction gas c priority =
     (if gas = 0 \<or> reduction = 0 then Inl (Panicked DivisionByZero)
      else
        let amt = bigQuo (bigQuo (snd c) gas) reduction; p = (if in64 amt then amt else 2 ^ 63 - 1) in
        Inr (if priority = 0 \<or> p < priority then p else priority))"

definition feesPriority :: "int \<Rightarrow> (string \<times> int) list \<Rightarrow> int \<Rightarrow> failure + int" where
  "feesPriority reduction fees gas = foldM (priorityStep reduction gas) fees 0"

definition requiredMinFees ::
    "('x, 'c, 'w) CosmosLib \<Rightarrow> ('x, 'c, 'w) EvmKeeper \<Rightarrow> AnteCtx \<Rightarrow> int \<Rightarrow> failure + (string \<times> int) list" where
  "requiredMinFees S k cx gas =
     foldM (\<lambda>denom requiredFees.
         rbind (panicking (DMul (kDec k) (acMinGasPrices cx denom) (NewDec gas))) (\<lambda>fee.
           let amount = DRoundInt (kDec k) (DCeil S fee) in
           if amount < 0 then Inl (Panicked (Panic ''negative coin amount''))
           else Inr (requiredFees @ [(denom, amount)])))
       (acMinGasDenoms cx) []"

definition checkTxFeeWithValidatorMinGasPrices ::
    "('x, 'c, 'w) CosmosLib \<Rightarrow> ('x, 'c) AnteLib \<Rightarrow> ('x, 'c, 'w) EvmKeeper \<Rightarrow> AnteCtx \<Rightarrow> 'c AnteTx \<Rightarrow> failure + 'c \<times> int" where
  "checkTxFeeWithValidatorMinGasPrices S L k cx tx =
     (let feeCoins = txFeeAmount tx; gas = sint (txFeeGas tx) in
      rbind
        (if acCheckTx cx \<and> \<not> (\<forall>denom \<in> set (acMinGasDenoms cx). acMinGasPrices cx denom = 0) then
           rbind (requiredMinFees S k cx gas) (\<lambda>requiredFees.
             if \<not> IsAnyGTE S feeCoins (RawCoins (kCoins k) requiredFees) then Inl (Err ''insufficient fees'') else Inr ())
         else Inr ())
        (\<lambda>_. rbind (feesPriority (PriorityReduction L) (CoinList S feeCoins) gas) (\<lambda>priority. Inr (feeCoins, priority))))"

fun dynamicPrice :: "ExtOption list \<Rightarrow> int option" where
  "dynamicPrice [] = Some (2 ^ 63 - 1)"
| "dynamicPrice (DynamicFeeTxOption p # opts) = p"
| "dynamicPrice (_ # opts) = dynamicPrice opts"

definition NewDynamicFeeChecker ::
    "('x, 'c, 'w) CosmosLib \<Rightarrow> ('x, 'c) AnteLib \<Rightarrow> ('x, 'c, 'w) EvmKeeper \<Rightarrow> EvmBlock \<Rightarrow> AnteCtx \<Rightarrow> 'c AnteTx \<Rightarrow>
      ('x, 'w) EvmState \<Rightarrow> failure + 'c \<times> int" where
  "NewDynamicFeeChecker S L k b cx tx es =
     (if bHeight b = 0 then checkTxFeeWithValidatorMinGasPrices S L k cx tx
      else
        let denom = pEvmDenom (ev_GetParams es) in
        case anteBaseFee k b es of
          None \<Rightarrow> checkTxFeeWithValidatorMinGasPrices S L k cx tx
        | Some baseFee \<Rightarrow>
            case dynamicPrice (txExtensions tx) of
              None \<Rightarrow> Inl (Panicked NilDereference)
            | Some maxPriorityPrice \<Rightarrow>
                if maxPriorityPrice < 0 then Inl (Err ''max priority price cannot be negative'')
                else if txFeeGas tx = 0 then Inl (Panicked DivisionByZero)
                else
                  let gas = uint (txFeeGas tx); fee = AmountOf (kCoins k) (txFeeAmount tx) denom; feeCap = bigQuo fee gas in
                  rbind (panicking (NewIntFromBigInt (kDec k) baseFee)) (\<lambda>baseFeeInt.
                    if feeCap < baseFeeInt then Inl (Err ''gas prices too low'')
                    else rbind (panicking (EffectiveGasPrice (Some baseFeeInt) feeCap maxPriorityPrice)) (\<lambda>price.
                      rbind (panicking (NewIntFromBigInt (kDec k) price)) (\<lambda>effectivePrice.
                      rbind (panicking (IMul (kDec k) effectivePrice gas)) (\<lambda>amount.
                        if PriorityReduction L = 0 then Inl (Panicked DivisionByZero)
                        else
                          let bigPriority = bigQuo (effectivePrice - baseFeeInt) (PriorityReduction L) in
                          Inr (RawCoins (kCoins k) [(denom, amount)],
                               if in64 bigPriority then bigPriority else 2 ^ 63 - 1))))))"

definition deductFee ::
    "('x, 'c, 'w) CosmosLib \<Rightarrow> ('x, 'c) AnteLib \<Rightarrow> ('x, 'c, 'w) EvmKeeper \<Rightarrow> 'c AnteTx \<Rightarrow> 'c \<Rightarrow> address \<Rightarrow> address option \<Rightarrow>
      ('x, 'w) EvmState \<Rightarrow> failure + ('x, 'w) EvmState" where
  "deductFee S L k tx fees feePayer feeGranter es =
     (if IsZero (kCoins k) fees then Inr es
      else
        rbind
          (case feeGranter of
             None \<Rightarrow> Inr (feePayer, es)
           | Some granter \<Rightarrow>
               (case UseGrantedFees S of
                  None \<Rightarrow> Inl (Err ''fee grants are not enabled'')
                | Some useGrant \<Rightarrow>
                    if granter \<noteq> feePayer then
                      rbind (failing (useGrant (sdkState (esEvm es)) granter feePayer fees (txMsgs tx))) (\<lambda>x. Inr (granter, setSdk x es))
                    else Inr (granter, es)))
          (\<lambda>(deductFeesFrom, es).
            case GetAccount (kSdk k) (sdkState (esEvm es)) deductFeesFrom of
              None \<Rightarrow> Inl (Err ''fee payer address does not exist'')
            | Some acc \<Rightarrow>
                rbind (failing (DeductFees L (sdkState (esEvm es)) acc fees)) (\<lambda>x. Inr (setSdk x es))))"

definition DeductFeeDecorator ::
    "('x, 'c, 'w) CosmosLib \<Rightarrow> ('x, 'c) AnteLib \<Rightarrow> ('x, 'c, 'w) EvmKeeper \<Rightarrow> EvmBlock \<Rightarrow> ('x, 'c, 'w) AnteHandler" where
  "DeductFeeDecorator S L k b cx tx es =
     (if \<not> txWrapped tx then Inl (Err ''Tx must be a FeeTx'')
      else if \<not> acSimulate cx \<and> bHeight b > 0 \<and> txFeeGas tx = 0 then Inl (Err ''must provide positive gas'')
      else
        rbind (if acSimulate cx then Inr (txFeeAmount tx, 0) else NewDynamicFeeChecker S L k b cx tx es) (\<lambda>(fee, priority).
        rbind (deductFee S L k tx fee (FeePayer S tx) (FeeGranter S tx) es) (\<lambda>es.
          Inr (cx\<lparr>acPriority := priority\<rparr>, tx, es))))"

section \<open>Delegations and signatures\<close>

definition delegationSigner ::
    "('x, 'c, 'w) EvmKeeper \<Rightarrow> EvmBlock \<Rightarrow> ('x, 'w) EvmState \<Rightarrow> int \<Rightarrow> address \<Rightarrow> bool \<Rightarrow> failure + bool" where
  "delegationSigner k b es amount addr stopped =
     (if stopped then Inr True
      else
        case GetAccount (kSdk k) (sdkState (esEvm es)) addr of
          None \<Rightarrow> Inl (Err ''account does not exist'')
        | Some (ClawbackAcc va) \<Rightarrow>
            let coins = GetVestedOnly (kCoins k) va (bTime b) in
            if IsNil (kCoins k) coins \<or> IsEmpty (kCoins k) coins then Inl (Err ''account has no vested coins'')
            else if AmountOf (kCoins k) coins (BondDenom (kSdk k) (sdkState (esEvm es))) < amount
            then Inl (Err ''cannot delegate unvested coins'')
            else Inr False
        | Some _ \<Rightarrow> Inr True)"

text \<open>The loop over the signers returns at the first one without a clawback account; the flag says that it has.\<close>

definition validateMsg ::
    "('x, 'c, 'w) EvmKeeper \<Rightarrow> EvmBlock \<Rightarrow> ('x, 'w) EvmState \<Rightarrow> AnteMsg \<Rightarrow> failure + unit" where
  "validateMsg k b es msg =
     (case msg of
        DelegateMsg signers amount \<Rightarrow> rbind (foldM (delegationSigner k b es amount) signers False) (\<lambda>_. Inr ())
      | _ \<Rightarrow> Inr ())"

definition validateAuthz ::
    "('x, 'c, 'w) EvmKeeper \<Rightarrow> EvmBlock \<Rightarrow> ('x, 'w) EvmState \<Rightarrow> AnteMsg option list \<Rightarrow> failure + unit" where
  "validateAuthz k b es msgs =
     foldM (\<lambda>v _. case v of None \<Rightarrow> Inl (Err ''cannot unmarshal authz exec msgs'') | Some innerMsg \<Rightarrow> validateMsg k b es innerMsg) msgs ()"

definition VestingDelegation ::
    "('x, 'c, 'w) EvmKeeper \<Rightarrow> EvmBlock \<Rightarrow> ('x, 'c, 'w) AnteHandler" where
  "VestingDelegation k b cx tx es =
     rbind (foldM (\<lambda>msg _. case msg of ExecMsg msgs \<Rightarrow> validateAuthz k b es msgs | _ \<Rightarrow> validateMsg k b es msg) (txMsgs tx) ())
       (\<lambda>_. Inr (cx, tx, es))"

definition Secp256k1VerifyCost :: u64 where "Secp256k1VerifyCost = 21000"

text \<open>
  The gas of a signature.  \<open>consume\<close> is the gas meter and \<open>ed25519Cost\<close> the parameter of the auth module.  In a multisignature the
  bits select the keys that signed, in order; a set bit without key or signature is an index out of range.
\<close>

fun SigVerificationGasConsumer :: SigGasConsumer
  and ConsumeMultisignatureVerificationGas ::
    "(u64 \<Rightarrow> u64 \<Rightarrow> panic + u64) \<Rightarrow> u64 \<Rightarrow> PubKey list \<Rightarrow> bool list \<Rightarrow> SigData list \<Rightarrow> u64 \<Rightarrow> failure + u64" where
  "SigVerificationGasConsumer consume ed25519Cost EthSecp256k1Key sig meter =
     panicking (consume Secp256k1VerifyCost meter)"
| "SigVerificationGasConsumer consume ed25519Cost Ed25519Key sig meter =
     rbind (panicking (consume ed25519Cost meter)) (\<lambda>_. Inl (Err ''ED25519 public keys are unsupported''))"
| "SigVerificationGasConsumer consume ed25519Cost (MultisigKey keys) (MultiSig bits sigs) meter =
     ConsumeMultisignatureVerificationGas consume ed25519Cost keys bits sigs meter"
| "SigVerificationGasConsumer consume ed25519Cost (MultisigKey keys) SingleSig meter = Inl (Err ''expected MultiSignatureData'')"
| "SigVerificationGasConsumer consume ed25519Cost OtherKey sig meter = Inl (Err ''unrecognized/unsupported public key type'')"
| "ConsumeMultisignatureVerificationGas consume ed25519Cost keys [] sigs meter = Inr meter"
| "ConsumeMultisignatureVerificationGas consume ed25519Cost keys (False # bits) sigs meter =
     ConsumeMultisignatureVerificationGas consume ed25519Cost (tl keys) bits sigs meter"
| "ConsumeMultisignatureVerificationGas consume ed25519Cost (pubkey # keys) (True # bits) (sig # sigs) meter =
     rbind (SigVerificationGasConsumer consume ed25519Cost pubkey sig meter) (\<lambda>meter.
       ConsumeMultisignatureVerificationGas consume ed25519Cost keys bits sigs meter)"
| "ConsumeMultisignatureVerificationGas consume ed25519Cost keys (True # bits) sigs meter = Inl (Panicked IndexOutOfRange)"

section \<open>The chains and the dispatch\<close>

definition disabledAuthzMsgs :: "string list" where
  "disabledAuthzMsgs = [MsgEthereumTxURL, MsgCreateVestingAccountURL]"

definition newCosmosAnteHandler ::
    "('x, 'c, 'w) CosmosLib \<Rightarrow> ('x, 'c) AnteLib \<Rightarrow> ('x, 'c, 'w) EvmKeeper \<Rightarrow> EvmBlock \<Rightarrow> (ExtOption \<Rightarrow> bool) \<Rightarrow>
      ('x, 'c, 'w) AnteHandler" where
  "newCosmosAnteHandler S L k b extensionOptionChecker =
     ChainAnteDecorators
       [RejectMessages, AuthzLimiter disabledAuthzMsgs, SdkSetUpContext S, SdkExtensionOptions S extensionOptionChecker,
        SdkValidateBasic S, SdkTxTimeoutHeight S, SdkValidateMemo S, MinGasPriceDecorator S k b,
        SdkConsumeGasForTxSize S, DeductFeeDecorator S L k b, VestingDelegation k b, SdkSetPubKey S,
        SdkValidateSigCount S, SdkSigGasConsume S SigVerificationGasConsumer, SdkSigVerification S,
        SdkIncrementSequence S, RedundantRelay S, GasWanted k b]"

definition newLegacyCosmosAnteHandlerEip712 ::
    "('x, 'c, 'w) CosmosLib \<Rightarrow> ('x, 'c) AnteLib \<Rightarrow> ('x, 'c, 'w) EvmKeeper \<Rightarrow> EvmBlock \<Rightarrow> ('x, 'c, 'w) AnteHandler" where
  "newLegacyCosmosAnteHandlerEip712 S L k b =
     ChainAnteDecorators
       [RejectMessages, AuthzLimiter disabledAuthzMsgs, SdkSetUpContext S, SdkValidateBasic S, SdkTxTimeoutHeight S,
        MinGasPriceDecorator S k b, SdkValidateMemo S, SdkConsumeGasForTxSize S, DeductFeeDecorator S L k b,
        VestingDelegation k b, SdkSetPubKey S, SdkValidateSigCount S, SdkSigGasConsume S SigVerificationGasConsumer,
        LegacyEip712SigVerification S, SdkIncrementSequence S, RedundantRelay S, GasWanted k b]"

definition NewAnteHandler ::
    "('x, 'c, 'w) CosmosLib \<Rightarrow> ('x, 'c) AnteLib \<Rightarrow> ('x, 'c, 'w) EvmKeeper \<Rightarrow> EvmBlock \<Rightarrow> u64 \<Rightarrow> (ExtOption \<Rightarrow> bool) \<Rightarrow>
      ('x, 'c, 'w) AnteHandler" where
  "NewAnteHandler S L k b maxTxGasWanted extensionOptionChecker cx tx es =
     (case (txWrapped tx, txExtensions tx) of
        (True, opt # _) \<Rightarrow>
          (case opt of
             EthereumTxOption \<Rightarrow> newEVMAnteHandler L k b maxTxGasWanted cx tx es
           | Web3TxOption _ \<Rightarrow> newLegacyCosmosAnteHandlerEip712 S L k b cx tx es
           | DynamicFeeTxOption _ \<Rightarrow> newCosmosAnteHandler S L k b extensionOptionChecker cx tx es
           | UnknownOption _ \<Rightarrow> Inl (Err ''rejecting tx with unsupported extension option''))
      | _ \<Rightarrow> newCosmosAnteHandler S L k b extensionOptionChecker cx tx es)"

section \<open>No Ethereum message comes around the Ethereum handler\<close>

text \<open>\<open>inside x msg d\<close>: \<open>x\<close> is \<open>msg\<close> itself or packed into it below \<open>d\<close> messages of type \<^verbatim>\<open>MsgExec\<close>.\<close>

inductive inside :: "AnteMsg \<Rightarrow> AnteMsg \<Rightarrow> nat \<Rightarrow> bool" where
  itself: "inside msg msg 0"
| packed: "Some m \<in> set msgs \<Longrightarrow> inside x m d \<Longrightarrow> inside x (ExecMsg msgs) (Suc d)"

inductive_cases insideE: "inside x msg d"

text \<open>What \<^verbatim>\<open>checkDisabledMsgs\<close> allows inside a message.\<close>

fun allowed :: "string list \<Rightarrow> bool \<Rightarrow> AnteMsg \<Rightarrow> bool" where
  "allowed disabled inner (GrantMsg a) \<longleftrightarrow> (\<exists>url. a = Some url \<and> url \<notin> set disabled)"
| "allowed disabled inner (ExecMsg msgs) \<longleftrightarrow> None \<notin> set msgs"
| "allowed disabled inner msg \<longleftrightarrow> \<not> (inner \<and> MsgTypeURL msg \<in> set disabled)"

lemma checkDisabledMsgs_inside:
  "checkDisabledMsgs disabled msgs inner lvl = Inr () \<Longrightarrow> msg \<in> set msgs \<Longrightarrow> inside x msg d \<Longrightarrow>
     allowed disabled (inner \<or> 0 < d) x \<and> lvl + int d < maxNestedMsgs"
  "lvl < maxNestedMsgs \<Longrightarrow> checkLoop disabled msgs inner lvl = Inr () \<Longrightarrow> msg \<in> set msgs \<Longrightarrow> inside x msg d \<Longrightarrow>
     allowed disabled (inner \<or> 0 < d) x \<and> lvl + int d < maxNestedMsgs"
proof (induction disabled msgs inner lvl and disabled msgs inner lvl arbitrary: msg x d and msg x d
    rule: checkDisabledMsgs_checkLoop.induct)
  case (1 disabled msgs inner lvl)
  then show ?case by (auto split: if_splits)
next
  case (2 disabled inner lvl)
  then show ?case by simp
next
  case (3 disabled m msgs inner lvl)
  show ?case
  proof (cases "msg \<in> set msgs")
    case True
    show ?thesis
    proof (cases m)
      case (ExecMsg ms)
      with "3.prems" obtain ms' where g: "GetMessages ms = Inr ms'" and c: "checkDisabledMsgs disabled ms' True (lvl + 1) = Inr ()"
        and l: "checkLoop disabled msgs inner (lvl + 1) = Inr ()" by (auto split: sum.splits)
      have "lvl + 1 < maxNestedMsgs" using c by (auto split: if_splits)
      from "3.IH"(3) [OF ExecMsg g c this l True "3.prems"(4)] show ?thesis by simp
    next
      case (GrantMsg a)
      then show ?thesis using "3.IH"(4) [OF GrantMsg _ _ "3.prems"(1) _ True "3.prems"(4)] "3.prems"(2) by (auto split: option.splits if_splits)
    next
      case (EthMsg e)
      then show ?thesis using "3.IH"(1) [OF EthMsg _ "3.prems"(1) _ True "3.prems"(4)] "3.prems"(2) by (auto split: if_splits)
    next
      case (DelegateMsg as n)
      then show ?thesis using "3.IH"(5) [OF DelegateMsg _ "3.prems"(1) _ True "3.prems"(4)] "3.prems"(2) by (auto split: if_splits)
    next
      case (OtherMsg u)
      then show ?thesis using "3.IH"(6) [OF OtherMsg _ "3.prems"(1) _ True "3.prems"(4)] "3.prems"(2) by (auto split: if_splits)
    qed
  next
    case False
    with "3.prems"(3) have m: "msg = m" by simp
    show ?thesis
    proof (cases m)
      case (ExecMsg ms)
      with "3.prems" obtain ms' where ms': "GetMessages ms = Inr ms'" "checkDisabledMsgs disabled ms' True (lvl + 1) = Inr ()"
        by (auto split: sum.splits)
      then have u: "None \<notin> set ms" "ms' = map the ms" by (auto simp: GetMessages_def split: if_splits)
      from "3.prems"(4) [unfolded m ExecMsg] show ?thesis
      proof (cases rule: inside.cases)
        case itself
        then show ?thesis using "3.prems"(1) u by auto
      next
        case (packed m' e)
        have "m' \<in> set ms'" using u packed by force
        from "3.IH"(2) [OF ExecMsg ms'(1) ms'(2) this] packed
        have "allowed disabled True x \<and> lvl + 1 + int e < maxNestedMsgs" by simp
        then show ?thesis using packed by auto
      qed
    qed (use "3.prems" m in \<open>auto elim: insideE split: if_splits option.splits\<close>)
  qed
qed

lemma RejectMessages_Inr:
  assumes "RejectMessages cx tx es = Inr R"
  shows "EthMsg m \<notin> set (txMsgs tx)" "R = (cx, tx, es)"
  using assms by (force simp: RejectMessages_def split: if_splits)+

lemma AuthzLimiter_Inr:
  assumes "AuthzLimiter disabled cx tx es = Inr R"
  shows "checkDisabledMsgs disabled (txMsgs tx) False 1 = Inr ()" "R = (cx, tx, es)"
  using assms by (cases "checkDisabledMsgs disabled (txMsgs tx) False 1"; simp add: AuthzLimiter_def del: checkDisabledMsgs.simps)+

text \<open>The two decorators that open both chains of Cosmos transactions.\<close>

lemma cosmos_messages:
  assumes "ChainAnteDecorators (RejectMessages # AuthzLimiter disabledAuthzMsgs # ds) cx tx es = Inr R"
    and "msg \<in> set (txMsgs tx)" "inside x msg d"
  shows "allowed disabledAuthzMsgs (0 < d) x" "d \<le> 5" "x \<noteq> EthMsg m"
proof -
  obtain cx1 tx1 es1 where 1: "RejectMessages cx tx es = Inr (cx1, tx1, es1)"
    and 2: "ChainAnteDecorators (AuthzLimiter disabledAuthzMsgs # ds) cx1 tx1 es1 = Inr R"
    using assms(1) by (rule chain_step)
  obtain cx2 tx2 es2 where 3: "AuthzLimiter disabledAuthzMsgs cx tx es = Inr (cx2, tx2, es2)"
    using chain_step [OF 2] RejectMessages_Inr(2) [OF 1] by blast
  from checkDisabledMsgs_inside(1) [OF AuthzLimiter_Inr(1) [OF 3] assms(2,3)]
  show a: "allowed disabledAuthzMsgs (0 < d) x" and "d \<le> 5" by (simp_all add: maxNestedMsgs_def)
  show "x \<noteq> EthMsg m"
  proof
    assume x: "x = EthMsg m"
    with a have "d = 0" by (simp add: disabledAuthzMsgs_def)
    with x assms(3) have "msg = EthMsg m" by (auto elim: inside.cases)
    with assms(2) RejectMessages_Inr(1) [OF 1] show False by simp
  qed
qed

lemma evm_messages:
  assumes "newEVMAnteHandler L k b maxGas cx tx es = Inr R"
  shows "\<exists>ms. txMsgs tx = map EthMsg ms"
proof -
  obtain cx1 tx1 es1 where 1: "EthSetupContext cx tx es = Inr (cx1, tx1, es1)"
    and r1: "ChainAnteDecorators
       [EthMempoolFee k b, EthMinGasPrice k b, EthValidateBasic L k b, EthSigVerification k b,
        EthAccountVerification k, CanTransferDecorator L k b, EthVestingTransaction L k b,
        EthGasConsume L k b maxGas, EthIncrementSenderSequence k, GasWanted k b, EthEmitEvent] cx1 tx1 es1 = Inr R"
    using assms unfolding newEVMAnteHandler_def by (rule chain_step)
  have tx1: "tx1 = tx" using 1 by (auto simp: EthSetupContext_def split: if_splits)
  have "ChainAnteDecorators
       [EthSigVerification k b, EthAccountVerification k, CanTransferDecorator L k b, EthVestingTransaction L k b,
        EthGasConsume L k b maxGas, EthIncrementSenderSequence k, GasWanted k b, EthEmitEvent] cx1 tx1 es1 = Inr R"
    using r1 by (blast dest: chain_frame [OF _ EthMempoolFee_frame] chain_frame [OF _ EthMinGasPrice_frame]
        chain_frame [OF _ EthValidateBasic_frame])
  then obtain R1 where "EthSigVerification k b cx1 tx1 es1 = Inr R1" by (auto elim: chain_step)
  then show ?thesis using tx1 by (cases R1) (auto elim: EthSig_cases)
qed

text \<open>
  C7.  Ethereum messages stay in the Ethereum handler.  When the ante handler accepts a transaction and a message of it is or contains, at any depth of
  \<^verbatim>\<open>MsgExec\<close>, an Ethereum message, then the transaction carries the Ethereum extension option and consists of Ethereum messages only.
  Every other accepted transaction contains no Ethereum message at any depth, nests at most five levels of \<^verbatim>\<open>MsgExec\<close>, executes no
  \<^verbatim>\<open>MsgCreateVestingAccount\<close> on behalf of others and grants no authorization for either of the two types.
\<close>

theorem ethereum_messages_contained:
  assumes "NewAnteHandler S L k b maxGas checker cx tx es = Inr R" "msg \<in> set (txMsgs tx)" "inside x msg d"
  shows "(\<exists>opts ms. txWrapped tx \<and> txExtensions tx = EthereumTxOption # opts \<and> txMsgs tx = map EthMsg ms \<and> d = 0) \<or>
    (\<forall>m. x \<noteq> EthMsg m) \<and> d \<le> 5 \<and> (0 < d \<longrightarrow> MsgTypeURL x \<notin> {MsgEthereumTxURL, MsgCreateVestingAccountURL}) \<and>
    (\<forall>a. x = GrantMsg a \<longrightarrow> (\<exists>url. a = Some url \<and> url \<notin> {MsgEthereumTxURL, MsgCreateVestingAccountURL}))"
proof (cases "txWrapped tx \<and> (\<exists>opts. txExtensions tx = EthereumTxOption # opts)")
  case True
  then obtain opts where o: "txWrapped tx" "txExtensions tx = EthereumTxOption # opts" by blast
  with assms(1) obtain ms where "txMsgs tx = map EthMsg ms"
    using evm_messages [of L k b maxGas cx tx es R] by (auto simp: NewAnteHandler_def)
  moreover from this assms(2,3) have "d = 0" by (auto elim: inside.cases)
  ultimately show ?thesis using o by blast
next
  case False
  then obtain ds where "ChainAnteDecorators (RejectMessages # AuthzLimiter disabledAuthzMsgs # ds) cx tx es = Inr R"
    using assms(1)
    by (auto simp: NewAnteHandler_def newCosmosAnteHandler_def newLegacyCosmosAnteHandlerEip712_def
        split: bool.splits list.splits ExtOption.splits)
  from cosmos_messages [OF this assms(2,3)] show ?thesis
    by (cases x) (auto simp: disabledAuthzMsgs_def MsgEthereumTxURL_def MsgCreateVestingAccountURL_def)
qed

section \<open>The fee of a Cosmos transaction\<close>

text \<open>
  The contract of the feegrant keeper: using an allowance moves no coins and leaves the accounts.
\<close>

locale cosmos_ante = ante_module k L for k :: "('x, 'c, 'w) EvmKeeper" and L +
  fixes S :: "('x, 'c, 'w) CosmosLib"
  assumes Grant_law: "UseGrantedFees S = Some useGrant \<Longrightarrow> useGrant x granter payer fees msgs = Inr x' \<Longrightarrow>
    BankBalance (kSdk k) x' = BankBalance (kSdk k) x \<and> GetAccount (kSdk k) x' = GetAccount (kSdk k) x"
begin

lemma bigQuo_pos: "0 \<le> a \<Longrightarrow> 0 < g \<Longrightarrow> bigQuo a g = a div g" for a g :: int
  by (cases "a = 0") (simp_all add: bigQuo_def)

lemma dynamic_fee:
  assumes "NewDynamicFeeChecker S L k b cx tx es = Inr (fee, priority)" "bHeight b \<noteq> 0"
    and "anteBaseFee k b es = Some baseFee" "0 \<le> baseFee"
  shows "\<exists>price. baseFee \<le> price \<and> price * uint (txFeeGas tx) \<le> AmountOf (kCoins k) (txFeeAmount tx) (pEvmDenom (ev_GetParams es)) \<and>
    (\<forall>e. AmountOf (kCoins k) fee e = (if e = pEvmDenom (ev_GetParams es) then price * uint (txFeeGas tx) else 0))"
proof -
  let ?g = "uint (txFeeGas tx)" and ?d = "pEvmDenom (ev_GetParams es)"
  let ?f = "AmountOf (kCoins k) (txFeeAmount tx) ?d"
  note run = assms(1) [unfolded NewDynamicFeeChecker_def Let_def]
  obtain p where p: "dynamicPrice (txExtensions tx) = Some p" "\<not> p < 0" and g: "txFeeGas tx \<noteq> 0"
    using run assms(2,3) by (simp split: option.splits if_splits)
  have pos: "0 < ?g" using g by (simp add: word_neq_0_conv word_less_def)
  have cap: "bigQuo ?f ?g = ?f div ?g" using AmountOf_nonneg pos by (rule bigQuo_pos)
  obtain base' where base: "NewIntFromBigInt (kDec k) baseFee = Inr base'"
    using run assms(2,3) p g by (cases "NewIntFromBigInt (kDec k) baseFee") simp_all
  then have b': "base' = baseFee" by (rule NewInt_id)
  have le: "\<not> ?f div ?g < baseFee" using run assms(2,3) p g base b' cap by (auto split: if_splits)
  let ?price = "min (p + baseFee) (?f div ?g)"
  obtain price where price: "NewIntFromBigInt (kDec k) ?price = Inr price"
    using run assms(2,3) p g base b' cap le by (cases "NewIntFromBigInt (kDec k) ?price") (simp_all add: EffectiveGasPrice_def)
  then have pr: "price = ?price" by (rule NewInt_id)
  obtain amount where amount: "IMul (kDec k) price ?g = Inr amount"
    using run assms(2,3) p g base b' cap le price by (cases "IMul (kDec k) price ?g") (simp_all add: EffectiveGasPrice_def)
  then have am: "amount = price * ?g" by (rule IMul_exact)
  have fee: "fee = RawCoins (kCoins k) [(?d, amount)]"
    using run assms(2,3) p g base b' cap le price amount by (auto simp: EffectiveGasPrice_def split: if_splits)
  have "baseFee \<le> price" using p(2) le pr by simp
  moreover have "price * ?g \<le> ?f"
  proof -
    have "price * ?g \<le> ?f div ?g * ?g" using pos pr by (intro mult_right_mono) simp_all
    also have "\<dots> \<le> ?f" using pos by (simp add: minus_mod_eq_div_mult [symmetric])
    finally show ?thesis .
  qed
  moreover have "0 \<le> amount" using calculation(1) assms(4) am pos by simp
  ultimately show ?thesis using fee am AmountOf_RawCoins [of amount ?d] by (intro exI [of _ price]) auto
qed

lemma deductFee_moves:
  assumes "deductFee S L k tx fees payer granter es = Inr es'"
  shows "balanceOf k es' z e = balanceOf k es z e
    - at_addr (case granter of None \<Rightarrow> payer | Some g \<Rightarrow> g) z (AmountOf (kCoins k) fees e)
    + at_addr (collector k) z (AmountOf (kCoins k) fees e)"
proof (cases "IsZero (kCoins k) fees")
  case True
  then show ?thesis using assms IsZero_iff by (simp add: deductFee_def at_addr_def)
next
  case False
  let ?from = "case granter of None \<Rightarrow> payer | Some g \<Rightarrow> g"
  have deduct: "balanceOf k es2 z e = balanceOf k es z e - at_addr ?from z (AmountOf (kCoins k) fees e)
      + at_addr (collector k) z (AmountOf (kCoins k) fees e)"
    if "GetAccount (kSdk k) x ?from = Some acc" "DeductFees L x acc fees = Inr x'" "es2 = setSdk x' es1"
      "BankBalance (kSdk k) x = BankBalance (kSdk k) (sdkState (esEvm es))" for x x' acc es1 es2
    using transferred_balance [OF Deduct_law [OF that(2)], of z e] GetAccount_address [OF that(1)] that(3,4)
    by (simp add: balanceOf_def collector_def)
  show ?thesis
  proof (cases granter)
    case None
    with assms False deduct show ?thesis by (auto simp: deductFee_def split: option.splits)
  next
    case (Some g)
    with assms False obtain useGrant where u: "UseGrantedFees S = Some useGrant"
      by (auto simp: deductFee_def split: option.splits)
    show ?thesis
    proof (cases "g = payer")
      case True
      with assms False deduct Some u show ?thesis by (auto simp: deductFee_def split: option.splits)
    next
      case ne: False
      with assms False Some u obtain x1 where x1: "useGrant (sdkState (esEvm es)) g payer fees (txMsgs tx) = Inr x1"
        by (cases "useGrant (sdkState (esEvm es)) g payer fees (txMsgs tx)") (auto simp: deductFee_def)
      with assms False Some u ne deduct [of x1] Grant_law [OF u x1] show ?thesis
        by (auto simp: deductFee_def split: option.splits)
    qed
  qed
qed

lemma fee_deducted:
  assumes run: "DeductFeeDecorator S L k b cx tx es = Inr (cx', tx', es')" and deliver: "\<not> acSimulate cx" "0 < bHeight b"
    and base: "anteBaseFee k b es = Some baseFee" "0 \<le> baseFee"
  shows "\<exists>price. baseFee \<le> price \<and> price * uint (txFeeGas tx) \<le> AmountOf (kCoins k) (txFeeAmount tx) (pEvmDenom (ev_GetParams es)) \<and>
    0 < uint (txFeeGas tx) \<and>
    (\<forall>z e. balanceOf k es' z e = balanceOf k es z e + (if e = pEvmDenom (ev_GetParams es)
       then at_addr (collector k) z (price * uint (txFeeGas tx))
            - at_addr (case FeeGranter S tx of None \<Rightarrow> FeePayer S tx | Some g \<Rightarrow> g) z (price * uint (txFeeGas tx)) else 0))"
proof -
  have gas: "txFeeGas tx \<noteq> 0" using run deliver by (auto simp: DeductFeeDecorator_def split: if_splits)
  obtain fee priority where f: "NewDynamicFeeChecker S L k b cx tx es = Inr (fee, priority)"
    and d: "deductFee S L k tx fee (FeePayer S tx) (FeeGranter S tx) es = Inr es'"
    using run deliver gas by (auto simp: DeductFeeDecorator_def split: if_splits)
  from dynamic_fee [OF f _ base] deliver(2) obtain price where p: "baseFee \<le> price"
    "price * uint (txFeeGas tx) \<le> AmountOf (kCoins k) (txFeeAmount tx) (pEvmDenom (ev_GetParams es))"
    "\<And>e. AmountOf (kCoins k) fee e = (if e = pEvmDenom (ev_GetParams es) then price * uint (txFeeGas tx) else 0)" by auto
  have "0 < uint (txFeeGas tx)" using gas by (simp add: word_neq_0_conv word_less_def)
  then show ?thesis using p(1,2) deductFee_moves [OF d] p(3) by (intro exI [of _ price]) (auto simp: at_addr_def)
qed

end

text \<open>
  C8.  The fee of a Cosmos transaction.  In a block with a base fee, the fee decorator accepts a transaction only with positive gas; then the
  payer, or the granter when there is one, has paid the fee collector a price per unit of gas that is at least
  the base fee, in total at most the fee the transaction offers, and no other balance has changed.
\<close>

theorem cosmos_fee_deducted:
  assumes "cosmos_ante k L S" "DeductFeeDecorator S L k b cx tx es = Inr (cx', tx', es')" "\<not> acSimulate cx" "0 < bHeight b"
    and "anteBaseFee k b es = Some baseFee" "0 \<le> baseFee"
  shows "\<exists>price. baseFee \<le> price \<and> price * uint (txFeeGas tx) \<le> AmountOf (kCoins k) (txFeeAmount tx) (pEvmDenom (ev_GetParams es)) \<and>
    0 < uint (txFeeGas tx) \<and>
    (\<forall>z e. balanceOf k es' z e = balanceOf k es z e + (if e = pEvmDenom (ev_GetParams es)
       then at_addr (collector k) z (price * uint (txFeeGas tx))
            - at_addr (case FeeGranter S tx of None \<Rightarrow> FeePayer S tx | Some g \<Rightarrow> g) z (price * uint (txFeeGas tx)) else 0))"
  using cosmos_ante.fee_deducted [OF assms] .

section \<open>Delegations of vesting accounts\<close>

lemma delegationSigner_vested:
  assumes "validateMsg k b es (DelegateMsg [a] amount) = Inr u" "GetAccount (kSdk k) (sdkState (esEvm es)) a = Some (ClawbackAcc va)"
  shows "amount \<le> AmountOf (kCoins k) (GetVestedOnly (kCoins k) va (bTime b)) (BondDenom (kSdk k) (sdkState (esEvm es)))"
  using assms by (auto simp: validateMsg_def delegationSigner_def Let_def split: if_splits)

lemma foldM_unit: "foldM (\<lambda>x _. f x) xs () = Inr () \<Longrightarrow> x \<in> set xs \<Longrightarrow> f x = Inr ()"
  by (induction xs) auto


text \<open>
  The check does not look into a \<^verbatim>\<open>MsgExec\<close> inside another: there any delegation passes, whatever has vested.
\<close>

theorem nested_delegation_unchecked:
  "VestingDelegation k b cx (tx\<lparr>txMsgs := [ExecMsg [Some (ExecMsg [Some (DelegateMsg signers amount)])]]\<rparr>) es =
     Inr (cx, tx\<lparr>txMsgs := [ExecMsg [Some (ExecMsg [Some (DelegateMsg signers amount)])]]\<rparr>, es)"
  by (simp add: VestingDelegation_def validateAuthz_def validateMsg_def)

text \<open>
  The limit on nesting counts the \<^verbatim>\<open>MsgExec\<close> messages of one level as well: six of them next to each other are rejected although nothing is nested twice.
\<close>

theorem sibling_execs_rejected: "isl (checkDisabledMsgs disabled (replicate 6 (ExecMsg [])) False 1)"
  by (simp add: maxNestedMsgs_def GetMessages_def numeral_eq_Suc)

section \<open>The gas of signatures\<close>

fun keySignatures :: "PubKey \<Rightarrow> SigData \<Rightarrow> nat" and multiSignatures :: "PubKey list \<Rightarrow> bool list \<Rightarrow> SigData list \<Rightarrow> nat" where
  "keySignatures EthSecp256k1Key sig = 1"
| "keySignatures (MultisigKey keys) (MultiSig bits sigs) = multiSignatures keys bits sigs"
| "keySignatures _ _ = 0"
| "multiSignatures (key # keys) (True # bits) (sig # sigs) = keySignatures key sig + multiSignatures keys bits sigs"
| "multiSignatures keys (False # bits) sigs = multiSignatures (tl keys) bits sigs"
| "multiSignatures _ _ _ = 0"

text \<open>
  A signature that is accepted consumes the cost of one Ethereum key for every key that signed, and nothing else.
\<close>

definition unlimited :: "u64 \<Rightarrow> u64 \<Rightarrow> panic + u64" where
  "unlimited amount consumed = Inr (consumed + amount)"

lemma signature_gas:
  "consume = unlimited \<Longrightarrow> SigVerificationGasConsumer consume c key sig meter = Inr meter' \<Longrightarrow>
      meter' = meter + Secp256k1VerifyCost * of_nat (keySignatures key sig)"
  "consume = unlimited \<Longrightarrow> ConsumeMultisignatureVerificationGas consume c keys bits sigs meter = Inr meter' \<Longrightarrow>
      meter' = meter + Secp256k1VerifyCost * of_nat (multiSignatures keys bits sigs)"
  by (induction consume c key sig meter and consume c keys bits sigs meter arbitrary: meter' and meter'
      rule: SigVerificationGasConsumer_ConsumeMultisignatureVerificationGas.induct)
    (fastforce simp: unlimited_def algebra_simps)+

section \<open>Reference instance\<close>

text \<open>The decorators of the SDK let every transaction pass, and account 3 pays.\<close>

definition ref_pass :: "(ledger, amounts, 'w) AnteHandler" where
  "ref_pass cx tx es = Inr (cx, tx, es)"

definition ref_coin_list :: "amounts \<Rightarrow> (string \<times> int) list" where
  "ref_coin_list c = map (\<lambda>(d, n). (d, int n)) c"

definition ref_any_gte :: "amounts \<Rightarrow> amounts \<Rightarrow> bool" where
  "ref_any_gte a c \<longleftrightarrow> c = [] \<or> (\<exists>(d, n) \<in> set c. 0 < n \<and> n \<le> ref_amount a d)"

definition ref_ceil :: "dec \<Rightarrow> dec" where
  "ref_ceil d = - ((- d) div dec_one) * dec_one"

definition ref_cosmos :: "(ledger, amounts, 'w) CosmosLib" where
  "ref_cosmos =
     \<lparr>CoinList = ref_coin_list, IsAnyGTE = ref_any_gte, DCeil = ref_ceil, FeePayer = (\<lambda>_. 3), FeeGranter = (\<lambda>_. None),
      UseGrantedFees = None, SdkSetUpContext = ref_pass, SdkExtensionOptions = (\<lambda>_. ref_pass), SdkValidateBasic = ref_pass,
      SdkTxTimeoutHeight = ref_pass, SdkValidateMemo = ref_pass, SdkConsumeGasForTxSize = ref_pass, SdkSetPubKey = ref_pass,
      SdkValidateSigCount = ref_pass, SdkSigGasConsume = (\<lambda>_. ref_pass), SdkSigVerification = ref_pass,
      SdkIncrementSequence = ref_pass, RedundantRelay = ref_pass, LegacyEip712SigVerification = ref_pass\<rparr>"

interpretation ref_cosmos: cosmos_ante "ref_module hooks" ref_ante ref_cosmos
  by unfold_locales (simp_all add: ref_cosmos_def)

definition ref_cosmos_tx :: "AnteMsg list \<Rightarrow> amounts AnteTx" where
  "ref_cosmos_tx msgs = (ref_ante_tx [])\<lparr>txMsgs := msgs, txExtensions := [DynamicFeeTxOption (Some 1)],
     txFeeAmount := [(''aevmos'', 100)], txFeeGas := 20\<rparr>"

lemma ref_cosmos_accepts:
  "\<not> isl (NewAnteHandler ref_cosmos ref_ante ref_keeper ref_evm_block 0 (\<lambda>_. True) ref_deliver
      (ref_cosmos_tx [ExecMsg [Some (OtherMsg ''/cosmos.bank.v1beta1.MsgSend'')]]) ref_evm_state)"
  by code_simp

theorem ethereum_messages_contained_witness:
  "\<exists>R. NewAnteHandler ref_cosmos ref_ante ref_keeper ref_evm_block 0 (\<lambda>_. True) ref_deliver
      (ref_cosmos_tx [ExecMsg [Some (OtherMsg ''/cosmos.bank.v1beta1.MsgSend'')]]) ref_evm_state = Inr R \<and>
    inside (OtherMsg ''/cosmos.bank.v1beta1.MsgSend'') (ExecMsg [Some (OtherMsg ''/cosmos.bank.v1beta1.MsgSend'')]) (Suc 0) \<and>
    MsgTypeURL (OtherMsg ''/cosmos.bank.v1beta1.MsgSend'') \<notin> {MsgEthereumTxURL, MsgCreateVestingAccountURL}"
proof -
  obtain R where R: "NewAnteHandler ref_cosmos ref_ante ref_keeper ref_evm_block 0 (\<lambda>_. True) ref_deliver
      (ref_cosmos_tx [ExecMsg [Some (OtherMsg ''/cosmos.bank.v1beta1.MsgSend'')]]) ref_evm_state = Inr R"
    using ref_cosmos_accepts by (metis isl_def obj_sumE)
  have i: "inside (OtherMsg ''/cosmos.bank.v1beta1.MsgSend'') (ExecMsg [Some (OtherMsg ''/cosmos.bank.v1beta1.MsgSend'')]) (Suc 0)"
    by (auto intro: inside.intros)
  have "MsgTypeURL (OtherMsg ''/cosmos.bank.v1beta1.MsgSend'') \<notin> {MsgEthereumTxURL, MsgCreateVestingAccountURL}"
    using ethereum_messages_contained [OF R _ i] by (auto simp: ref_cosmos_tx_def ref_ante_tx_def)
  with R i show ?thesis by blast
qed

lemma ref_cosmos_fee:
  "case DeductFeeDecorator ref_cosmos ref_ante ref_keeper ref_evm_block ref_deliver (ref_cosmos_tx []) ref_evm_state of
     Inl _ \<Rightarrow> False | Inr (_, _, es) \<Rightarrow> balanceOf ref_keeper es 3 ''aevmos'' = 110"
  by code_simp

theorem cosmos_fee_deducted_witness:
  "\<exists>cx' tx' es' price. DeductFeeDecorator ref_cosmos ref_ante ref_keeper ref_evm_block ref_deliver (ref_cosmos_tx []) ref_evm_state =
      Inr (cx', tx', es') \<and> 1 \<le> price \<and> price * 20 \<le> 100 \<and> balanceOf ref_keeper es' 3 ''aevmos'' = 150 - price * 20 \<and> price = 2"
proof -
  obtain cx' tx' es' where run: "DeductFeeDecorator ref_cosmos ref_ante ref_keeper ref_evm_block ref_deliver (ref_cosmos_tx [])
      ref_evm_state = Inr (cx', tx', es')" and paid: "balanceOf ref_keeper es' 3 ''aevmos'' = 110"
    using ref_cosmos_fee by (auto split: sum.splits)
  have facts: "anteBaseFee ref_keeper ref_evm_block ref_evm_state = Some 1" "\<not> acSimulate ref_deliver" "0 < bHeight ref_evm_block"
    "pEvmDenom (ev_GetParams ref_evm_state) = ''aevmos''" "balanceOf ref_keeper ref_evm_state 3 ''aevmos'' = 150"
    "AmountOf (kCoins ref_keeper) (txFeeAmount (ref_cosmos_tx [])) ''aevmos'' = 100" by code_simp+
  have gas: "uint (txFeeGas (ref_cosmos_tx [])) = 20" by (simp add: ref_cosmos_tx_def)
  have payer: "FeePayer ref_cosmos (ref_cosmos_tx []) = 3" "FeeGranter ref_cosmos (ref_cosmos_tx []) = None" by (simp_all add: ref_cosmos_def)
  obtain price where p: "1 \<le> price" "price * 20 \<le> 100" and b: "\<forall>z e. balanceOf ref_keeper es' z e = balanceOf ref_keeper ref_evm_state z e +
      (if e = ''aevmos'' then at_addr (collector ref_keeper) z (price * 20) - at_addr 3 z (price * 20) else 0)"
    using cosmos_fee_deducted [OF ref_cosmos.cosmos_ante_axioms run facts(2,3,1)] unfolding gas payer facts(4,6) by auto
  have "balanceOf ref_keeper es' 3 ''aevmos'' = 150 - price * 20" using b facts(5) ref_collector(2) by (simp add: at_addr_def)
  moreover from this paid have "price = 2" by simp
  ultimately show ?thesis using run p by auto
qed

definition ref_vesting :: "amounts ClawbackVestingAccount" where
  "ref_vesting = ref_account\<lparr>base := (base ref_account)\<lparr>OriginalVesting := [(''aevmos'', 12)]\<rparr>,
     VestingPeriods := [\<lparr>Length = 5, Amount = [(''aevmos'', 3)]\<rparr>, \<lparr>Length = 15, Amount = [(''aevmos'', 9)]\<rparr>]\<rparr>"

definition ref_delegator :: "(ledger, unit) EvmState" where
  "ref_delegator = setSdk ((sdkState (esEvm ref_evm_state))\<lparr>lAccounts := (\<lambda>a. if a = 2 then Some (ClawbackAcc ref_vesting) else None)\<rparr>) ref_evm_state"

lemma ref_delegation_passes:
  "\<not> isl (VestingDelegation ref_keeper (ref_evm_block\<lparr>bTime := timeUnix 16\<rparr>) ref_deliver (ref_cosmos_tx [ExecMsg [Some (DelegateMsg [2] 3)]]) ref_delegator)"
  "isl (VestingDelegation ref_keeper (ref_evm_block\<lparr>bTime := timeUnix 16\<rparr>) ref_deliver (ref_cosmos_tx [ExecMsg [Some (DelegateMsg [2] 4)]]) ref_delegator)"
  by code_simp+



section \<open>Claiming staking rewards for a fee\<close>

text \<open>
  \<^verbatim>\<open>app/ante/utils/claim_rewards.go\<close>.  The delegations of an account and the withdrawal of the rewards of one of them are
  those of the staking and distribution modules.  A result is the state that \<^verbatim>\<open>writeFn\<close> commits; with an error nothing is written.
\<close>

record ('x, 'c, 'v) Distribution =
  Delegations :: "'x \<Rightarrow> address \<Rightarrow> 'v list"
  WithdrawDelegationRewards :: "'x \<Rightarrow> address \<Rightarrow> 'v \<Rightarrow> string + 'c \<times> 'x"

fun withdrawLoop ::
    "'c Coins \<Rightarrow> ('x, 'c, 'v) Distribution \<Rightarrow> address \<Rightarrow> string \<times> int \<Rightarrow> 'v list \<Rightarrow> 'c \<Rightarrow> 'x \<Rightarrow> string + 'c \<times> 'x" where
  "withdrawLoop C D addr amount [] rewards x = Inr (rewards, x)"
| "withdrawLoop C D addr amount (v # vs) rewards x =
     rbind (WithdrawDelegationRewards D x addr v) (\<lambda>(reward, x).
       let rewards = CAdd C rewards reward in
       if AmountOf C rewards (fst amount) \<ge> snd amount then Inr (rewards, x)
       else withdrawLoop C D addr amount vs rewards x)"

definition ClaimSufficientStakingRewards ::
    "'c Coins \<Rightarrow> ('x, 'c, 'v) Distribution \<Rightarrow> address \<Rightarrow> string \<times> int \<Rightarrow> 'x \<Rightarrow> string + 'x" where
  "ClaimSufficientStakingRewards C D addr amount x =
     rbind (withdrawLoop C D addr amount (Delegations D x addr) (NilCoins C) x) (\<lambda>(rewards, x').
       if AmountOf C rewards (fst amount) < snd amount then Inl ''insufficient staking rewards to cover transaction fees''
       else Inr x')"

definition ClaimStakingRewardsIfNecessary ::
    "('x, 'c, 'w) CosmosLib \<Rightarrow> 'c Coins \<Rightarrow> ('x, 'c) Keepers \<Rightarrow> ('x, 'c, 'v) Distribution \<Rightarrow> address \<Rightarrow> 'c \<Rightarrow> 'x \<Rightarrow> string + 'x" where
  "ClaimStakingRewardsIfNecessary S C K D addr amount x =
     (let stakingDenom = BondDenom K x in
      case map_of (CoinList S amount) stakingDenom of
        None \<Rightarrow> Inl ''wrong fee denomination''
      | Some n \<Rightarrow>
          let balance = BankBalance K x addr stakingDenom in
          if balance < 0 then Inl ''balance is negative''
          else if n \<le> balance then Inr x
          else ClaimSufficientStakingRewards C D addr (stakingDenom, n - balance) x)"

text \<open>The distribution module pays the rewards it reports to the delegator and to nobody else.\<close>

locale distribution = sdk_coins C for C :: "'c Coins" +
  fixes K :: "('x, 'c) Keepers" and D :: "('x, 'c, 'v) Distribution"
  assumes Withdraw_law: "WithdrawDelegationRewards D x a v = Inr (reward, x') \<Longrightarrow>
    BankBalance K x' a d = BankBalance K x a d + AmountOf C reward d"
begin

lemma withdrawLoop_pays:
  "withdrawLoop C D a amount vs rewards x = Inr (rewards', x') \<Longrightarrow>
    BankBalance K x' a d = BankBalance K x a d + AmountOf C rewards' d - AmountOf C rewards d"
proof (induction vs arbitrary: rewards x)
  case (Cons v vs)
  then obtain reward y where y: "WithdrawDelegationRewards D x a v = Inr (reward, y)" by auto
  from Cons.prems show ?case
  proof (cases "AmountOf C (CAdd C rewards reward) (fst amount) \<ge> snd amount")
    case True
    with Cons.prems y show ?thesis using Withdraw_law [OF y, of d] by (auto simp: AmountOf_Add)
  next
    case False
    with Cons.prems y have "withdrawLoop C D a amount vs (CAdd C rewards reward) y = Inr (rewards', x')" by simp
    from Cons.IH [OF this] Withdraw_law [OF y, of d] show ?thesis by (simp add: AmountOf_Add)
  qed
qed simp

lemma rewards_cover:
  assumes "ClaimStakingRewardsIfNecessary S C K D a amount x = Inr x'"
  shows "\<exists>n. map_of (CoinList S amount) (BondDenom K x) = Some n \<and> n \<le> BankBalance K x' a (BondDenom K x)"
proof -
  let ?d = "BondDenom K x"
  obtain n where n: "map_of (CoinList S amount) ?d = Some n"
    using assms by (auto simp: ClaimStakingRewardsIfNecessary_def Let_def split: option.splits)
  show ?thesis
  proof (cases "n \<le> BankBalance K x a ?d")
    case True
    with assms n show ?thesis by (auto simp: ClaimStakingRewardsIfNecessary_def Let_def split: if_splits)
  next
    case False
    with assms n have "ClaimSufficientStakingRewards C D a (?d, n - BankBalance K x a ?d) x = Inr x'"
      by (auto simp: ClaimStakingRewardsIfNecessary_def Let_def split: if_splits)
    then obtain rewards where r: "withdrawLoop C D a (?d, n - BankBalance K x a ?d) (Delegations D x a) (NilCoins C) x = Inr (rewards, x')"
      "n - BankBalance K x a ?d \<le> AmountOf C rewards ?d"
      by (auto simp: ClaimSufficientStakingRewards_def split: if_splits)
    from withdrawLoop_pays [OF r(1), of ?d] r(2) n show ?thesis by (simp add: AmountOf_Nil)
  qed
qed

end

text \<open>
  A fee that is claimed for is covered: when the function succeeds, the account has at least the fee in the staking denomination.
\<close>

theorem claimed_rewards_cover_fee:
  assumes "distribution C K D" "ClaimStakingRewardsIfNecessary S C K D a amount x = Inr x'"
  shows "\<exists>n. map_of (CoinList S amount) (BondDenom K x) = Some n \<and> n \<le> BankBalance K x' a (BondDenom K x)"
  using distribution.rewards_cover [OF assms] .

text \<open>One delegation with a reward of ten coins, paid from nowhere into the ledger.\<close>

definition ref_withdraw :: "ledger \<Rightarrow> address \<Rightarrow> unit \<Rightarrow> string + amounts \<times> ledger" where
  "ref_withdraw x a v = Inr ([(''aevmos'', 10)], ref_credit a [(''aevmos'', 10)] x)"

definition ref_distribution :: "(ledger, amounts, unit) Distribution" where
  "ref_distribution = \<lparr>Delegations = (\<lambda>_ _. [(), ()]), WithdrawDelegationRewards = ref_withdraw\<rparr>"

interpretation ref_distribution: distribution ref_coins "ref_keepers keccak blocked bond" ref_distribution
  by unfold_locales (auto simp: ref_distribution_def ref_withdraw_def ref_keepers_def ref_credit_def ref_coins_def ref_amount_pointwise ref_amount_append)

theorem claimed_rewards_cover_fee_witness:
  "\<exists>x'. ClaimStakingRewardsIfNecessary (ref_cosmos :: (ledger, amounts, unit) CosmosLib) ref_coins (ref_keepers (\<lambda>_. 0) (\<lambda>_. False) ''aevmos'') ref_distribution 3
      [(''aevmos'', 165)] (sdkState (esEvm ref_evm_state)) = Inr x' \<and>
    165 \<le> BankBalance (ref_keepers (\<lambda>_. 0) (\<lambda>_. False) ''aevmos'') x' 3 ''aevmos''"
proof -
  have "\<not> isl (ClaimStakingRewardsIfNecessary (ref_cosmos :: (ledger, amounts, unit) CosmosLib) ref_coins (ref_keepers (\<lambda>_. 0) (\<lambda>_. False) ''aevmos'') ref_distribution 3
      [(''aevmos'', 165)] (sdkState (esEvm ref_evm_state)))" by code_simp
  then obtain x' where x': "ClaimStakingRewardsIfNecessary (ref_cosmos :: (ledger, amounts, unit) CosmosLib) ref_coins (ref_keepers (\<lambda>_. 0) (\<lambda>_. False) ''aevmos'')
      ref_distribution 3 [(''aevmos'', 165)] (sdkState (esEvm ref_evm_state)) = Inr x'" by (metis isl_def obj_sumE)
  have "165 \<le> BankBalance (ref_keepers (\<lambda>_. 0) (\<lambda>_. False) ''aevmos'') x' 3 ''aevmos''"
    using claimed_rewards_cover_fee [OF ref_distribution.distribution_axioms x']
    by (simp add: ref_cosmos_def ref_coin_list_def) (simp add: ref_keepers_def)
  with x' show ?thesis by blast
qed

end
