(* ===== verification/Evm_Query.thy ===== *)
theory Evm_Query
  imports Evm_Transition Revenue
begin

text \<open>
  Calls and queries of the EVM module: \<^verbatim>\<open>x/evm/types/tx_args.go\<close>, \<^verbatim>\<open>x/evm/keeper/grpc_query.go\<close> without the tracing
  queries, and the genesis of \<^verbatim>\<open>x/evm/genesis.go\<close> with its validation.  The JSON of the arguments is decoded outside: a
  request holds the decoded arguments or the error.  The properties: the gas estimate always returns, and what it returns
  executes; the exported genesis restores code and storage.
\<close>

section \<open>Transaction arguments\<close>

record TransactionArgs =
  taFrom :: "address option"
  taTo :: "address option"
  taGas :: "u64 option"
  taGasPrice :: "int option"
  taMaxFeePerGas :: "int option"
  taMaxPriorityFeePerGas :: "int option"
  taValue :: "int option"
  taNonce :: "u64 option"
  taData :: "bytes option"
  taInput :: "bytes option"
  taAccessList :: "accesses option"
  taChainID :: "int option"

definition ta_GetFrom :: "TransactionArgs \<Rightarrow> address" where
  "ta_GetFrom args = (case taFrom args of None \<Rightarrow> 0 | Some a \<Rightarrow> a)"

definition ta_GetData :: "TransactionArgs \<Rightarrow> bytes" where
  "ta_GetData args = (case taInput args of Some d \<Rightarrow> d | None \<Rightarrow> (case taData args of Some d \<Rightarrow> d | None \<Rightarrow> []))"

definition ToMessage :: "u64 \<Rightarrow> int option \<Rightarrow> TransactionArgs \<Rightarrow> string + Message" where
  "ToMessage globalGasCap baseFee args =
     (if taGasPrice args \<noteq> None \<and> (taMaxFeePerGas args \<noteq> None \<or> taMaxPriorityFeePerGas args \<noteq> None)
      then Inl ''both gasPrice and (maxFeePerGas or maxPriorityFeePerGas) specified''
      else
        let gas = (if globalGasCap = 0 then 2 ^ 63 - 1 else globalGasCap);
            gas = (case taGas args of Some g \<Rightarrow> g | None \<Rightarrow> gas);
            gas = (if globalGasCap \<noteq> 0 \<and> globalGasCap < gas then globalGasCap else gas);
            orZero = (\<lambda>v :: int option. case v of None \<Rightarrow> 0 | Some n \<Rightarrow> n);
            (gasPrice, gasFeeCap, gasTipCap) =
              (case baseFee of
                 None \<Rightarrow> (let p = orZero (taGasPrice args) in (p, p, p))
               | Some f \<Rightarrow>
                   (case taGasPrice args of
                      Some p \<Rightarrow> (p, p, p)
                    | None \<Rightarrow>
                        let feeCap = orZero (taMaxFeePerGas args); tipCap = orZero (taMaxPriorityFeePerGas args) in
                        (if feeCap \<noteq> 0 \<or> tipCap \<noteq> 0 then min (tipCap + f) feeCap else 0, feeCap, tipCap)))
        in Inr \<lparr>mFrom = ta_GetFrom args, mTo = taTo args, mNonce = (case taNonce args of None \<Rightarrow> 0 | Some n \<Rightarrow> n),
                mValue = orZero (taValue args), mGas = gas, mGasPrice = gasPrice, mGasFeeCap = gasFeeCap,
                mGasTipCap = gasTipCap, mData = ta_GetData args,
                mAccessList = Some (case taAccessList args of None \<Rightarrow> [] | Some al \<Rightarrow> al)\<rparr>)"

text \<open>
  \<^verbatim>\<open>ToTransaction\<close>.  A missing number becomes a pointer to an empty \<^verbatim>\<open>sdkmath.Int\<close>, whose \<^verbatim>\<open>BigInt\<close> is nil like that of a nil pointer.
\<close>

definition argInt :: "Decs \<Rightarrow> int option \<Rightarrow> panic + int option" where
  "argInt D v = (case v of None \<Rightarrow> Inr None | Some n \<Rightarrow> rbind (NewIntFromBigInt D n) (\<lambda>i. Inr (Some i)))"

definition ToTransaction :: "Decs \<Rightarrow> EthLib \<Rightarrow> TxLib \<Rightarrow> TransactionArgs \<Rightarrow> panic + MsgEthereumTx" where
  "ToTransaction D H X args =
     rbind (argInt D (taChainID args)) (\<lambda>chainID.
     rbind (argInt D (taGasPrice args)) (\<lambda>gasPrice.
     rbind (argInt D (taMaxFeePerGas args)) (\<lambda>maxFeePerGas.
     rbind (argInt D (taMaxPriorityFeePerGas args)) (\<lambda>maxPriorityFeePerGas.
     rbind (argInt D (taValue args)) (\<lambda>value.
       let nonce = (case taNonce args of None \<Rightarrow> 0 | Some n \<Rightarrow> n); gas = (case taGas args of None \<Rightarrow> 0 | Some g \<Rightarrow> g);
           to = (case taTo args of None \<Rightarrow> '''' | Some a \<Rightarrow> AddressHex H a);
           data =
             (if taMaxFeePerGas args \<noteq> None then
                DynamicFee \<lparr>dtChainID = chainID, dtNonce = nonce, dtGasTipCap = maxPriorityFeePerGas, dtGasFeeCap = maxFeePerGas,
                  dtGasLimit = gas, dtTo = to, dtAmount = value, dtData = ta_GetData args,
                  dtAccesses = (case taAccessList args of None \<Rightarrow> Some [] | Some al \<Rightarrow> NewAccessList H (Some al)),
                  dtV = [], dtR = [], dtS = []\<rparr>
              else if taAccessList args \<noteq> None then
                AccessListed \<lparr>atChainID = chainID, atNonce = nonce, atGasPrice = gasPrice, atGasLimit = gas, atTo = to, atAmount = value,
                  atData = ta_GetData args, atAccesses = NewAccessList H (taAccessList args), atV = [], atR = [], atS = []\<rparr>
              else
                Legacy \<lparr>ltNonce = nonce, ltGasPrice = gasPrice, ltGasLimit = gas, ltTo = to, ltAmount = value,
                  ltData = ta_GetData args, ltV = [], ltR = [], ltS = []\<rparr>);
           tx = NewEthTx X (td_AsEthereumData H data)
       in Inr \<lparr>meData = Some data, meSized = False, meHash = HashHex H (TxHashOf X tx),
               meFrom = (case taFrom args of None \<Rightarrow> '''' | Some a \<Rightarrow> AddressHex H a)\<rparr>)))))"

section \<open>Calls and the gas estimate\<close>

record EthCallRequest =
  ecArgs :: "string + TransactionArgs"
  ecGasCap :: u64
  ecProposerAddress :: bytes
  ecChainId :: int

text \<open>The chain identifier of the context is given by what \<^verbatim>\<open>ParseChainID\<close> makes of it.\<close>

definition getChainID :: "string + int \<Rightarrow> int \<Rightarrow> string + int" where
  "getChainID parsed chainID = (if chainID = 0 then parsed else Inr chainID)"

definition emptyTxConfig :: "EvmBlock \<Rightarrow> TxConfig" where
  "emptyTxConfig b = NewEmptyTxConfig (case bHeaderHash b of None \<Rightarrow> 0 | Some h \<Rightarrow> h)"

definition EthCall ::
    "('x, 'c, 'w) EvmKeeper \<Rightarrow> EvmBlock \<Rightarrow> string + int \<Rightarrow> EthCallRequest \<Rightarrow> ('x, 'w) EvmState \<Rightarrow> failure + EvmTxResponse" where
  "EthCall k b parsed req es =
     rbind (failing (ecArgs req)) (\<lambda>args.
     rbind (failing (getChainID parsed (ecChainId req))) (\<lambda>chainID.
     rbind (failing (ev_EVMConfig (kEth k) (kCore k) (kStaking k) b (GetProposerAddress b (ecProposerAddress req)) (Some chainID) es)) (\<lambda>cfg.
       let nonce = ek_GetNonce (kSdk k) (esEvm es) (ta_GetFrom args) in
       rbind (failing (ToMessage (ecGasCap req) (cfgBaseFee cfg) (args\<lparr>taNonce := Some nonce\<rparr>))) (\<lambda>msg.
       rbind (ApplyMessageWithConfig k b msg False cfg (emptyTxConfig b) es) (\<lambda>(res, _). Inr res)))))"

definition TxGas :: u64 where "TxGas = 21000"

definition estimateCap :: "EvmBlock \<Rightarrow> u64 \<Rightarrow> TransactionArgs \<Rightarrow> u64" where
  "estimateCap b reqCap args =
     (let fromBlock = (case bMaxGas b of Some (Some maxGas) \<Rightarrow> if maxGas > 0 then word_of_int maxGas else reqCap | _ \<Rightarrow> reqCap);
          hi = (case taGas args of Some g \<Rightarrow> if g \<ge> TxGas then g else fromBlock | None \<Rightarrow> fromBlock)
      in if reqCap \<noteq> 0 \<and> hi > reqCap then reqCap else hi)"

text \<open>
  The closure \<^verbatim>\<open>executable\<close>: whether the execution with this gas limit fails, and the response when there is one.  A gas limit below the intrinsic
  gas counts as a failure without response.
\<close>

definition tryGas ::
    "('x, 'c, 'w) EvmKeeper \<Rightarrow> EvmBlock \<Rightarrow> EVMConfig \<Rightarrow> Message \<Rightarrow> ('x, 'w) EvmState \<Rightarrow> u64 \<Rightarrow>
      failure + bool \<times> EvmTxResponse option" where
  "tryGas k b cfg msg es gas =
     (case ApplyMessageWithConfig k b (msg\<lparr>mGas := gas\<rparr>) False cfg (emptyTxConfig b) es of
        Inl e \<Rightarrow> if e = Err ''intrinsic gas too low'' then Inr (True, None) else Inl e
      | Inr (rsp, _) \<Rightarrow> Inr (resVmError rsp \<noteq> '''', Some rsp))"

text \<open>The texts of the two errors of the interpreter that the estimate tells apart.\<close>

record VmErrors =
  errOutOfGas :: string
  errExecutionReverted :: string

definition confirmGas ::
    "VmErrors \<Rightarrow> ('x, 'c, 'w) EvmKeeper \<Rightarrow> EvmBlock \<Rightarrow> EVMConfig \<Rightarrow> Message \<Rightarrow> u64 \<Rightarrow> ('x, 'w) EvmState \<Rightarrow> u64 \<Rightarrow> failure + u64" where
  "confirmGas E k b cfg msg gasCap es hi =
     (if hi = gasCap then
        rbind (tryGas k b cfg msg es hi) (\<lambda>(failed, result).
          if failed then
            (case result of
               Some r \<Rightarrow>
                 if resVmError r \<noteq> errOutOfGas E then
                   (if resVmError r = errExecutionReverted E then Inl (Err ''execution reverted'') else Inl (Err (resVmError r)))
                 else Inl (Err ''gas required exceeds allowance'')
             | None \<Rightarrow> Inl (Err ''gas required exceeds allowance''))
          else Inr hi)
      else Inr hi)"

definition searchGas ::
    "VmErrors \<Rightarrow> ('x, 'c, 'w) EvmKeeper \<Rightarrow> EvmBlock \<Rightarrow> EVMConfig \<Rightarrow> Message \<Rightarrow> u64 \<Rightarrow> ('x, 'w) EvmState \<Rightarrow> (failure + u64) option" where
  "searchGas E k b cfg msg gasCap es =
     (case BinSearch (TxGas - 1) gasCap (\<lambda>gas. rbind (tryGas k b cfg msg es gas) (\<lambda>(failed, _). Inr failed)) of
        None \<Rightarrow> None
      | Some (Inl e) \<Rightarrow> Some (Inl e)
      | Some (Inr hi) \<Rightarrow> Some (confirmGas E k b cfg msg gasCap es hi))"

definition prepareEstimate ::
    "('x, 'c, 'w) EvmKeeper \<Rightarrow> EvmBlock \<Rightarrow> string + int \<Rightarrow> EthCallRequest \<Rightarrow> ('x, 'w) EvmState \<Rightarrow>
      string + TransactionArgs \<times> EVMConfig \<times> Message" where
  "prepareEstimate k b parsed req es =
     rbind (getChainID parsed (ecChainId req)) (\<lambda>chainID.
       if ecGasCap req < TxGas then Inl ''gas cap cannot be lower than 21,000''
       else rbind (ecArgs req) (\<lambda>args.
         rbind (ev_EVMConfig (kEth k) (kCore k) (kStaking k) b (GetProposerAddress b (ecProposerAddress req)) (Some chainID) es) (\<lambda>cfg.
           let nonce = ek_GetNonce (kSdk k) (esEvm es) (ta_GetFrom args) in
           rbind (ToMessage (ecGasCap req) (cfgBaseFee cfg) (args\<lparr>taNonce := Some nonce\<rparr>)) (\<lambda>msg. Inr (args, cfg, msg)))))"

definition EstimateGas ::
    "VmErrors \<Rightarrow> ('x, 'c, 'w) EvmKeeper \<Rightarrow> EvmBlock \<Rightarrow> string + int \<Rightarrow> EthCallRequest \<Rightarrow> ('x, 'w) EvmState \<Rightarrow> (failure + u64) option" where
  "EstimateGas E k b parsed req es =
     (case prepareEstimate k b parsed req es of
        Inl e \<Rightarrow> Some (Inl (Err e))
      | Inr (args, cfg, msg) \<Rightarrow> searchGas E k b cfg msg (estimateCap b (ecGasCap req) args) es)"

section \<open>The estimate returns and executes\<close>

lemma estimateCap_le: "reqCap \<noteq> 0 \<Longrightarrow> estimateCap b reqCap args \<le> reqCap"
  by (auto simp: estimateCap_def Let_def not_less)

lemma tryGas_success:
  assumes "tryGas k b cfg msg es gas = Inr (False, r)"
  shows "\<exists>rsp. r = Some rsp \<and> \<not> res_Failed rsp \<and>
    ApplyMessageWithConfig k b (msg\<lparr>mGas := gas\<rparr>) False cfg (emptyTxConfig b) es = Inr (rsp, es)"
  using assms by (auto simp: tryGas_def res_Failed_def elim: ApplyMessage_cases split: sum.splits if_splits)

lemma confirmGas_Inr:
  assumes "confirmGas E k b cfg msg gasCap es hi = Inr g" "hi = gasCap \<or> (\<exists>r. tryGas k b cfg msg es hi = Inr (False, r))"
  shows "g = hi \<and> (\<exists>rsp. tryGas k b cfg msg es hi = Inr (False, Some rsp))"
  using assms tryGas_success [of k b cfg msg es hi] by (auto simp: confirmGas_def split: if_splits option.splits)

lemma searchGas_returns:
  assumes "gasCap \<le> 2 ^ 63"
  shows "\<exists>r. searchGas E k b cfg msg gasCap es = Some r \<and>
    (\<forall>g. r = Inr g \<longrightarrow> g \<le> gasCap \<and> (\<exists>rsp. tryGas k b cfg msg es g = Inr (False, Some rsp)) \<and>
      (TxGas < g \<longrightarrow> (\<exists>r. tryGas k b cfg msg es (g - 1) = Inr (True, r))))"
proof -
  define ex where "ex = (\<lambda>gas. rbind (tryGas k b cfg msg es gas) (\<lambda>(failed, _). Inr failed))"
  have exD: "\<exists>r. tryGas k b cfg msg es g = Inr (f, r)" if "ex g = Inr f" for g f
    using that by (auto simp: ex_def)
  have search: "searchGas E k b cfg msg gasCap es = (case BinSearch (TxGas - 1) gasCap ex of
      None \<Rightarrow> None | Some (Inl e) \<Rightarrow> Some (Inl e) | Some (Inr hi) \<Rightarrow> Some (confirmGas E k b cfg msg gasCap es hi))"
    by (simp add: searchGas_def ex_def)
  have least: "TxGas < g \<longrightarrow> (\<exists>r. tryGas k b cfg msg es (g - 1) = Inr (True, r))"
    if "unat g = unat (TxGas - 1) + 1 \<or> ex (g - 1) = Inr True" for g
    using that exD by (auto simp: TxGas_def word_less_nat_alt)
  show ?thesis
  proof (cases "unat (TxGas - 1) < unat gasCap")
    case True
    have "unat gasCap \<le> 2 ^ 63" using assms by (simp add: word_le_nat_alt)
    from BinSearch_returns [OF True this, of ex]
    consider (err) e where "BinSearch (TxGas - 1) gasCap ex = Some (Inl e)"
      | (found) hi where "BinSearch (TxGas - 1) gasCap ex = Some (Inr hi)" "unat hi \<le> unat gasCap"
          "hi = gasCap \<or> ex hi = Inr False" "unat hi = unat (TxGas - 1) + 1 \<or> ex (hi - 1) = Inr True" by blast
    then show ?thesis
    proof cases
      case err
      then show ?thesis by (simp add: search)
    next
      case found
      have "hi = gasCap \<or> (\<exists>r. tryGas k b cfg msg es hi = Inr (False, r))" using found(3) exD by blast
      then show ?thesis using confirmGas_Inr [of E k b cfg msg gasCap es hi] least [OF found(4)] found(1,2)
        by (auto simp: search word_le_nat_alt)
    qed
  next
    case False
    then have "BinSearch (TxGas - 1) gasCap ex = Some (Inr gasCap)"
      by (subst BinSearch.simps) (simp add: TxGas_def word_less_nat_alt)
    moreover have "\<not> TxGas < gasCap" using False by (simp add: TxGas_def word_less_nat_alt)
    ultimately show ?thesis using confirmGas_Inr [of E k b cfg msg gasCap es gasCap] by (auto simp: search)
  qed
qed

lemma estimate_spec:
  assumes "ecGasCap req \<le> 2 ^ 63"
  shows "\<exists>r. EstimateGas E k b parsed req es = Some r \<and>
    (\<forall>g. r = Inr g \<longrightarrow> g \<le> ecGasCap req \<and>
      (\<exists>args cfg msg rsp. ecArgs req = Inr args \<and>
        ToMessage (ecGasCap req) (cfgBaseFee cfg) (args\<lparr>taNonce := Some (ek_GetNonce (kSdk k) (esEvm es) (ta_GetFrom args))\<rparr>) = Inr msg \<and>
        ApplyMessageWithConfig k b (msg\<lparr>mGas := g\<rparr>) False cfg (emptyTxConfig b) es = Inr (rsp, es) \<and> \<not> res_Failed rsp \<and>
        (TxGas < g \<longrightarrow> (\<exists>r. tryGas k b cfg msg es (g - 1) = Inr (True, r)))))"
proof (cases "prepareEstimate k b parsed req es")
  case (Inl e)
  then show ?thesis by (simp add: EstimateGas_def)
next
  case (Inr p)
  then obtain args cfg msg where p: "prepareEstimate k b parsed req es = Inr (args, cfg, msg)" by (cases p) simp
  then have a: "ecArgs req = Inr args" "ecGasCap req \<noteq> 0"
    "ToMessage (ecGasCap req) (cfgBaseFee cfg) (args\<lparr>taNonce := Some (ek_GetNonce (kSdk k) (esEvm es) (ta_GetFrom args))\<rparr>) = Inr msg"
    by (auto simp: prepareEstimate_def TxGas_def Let_def split: if_splits)
  let ?cap = "estimateCap b (ecGasCap req) args"
  have le: "?cap \<le> ecGasCap req" using a(2) by (rule estimateCap_le)
  obtain r where r: "searchGas E k b cfg msg ?cap es = Some r"
    "\<forall>g. r = Inr g \<longrightarrow> g \<le> ?cap \<and> (\<exists>rsp. tryGas k b cfg msg es g = Inr (False, Some rsp)) \<and>
      (TxGas < g \<longrightarrow> (\<exists>r. tryGas k b cfg msg es (g - 1) = Inr (True, r)))"
    using searchGas_returns [of ?cap E k b cfg msg es] le assms by (meson order_trans)
  have "EstimateGas E k b parsed req es = Some r" using p r(1) by (simp add: EstimateGas_def)
  moreover have "g \<le> ecGasCap req \<and> (\<exists>rsp. ApplyMessageWithConfig k b (msg\<lparr>mGas := g\<rparr>) False cfg (emptyTxConfig b) es = Inr (rsp, es) \<and>
      \<not> res_Failed rsp) \<and> (TxGas < g \<longrightarrow> (\<exists>r. tryGas k b cfg msg es (g - 1) = Inr (True, r)))"
    if g: "r = Inr g" for g
  proof -
    have "g \<le> ?cap" "\<exists>rsp. tryGas k b cfg msg es g = Inr (False, Some rsp)"
      "TxGas < g \<longrightarrow> (\<exists>r. tryGas k b cfg msg es (g - 1) = Inr (True, r))" using r(2) g by blast+
    then show ?thesis using le tryGas_success [of k b cfg msg es g] by (meson order_trans)
  qed
  ultimately show ?thesis using a(1,3) by (intro exI [of _ r]) blast
qed

text \<open>
  C12.  The gas estimate.  With a gas cap of at most \<open>2 ^ 63\<close> the estimate always returns.  When it returns a gas limit, the limit is within the cap, the
  message built from the arguments executes with it on the state without an error, and with one unit of gas less, as long as
  that is at least the cost of a transaction, it fails.
\<close>

theorem estimate_executes:
  assumes "ecGasCap req \<le> 2 ^ 63"
  shows "\<exists>r. EstimateGas E k b parsed req es = Some r \<and>
    (\<forall>g. r = Inr g \<longrightarrow> g \<le> ecGasCap req \<and>
      (\<exists>args cfg msg rsp. ecArgs req = Inr args \<and>
        ToMessage (ecGasCap req) (cfgBaseFee cfg) (args\<lparr>taNonce := Some (ek_GetNonce (kSdk k) (esEvm es) (ta_GetFrom args))\<rparr>) = Inr msg \<and>
        ApplyMessageWithConfig k b (msg\<lparr>mGas := g\<rparr>) False cfg (emptyTxConfig b) es = Inr (rsp, es) \<and> \<not> res_Failed rsp \<and>
        (TxGas < g \<longrightarrow> (\<exists>r. tryGas k b cfg msg es (g - 1) = Inr (True, r)))))"
  using assms by (rule estimate_spec)

section \<open>Queries of accounts\<close>

text \<open>The requests are not nil; amounts and numbers are left unprinted.\<close>

definition q_Account :: "('x, 'c, 'w) EvmKeeper \<Rightarrow> string \<Rightarrow> ('x, 'w) EvmState \<Rightarrow> string + AccountArg" where
  "q_Account k address es =
     (case ValidateAddress (kEth k) address of
        Some e \<Rightarrow> Inl e
      | None \<Rightarrow> Inr (ek_GetAccountOrEmpty (kSdk k) (kKeccak k) (esEvm es) (HexToAddress (kEth k) address)))"

definition q_CosmosAccount ::
    "Bech32 \<Rightarrow> ('x, 'c, 'w) EvmKeeper \<Rightarrow> string \<Rightarrow> ('x, 'w) EvmState \<Rightarrow> string + string \<times> u64 \<times> u64" where
  "q_CosmosAccount B k address es =
     (case ValidateAddress (kEth k) address of
        Some e \<Rightarrow> Inl e
      | None \<Rightarrow>
          let cosmosAddr = HexToAddress (kEth k) address in
          Inr (AccString B cosmosAddr,
            case GetAccount (kSdk k) (sdkState (esEvm es)) cosmosAddr of
              None \<Rightarrow> (0, 0) | Some acc \<Rightarrow> (GetSequence acc, AccountNumber (acc_base acc))))"

definition q_Balance :: "('x, 'c, 'w) EvmKeeper \<Rightarrow> string \<Rightarrow> ('x, 'w) EvmState \<Rightarrow> string + int" where
  "q_Balance k address es =
     (case ValidateAddress (kEth k) address of
        Some _ \<Rightarrow> Inl ''zero address'' | None \<Rightarrow> Inr (ek_GetBalance (kSdk k) (esEvm es) (HexToAddress (kEth k) address)))"

definition q_Storage :: "('x, 'c, 'w) EvmKeeper \<Rightarrow> string \<Rightarrow> string \<Rightarrow> ('x, 'w) EvmState \<Rightarrow> string + string" where
  "q_Storage k address key es =
     (case ValidateAddress (kEth k) address of
        Some _ \<Rightarrow> Inl ''zero address''
      | None \<Rightarrow> Inr (HashHex (kEth k) (ek_GetState (esEvm es) (HexToAddress (kEth k) address) (HexToHash (kEth k) key))))"

definition q_Code :: "('x, 'c, 'w) EvmKeeper \<Rightarrow> string \<Rightarrow> ('x, 'w) EvmState \<Rightarrow> string + bytes option" where
  "q_Code k address es =
     (case ValidateAddress (kEth k) address of
        Some _ \<Rightarrow> Inl ''zero address''
      | None \<Rightarrow>
          (case ek_GetAccountWithoutBalance (kSdk k) (kKeccak k) (esEvm es) (HexToAddress (kEth k) address) of
             None \<Rightarrow> Inr None
           | Some acct \<Rightarrow>
               Inr (if arg_IsContract (kKeccak k) acct
                    then ek_GetCode (esEvm es) (case argCodeHash acct of None \<Rightarrow> 0 | Some h \<Rightarrow> h) else None)))"

definition q_BaseFee :: "('x, 'c, 'w) EvmKeeper \<Rightarrow> EvmBlock \<Rightarrow> ('x, 'w) EvmState \<Rightarrow> panic + int option" where
  "q_BaseFee k b es =
     (let ethCfg = EthereumConfig (kEth k) (pChainConfig (ev_GetParams es)) (kChainID k) in
      case ev_GetBaseFee (kCore k) b ethCfg es of
        None \<Rightarrow> Inr None | Some f \<Rightarrow> rbind (NewIntFromBigInt (kDec k) f) (\<lambda>i. Inr (Some i)))"

section \<open>Genesis\<close>

text \<open>
  \<^verbatim>\<open>Hex2Bytes\<close> and \<^verbatim>\<open>Bytes2Hex\<close> of go-ethereum and the account iterator of the auth keeper are parameters; the
  addresses of module accounts are set in this model, so the check for the one of the EVM module cannot fail.
\<close>

record HexCodec =
  Hex2Bytes :: "string \<Rightarrow> bytes"
  Bytes2Hex :: "bytes \<Rightarrow> string"

record GenesisAccount =
  gaAddress :: string
  gaCode :: string
  gaStorage :: "(string \<times> string) list"

record EvmGenesis =
  geAccounts :: "GenesisAccount list"
  geParams :: EvmParams

definition NewState :: "EthLib \<Rightarrow> hash \<Rightarrow> hash \<Rightarrow> string \<times> string" where
  "NewState H key value = (HashHex H key, HashHex H value)"

definition st_Validate :: "string \<times> string \<Rightarrow> string option" where
  "st_Validate s = (if TrimSpace (fst s) = '''' then Some ''state key hash cannot be blank'' else None)"

fun storage_Validate :: "string list \<Rightarrow> (string \<times> string) list \<Rightarrow> string option" where
  "storage_Validate known [] = None"
| "storage_Validate known (s # rest) =
     (if fst s \<in> set known then Some ''duplicate state key''
      else case st_Validate s of Some e \<Rightarrow> Some e | None \<Rightarrow> storage_Validate (fst s # known) rest)"

definition ga_Validate :: "EthLib \<Rightarrow> GenesisAccount \<Rightarrow> string option" where
  "ga_Validate H ga =
     (case ValidateAddress H (gaAddress ga) of Some e \<Rightarrow> Some e | None \<Rightarrow> storage_Validate [] (gaStorage ga))"

fun accounts_Validate :: "EthLib \<Rightarrow> string list \<Rightarrow> GenesisAccount list \<Rightarrow> string option" where
  "accounts_Validate H known [] = None"
| "accounts_Validate H known (acc # rest) =
     (if gaAddress acc \<in> set known then Some ''duplicated genesis account''
      else case ga_Validate H acc of Some e \<Rightarrow> Some e | None \<Rightarrow> accounts_Validate H (gaAddress acc # known) rest)"

definition ge_Validate :: "EthLib \<Rightarrow> EthCore \<Rightarrow> (string \<Rightarrow> string option) \<Rightarrow> EvmGenesis \<Rightarrow> string option" where
  "ge_Validate H G validateDenom gs =
     (case accounts_Validate H [] (geAccounts gs) of Some e \<Rightarrow> Some e | None \<Rightarrow> ev_Validate H G validateDenom (geParams gs))"

definition importAccount ::
    "HexCodec \<Rightarrow> ('x, 'c, 'w) EvmKeeper \<Rightarrow> GenesisAccount \<Rightarrow> ('x, 'w) EvmState \<Rightarrow> panic + ('x, 'w) EvmState" where
  "importAccount X k acc es =
     (let address = HexToAddress (kEth k) (gaAddress acc) in
      case GetAccount (kSdk k) (sdkState (esEvm es)) address of
        None \<Rightarrow> Inl (Panic ''account not found for address'')
      | Some (EthAcc ethAcct) \<Rightarrow>
          let code = Hex2Bytes X (gaCode acc); codeHash = kKeccak k code in
          if gaCode acc \<noteq> [] \<and> EthGetCodeHash ethAcct \<noteq> codeHash
          then Inl (Panic ''the evm state code doesn't match with the codehash'')
          else let cx = ek_SetCode (esEvm es) codeHash (Some code) in
            Inr (es\<lparr>esEvm := fold (\<lambda>(key, value) cx. ek_SetState cx address (HexToHash (kEth k) key) (Some (HexToHash (kEth k) value)))
              (gaStorage acc) cx\<rparr>)
      | Some _ \<Rightarrow> Inl (Panic ''account must be an EthAccount interface''))"

definition evm_InitGenesis ::
    "HexCodec \<Rightarrow> (string \<Rightarrow> string option) \<Rightarrow> string + int \<Rightarrow> EvmGenesis \<Rightarrow> ('x, 'c, 'w) EvmKeeper \<Rightarrow> ('x, 'w) EvmState \<Rightarrow>
      panic + ('x, 'c, 'w) EvmKeeper \<times> ('x, 'w) EvmState" where
  "evm_InitGenesis X validateDenom parsed data k es =
     rbind (WithChainID parsed k) (\<lambda>k.
       case ev_SetParams (kEth k) (kCore k) validateDenom (geParams data) es of
         Inl _ \<Rightarrow> Inl (Panic ''error setting params'')
       | Inr es \<Rightarrow> rbind (foldM (importAccount X k) (geAccounts data) es) (\<lambda>es. Inr (k, es)))"

fun exportAccount :: "HexCodec \<Rightarrow> ('x, 'c, 'w) EvmKeeper \<Rightarrow> ('x, 'w) EvmState \<Rightarrow> 'c AccountI \<Rightarrow> GenesisAccount list" where
  "exportAccount X k es (EthAcc e) =
     [\<lparr>gaAddress = AddressHex (kEth k) (EthAddress e),
       gaCode = Bytes2Hex X (case ek_GetCode (esEvm es) (EthGetCodeHash e) of None \<Rightarrow> [] | Some c \<Rightarrow> c),
       gaStorage = map (\<lambda>(key, value). NewState (kEth k) key value) (ek_GetAccountStorage (esEvm es) (EthAddress e))\<rparr>]"
| "exportAccount X k es _ = []"

definition evm_ExportGenesis ::
    "HexCodec \<Rightarrow> ('x \<Rightarrow> 'c AccountI list) \<Rightarrow> ('x, 'c, 'w) EvmKeeper \<Rightarrow> ('x, 'w) EvmState \<Rightarrow> EvmGenesis" where
  "evm_ExportGenesis X IterateAccounts k es =
     \<lparr>geAccounts = concat (map (exportAccount X k es) (IterateAccounts (sdkState (esEvm es)))), geParams = ev_GetParams es\<rparr>"

text \<open>
  A state in which only Ethereum accounts have storage and code: the code of an account is stored under its hash and
  there is no other code and no empty code.
\<close>

definition genesis_ready :: "('x, 'c, 'w) EvmKeeper \<Rightarrow> ('x, 'w) EvmState \<Rightarrow> bool" where
  "genesis_ready k es \<longleftrightarrow>
     (\<forall>a key v. fmlookup (storageStore (esEvm es)) (a, key) = Some v \<longrightarrow>
        (\<exists>e. GetAccount (kSdk k) (sdkState (esEvm es)) a = Some (EthAcc e))) \<and>
     (\<forall>h c. fmlookup (codeStore (esEvm es)) h = Some c \<longrightarrow> c \<noteq> [] \<and> kKeccak k c = h \<and> h \<noteq> kKeccak k [] \<and>
        (\<exists>a e. GetAccount (kSdk k) (sdkState (esEvm es)) a = Some (EthAcc e) \<and> EthGetCodeHash e = h))"

definition bare :: "('x, 'w) EvmState \<Rightarrow> ('x, 'w) EvmState" where
  "bare es = es\<lparr>esEvm := (esEvm es)\<lparr>storageStore := fmempty, codeStore := fmempty\<rparr>\<rparr>"

definition loaded :: "('x, 'w) EvmState \<Rightarrow> 'c AccountI list \<Rightarrow> ('x, 'w) EvmState \<Rightarrow> bool" where
  "loaded src accs es \<longleftrightarrow>
     (\<forall>a key. fmlookup (storageStore (esEvm es)) (a, key) =
        (if \<exists>e. EthAcc e \<in> set accs \<and> EthAddress e = a then fmlookup (storageStore (esEvm src)) (a, key) else None)) \<and>
     (\<forall>h. fmlookup (codeStore (esEvm es)) h =
        (if \<exists>e. EthAcc e \<in> set accs \<and> EthGetCodeHash e = h then fmlookup (codeStore (esEvm src)) h else None))"

lemma fold_SetState:
  "fold (\<lambda>(key, value) cx. ek_SetState cx a (f key) (Some (f value))) (map (\<lambda>(key, value). (g key, g value)) kvs) cx =
     cx\<lparr>storageStore := fold (\<lambda>(key, value). fmupd (a, f (g key)) (f (g value))) kvs (storageStore cx)\<rparr>"
  by (induction kvs arbitrary: cx) (auto simp: ek_SetState_def)

lemma fold_fmupd:
  "fmlookup (fold (\<lambda>k. fmupd (a, k) (v k)) ks m) (b, key) = (if b = a \<and> key \<in> set ks then Some (v key) else fmlookup m (b, key))"
  by (induction ks arbitrary: m) auto

lemma fold_map_pairs: "fold (\<lambda>(key, value). fmupd (a, key) value) (map (\<lambda>k. (k, v k)) ks) m = fold (\<lambda>k. fmupd (a, k) (v k)) ks m"
  by (induction ks arbitrary: m) auto

lemma storage_exported:
  "fmlookup (fold (\<lambda>(key, value). fmupd (a, key) value) (ek_GetAccountStorage cx a) m) (b, key) =
     (if b = a \<and> fmlookup (storageStore cx) (a, key) \<noteq> None then fmlookup (storageStore cx) (a, key) else fmlookup m (b, key))"
  by (auto simp: ek_GetAccountStorage_def ek_ForEachStorage_def fold_map_pairs fold_fmupd storageKeys_set ek_GetState_def split: option.splits)

locale hex_codec =
  fixes X :: HexCodec
  assumes Hex_Bytes: "Hex2Bytes X (Bytes2Hex X b) = b" and Hex_empty: "Bytes2Hex X [] = []"
begin

lemma import_exported:
  assumes "eth_lib (kEth k)" "genesis_ready k src" "GetAccount (kSdk k) (sdkState (esEvm src)) (GetAddress acc) = Some acc"
    and "bare es = bare src" "loaded src accs es"
  shows "\<exists>es'. foldM (importAccount X k) (exportAccount X k src acc) es = Inr es' \<and> bare es' = bare src \<and> loaded src (acc # accs) es'"
proof (cases acc)
  case (EthAcc e)
  have H: "\<And>a. HexToAddress (kEth k) (AddressHex (kEth k) a) = a" "\<And>h. HexToHash (kEth k) (HashHex (kEth k) h) = h"
    using assms(1) by (simp_all add: eth_lib_def)
  let ?code = "case ek_GetCode (esEvm src) (EthGetCodeHash e) of None \<Rightarrow> [] | Some c \<Rightarrow> c"
  let ?cx = "ek_SetCode (esEvm es) (kKeccak k ?code) (Some ?code)"
  let ?es = "es\<lparr>esEvm := ?cx\<lparr>storageStore := fold (\<lambda>(key, value). fmupd (EthAddress e, key) value)
    (ek_GetAccountStorage (esEvm src) (EthAddress e)) (storageStore ?cx)\<rparr>\<rparr>"
  have sdk: "sdkState (esEvm es) = sdkState (esEvm src)" using arg_cong [OF assms(4), of "\<lambda>s. sdkState (esEvm s)"] by (simp add: bare_def)
  have acct: "GetAccount (kSdk k) (sdkState (esEvm es)) (EthAddress e) = Some (EthAcc e)"
    using assms(3) by (simp add: EthAcc EthAddress_def GetAddress_def sdk)
  have code: "fmlookup (codeStore (esEvm src)) (EthGetCodeHash e) = Some c \<Longrightarrow> c \<noteq> [] \<and> kKeccak k c = EthGetCodeHash e" for c
    using assms(2) by (simp add: genesis_ready_def)
  have hash: "?code \<noteq> [] \<Longrightarrow> kKeccak k ?code = EthGetCodeHash e"
    using code by (auto simp: ek_GetCode_def split: option.splits)
  then have check: "\<not> (Bytes2Hex X ?code \<noteq> [] \<and> EthGetCodeHash e \<noteq> kKeccak k ?code)"
    using Hex_empty by (cases "?code = []") auto
  have "foldM (importAccount X k) (exportAccount X k src acc) es = Inr ?es"
    using check acct by (simp add: EthAcc importAccount_def H Hex_Bytes NewState_def [abs_def] fold_SetState Let_def)
  moreover have "bare ?es = bare src" using assms(4) by (simp add: bare_def ek_SetCode_def)
  moreover have "loaded src (acc # accs) ?es"
  proof -
    have "fmlookup (codeStore ?cx) h = (if h = EthGetCodeHash e then fmlookup (codeStore (esEvm src)) h else fmlookup (codeStore (esEvm es)) h)" for h
    proof (cases "ek_GetCode (esEvm src) (EthGetCodeHash e)")
      case None
      have "fmlookup (codeStore (esEvm src)) (kKeccak k []) = None"
        using assms(2) by (cases "fmlookup (codeStore (esEvm src)) (kKeccak k [])") (auto simp: genesis_ready_def)
      then show ?thesis using None assms(5) by (auto simp: ek_SetCode_def len_bytes_def ek_GetCode_def loaded_def)
    next
      case (Some c)
      then show ?thesis using code [of c] by (auto simp: ek_SetCode_def len_bytes_def ek_GetCode_def)
    qed
    then show ?thesis using assms(5) by (auto simp: loaded_def storage_exported EthAcc ek_SetCode_def)
  qed
  ultimately show ?thesis by blast
qed (use assms(4,5) in \<open>auto simp: loaded_def\<close>)
lemma import_all:
  assumes "eth_lib (kEth k)" "genesis_ready k src"
    and "\<forall>acc \<in> set accs. GetAccount (kSdk k) (sdkState (esEvm src)) (GetAddress acc) = Some acc"
    and "bare es = bare src" "loaded src done es"
  shows "\<exists>es'. foldM (importAccount X k) (concat (map (exportAccount X k src) accs)) es = Inr es' \<and>
    bare es' = bare src \<and> loaded src (rev accs @ done) es'"
  using assms(3-5)
proof (induction accs arbitrary: es "done")
  case (Cons acc accs)
  then obtain es1 where "foldM (importAccount X k) (exportAccount X k src acc) es = Inr es1" "bare es1 = bare src" "loaded src (acc # done) es1"
    using import_exported [OF assms(1,2), of acc es "done"] by auto
  then show ?case using Cons.IH [of es1 "acc # done"] Cons.prems(1) by (auto simp: foldM_append)
qed simp

end

lemma bare_eqI:
  assumes "bare es = bare src" "storageStore (esEvm es) = storageStore (esEvm src)" "codeStore (esEvm es) = codeStore (esEvm src)"
  shows "es = src"
proof -
  have full: "e = (bare e)\<lparr>esEvm := (esEvm (bare e))\<lparr>storageStore := storageStore (esEvm e), codeStore := codeStore (esEvm e)\<rparr>\<rparr>" for e
    by (simp add: bare_def)
  have "es = (bare es)\<lparr>esEvm := (esEvm (bare es))\<lparr>storageStore := storageStore (esEvm es), codeStore := codeStore (esEvm es)\<rparr>\<rparr>" by (rule full)
  also have "\<dots> = (bare src)\<lparr>esEvm := (esEvm (bare src))\<lparr>storageStore := storageStore (esEvm src), codeStore := codeStore (esEvm src)\<rparr>\<rparr>"
    by (simp only: assms)
  also have "\<dots> = src" by (rule full [symmetric])
  finally show ?thesis .
qed

lemma exportAccount_params: "exportAccount X k (es\<lparr>esParams := p\<rparr>) = exportAccount X k es"
proof
  show "exportAccount X k (es\<lparr>esParams := p\<rparr>) acc = exportAccount X k es acc" for acc by (cases acc) simp_all
qed

text \<open>
  C37.  The genesis of the EVM module.  In a state where storage and code belong to Ethereum accounts and each code is stored under its own hash,
  exporting the genesis and importing it into the state without the EVM stores does not panic and gives back all
  storage, all code and the parameters.
\<close>

theorem evm_genesis_round_trip:
  assumes "hex_codec X" "eth_lib (kEth k)" "genesis_ready k es" "kChainID k = Some c"
    and "\<forall>a acc. GetAccount (kSdk k) (sdkState (esEvm es)) a = Some acc \<longrightarrow> GetAddress acc = a"
    and "\<forall>acc. acc \<in> set (IterateAccounts (sdkState (esEvm es))) \<longleftrightarrow> (\<exists>a. GetAccount (kSdk k) (sdkState (esEvm es)) a = Some acc)"
    and "ev_Validate (kEth k) (kCore k) validateDenom (ev_GetParams es) = None" "pEvmDenom (ev_GetParams es) = EvmDenom (esEvm es)"
  shows "evm_InitGenesis X validateDenom (Inr c) (evm_ExportGenesis X IterateAccounts k es) (k\<lparr>kChainID := None\<rparr>) ((bare es)\<lparr>esParams := q\<rparr>) =
    Inr (k, es\<lparr>esParams := Some (ev_GetParams es)\<rparr>)"
proof -
  let ?src = "es\<lparr>esParams := Some (ev_GetParams es)\<rparr>"
  let ?accs = "IterateAccounts (sdkState (esEvm es))"
  have k: "k\<lparr>kChainID := Some c\<rparr> = k" using assms(4) by (cases k) simp
  have ready: "genesis_ready k ?src" using assms(3) by (simp add: genesis_ready_def)
  have set: "ev_SetParams (kEth k) (kCore k) validateDenom (ev_GetParams es) ((bare es)\<lparr>esParams := q\<rparr>) = Inr (bare ?src)"
    using assms(7,8) by (simp add: ev_SetParams_def bare_def)
  have start: "loaded ?src ([] :: 'b AccountI list) (bare ?src)" "bare (bare ?src) = bare ?src" by (simp_all add: loaded_def bare_def)
  have accs: "\<forall>acc \<in> set ?accs. GetAccount (kSdk k) (sdkState (esEvm ?src)) (GetAddress acc) = Some acc"
  proof
    fix acc assume "acc \<in> set ?accs"
    then obtain a where "GetAccount (kSdk k) (sdkState (esEvm es)) a = Some acc" using assms(6) by blast
    then show "GetAccount (kSdk k) (sdkState (esEvm ?src)) (GetAddress acc) = Some acc" using assms(5) by simp
  qed
  obtain es' where es': "foldM (importAccount X k) (concat (map (exportAccount X k ?src) ?accs)) (bare ?src) = Inr es'"
    "bare es' = bare ?src" "loaded ?src (rev ?accs) es'"
    using hex_codec.import_all [OF assms(1,2) ready accs start(2,1)] by auto
  have eth: "GetAccount (kSdk k) (sdkState (esEvm es)) a = Some (EthAcc e) \<Longrightarrow> EthAcc e \<in> set ?accs \<and> EthAddress e = a" for a e
    using assms(5) [rule_format, of a "EthAcc e"] assms(6) [rule_format, of "EthAcc e"] by (auto simp: EthAddress_def GetAddress_def)
  have stored: "\<exists>e. EthAcc e \<in> set ?accs \<and> EthAddress e = a" if "fmlookup (storageStore (esEvm es)) (a, key) = Some v" for a key v
    using assms(3) that eth unfolding genesis_ready_def by blast
  have coded: "\<exists>e. EthAcc e \<in> set ?accs \<and> EthGetCodeHash e = h" if "fmlookup (codeStore (esEvm es)) h = Some v" for h v
    using assms(3) that eth unfolding genesis_ready_def by blast
  have storage: "fmlookup (storageStore (esEvm es')) (a, key) = fmlookup (storageStore (esEvm es)) (a, key)" for a key
    using es'(3) stored [of a key] by (cases "fmlookup (storageStore (esEvm es)) (a, key)") (simp_all add: loaded_def)
  have code: "fmlookup (codeStore (esEvm es')) h = fmlookup (codeStore (esEvm es)) h" for h
    using es'(3) coded [of h] by (cases "fmlookup (codeStore (esEvm es)) h") (simp_all add: loaded_def)
  have "storageStore (esEvm es') = storageStore (esEvm es)" using storage by (intro fmap_ext) (simp add: split_paired_all)
  moreover have "codeStore (esEvm es') = codeStore (esEvm es)" using code by (intro fmap_ext)
  ultimately have "es' = ?src" using bare_eqI [OF es'(2)] by simp
  then show ?thesis using es'(1) set k
    by (simp add: evm_InitGenesis_def WithChainID_def evm_ExportGenesis_def exportAccount_params)
qed

definition ref_hex :: HexCodec where
  "ref_hex = \<lparr>Hex2Bytes = map (\<lambda>c. word_of_nat (of_char c)), Bytes2Hex = map (\<lambda>b. char_of (unat b))\<rparr>"

interpretation ref_hex: hex_codec ref_hex
proof
  have "word_of_nat (of_char (char_of (unat b) :: char)) = b" for b :: "8 word"
    using unsigned_less [of b, where 'a = nat] by (simp add: mod_less)
  then show "Hex2Bytes ref_hex (Bytes2Hex ref_hex b) = b" for b by (simp add: ref_hex_def comp_def)
qed (simp add: ref_hex_def)

text \<open>A contract with two bytes of code and one slot; the hash of a code is its length.\<close>

definition ref_contract :: "amounts AccountI" where
  "ref_contract = EthAcc \<lparr>ethBase = \<lparr>baAddress = 7, PubKey = None, AccountNumber = 1, Sequence = 1\<rparr>, ethCodeHash = 2\<rparr>"

definition ref_genesis_keeper :: "(ledger, amounts, unit) EvmKeeper" where
  "ref_genesis_keeper = (ref_module None)\<lparr>kKeccak := \<lambda>c. word_of_nat (length c)\<rparr>"

definition ref_genesis_state :: "(ledger, unit) EvmState" where
  "ref_genesis_state = ref_evm_state\<lparr>esEvm := (esEvm ref_evm_state)\<lparr>
     sdkState := (sdkState (esEvm ref_evm_state))\<lparr>lAccounts := [7 \<mapsto> ref_contract]\<rparr>,
     storageStore := fmupd (7, 1) 5 fmempty, codeStore := fmupd 2 [96, 0] fmempty\<rparr>\<rparr>"

lemma ref_genesis_ready: "genesis_ready ref_genesis_keeper ref_genesis_state"
  by (auto simp: genesis_ready_def ref_genesis_keeper_def ref_genesis_state_def ref_module_def ref_keepers_def ref_contract_def
      EthGetCodeHash_def split: if_splits)

theorem evm_genesis_round_trip_witness:
  "evm_InitGenesis ref_hex (\<lambda>_. None) (Inr 9000) (evm_ExportGenesis ref_hex (\<lambda>_. [ref_contract]) ref_genesis_keeper ref_genesis_state)
     (ref_genesis_keeper\<lparr>kChainID := None\<rparr>) ((bare ref_genesis_state)\<lparr>esParams := None\<rparr>) =
   Inr (ref_genesis_keeper, ref_genesis_state\<lparr>esParams := Some (ev_GetParams ref_genesis_state)\<rparr>)"
proof (rule evm_genesis_round_trip [OF ref_hex.hex_codec_axioms _ ref_genesis_ready])
  show "eth_lib (kEth ref_genesis_keeper)" by (simp add: ref_genesis_keeper_def ref_module_def ref_eth.eth_lib_axioms)
  show "kChainID ref_genesis_keeper = Some 9000" by (simp add: ref_genesis_keeper_def ref_module_def)
  show "ev_Validate (kEth ref_genesis_keeper) (kCore ref_genesis_keeper) (\<lambda>_. None) (ev_GetParams ref_genesis_state) = None" by code_simp
  show "pEvmDenom (ev_GetParams ref_genesis_state) = EvmDenom (esEvm ref_genesis_state)" by code_simp
qed (auto simp: ref_genesis_keeper_def ref_genesis_state_def ref_module_def ref_keepers_def ref_contract_def GetAddress_def split: if_splits)

definition ref_call_args :: TransactionArgs where
  "ref_call_args =
     \<lparr>taFrom = Some 3, taTo = Some 9, taGas = None, taGasPrice = None, taMaxFeePerGas = None, taMaxPriorityFeePerGas = None, taValue = Some 2,
      taNonce = None, taData = None, taInput = Some [1], taAccessList = None, taChainID = None\<rparr>"

definition ref_call_request :: EthCallRequest where
  "ref_call_request = \<lparr>ecArgs = Inr ref_call_args, ecGasCap = 21001, ecProposerAddress = [1], ecChainId = 9000\<rparr>"

definition ref_vm_errors :: VmErrors where
  "ref_vm_errors = \<lparr>errOutOfGas = ''out of gas'', errExecutionReverted = ''execution reverted''\<rparr>"

abbreviation ref_estimate :: "(failure + u64) option" where
  "ref_estimate \<equiv> EstimateGas ref_vm_errors (ref_module None) ref_evm_block (Inr 9000) ref_call_request ref_evm_state"

lemma ref_estimate_returns: "case ref_estimate of Some (Inr g) \<Rightarrow> g = 21000 | _ \<Rightarrow> False"
  by code_simp

theorem estimate_executes_witness:
  "ref_estimate = Some (Inr 21000) \<and>
   (\<exists>cfg msg rsp. ApplyMessageWithConfig (ref_module None) ref_evm_block (msg\<lparr>mGas := 21000\<rparr>) False cfg (emptyTxConfig ref_evm_block) ref_evm_state =
      Inr (rsp, ref_evm_state) \<and> \<not> res_Failed rsp)"
proof -
  have g: "ref_estimate = Some (Inr 21000)"
    using ref_estimate_returns by (simp split: option.splits sum.splits)
  have "ecGasCap ref_call_request \<le> 2 ^ 63" by (simp add: ref_call_request_def)
  from estimate_executes [OF this, of ref_vm_errors "ref_module None" ref_evm_block "Inr 9000" ref_evm_state] g
  show ?thesis by auto
qed

end
