(* ===== verification/Erc20.thy ===== *)
theory Erc20
  imports Evm_Query Claims
begin

text \<open>
  The module \<^verbatim>\<open>x/erc20\<close>: token pairs between coins and ERC20 contracts and their indexes (\<^verbatim>\<open>keeper/token_pairs.go\<close>,
  \<^verbatim>\<open>types/token_pair.go\<close>), calls of contracts (\<^verbatim>\<open>keeper/evm.go\<close>), the proposals (\<^verbatim>\<open>keeper/proposals.go\<close>,
  \<^verbatim>\<open>types/proposal.go\<close>, \<^verbatim>\<open>proposal_handler.go\<close>), the conversions (\<^verbatim>\<open>keeper/mint.go\<close>, \<^verbatim>\<open>keeper/msg_server.go\<close>,
  \<^verbatim>\<open>types/msg.go\<close>), the EVM hook (\<^verbatim>\<open>keeper/evm_hooks.go\<close>), the IBC callbacks (\<^verbatim>\<open>keeper/ibc_callbacks.go\<close>,
  \<^verbatim>\<open>ibc_middleware.go\<close>) and the genesis.  The store of the module is the part \<open>esMods\<close> of the EVM state, open for the
  stores of further modules.  The SHA-256 hash that identifies a pair, the ABI of the contract and the metadata of the
  bank are parameters.  Events, logging and telemetry are left out.
\<close>

section \<open>Token pairs\<close>

datatype Owner = OWNER_UNSPECIFIED | OWNER_MODULE | OWNER_EXTERNAL

record TokenPair =
  tpErc20Address :: string
  tpDenom :: string
  tpEnabled :: bool
  tpContractOwner :: Owner

definition NewTokenPair :: "EthLib \<Rightarrow> address \<Rightarrow> string \<Rightarrow> Owner \<Rightarrow> TokenPair" where
  "NewTokenPair H erc20Address denom contractOwner =
     \<lparr>tpErc20Address = AddressHex H erc20Address, tpDenom = denom, tpEnabled = True, tpContractOwner = contractOwner\<rparr>"

definition GetID :: "(string \<Rightarrow> hash) \<Rightarrow> TokenPair \<Rightarrow> hash" where
  "GetID sha tp = sha (tpErc20Address tp @ ''|'' @ tpDenom tp)"

definition GetERC20Contract :: "EthLib \<Rightarrow> TokenPair \<Rightarrow> address" where
  "GetERC20Contract H tp = HexToAddress H (tpErc20Address tp)"

definition tp_Validate :: "(string \<Rightarrow> string option) \<Rightarrow> EthLib \<Rightarrow> TokenPair \<Rightarrow> string option" where
  "tp_Validate validateDenom H tp =
     (case validateDenom (tpDenom tp) of Some e \<Rightarrow> Some e | None \<Rightarrow> ValidateAddress H (tpErc20Address tp))"

definition IsNativeCoin :: "TokenPair \<Rightarrow> bool" where
  "IsNativeCoin tp \<longleftrightarrow> tpContractOwner tp = OWNER_MODULE"

definition IsNativeERC20 :: "TokenPair \<Rightarrow> bool" where
  "IsNativeERC20 tp \<longleftrightarrow> tpContractOwner tp = OWNER_EXTERNAL"

section \<open>The store\<close>

record Erc20Params =
  EnableErc20 :: bool
  EnableEVMHook :: bool

record Erc20Store =
  erEnabled :: bool
  erHook :: bool
  erPairs :: "(hash, TokenPair) fmap"
  erByERC20 :: "(address, hash) fmap"
  erByDenom :: "(string, hash) fmap"

type_synonym ('x, 'r) Erc20State = "('x, 'r Erc20Store_scheme) EvmState"

definition er_DefaultParams :: Erc20Params where
  "er_DefaultParams = \<lparr>EnableErc20 = True, EnableEVMHook = True\<rparr>"

definition IsERC20Enabled :: "('x, 'r) Erc20State \<Rightarrow> bool" where
  "IsERC20Enabled es \<longleftrightarrow> erEnabled (esMods es)"

definition GetEnableEVMHook :: "('x, 'r) Erc20State \<Rightarrow> bool" where
  "GetEnableEVMHook es \<longleftrightarrow> erHook (esMods es)"

definition er_GetParams :: "('x, 'r) Erc20State \<Rightarrow> Erc20Params" where
  "er_GetParams es = \<lparr>EnableErc20 = IsERC20Enabled es, EnableEVMHook = GetEnableEVMHook es\<rparr>"

definition onStore :: "('r Erc20Store_scheme \<Rightarrow> 'r Erc20Store_scheme) \<Rightarrow> ('x, 'r) Erc20State \<Rightarrow> ('x, 'r) Erc20State" where
  "onStore f es = es\<lparr>esMods := f (esMods es)\<rparr>"

definition setERC20Enabled :: "bool \<Rightarrow> ('x, 'r) Erc20State \<Rightarrow> ('x, 'r) Erc20State" where
  "setERC20Enabled enable = onStore (erEnabled_update (\<lambda>_. enable))"

definition setEnableEVMHook :: "bool \<Rightarrow> ('x, 'r) Erc20State \<Rightarrow> ('x, 'r) Erc20State" where
  "setEnableEVMHook enable = onStore (erHook_update (\<lambda>_. enable))"

text \<open>The validation of the two booleans cannot fail.\<close>

definition er_SetParams :: "Erc20Params \<Rightarrow> ('x, 'r) Erc20State \<Rightarrow> ('x, 'r) Erc20State" where
  "er_SetParams params es = setEnableEVMHook (EnableEVMHook params) (setERC20Enabled (EnableErc20 params) es)"

definition er_UpdateParams :: "string \<Rightarrow> string \<Rightarrow> Erc20Params \<Rightarrow> ('x, 'r) Erc20State \<Rightarrow> string + ('x, 'r) Erc20State" where
  "er_UpdateParams authority reqAuthority params es =
     (if authority \<noteq> reqAuthority then Inl ''invalid authority'' else Inr (er_SetParams params es))"

definition GetTokenPairs :: "('x, 'r) Erc20State \<Rightarrow> TokenPair list" where
  "GetTokenPairs es = map (\<lambda>pid. the (fmlookup (erPairs (esMods es)) pid)) (sorted_list_of_fset (fmdom (erPairs (esMods es))))"

definition GetERC20Map :: "('x, 'r) Erc20State \<Rightarrow> address \<Rightarrow> hash option" where
  "GetERC20Map es erc20 = fmlookup (erByERC20 (esMods es)) erc20"

definition GetDenomMap :: "('x, 'r) Erc20State \<Rightarrow> string \<Rightarrow> hash option" where
  "GetDenomMap es denom = fmlookup (erByDenom (esMods es)) denom"

definition GetTokenPairID :: "EthLib \<Rightarrow> ('x, 'r) Erc20State \<Rightarrow> string \<Rightarrow> hash option" where
  "GetTokenPairID H es token =
     (if IsHexAddress H token then GetERC20Map es (HexToAddress H token) else GetDenomMap es token)"

definition GetTokenPair :: "('x, 'r) Erc20State \<Rightarrow> hash \<Rightarrow> TokenPair option" where
  "GetTokenPair es pid = fmlookup (erPairs (esMods es)) pid"

definition SetTokenPair :: "(string \<Rightarrow> hash) \<Rightarrow> TokenPair \<Rightarrow> ('x, 'r) Erc20State \<Rightarrow> ('x, 'r) Erc20State" where
  "SetTokenPair sha tp = onStore (erPairs_update (fmupd (GetID sha tp) tp))"

definition SetERC20Map :: "address \<Rightarrow> hash \<Rightarrow> ('x, 'r) Erc20State \<Rightarrow> ('x, 'r) Erc20State" where
  "SetERC20Map erc20 pid = onStore (erByERC20_update (fmupd erc20 pid))"

definition SetDenomMap :: "string \<Rightarrow> hash \<Rightarrow> ('x, 'r) Erc20State \<Rightarrow> ('x, 'r) Erc20State" where
  "SetDenomMap denom pid = onStore (erByDenom_update (fmupd denom pid))"

definition deleteTokenPair :: "hash \<Rightarrow> ('x, 'r) Erc20State \<Rightarrow> ('x, 'r) Erc20State" where
  "deleteTokenPair pid = onStore (erPairs_update (fmdrop pid))"

definition deleteERC20Map :: "address \<Rightarrow> ('x, 'r) Erc20State \<Rightarrow> ('x, 'r) Erc20State" where
  "deleteERC20Map erc20 = onStore (erByERC20_update (fmdrop erc20))"

definition deleteDenomMap :: "string \<Rightarrow> ('x, 'r) Erc20State \<Rightarrow> ('x, 'r) Erc20State" where
  "deleteDenomMap denom = onStore (erByDenom_update (fmdrop denom))"

definition DeleteTokenPair :: "EthLib \<Rightarrow> (string \<Rightarrow> hash) \<Rightarrow> TokenPair \<Rightarrow> ('x, 'r) Erc20State \<Rightarrow> ('x, 'r) Erc20State" where
  "DeleteTokenPair H sha tp es =
     deleteDenomMap (tpDenom tp) (deleteERC20Map (GetERC20Contract H tp) (deleteTokenPair (GetID sha tp) es))"

definition IsERC20Registered :: "('x, 'r) Erc20State \<Rightarrow> address \<Rightarrow> bool" where
  "IsERC20Registered es erc20 \<longleftrightarrow> GetERC20Map es erc20 \<noteq> None"

definition IsDenomRegistered :: "('x, 'r) Erc20State \<Rightarrow> string \<Rightarrow> bool" where
  "IsDenomRegistered es denom \<longleftrightarrow> GetDenomMap es denom \<noteq> None"

section \<open>The keeper and what it calls\<close>

datatype AbiArg = AbiAddress address | AbiInt int | AbiString string | AbiU8 "8 word"

text \<open>
  The ABI of the contract \<^verbatim>\<open>ERC20MinterBurnerDecimals\<close> and its creation code.  \<open>abiUnpackInts\<close> is \<^verbatim>\<open>Unpack\<close> followed by the assertion that a
  value is a \<^verbatim>\<open>*big.Int\<close>.
\<close>

record Erc20Abi =
  abiPack :: "string \<Rightarrow> AbiArg list \<Rightarrow> string + bytes"
  abiUnpackString :: "string \<Rightarrow> bytes \<Rightarrow> string + string"
  abiUnpackU8 :: "string \<Rightarrow> bytes \<Rightarrow> string + 8 word"
  abiUnpackBool :: "string \<Rightarrow> bytes \<Rightarrow> string + bool"
  abiUnpackInts :: "string \<Rightarrow> bytes \<Rightarrow> string + int option list"
  abiEventByID :: "hash \<Rightarrow> string option"
  abiBin :: bytes

record DenomUnit =
  duDenom :: string
  duExponent :: "32 word"
  duAliases :: "string list"

record Metadata =
  mdDescription :: string
  mdDenomUnits :: "DenomUnit list"
  mdBase :: string
  mdDisplay :: string
  mdName :: string
  mdSymbol :: string

record 'x Erc20Bank =
  HasSupply :: "'x \<Rightarrow> string \<Rightarrow> bool"
  IsSendEnabledCoin :: "'x \<Rightarrow> string \<Rightarrow> bool"
  GetDenomMetaData :: "'x \<Rightarrow> string \<Rightarrow> Metadata option"
  SetDenomMetaData :: "'x \<Rightarrow> Metadata \<Rightarrow> 'x"
  ValidateMetadata :: "Metadata \<Rightarrow> string option"

record ('x, 'c, 'w) Erc20Keeper =
  eEvm :: "('x, 'c, 'w) EvmKeeper"
  eAbi :: Erc20Abi
  eErrors :: VmErrors
  eParsedChainID :: "string + int"
  eSha :: "string \<Rightarrow> hash"
  eBank :: "'x Erc20Bank"
  eBech :: Bech32
  eIsModuleAccount :: "'c AccountI \<Rightarrow> bool"

definition erc20Module :: string where "erc20Module = ''erc20''"

definition ModuleAddress :: "('x, 'c, 'w) Erc20Keeper \<Rightarrow> address" where
  "ModuleAddress k = GetModuleAddress (kSdk (eEvm k)) erc20Module"

abbreviation e_sdk :: "('x, 'w) EvmState \<Rightarrow> 'x" where
  "e_sdk es \<equiv> sdkState (esEvm es)"

definition onSdk :: "('x, 'w) EvmState \<Rightarrow> 'x \<Rightarrow> ('x, 'w) EvmState" where
  "onSdk es x = es\<lparr>esEvm := (esEvm es)\<lparr>sdkState := x\<rparr>\<rparr>"

section \<open>Calls of contracts\<close>

definition DefaultGasCap :: u64 where "DefaultGasCap = 25000000"

text \<open>\<^verbatim>\<open>GetSequence\<close> of the account keeper.\<close>

definition acc_GetSequence :: "('x, 'c, 'w) Erc20Keeper \<Rightarrow> ('x, 'w) EvmState \<Rightarrow> address \<Rightarrow> string + u64" where
  "acc_GetSequence k es addr =
     (case GetAccount (kSdk (eEvm k)) (e_sdk es) addr of None \<Rightarrow> Inl ''account does not exist'' | Some acc \<Rightarrow> Inr (GetSequence acc))"

definition callArgs :: "address \<Rightarrow> address option \<Rightarrow> bytes \<Rightarrow> TransactionArgs" where
  "callArgs from contract data =
     \<lparr>taFrom = Some from, taTo = contract, taGas = None, taGasPrice = None, taMaxFeePerGas = None, taMaxPriorityFeePerGas = None,
      taValue = None, taNonce = None, taData = Some data, taInput = None, taAccessList = None, taChainID = None\<rparr>"

text \<open>
  With the default gas cap the estimate always returns (\<open>estimated_returns\<close> below), so the branch of an estimate that does not is never taken.
\<close>

definition estimated :: "('x, 'c, 'w) Erc20Keeper \<Rightarrow> EvmBlock \<Rightarrow> TransactionArgs \<Rightarrow> ('x, 'w) EvmState \<Rightarrow> failure + u64" where
  "estimated k b args es =
     (case EstimateGas (eErrors k) (eEvm k) b (eParsedChainID k)
        \<lparr>ecArgs = Inr args, ecGasCap = DefaultGasCap, ecProposerAddress = [], ecChainId = 0\<rparr> es of
        Some r \<Rightarrow> r | None \<Rightarrow> Inl (Err ''no estimate''))"

text \<open>
  \<^verbatim>\<open>CallEVMWithData\<close> up to the check of the response: the state that a failed execution leaves is kept for the hook, which goes on after an
  error.
\<close>

definition applyCall ::
    "('x, 'c, 'w) Erc20Keeper \<Rightarrow> EvmBlock \<Rightarrow> address \<Rightarrow> address option \<Rightarrow> bytes \<Rightarrow> bool \<Rightarrow> ('x, 'w) EvmState \<Rightarrow>
      failure + EvmTxResponse \<times> ('x, 'w) EvmState" where
  "applyCall k b from contract data commit es =
     rbind (failing (acc_GetSequence k es from)) (\<lambda>nonce.
     rbind (if commit then estimated k b (callArgs from contract data) es else Inr DefaultGasCap) (\<lambda>gasCap.
       ApplyMessage (eEvm k) b
         \<lparr>mFrom = from, mTo = contract, mNonce = nonce, mValue = 0, mGas = gasCap, mGasPrice = 0, mGasFeeCap = 0, mGasTipCap = 0,
          mData = data, mAccessList = Some []\<rparr> commit es))"

definition CallEVMWithData ::
    "('x, 'c, 'w) Erc20Keeper \<Rightarrow> EvmBlock \<Rightarrow> address \<Rightarrow> address option \<Rightarrow> bytes \<Rightarrow> bool \<Rightarrow> ('x, 'w) EvmState \<Rightarrow>
      failure + EvmTxResponse \<times> ('x, 'w) EvmState" where
  "CallEVMWithData k b from contract data commit es =
     rbind (applyCall k b from contract data commit es) (\<lambda>(res, es').
       if res_Failed res then Inl (Err (resVmError res)) else Inr (res, es'))"

definition CallEVM ::
    "('x, 'c, 'w) Erc20Keeper \<Rightarrow> EvmBlock \<Rightarrow> address \<Rightarrow> address \<Rightarrow> bool \<Rightarrow> string \<Rightarrow> AbiArg list \<Rightarrow> ('x, 'w) EvmState \<Rightarrow>
      failure + EvmTxResponse \<times> ('x, 'w) EvmState" where
  "CallEVM k b from contract commit method args es =
     rbind (failing (abiPack (eAbi k) method args)) (\<lambda>data. CallEVMWithData k b from (Some contract) data commit es)"

definition BalanceOf ::
    "('x, 'c, 'w) Erc20Keeper \<Rightarrow> EvmBlock \<Rightarrow> address \<Rightarrow> address \<Rightarrow> ('x, 'w) EvmState \<Rightarrow> failure + int option" where
  "BalanceOf k b contract acct es =
     (case CallEVM k b (ModuleAddress k) contract False ''balanceOf'' [AbiAddress acct] es of
        Inl (Panicked p) \<Rightarrow> Inl (Panicked p)
      | Inl (Err _) \<Rightarrow> Inr None
      | Inr (res, _) \<Rightarrow> (case abiUnpackInts (eAbi k) ''balanceOf'' (resRet res) of Inr (v # _) \<Rightarrow> Inr v | _ \<Rightarrow> Inr None))"

record ERC20Data =
  edName :: string
  edSymbol :: string
  edDecimals :: "8 word"

definition QueryERC20 :: "('x, 'c, 'w) Erc20Keeper \<Rightarrow> EvmBlock \<Rightarrow> address \<Rightarrow> ('x, 'w) EvmState \<Rightarrow> failure + ERC20Data" where
  "QueryERC20 k b contract es =
     rbind (CallEVM k b (ModuleAddress k) contract False ''name'' [] es) (\<lambda>(res, _).
     rbind (failing (abiUnpackString (eAbi k) ''name'' (resRet res))) (\<lambda>name.
     rbind (CallEVM k b (ModuleAddress k) contract False ''symbol'' [] es) (\<lambda>(res, _).
     rbind (failing (abiUnpackString (eAbi k) ''symbol'' (resRet res))) (\<lambda>symbol.
     rbind (CallEVM k b (ModuleAddress k) contract False ''decimals'' [] es) (\<lambda>(res, _).
     rbind (failing (abiUnpackU8 (eAbi k) ''decimals'' (resRet res))) (\<lambda>decimals.
       Inr \<lparr>edName = name, edSymbol = symbol, edDecimals = decimals\<rparr>))))))"

text \<open>The exponent of the last unit is cut down to eight bits.\<close>

definition DeployERC20Contract ::
    "('x, 'c, 'w) Erc20Keeper \<Rightarrow> EvmBlock \<Rightarrow> Metadata \<Rightarrow> ('x, 'w) EvmState \<Rightarrow> failure + address \<times> ('x, 'w) EvmState" where
  "DeployERC20Contract k b coinMetadata es =
     (let decimals = (if mdDenomUnits coinMetadata \<noteq> [] then ucast (duExponent (last (mdDenomUnits coinMetadata))) else 0) in
      rbind (failing (abiPack (eAbi k) '''' [AbiString (mdName coinMetadata), AbiString (mdSymbol coinMetadata), AbiU8 decimals])) (\<lambda>ctorArgs.
      rbind (failing (acc_GetSequence k es (ModuleAddress k))) (\<lambda>nonce.
      rbind (CallEVMWithData k b (ModuleAddress k) None (abiBin (eAbi k) @ ctorArgs) True es) (\<lambda>(_, es').
        Inr (CreateAddress (kEth (eEvm k)) (ModuleAddress k) nonce, es')))))"

section \<open>Names and metadata\<close>

definition isDigit :: "char \<Rightarrow> bool" where "isDigit c \<longleftrightarrow> of_char c \<in> {48..<58 :: nat}"
definition isLetter :: "char \<Rightarrow> bool" where "isLetter c \<longleftrightarrow> of_char c \<in> {65..<91 :: nat} \<or> of_char c \<in> {97..<123 :: nat}"
definition isDenomChar :: "char \<Rightarrow> bool" where
  "isDenomChar c \<longleftrightarrow> isLetter c \<or> isDigit c \<or> c = CHR ''/'' \<or> c = CHR ''-''"

text \<open>The expression \<^verbatim>\<open>(?m)^(\d+)\<close> matches the digits at the start of every line; the flag tells whether a line starts here.\<close>

fun leadingNumbers :: "bool \<Rightarrow> string \<Rightarrow> string" where
  "leadingNumbers atStart [] = []"
| "leadingNumbers atStart (c # cs) =
     (if atStart \<and> isDigit c then leadingNumbers True cs else c # leadingNumbers (c = CHR 0x0A) cs)"

definition removeLeadingNumbers :: "string \<Rightarrow> string" where
  "removeLeadingNumbers str = leadingNumbers True str"

text \<open>The expression \<^verbatim>\<open>^[^A-Za-z]|[^a-zA-Z0-9/-]\<close>.\<close>

definition removeSpecialChars :: "string \<Rightarrow> string" where
  "removeSpecialChars str =
     (case str of [] \<Rightarrow> [] | c # cs \<Rightarrow> (if isLetter c then [c] else []) @ filter isDenomChar cs)"

function removeInvalidPrefixes :: "string \<Rightarrow> string" where
  "removeInvalidPrefixes str =
     (if take 4 str = ''ibc/'' then removeInvalidPrefixes (drop 4 str)
      else if take 6 str = ''erc20/'' then removeInvalidPrefixes (drop 6 str)
      else str)"
  by pat_completeness auto
termination by (relation "measure length") (auto, (case_tac str; simp)+)

declare removeInvalidPrefixes.simps [simp del]

definition SanitizeERC20Name :: "string \<Rightarrow> string" where
  "SanitizeERC20Name name =
     (let name = removeSpecialChars (removeLeadingNumbers name);
          name = (if length name > 128 then take 128 name else name)
      in removeInvalidPrefixes name)"

definition EqualStringSlice :: "string list \<Rightarrow> string list \<Rightarrow> bool" where
  "EqualStringSlice aliasesA aliasesB \<longleftrightarrow>
     length aliasesA = length aliasesB \<and> list_all (\<lambda>i. aliasesA ! i = aliasesB ! i) [0..<length aliasesA]"

definition EqualMetadata :: "Metadata \<Rightarrow> Metadata \<Rightarrow> string option" where
  "EqualMetadata a b =
     (if mdBase a = mdBase b \<and> mdDescription a = mdDescription b \<and> mdDisplay a = mdDisplay b \<and> mdName a = mdName b \<and> mdSymbol a = mdSymbol b
      then
        (if length (mdDenomUnits a) \<noteq> length (mdDenomUnits b) then Some ''metadata provided has different denom units from stored''
         else if list_ex (\<lambda>(v, w). duExponent v \<noteq> duExponent w \<or> duDenom v \<noteq> duDenom w \<or> \<not> EqualStringSlice (duAliases v) (duAliases w))
            (zip (mdDenomUnits a) (mdDenomUnits b)) then Some ''metadata provided has different denom unit from stored''
         else None)
      else Some ''metadata provided is different from stored'')"

section \<open>Proposals\<close>

definition CreateDenomDescription :: "string \<Rightarrow> string" where
  "CreateDenomDescription address = ''Cosmos coin token representation of '' @ address"

definition CreateDenom :: "string \<Rightarrow> string" where
  "CreateDenom address = erc20Module @ ''/'' @ address"

definition verifyMetadata :: "('x, 'c, 'w) Erc20Keeper \<Rightarrow> Metadata \<Rightarrow> ('x, 'w) EvmState \<Rightarrow> string + ('x, 'w) EvmState" where
  "verifyMetadata k coinMetadata es =
     (case GetDenomMetaData (eBank k) (e_sdk es) (mdBase coinMetadata) of
        None \<Rightarrow> Inr (onSdk es (SetDenomMetaData (eBank k) (e_sdk es) coinMetadata))
      | Some meta \<Rightarrow> (case EqualMetadata meta coinMetadata of Some e \<Rightarrow> Inl e | None \<Rightarrow> Inr es))"

definition addPair :: "('x, 'c, 'r Erc20Store_scheme) Erc20Keeper \<Rightarrow> TokenPair \<Rightarrow> ('x, 'r) Erc20State \<Rightarrow> ('x, 'r) Erc20State" where
  "addPair k pair es =
     (let pid = GetID (eSha k) pair in
      SetERC20Map (HexToAddress (kEth (eEvm k)) (tpErc20Address pair)) pid (SetDenomMap (tpDenom pair) pid (SetTokenPair (eSha k) pair es)))"

definition RegisterCoin ::
    "('x, 'c, 'r Erc20Store_scheme) Erc20Keeper \<Rightarrow> EvmBlock \<Rightarrow> Metadata \<Rightarrow> ('x, 'r) Erc20State \<Rightarrow> failure + TokenPair \<times> ('x, 'r) Erc20State" where
  "RegisterCoin k b coinMetadata es =
     (if IsDenomRegistered es (mdName coinMetadata) then Inl (Err ''coin denomination already registered'')
      else if \<not> HasSupply (eBank k) (e_sdk es) (mdBase coinMetadata) then Inl (Err ''base denomination cannot have a supply of 0'')
      else case verifyMetadata k coinMetadata es of
        Inl _ \<Rightarrow> Inl (Err ''coin metadata is invalid'')
      | Inr es \<Rightarrow>
          rbind (DeployERC20Contract k b coinMetadata es) (\<lambda>(addr, es).
            let pair = NewTokenPair (kEth (eEvm k)) addr (mdBase coinMetadata) OWNER_MODULE in Inr (pair, addPair k pair es)))"

definition erc20Metadata :: "string \<Rightarrow> ERC20Data \<Rightarrow> Metadata" where
  "erc20Metadata strContract erc20Data =
     (let base = CreateDenom strContract;
          metadata = \<lparr>mdDescription = CreateDenomDescription strContract,
            mdDenomUnits = [\<lparr>duDenom = base, duExponent = 0, duAliases = []\<rparr>], mdBase = base, mdDisplay = base,
            mdName = CreateDenom strContract, mdSymbol = edSymbol erc20Data\<rparr>
      in if edDecimals erc20Data > 0 then
           let nameSanitized = SanitizeERC20Name (edName erc20Data) in
           metadata\<lparr>mdDenomUnits := mdDenomUnits metadata @
               [\<lparr>duDenom = nameSanitized, duExponent = ucast (edDecimals erc20Data), duAliases = []\<rparr>],
             mdDisplay := nameSanitized\<rparr>
         else metadata)"

definition CreateCoinMetadata ::
    "('x, 'c, 'r Erc20Store_scheme) Erc20Keeper \<Rightarrow> EvmBlock \<Rightarrow> address \<Rightarrow> ('x, 'r) Erc20State \<Rightarrow> failure + Metadata \<times> ('x, 'r) Erc20State" where
  "CreateCoinMetadata k b contract es =
     (let strContract = AddressHex (kEth (eEvm k)) contract in
      rbind (QueryERC20 k b contract es) (\<lambda>erc20Data.
        if GetDenomMetaData (eBank k) (e_sdk es) (CreateDenom strContract) \<noteq> None then Inl (Err ''denom metadata already registered'')
        else if IsDenomRegistered es (CreateDenom strContract) then Inl (Err ''coin denomination already registered'')
        else
          let metadata = erc20Metadata strContract erc20Data in
          case ValidateMetadata (eBank k) metadata of
            Some _ \<Rightarrow> Inl (Err ''ERC20 token data is invalid for contract'')
          | None \<Rightarrow> Inr (metadata, onSdk es (SetDenomMetaData (eBank k) (e_sdk es) metadata))))"

definition RegisterERC20 ::
    "('x, 'c, 'r Erc20Store_scheme) Erc20Keeper \<Rightarrow> EvmBlock \<Rightarrow> address \<Rightarrow> ('x, 'r) Erc20State \<Rightarrow> failure + TokenPair \<times> ('x, 'r) Erc20State" where
  "RegisterERC20 k b contract es =
     (if IsERC20Registered es contract then Inl (Err ''token ERC20 contract already registered'')
      else rbind (CreateCoinMetadata k b contract es) (\<lambda>(metadata, es).
        let pair = NewTokenPair (kEth (eEvm k)) contract (mdName metadata) OWNER_EXTERNAL in Inr (pair, addPair k pair es)))"

definition ToggleConversion ::
    "('x, 'c, 'r Erc20Store_scheme) Erc20Keeper \<Rightarrow> string \<Rightarrow> ('x, 'r) Erc20State \<Rightarrow> failure + TokenPair \<times> ('x, 'r) Erc20State" where
  "ToggleConversion k token es =
     (case GetTokenPairID (kEth (eEvm k)) es token of
        None \<Rightarrow> Inl (Err ''token not registered by id'')
      | Some pid \<Rightarrow>
          (case GetTokenPair es pid of
             None \<Rightarrow> Inl (Err ''token not registered'')
           | Some pair \<Rightarrow>
               let pair = pair\<lparr>tpEnabled := \<not> tpEnabled pair\<rparr> in Inr (pair, SetTokenPair (eSha k) pair es)))"

text \<open>The content of a proposal and the handler.\<close>

datatype Erc20Proposal =
    RegisterCoinProposal "Metadata list"
  | RegisterERC20Proposal "string list"
  | ToggleTokenConversionProposal string

fun containsStr :: "string \<Rightarrow> string \<Rightarrow> bool" where
  "containsStr sub [] = (sub = [])"
| "containsStr sub (c # cs) = (take (length sub) (c # cs) = sub \<or> containsStr sub cs)"

text \<open>\<^verbatim>\<open>strings.SplitN(s, "/", 2)\<close>.\<close>

definition splitSlash :: "string \<Rightarrow> string list" where
  "splitSlash s =
     (case dropWhile (\<lambda>c. c \<noteq> CHR ''/'') s of [] \<Rightarrow> [s] | _ # rest \<Rightarrow> [takeWhile (\<lambda>c. c \<noteq> CHR ''/'') s, rest])"

definition validateIBCVoucherMetadata :: "Metadata \<Rightarrow> string option" where
  "validateIBCVoucherMetadata metadata =
     (let denomSplit = splitSlash (mdBase metadata) in
      if hd denomSplit = mdBase metadata \<and> TrimSpace (mdBase metadata) \<noteq> '''' then None
      else if length denomSplit \<noteq> 2 \<or> hd denomSplit \<noteq> ''ibc'' then Some ''invalid metadata''
      else None)"

definition ValidateErc20Denom :: "EthLib \<Rightarrow> string \<Rightarrow> string option" where
  "ValidateErc20Denom H denom =
     (let denomSplit = splitSlash denom in
      if length denomSplit \<noteq> 2 \<or> hd denomSplit \<noteq> erc20Module then Some ''invalid denom''
      else ValidateAddress H (denomSplit ! 1))"

definition validateCoinMetadata :: "('x, 'c, 'w) Erc20Keeper \<Rightarrow> (string \<Rightarrow> string option) \<Rightarrow> Metadata \<Rightarrow> string option" where
  "validateCoinMetadata k validateIBCDenom metadata =
     (case ValidateMetadata (eBank k) metadata of
        Some e \<Rightarrow> Some e
      | None \<Rightarrow>
          if containsStr ''evm'' (mdBase metadata) then Some ''cannot register the EVM denomination''
          else (case validateIBCDenom (mdBase metadata) of Some e \<Rightarrow> Some e | None \<Rightarrow> validateIBCVoucherMetadata metadata))"

text \<open>\<open>abstractError\<close> is the check of title and description by the governance module.\<close>

definition er_ProposalValidateBasic ::
    "('x, 'c, 'w) Erc20Keeper \<Rightarrow> (string \<Rightarrow> string option) \<Rightarrow> (string \<Rightarrow> string option) \<Rightarrow> string option \<Rightarrow> Erc20Proposal \<Rightarrow> string option" where
  "er_ProposalValidateBasic k validateDenom validateIBCDenom abstractError p =
     (case p of
        RegisterCoinProposal ms \<Rightarrow>
          (case List.map_filter (validateCoinMetadata k validateIBCDenom) ms of e # _ \<Rightarrow> Some e | [] \<Rightarrow> abstractError)
      | RegisterERC20Proposal as \<Rightarrow>
          (if \<exists>a \<in> set as. ValidateAddress (kEth (eEvm k)) a \<noteq> None then Some ''ERC20 address'' else abstractError)
      | ToggleTokenConversionProposal token \<Rightarrow>
          (if ValidateAddress (kEth (eEvm k)) token \<noteq> None then
             (case validateDenom token of Some e \<Rightarrow> Some e | None \<Rightarrow> abstractError)
           else abstractError))"

definition er_ProposalHandler ::
    "('x, 'c, 'r Erc20Store_scheme) Erc20Keeper \<Rightarrow> EvmBlock \<Rightarrow> Erc20Proposal \<Rightarrow> ('x, 'r) Erc20State \<Rightarrow> failure + ('x, 'r) Erc20State" where
  "er_ProposalHandler k b p es =
     (case p of
        RegisterCoinProposal ms \<Rightarrow> foldM (\<lambda>metadata es. rbind (RegisterCoin k b metadata es) (\<lambda>(_, es). Inr es)) ms es
      | RegisterERC20Proposal as \<Rightarrow>
          foldM (\<lambda>address es. rbind (RegisterERC20 k b (HexToAddress (kEth (eEvm k)) address) es) (\<lambda>(_, es). Inr es)) as es
      | ToggleTokenConversionProposal token \<Rightarrow> rbind (ToggleConversion k token es) (\<lambda>(_, es). Inr es))"

section \<open>Conversions\<close>

text \<open>The amount of a coin that came from an IBC packet may be nil.\<close>

record MsgConvertCoin =
  ccDenom :: string
  ccAmount :: "int option"
  ccReceiver :: string
  ccSender :: string

record MsgConvertERC20 =
  ceContractAddress :: string
  ceAmount :: int
  ceReceiver :: string
  ceSender :: string

definition NewMsgConvertCoin :: "('x, 'c, 'w) Erc20Keeper \<Rightarrow> string \<times> int option \<Rightarrow> address \<Rightarrow> address \<Rightarrow> MsgConvertCoin" where
  "NewMsgConvertCoin k coin receiver sender =
     \<lparr>ccDenom = fst coin, ccAmount = snd coin, ccReceiver = AddressHex (kEth (eEvm k)) receiver, ccSender = AccString (eBech k) sender\<rparr>"

definition cc_ValidateBasic :: "('x, 'c, 'w) Erc20Keeper \<Rightarrow> (string \<Rightarrow> string option) \<Rightarrow> MsgConvertCoin \<Rightarrow> panic + string option" where
  "cc_ValidateBasic k validateIBCDenom msg =
     (if ValidateErc20Denom (kEth (eEvm k)) (ccDenom msg) \<noteq> None \<and> validateIBCDenom (ccDenom msg) \<noteq> None
      then Inr (validateIBCDenom (ccDenom msg))
      else case ccAmount msg of
        None \<Rightarrow> Inl NilDereference
      | Some amount \<Rightarrow>
          Inr (if \<not> amount > 0 then Some ''cannot mint a non-positive amount''
               else if badAddress (eBech k) (ccSender msg) then Some ''invalid sender address''
               else if \<not> IsHexAddress (kEth (eEvm k)) (ccReceiver msg) then Some ''invalid receiver hex address''
               else None))"

definition ce_ValidateBasic :: "('x, 'c, 'w) Erc20Keeper \<Rightarrow> MsgConvertERC20 \<Rightarrow> string option" where
  "ce_ValidateBasic k msg =
     (if \<not> IsHexAddress (kEth (eEvm k)) (ceContractAddress msg) then Some ''invalid contract hex address''
      else if \<not> ceAmount msg > 0 then Some ''cannot mint a non-positive amount''
      else if badAddress (eBech k) (ceReceiver msg) then Some ''invalid receiver address''
      else if \<not> IsHexAddress (kEth (eEvm k)) (ceSender msg) then Some ''invalid sender hex address''
      else None)"

definition MintingEnabled ::
    "('x, 'c, 'r Erc20Store_scheme) Erc20Keeper \<Rightarrow> address \<Rightarrow> address \<Rightarrow> string \<Rightarrow> ('x, 'r) Erc20State \<Rightarrow> string + TokenPair" where
  "MintingEnabled k sender receiver token es =
     (if \<not> IsERC20Enabled es then Inl ''module is currently disabled by governance''
      else case GetTokenPairID (kEth (eEvm k)) es token of
        None \<Rightarrow> Inl ''token not registered by id''
      | Some pid \<Rightarrow>
          (case GetTokenPair es pid of
             None \<Rightarrow> Inl ''token not registered''
           | Some pair \<Rightarrow>
               if \<not> tpEnabled pair then Inl ''minting token is not enabled by governance''
               else if BlockedAddr (kSdk (eEvm k)) receiver then Inl ''is not allowed to receive transactions''
               else if sender \<noteq> receiver \<and> \<not> IsSendEnabledCoin (eBank k) (e_sdk es) (tpDenom pair)
               then Inl ''minting coins to an external address is currently disabled''
               else Inr pair))"

text \<open>A balance that must be readable, and the checks of balances after a conversion.\<close>

definition tokenBalance :: "('x, 'c, 'w) Erc20Keeper \<Rightarrow> EvmBlock \<Rightarrow> address \<Rightarrow> address \<Rightarrow> ('x, 'w) EvmState \<Rightarrow> failure + int" where
  "tokenBalance k b contract acct es =
     rbind (BalanceOf k b contract acct es) (\<lambda>v. case v of None \<Rightarrow> Inl (Err ''failed to retrieve balance'') | Some n \<Rightarrow> Inr n)"

definition checkBalance :: "string \<Rightarrow> int \<Rightarrow> int \<Rightarrow> failure + unit" where
  "checkBalance what expected actual = (if actual \<noteq> expected then Inl (Err what) else Inr ())"

definition sdkCall :: "('x, 'w) EvmState \<Rightarrow> string + 'x \<Rightarrow> failure + ('x, 'w) EvmState" where
  "sdkCall es r = rbind (failing r) (\<lambda>x. Inr (onSdk es x))"

definition bytesOf :: "string \<Rightarrow> bytes" where
  "bytesOf s = map (\<lambda>c. word_of_nat (of_char c)) s"

definition logApprovalSig :: string where
  "logApprovalSig = ''Approval(address,address,uint256)''"

definition monitorApprovalEvent :: "('x, 'c, 'w) Erc20Keeper \<Rightarrow> EvmTxResponse \<Rightarrow> failure + unit" where
  "monitorApprovalEvent k res =
     foldM (\<lambda>log _.
       case plTopics log of
         [] \<Rightarrow> Inl (Panicked IndexOutOfRange)
       | t # _ \<Rightarrow> if t = HashHex (kEth (eEvm k)) (kKeccak (eEvm k) (bytesOf logApprovalSig))
           then Inl (Err ''unexpected Approval event'') else Inr ()) (resLogs res) ()"

definition needInt :: "int option \<Rightarrow> failure + int" where
  "needInt v = (case v of None \<Rightarrow> Inl (Panicked NilDereference) | Some n \<Rightarrow> Inr n)"

definition convertCoinNativeCoin ::
    "('x, 'c, 'w) Erc20Keeper \<Rightarrow> EvmBlock \<Rightarrow> TokenPair \<Rightarrow> MsgConvertCoin \<Rightarrow> address \<Rightarrow> address \<Rightarrow> ('x, 'w) EvmState \<Rightarrow>
      failure + ('x, 'w) EvmState" where
  "convertCoinNativeCoin k b pair msg receiver sender es =
     (let contract = GetERC20Contract (kEth (eEvm k)) pair in
      rbind (tokenBalance k b contract receiver es) (\<lambda>balanceToken.
      rbind (needInt (ccAmount msg)) (\<lambda>amount.
      rbind (sdkCall es (SendCoinsFromAccountToModule (kSdk (eEvm k)) (e_sdk es) sender erc20Module
          (RawCoins (kCoins (eEvm k)) [(ccDenom msg, amount)]))) (\<lambda>es.
      rbind (CallEVM k b (ModuleAddress k) contract True ''mint'' [AbiAddress receiver, AbiInt amount] es) (\<lambda>(_, es).
      rbind (tokenBalance k b contract receiver es) (\<lambda>balanceTokenAfter.
      rbind (checkBalance ''invalid token balance'' (balanceToken + amount) balanceTokenAfter) (\<lambda>_. Inr es)))))))"

definition convertERC20NativeCoin ::
    "('x, 'c, 'w) Erc20Keeper \<Rightarrow> EvmBlock \<Rightarrow> TokenPair \<Rightarrow> MsgConvertERC20 \<Rightarrow> address \<Rightarrow> address \<Rightarrow> ('x, 'w) EvmState \<Rightarrow>
      failure + ('x, 'w) EvmState" where
  "convertERC20NativeCoin k b pair msg receiver sender es =
     (let contract = GetERC20Contract (kEth (eEvm k)) pair;
          coins = RawCoins (kCoins (eEvm k)) [(tpDenom pair, ceAmount msg)];
          balanceCoin = BankBalance (kSdk (eEvm k)) (e_sdk es) receiver (tpDenom pair) in
      rbind (tokenBalance k b contract sender es) (\<lambda>balanceToken.
      rbind (CallEVM k b (ModuleAddress k) contract True ''burnCoins'' [AbiAddress sender, AbiInt (ceAmount msg)] es) (\<lambda>(_, es).
      rbind (sdkCall es (SendCoinsFromModuleToAccount (kSdk (eEvm k)) (e_sdk es) erc20Module receiver coins)) (\<lambda>es.
      rbind (checkBalance ''invalid coin balance'' (balanceCoin + ceAmount msg) (BankBalance (kSdk (eEvm k)) (e_sdk es) receiver (tpDenom pair))) (\<lambda>_.
      rbind (tokenBalance k b contract sender es) (\<lambda>balanceTokenAfter.
      rbind (checkBalance ''invalid token balance'' (balanceToken - ceAmount msg) balanceTokenAfter) (\<lambda>_. Inr es)))))))"

definition convertERC20NativeToken ::
    "('x, 'c, 'w) Erc20Keeper \<Rightarrow> EvmBlock \<Rightarrow> TokenPair \<Rightarrow> MsgConvertERC20 \<Rightarrow> address \<Rightarrow> address \<Rightarrow> ('x, 'w) EvmState \<Rightarrow>
      failure + ('x, 'w) EvmState" where
  "convertERC20NativeToken k b pair msg receiver sender es =
     (let contract = GetERC20Contract (kEth (eEvm k)) pair;
          coins = RawCoins (kCoins (eEvm k)) [(tpDenom pair, ceAmount msg)];
          balanceCoin = BankBalance (kSdk (eEvm k)) (e_sdk es) receiver (tpDenom pair) in
      rbind (tokenBalance k b contract (ModuleAddress k) es) (\<lambda>balanceToken.
      rbind (failing (abiPack (eAbi k) ''transfer'' [AbiAddress (ModuleAddress k), AbiInt (ceAmount msg)])) (\<lambda>transferData.
      rbind (CallEVMWithData k b sender (Some contract) transferData True es) (\<lambda>(res, es).
      rbind (failing (abiUnpackBool (eAbi k) ''transfer'' (resRet res))) (\<lambda>ok.
      if \<not> ok then Inl (Err ''failed to execute transfer'')
      else
      rbind (tokenBalance k b contract (ModuleAddress k) es) (\<lambda>balanceTokenAfter.
      rbind (checkBalance ''invalid token balance'' (balanceToken + ceAmount msg) balanceTokenAfter) (\<lambda>_.
      rbind (sdkCall es (MintCoins (kSdk (eEvm k)) (e_sdk es) erc20Module coins)) (\<lambda>es.
      rbind (sdkCall es (SendCoinsFromModuleToAccount (kSdk (eEvm k)) (e_sdk es) erc20Module receiver coins)) (\<lambda>es.
      rbind (checkBalance ''invalid coin balance'' (balanceCoin + ceAmount msg) (BankBalance (kSdk (eEvm k)) (e_sdk es) receiver (tpDenom pair))) (\<lambda>_.
      rbind (monitorApprovalEvent k res) (\<lambda>_. Inr es)))))))))))"

definition convertCoinNativeERC20 ::
    "('x, 'c, 'w) Erc20Keeper \<Rightarrow> EvmBlock \<Rightarrow> TokenPair \<Rightarrow> MsgConvertCoin \<Rightarrow> address \<Rightarrow> address \<Rightarrow> ('x, 'w) EvmState \<Rightarrow>
      failure + ('x, 'w) EvmState" where
  "convertCoinNativeERC20 k b pair msg receiver sender es =
     (let contract = GetERC20Contract (kEth (eEvm k)) pair in
      rbind (tokenBalance k b contract receiver es) (\<lambda>balanceToken.
      rbind (needInt (ccAmount msg)) (\<lambda>amount.
      let coins = RawCoins (kCoins (eEvm k)) [(ccDenom msg, amount)] in
      rbind (sdkCall es (SendCoinsFromAccountToModule (kSdk (eEvm k)) (e_sdk es) sender erc20Module coins)) (\<lambda>es.
      rbind (CallEVM k b (ModuleAddress k) contract True ''transfer'' [AbiAddress receiver, AbiInt amount] es) (\<lambda>(res, es).
      rbind (failing (abiUnpackBool (eAbi k) ''transfer'' (resRet res))) (\<lambda>ok.
      if \<not> ok then Inl (Err ''failed to execute unescrow tokens from user'')
      else
      rbind (tokenBalance k b contract receiver es) (\<lambda>balanceTokenAfter.
      rbind (checkBalance ''invalid token balance'' (balanceToken + amount) balanceTokenAfter) (\<lambda>_.
      rbind (sdkCall es (BurnCoins (kSdk (eEvm k)) (e_sdk es) erc20Module coins)) (\<lambda>es.
      rbind (monitorApprovalEvent k res) (\<lambda>_. Inr es))))))))))"

text \<open>
  The two messages.  The result tells whether the tokens were converted: when the contract has destructed itself the pair is removed and nothing is
  converted.
\<close>

definition convertPair ::
    "('x, 'c, 'r Erc20Store_scheme) Erc20Keeper \<Rightarrow> TokenPair \<Rightarrow> (('x, 'r) Erc20State \<Rightarrow> failure + ('x, 'r) Erc20State) \<Rightarrow>
      (('x, 'r) Erc20State \<Rightarrow> failure + ('x, 'r) Erc20State) \<Rightarrow> ('x, 'r) Erc20State \<Rightarrow> failure + bool \<times> ('x, 'r) Erc20State" where
  "convertPair k pair nativeCoin nativeERC20 es =
     (let erc20 = HexToAddress (kEth (eEvm k)) (tpErc20Address pair);
          acc = ek_GetAccountWithoutBalance (kSdk (eEvm k)) (kKeccak (eEvm k)) (esEvm es) erc20 in
      if (case acc of None \<Rightarrow> True | Some a \<Rightarrow> \<not> arg_IsContract (kKeccak (eEvm k)) a)
      then Inr (False, DeleteTokenPair (kEth (eEvm k)) (eSha k) pair es)
      else if IsNativeCoin pair then rbind (nativeCoin es) (\<lambda>es. Inr (True, es))
      else if IsNativeERC20 pair then rbind (nativeERC20 es) (\<lambda>es. Inr (True, es))
      else Inl (Err ''undefined owner of contract pair''))"

definition ConvertCoin ::
    "('x, 'c, 'r Erc20Store_scheme) Erc20Keeper \<Rightarrow> EvmBlock \<Rightarrow> MsgConvertCoin \<Rightarrow> ('x, 'r) Erc20State \<Rightarrow> failure + bool \<times> ('x, 'r) Erc20State" where
  "ConvertCoin k b msg es =
     (let receiver = HexToAddress (kEth (eEvm k)) (ccReceiver msg) in
      rbind (MustAccAddressFromBech32 (eBech k) (ccSender msg)) (\<lambda>sender.
      rbind (failing (MintingEnabled k sender receiver (ccDenom msg) es)) (\<lambda>pair.
        convertPair k pair (convertCoinNativeCoin k b pair msg receiver sender) (convertCoinNativeERC20 k b pair msg receiver sender) es)))"

definition ConvertERC20 ::
    "('x, 'c, 'r Erc20Store_scheme) Erc20Keeper \<Rightarrow> EvmBlock \<Rightarrow> MsgConvertERC20 \<Rightarrow> ('x, 'r) Erc20State \<Rightarrow> failure + bool \<times> ('x, 'r) Erc20State" where
  "ConvertERC20 k b msg es =
     (let sender = HexToAddress (kEth (eEvm k)) (ceSender msg) in
      rbind (MustAccAddressFromBech32 (eBech k) (ceReceiver msg)) (\<lambda>receiver.
      rbind (failing (MintingEnabled k sender receiver (ceContractAddress msg) es)) (\<lambda>pair.
        convertPair k pair (convertERC20NativeCoin k b pair msg receiver sender) (convertERC20NativeToken k b pair msg receiver sender) es)))"

section \<open>The hook after an EVM transaction\<close>

text \<open>
  The call of \<^verbatim>\<open>burn\<close> by the hook: a failed execution is an error, but what it committed stays.  When the commit itself fails nothing of it stays in this
  model.
\<close>

definition burnTokens ::
    "('x, 'c, 'w) Erc20Keeper \<Rightarrow> EvmBlock \<Rightarrow> address \<Rightarrow> int \<Rightarrow> ('x, 'w) EvmState \<Rightarrow> failure + bool \<times> ('x, 'w) EvmState" where
  "burnTokens k b contract tokens es =
     (case abiPack (eAbi k) ''burn'' [AbiInt tokens] of
        Inl _ \<Rightarrow> Inr (False, es)
      | Inr data \<Rightarrow>
          (case applyCall k b (ModuleAddress k) (Some contract) data True es of
             Inl (Panicked p) \<Rightarrow> Inl (Panicked p)
           | Inl (Err _) \<Rightarrow> Inr (False, es)
           | Inr (res, es') \<Rightarrow> Inr (\<not> res_Failed res, es')))"

definition hookMint :: "('x, 'c, 'w) Erc20Keeper \<Rightarrow> 'c \<Rightarrow> ('x, 'w) EvmState \<Rightarrow> bool \<times> ('x, 'w) EvmState" where
  "hookMint k coins es =
     (case MintCoins (kSdk (eEvm k)) (e_sdk es) erc20Module coins of Inl _ \<Rightarrow> (False, es) | Inr x \<Rightarrow> (True, onSdk es x))"

definition hookRelease ::
    "('x, 'c, 'w) Erc20Keeper \<Rightarrow> EvmBlock \<Rightarrow> TokenPair \<Rightarrow> address \<Rightarrow> int \<Rightarrow> 'c \<Rightarrow> ('x, 'w) EvmState \<Rightarrow> failure + bool \<times> ('x, 'w) EvmState" where
  "hookRelease k b pair contractAddr tokens coins es =
     (case tpContractOwner pair of
        OWNER_MODULE \<Rightarrow> burnTokens k b contractAddr tokens es
      | OWNER_EXTERNAL \<Rightarrow> Inr (hookMint k coins es)
      | OWNER_UNSPECIFIED \<Rightarrow> Inr (False, es))"

definition hookSend :: "('x, 'c, 'w) Erc20Keeper \<Rightarrow> address \<Rightarrow> 'c \<Rightarrow> ('x, 'w) EvmState \<Rightarrow> ('x, 'w) EvmState" where
  "hookSend k recipient coins es =
     (case SendCoinsFromModuleToAccount (kSdk (eEvm k)) (e_sdk es) erc20Module recipient coins of Inl _ \<Rightarrow> es | Inr x \<Rightarrow> onSdk es x)"

definition hookTransfer ::
    "('x, 'c, 'r Erc20Store_scheme) Erc20Keeper \<Rightarrow> EvmBlock \<Rightarrow> address \<Rightarrow> address \<Rightarrow> address \<Rightarrow> int \<Rightarrow> ('x, 'r) Erc20State \<Rightarrow>
      failure + ('x, 'r) Erc20State" where
  "hookTransfer k b contractAddr from to tokens es =
     (case Option.bind (GetERC20Map es contractAddr) (GetTokenPair es) of
        None \<Rightarrow> Inr es
      | Some pair \<Rightarrow>
          if to \<noteq> ModuleAddress k then Inr es
          else if \<not> tpEnabled pair then Inr es
          else
            rbind (panicking (NewIntFromBigInt (kDec (eEvm k)) tokens)) (\<lambda>amount.
              let coins = RawCoins (kCoins (eEvm k)) [(tpDenom pair, amount)] in
              rbind (hookRelease k b pair contractAddr tokens coins es) (\<lambda>(ok, es). Inr (if ok then hookSend k from coins es else es))))"

text \<open>The amount, the sender and the receiver of a log that is a transfer of a positive amount.\<close>

definition transferEvent :: "('x, 'c, 'w) Erc20Keeper \<Rightarrow> Log \<Rightarrow> (int \<times> address \<times> address) option" where
  "transferEvent k log =
     (case logTopics log of
        [eventID, fromTopic, toTopic] \<Rightarrow>
          (case abiEventByID (eAbi k) eventID of
             Some name \<Rightarrow>
               if name \<noteq> ''Transfer'' then None
               else (case abiUnpackInts (eAbi k) name (logData log) of
                       Inr (Some tokens # _) \<Rightarrow> if tokens > 0 then Some (tokens, ucast fromTopic, ucast toTopic) else None
                     | _ \<Rightarrow> None)
           | None \<Rightarrow> None)
      | _ \<Rightarrow> None)"

definition hookLog ::
    "('x, 'c, 'r Erc20Store_scheme) Erc20Keeper \<Rightarrow> EvmBlock \<Rightarrow> Log \<Rightarrow> ('x, 'r) Erc20State \<Rightarrow> failure + ('x, 'r) Erc20State" where
  "hookLog k b log es =
     (case transferEvent k log of
        None \<Rightarrow> Inr es
      | Some (tokens, from, to) \<Rightarrow> hookTransfer k b (logAddress log) from to tokens es)"

definition er_PostTxProcessing ::
    "('x, 'c, 'r Erc20Store_scheme) Erc20Keeper \<Rightarrow> EvmBlock \<Rightarrow> ('x, 'r Erc20Store_scheme) EvmHook" where
  "er_PostTxProcessing k b msg receipt es =
     (receipt,
      if \<not> EnableErc20 (er_GetParams es) \<or> \<not> EnableEVMHook (er_GetParams es) then Inr es
      else foldM (hookLog k b) (rcLogs receipt) es)"

section \<open>IBC callbacks\<close>

text \<open>
  An acknowledgement is None for the original one and an error otherwise; ibc-go drops the writes of a callback that ends with an
  error, so the state given is returned.  \<open>cp\<close> are the parameters of the claims module.
\<close>

definition convertReceived ::
    "('x, 'c, 'r Erc20Store_scheme) Erc20Keeper \<Rightarrow> EvmBlock \<Rightarrow> string \<Rightarrow> address \<Rightarrow> ('x, 'r) Erc20State \<Rightarrow>
      panic + string option \<times> ('x, 'r) Erc20State" where
  "convertReceived k b denom recipient es =
     (if denom = BondDenom (kSdk (eEvm k)) (e_sdk es) then Inr (None, es)
      else case GetTokenPairID (kEth (eEvm k)) es denom of
        None \<Rightarrow> Inr (None, es)
      | Some pid \<Rightarrow>
          if (case GetTokenPair es pid of None \<Rightarrow> True | Some pair \<Rightarrow> \<not> tpEnabled pair) then Inr (None, es)
          else
            let balance = BankBalance (kSdk (eEvm k)) (e_sdk es) recipient denom in
            case ConvertCoin k b (NewMsgConvertCoin k (denom, Some balance) recipient recipient) es of
              Inl (Panicked p) \<Rightarrow> Inl p
            | Inl (Err e) \<Rightarrow> Inr (Some e, es)
            | Inr (_, es') \<Rightarrow> Inr (None, es'))"

definition senderIsModule :: "('x, 'c, 'w) Erc20Keeper \<Rightarrow> address \<Rightarrow> ('x, 'w) EvmState \<Rightarrow> bool" where
  "senderIsModule k sender es =
     (case GetAccount (kSdk (eEvm k)) (e_sdk es) sender of None \<Rightarrow> False | Some acc \<Rightarrow> eIsModuleAccount k acc)"

definition er_OnRecvPacket ::
    "('x, 'c, 'r Erc20Store_scheme) Erc20Keeper \<Rightarrow> EvmBlock \<Rightarrow> IbcLib \<Rightarrow> ClaimsParams \<Rightarrow> Packet \<Rightarrow> ('x, 'r) Erc20State \<Rightarrow>
      panic + string option \<times> ('x, 'r) Erc20State" where
  "er_OnRecvPacket k b T cp packet es =
     (case UnmarshalPacketData T (PacketData packet) of
        Inl _ \<Rightarrow> Inr (Some ''cannot unmarshal ICS-20 transfer packet data'', es)
      | Inr data \<Rightarrow>
          if \<not> IsERC20Enabled es then Inr (None, es)
          else case GetTransferSenderRecipient T packet of
            Inl e \<Rightarrow> Inr (Some e, es)
          | Inr (sender, recipient, _, _) \<Rightarrow>
              if sender = recipient \<and> \<not> IsEVMChannel cp (DestinationChannel packet) then Inr (None, es)
              else if senderIsModule k sender es then Inr (None, es)
              else rbind (GetReceivedCoin T (SourcePort packet) (SourceChannel packet) (DestinationPort packet) (DestinationChannel packet)
                  (ftDenom data) (ftAmount data)) (\<lambda>coin. convertReceived k b (fst coin) recipient es))"

definition ConvertCoinToERC20FromPacket ::
    "('x, 'c, 'r Erc20Store_scheme) Erc20Keeper \<Rightarrow> EvmBlock \<Rightarrow> IbcLib \<Rightarrow> FungibleTokenPacketData \<Rightarrow> ('x, 'r) Erc20State \<Rightarrow>
      failure + ('x, 'r) Erc20State" where
  "ConvertCoinToERC20FromPacket k b T data es =
     rbind (failing (AccAddressFromBech32 (eBech k) (ftSender data))) (\<lambda>sender.
       if senderIsModule k sender es then Inr es
       else
         let coin = GetSentCoin T (ftDenom data) (ftAmount data) in
         if fst coin = BondDenom (kSdk (eEvm k)) (e_sdk es) then Inr es
         else if \<not> EnableErc20 (er_GetParams es) \<or> \<not> IsDenomRegistered es (fst coin) then Inr es
         else rbind (ConvertCoin k b (NewMsgConvertCoin k coin sender sender) es) (\<lambda>(_, es). Inr es))"

text \<open>The argument \<open>failed\<close> tells whether the acknowledgement is an error.\<close>

definition er_OnAcknowledgementPacket ::
    "('x, 'c, 'r Erc20Store_scheme) Erc20Keeper \<Rightarrow> EvmBlock \<Rightarrow> IbcLib \<Rightarrow> FungibleTokenPacketData \<Rightarrow> bool \<Rightarrow> ('x, 'r) Erc20State \<Rightarrow>
      failure + ('x, 'r) Erc20State" where
  "er_OnAcknowledgementPacket k b T data failed es =
     (if failed then ConvertCoinToERC20FromPacket k b T data es else Inr es)"

definition er_OnTimeoutPacket ::
    "('x, 'c, 'r Erc20Store_scheme) Erc20Keeper \<Rightarrow> EvmBlock \<Rightarrow> IbcLib \<Rightarrow> FungibleTokenPacketData \<Rightarrow> ('x, 'r) Erc20State \<Rightarrow>
      failure + ('x, 'r) Erc20State" where
  "er_OnTimeoutPacket k b T data es = ConvertCoinToERC20FromPacket k b T data es"

section \<open>Genesis\<close>

record Erc20Genesis =
  egParams :: Erc20Params
  egTokenPairs :: "TokenPair list"

fun er_validatePairs :: "(string \<Rightarrow> string option) \<Rightarrow> EthLib \<Rightarrow> string list \<Rightarrow> string list \<Rightarrow> TokenPair list \<Rightarrow> string option" where
  "er_validatePairs validateDenom H seenErc20 seenDenom [] = None"
| "er_validatePairs validateDenom H seenErc20 seenDenom (b # bs) =
     (if tpErc20Address b \<in> set seenErc20 then Some ''token ERC20 contract duplicated on genesis''
      else if tpDenom b \<in> set seenDenom then Some ''coin denomination duplicated on genesis''
      else case tp_Validate validateDenom H b of
        Some e \<Rightarrow> Some e
      | None \<Rightarrow> er_validatePairs validateDenom H (tpErc20Address b # seenErc20) (tpDenom b # seenDenom) bs)"

definition er_ValidateGenesis :: "(string \<Rightarrow> string option) \<Rightarrow> EthLib \<Rightarrow> Erc20Genesis \<Rightarrow> string option" where
  "er_ValidateGenesis validateDenom H gs = er_validatePairs validateDenom H [] [] (egTokenPairs gs)"

definition er_InitGenesis ::
    "('x, 'c, 'r Erc20Store_scheme) Erc20Keeper \<Rightarrow> Erc20Genesis \<Rightarrow> ('x, 'r) Erc20State \<Rightarrow> ('x, 'r) Erc20State" where
  "er_InitGenesis k data es = fold (addPair k) (egTokenPairs data) (er_SetParams (egParams data) es)"

definition er_ExportGenesis :: "('x, 'r) Erc20State \<Rightarrow> Erc20Genesis" where
  "er_ExportGenesis es = \<lparr>egParams = er_GetParams es, egTokenPairs = GetTokenPairs es\<rparr>"

section \<open>What a call of a contract leaves alone\<close>

text \<open>The interpreter moves only the denomination of the EVM, and no store of another module.\<close>

definition evmOnly :: "('x, 'c) Keepers \<Rightarrow> 'x EvmCtx \<Rightarrow> 'x EvmCtx \<Rightarrow> bool" where
  "evmOnly K cx cx' \<longleftrightarrow> EvmDenom cx' = EvmDenom cx \<and>
     (\<forall>d. d \<noteq> EvmDenom cx \<longrightarrow> (\<forall>a. BankBalance K (sdkState cx') a d = BankBalance K (sdkState cx) a d) \<and>
        GetSupply K (sdkState cx') d = GetSupply K (sdkState cx) d)"

lemma evmOnly_refl [simp]: "evmOnly K cx cx"
  by (simp add: evmOnly_def)

lemma evmOnly_trans: "evmOnly K cx cx1 \<Longrightarrow> evmOnly K cx1 cx2 \<Longrightarrow> evmOnly K cx cx2"
  by (simp add: evmOnly_def)

lemma evmOnly_stores [simp]:
  "evmOnly K cx (ek_SetState cx1 a key v) = evmOnly K cx cx1" "evmOnly K cx (ek_SetCode cx1 h c) = evmOnly K cx cx1"
  by (auto simp: evmOnly_def ek_SetState_def ek_SetCode_def split: option.splits)

context sdk_keepers
begin

lemma SetBalance_evmOnly:
  fixes cx :: "'x EvmCtx"
  assumes "ek_SetBalance C K cx a n = Inr cx'"
  shows "evmOnly K cx cx'"
proof -
  let ?x = "sdkState cx" and ?\<Delta> = "n - BankBalance K (sdkState cx) a (EvmDenom cx)"
  have coins: "AmountOf C (NewCoins C [(EvmDenom cx, m)]) d = 0" if "0 \<le> m" "d \<noteq> EvmDenom cx" for m d
    using that by (simp add: one_coin)
  consider "?\<Delta> > 0" | "?\<Delta> < 0" | "?\<Delta> = 0" by linarith
  then show ?thesis
  proof cases
    case 1
    then obtain x1 x2 where "MintCoins K ?x evmModule (NewCoins C [(EvmDenom cx, ?\<Delta>)]) = Inr x1"
      "SendCoinsFromModuleToAccount K x1 evmModule a (NewCoins C [(EvmDenom cx, ?\<Delta>)]) = Inr x2" "cx' = cx\<lparr>sdkState := x2\<rparr>"
      using assms by (auto simp: ek_SetBalance_def Let_def)
    with MintCoins_law [OF this(1)] ModuleToAccount_law [OF this(2)] 1 coins show ?thesis
      by (simp add: evmOnly_def transferred_def at_addr_def)
  next
    case 2
    then obtain x1 x2 where "SendCoinsFromAccountToModule K ?x a evmModule (NewCoins C [(EvmDenom cx, - ?\<Delta>)]) = Inr x1"
      "BurnCoins K x1 evmModule (NewCoins C [(EvmDenom cx, - ?\<Delta>)]) = Inr x2" "cx' = cx\<lparr>sdkState := x2\<rparr>"
      using assms by (auto simp: ek_SetBalance_def Let_def)
    with AccountToModule_law [OF this(1)] BurnCoins_law [OF this(2)] 2 coins show ?thesis
      by (simp add: evmOnly_def transferred_def at_addr_def)
  next
    case 3
    then show ?thesis using assms by (simp add: ek_SetBalance_def)
  qed
qed

lemma SetAccount_evmOnly:
  fixes cx :: "'x EvmCtx"
  assumes "ek_SetAccount C K cx a acc = Inr cx'"
  shows "evmOnly K cx cx'"
proof -
  obtain x acct2 where x: "ek_SetBalance C K (cx\<lparr>sdkState := SetAccount K x acct2\<rparr>) a (Balance acc) = Inr cx'"
    "BankBalance K x = BankBalance K (sdkState cx)" "GetSupply K x = GetSupply K (sdkState cx)"
  proof (cases "GetAccount K (sdkState cx) a")
    case None
    obtain acct x where n: "NewAccountWithAddress K (sdkState cx) a = (acct, x)" by fastforce
    show thesis
      by (rule that [of x]) (use assms None n NewAccountWithAddress_law [OF n] in \<open>auto simp: ek_SetAccount_def Let_def\<close>)
  next
    case (Some acct)
    show thesis by (rule that [of "sdkState cx"]) (use assms Some in \<open>auto simp: ek_SetAccount_def Let_def\<close>)
  qed
  show ?thesis using SetBalance_evmOnly [OF x(1)] x(2,3) Balance_SetAccount by (simp add: evmOnly_def)
qed

lemma DeleteAccount_evmOnly:
  fixes cx :: "'x EvmCtx"
  assumes "ek_DeleteAccount C K cx a = Inr cx'"
  shows "evmOnly K cx cx'"
proof (cases "GetAccount K (sdkState cx) a")
  case (Some acct)
  then obtain cx1 where cx1: "ek_SetBalance C K cx a 0 = Inr cx1"
    and cx': "cx' = (let cx2 = fold (\<lambda>(key, _) cx. ek_SetState cx a key None) (ek_ForEachStorage cx1 a) cx1
      in cx2\<lparr>sdkState := RemoveAccount K (sdkState cx2) acct\<rparr>)"
    using assms by (auto simp: ek_DeleteAccount_def Let_def split: AccountI.splits)
  have "evmOnly K cx (fold (\<lambda>(key, _) cx. ek_SetState cx a key None) kvs cx2)" if "evmOnly K cx cx2" for kvs and cx2 :: "'x EvmCtx"
    using that by (induction kvs arbitrary: cx2) auto
  from this [OF SetBalance_evmOnly [OF cx1]] show ?thesis
    using RemoveAccount_law(2,3) unfolding cx' by (simp add: evmOnly_def Let_def)
qed (use assms in \<open>simp add: ek_DeleteAccount_def\<close>)

lemma commitObject_evmOnly:
  fixes cx :: "'x EvmCtx"
  assumes "commitObject (evm_keeper C K keccak) obj cx = Inr cx'"
  shows "evmOnly K cx cx'"
proof (cases "suicided obj")
  case True
  then show ?thesis using assms DeleteAccount_evmOnly by (auto simp: commitObject_def evm_keeper_def wrapErr_def split: sum.splits)
next
  case False
  let ?cx = "if code obj \<noteq> None \<and> dirtyCode obj then ek_SetCode cx (CodeHash (account obj)) (code obj) else cx"
  obtain cx1 where cx1: "ek_SetAccount C K ?cx (objAddress obj) (account obj) = Inr cx1"
    and cx': "cx' = commitStorage (evm_keeper C K keccak) obj cx1"
    using assms False by (auto simp: commitObject_def evm_keeper_def wrapErr_def Let_def split: sum.splits if_splits)
  have "evmOnly K cx ?cx" by simp
  from evmOnly_trans [OF this SetAccount_evmOnly [OF cx1]] have one: "evmOnly K cx cx1" .
  have set: "kSetState (evm_keeper C K keccak) = ek_SetState" by (simp add: evm_keeper_def)
  have "evmOnly K cx (fold (\<lambda>key cx. let val = the (fmlookup (dirtyStorage obj) key) in
      if val = (case fmlookup (originStorage obj) key of None \<Rightarrow> 0 | Some v \<Rightarrow> v) then cx
      else ek_SetState cx (objAddress obj) key (Some val)) ks cx2)" if "evmOnly K cx cx2" for ks and cx2 :: "'x EvmCtx"
    using that by (induction ks arbitrary: cx2) (auto simp: Let_def)
  from this [OF one] show ?thesis unfolding cx' commitStorage_def set .
qed

lemma Commit_evmOnly:
  fixes cx :: "'x EvmCtx"
  assumes run: "calls exec cs (New cx (evm_keeper C K keccak) keccak cfg) = Inr (s, rs)" and com: "Commit s = Inr s'"
  shows "evmOnly K cx (ctx s')"
proof -
  let ?kp = "evm_keeper C K keccak"
  obtain S where sim: "sim (env_of (New cx ?kp keccak cfg)) s S" using sim_reached [OF run] by blast
  have s: "keeper s = ?kp" "ctx s = cx" using sim_inv(3) [OF sim] unfolding env_New by (simp_all add: env_of_def)
  have "keeper s' = ?kp \<and> evmOnly K cx (ctx s')"
    using com [unfolded Commit_def]
  proof (rule foldM_invariant)
    fix addr t t' assume "keeper t = ?kp \<and> evmOnly K cx (ctx t)"
      "(case fmlookup (stateObjects t) addr of None \<Rightarrow> Inl (Panicked NilDereference)
        | Some obj \<Rightarrow> rbind (commitObject (keeper t) obj (ctx t)) (\<lambda>cx. Inr (t\<lparr>ctx := cx\<rparr>))) = Inr t'"
    then show "keeper t' = ?kp \<and> evmOnly K cx (ctx t')"
      using commitObject_evmOnly evmOnly_trans by (fastforce split: option.splits)
  qed (use s in simp)
  then show ?thesis by blast
qed

end

context evm_module
begin

lemma ApplyMessage_evmOnly:
  assumes "ApplyMessage k b msg commit es = Inr (res, es')"
  shows "evmOnly (kSdk k) (esEvm es) (esEvm es')" "es' = es\<lparr>esEvm := esEvm es'\<rparr>" "\<not> commit \<Longrightarrow> es' = es"
proof -
  obtain cfg txCfg where run: "ApplyMessageWithConfig k b msg commit cfg txCfg es = Inr (res, es')"
    using assms by (auto simp: ApplyMessage_def)
  obtain g s ret left err where s: "runMessage k b msg cfg txCfg g es = Inr (s, ret, left, err)"
    and es': "if commit then \<exists>s'. Commit s = Inr s' \<and> es' = es\<lparr>esEvm := ctx s'\<rparr> else es' = es"
    using run by (rule ApplyMessage_cases) blast
  obtain cs rs where cs: "calls exec cs (New (esEvm es) (evm_keeper (kCoins k) (kSdk k) (kKeccak k)) (kKeccak k) txCfg) = Inr (s, rs)"
    using runMessage_reaches [OF s] by (auto simp: reaches_def newStateDB_def)
  show "evmOnly (kSdk k) (esEvm es) (esEvm es')" using es' Commit_evmOnly [OF cs] by (auto split: if_splits)
  show "es' = es\<lparr>esEvm := esEvm es'\<rparr>" "\<not> commit \<Longrightarrow> es' = es" using es' by (auto split: if_splits)
qed

end

section \<open>Conversions and balances\<close>

lemma estimated_returns:
  "\<exists>r. EstimateGas E k b parsed \<lparr>ecArgs = Inr args, ecGasCap = DefaultGasCap, ecProposerAddress = [], ecChainId = 0\<rparr> es = Some r"
  using estimate_spec [of "\<lparr>ecArgs = Inr args, ecGasCap = DefaultGasCap, ecProposerAddress = [], ecChainId = 0\<rparr>" E k b parsed es]
  by (auto simp: DefaultGasCap_def)

lemma onSdk_simps [simp]:
  "e_sdk (onSdk es x) = x" "esMods (onSdk es x) = esMods es" "EvmDenom (esEvm (onSdk es x)) = EvmDenom (esEvm es)"
  "storageStore (esEvm (onSdk es x)) = storageStore (esEvm es)" "codeStore (esEvm (onSdk es x)) = codeStore (esEvm es)"
  by (simp_all add: onSdk_def)

lemma sdkCall_Inr: "sdkCall es r = Inr es' \<longleftrightarrow> (\<exists>x. r = Inr x \<and> es' = onSdk es x)"
  by (cases r) (auto simp: sdkCall_def)

lemma checkBalance_Inr: "checkBalance what e a = Inr u \<longleftrightarrow> a = e"
  by (simp add: checkBalance_def)

lemma needInt_Inr: "needInt v = Inr n \<longleftrightarrow> v = Some n"
  by (simp add: needInt_def split: option.splits)

lemmas convert_simps = sdkCall_Inr checkBalance_Inr needInt_Inr

text \<open>
  The effect of a conversion on the bank: in every denomination but that of the EVM the account \<open>a\<close> loses and the account \<open>c\<close> gains \<open>n\<close> of
  the denomination \<open>e\<close>, where there is such an account, and the supply follows.
\<close>

definition bankEffect ::
    "('x, 'c, 'w) Erc20Keeper \<Rightarrow> ('x, 'w) EvmState \<Rightarrow> address option \<Rightarrow> address option \<Rightarrow> string \<Rightarrow> int \<Rightarrow> ('x, 'w) EvmState \<Rightarrow> bool" where
  "bankEffect k es from to e n es' \<longleftrightarrow>
     (\<forall>d. d \<noteq> EvmDenom (esEvm es) \<longrightarrow>
       (\<forall>z. BankBalance (kSdk (eEvm k)) (e_sdk es') z d = BankBalance (kSdk (eEvm k)) (e_sdk es) z d +
         (if d = e then (case to of None \<Rightarrow> 0 | Some c \<Rightarrow> at_addr c z n) - (case from of None \<Rightarrow> 0 | Some a \<Rightarrow> at_addr a z n) else 0)) \<and>
       GetSupply (kSdk (eEvm k)) (e_sdk es') d = GetSupply (kSdk (eEvm k)) (e_sdk es) d +
         (if d = e then (case to of None \<Rightarrow> 0 | Some _ \<Rightarrow> n) - (case from of None \<Rightarrow> 0 | Some _ \<Rightarrow> n) else 0))"

text \<open>The balance of an account at the contract before and right after the call, on the storage that the conversion leaves.\<close>

definition tokensMoved ::
    "('x, 'c, 'w) Erc20Keeper \<Rightarrow> EvmBlock \<Rightarrow> address \<Rightarrow> address \<Rightarrow> int \<Rightarrow> ('x, 'w) EvmState \<Rightarrow> ('x, 'w) EvmState \<Rightarrow> bool" where
  "tokensMoved k b contract acct n es es' \<longleftrightarrow>
     (\<exists>t es1. tokenBalance k b contract acct es = Inr t \<and> tokenBalance k b contract acct es1 = Inr (t + n) \<and>
       storageStore (esEvm es1) = storageStore (esEvm es') \<and> codeStore (esEvm es1) = codeStore (esEvm es'))"

locale erc20_module = evm_module "eEvm k" for k :: "('x, 'c, 'r Erc20Store_scheme) Erc20Keeper" +
  assumes Metadata_law:
    "BankBalance (kSdk (eEvm k)) (SetDenomMetaData (eBank k) x md) = BankBalance (kSdk (eEvm k)) x"
    "GetSupply (kSdk (eEvm k)) (SetDenomMetaData (eBank k) x md) = GetSupply (kSdk (eEvm k)) x"
begin

lemma applyCall_frame:
  assumes "applyCall k b from contract data commit es = Inr (res, es')"
  shows "evmOnly (kSdk (eEvm k)) (esEvm es) (esEvm es')" "esMods es' = esMods es" "\<not> commit \<Longrightarrow> es' = es"
proof -
  obtain msg where m: "ApplyMessage (eEvm k) b msg commit es = Inr (res, es')" using assms by (auto simp: applyCall_def)
  show "evmOnly (kSdk (eEvm k)) (esEvm es) (esEvm es')" "\<not> commit \<Longrightarrow> es' = es" using ApplyMessage_evmOnly(1,3) [OF m] .
  show "esMods es' = esMods es" by (subst ApplyMessage_evmOnly(2) [OF m]) simp
qed

lemma CallEVMWithData_frame:
  assumes "CallEVMWithData k b from contract data commit es = Inr (res, es')"
  shows "evmOnly (kSdk (eEvm k)) (esEvm es) (esEvm es')" "esMods es' = esMods es"
  using assms applyCall_frame(1,2) [of b "from" contract data commit es] by (auto simp: CallEVMWithData_def split: if_splits)

lemma CallEVM_frame:
  assumes "CallEVM k b from contract commit method args es = Inr (res, es')"
  shows "evmOnly (kSdk (eEvm k)) (esEvm es) (esEvm es')" "esMods es' = esMods es"
  using assms CallEVMWithData_frame [of b "from" "Some contract"] by (auto simp: CallEVM_def)

lemma raw: "0 \<le> n \<Longrightarrow> AmountOf (kCoins (eEvm k)) (RawCoins (kCoins (eEvm k)) [(e, n)]) d = (if d = e then n else 0)"
  by (rule AmountOf_RawCoins)

lemma effects_trans:
  assumes "bankEffect k es from to e n es1" "evmOnly (kSdk (eEvm k)) (esEvm es1) (esEvm es2)" "EvmDenom (esEvm es1) = EvmDenom (esEvm es)"
  shows "bankEffect k es from to e n es2"
  using assms by (simp add: bankEffect_def evmOnly_def)

lemma nativeCoin_effect:
  assumes "convertCoinNativeCoin k b pair msg receiver sender es = Inr es'" "ccAmount msg = Some n" "0 \<le> n"
  shows "bankEffect k es (Some sender) (Some (ModuleAddress k)) (ccDenom msg) n es'" "esMods es' = esMods es"
    "tokensMoved k b (GetERC20Contract (kEth (eEvm k)) pair) receiver n es es'"
proof -
  let ?contract = "GetERC20Contract (kEth (eEvm k)) pair" and ?K = "kSdk (eEvm k)"
  obtain t x res where t: "tokenBalance k b ?contract receiver es = Inr t"
    and send: "SendCoinsFromAccountToModule ?K (e_sdk es) sender erc20Module (RawCoins (kCoins (eEvm k)) [(ccDenom msg, n)]) = Inr x"
    and call: "CallEVM k b (ModuleAddress k) ?contract True ''mint'' [AbiAddress receiver, AbiInt n] (onSdk es x) = Inr (res, es')"
    and t': "tokenBalance k b ?contract receiver es' = Inr (t + n)"
    using assms(1,2) by (auto simp: convertCoinNativeCoin_def convert_simps Let_def)
  have "bankEffect k es (Some sender) (Some (ModuleAddress k)) (ccDenom msg) n (onSdk es x)"
    using AccountToModule_law [OF send] assms(3) by (simp add: bankEffect_def transferred_def raw ModuleAddress_def at_addr_def)
  then show "bankEffect k es (Some sender) (Some (ModuleAddress k)) (ccDenom msg) n es'"
    by (rule effects_trans [OF _ CallEVM_frame(1) [OF call]]) simp
  show "esMods es' = esMods es" using CallEVM_frame(2) [OF call] by simp
  show "tokensMoved k b ?contract receiver n es es'" using t t' by (auto simp: tokensMoved_def)
qed

lemma nativeERC20_effect:
  assumes "convertCoinNativeERC20 k b pair msg receiver sender es = Inr es'" "ccAmount msg = Some n" "0 \<le> n"
  shows "bankEffect k es (Some sender) None (ccDenom msg) n es'" "esMods es' = esMods es"
    "tokensMoved k b (GetERC20Contract (kEth (eEvm k)) pair) receiver n es es'"
proof -
  let ?contract = "GetERC20Contract (kEth (eEvm k)) pair" and ?K = "kSdk (eEvm k)"
  let ?coins = "RawCoins (kCoins (eEvm k)) [(ccDenom msg, n)]"
  obtain t x res es1 y where t: "tokenBalance k b ?contract receiver es = Inr t"
    and send: "SendCoinsFromAccountToModule ?K (e_sdk es) sender erc20Module ?coins = Inr x"
    and call: "CallEVM k b (ModuleAddress k) ?contract True ''transfer'' [AbiAddress receiver, AbiInt n] (onSdk es x) = Inr (res, es1)"
    and t': "tokenBalance k b ?contract receiver es1 = Inr (t + n)"
    and burn: "BurnCoins ?K (e_sdk es1) erc20Module ?coins = Inr y" and es': "es' = onSdk es1 y"
    using assms(1,2) by (auto simp: convertCoinNativeERC20_def convert_simps Let_def split: if_splits)
  have "bankEffect k es (Some sender) (Some (ModuleAddress k)) (ccDenom msg) n (onSdk es x)"
    using AccountToModule_law [OF send] assms(3) by (simp add: bankEffect_def transferred_def raw ModuleAddress_def at_addr_def)
  then have one: "bankEffect k es (Some sender) (Some (ModuleAddress k)) (ccDenom msg) n es1"
    by (rule effects_trans [OF _ CallEVM_frame(1) [OF call]]) simp
  show "bankEffect k es (Some sender) None (ccDenom msg) n es'"
    using one BurnCoins_law [OF burn] assms(3) by (simp add: bankEffect_def es' raw ModuleAddress_def at_addr_def)
  show "esMods es' = esMods es" using CallEVM_frame(2) [OF call] by (simp add: es')
  show "tokensMoved k b ?contract receiver n es es'" using t t' by (auto simp: tokensMoved_def es')
qed

lemma erc20NativeCoin_effect:
  assumes "convertERC20NativeCoin k b pair msg receiver sender es = Inr es'" "0 \<le> ceAmount msg"
  shows "bankEffect k es (Some (ModuleAddress k)) (Some receiver) (tpDenom pair) (ceAmount msg) es'" "esMods es' = esMods es"
    "tokensMoved k b (GetERC20Contract (kEth (eEvm k)) pair) sender (- ceAmount msg) es es'"
proof -
  let ?contract = "GetERC20Contract (kEth (eEvm k)) pair" and ?K = "kSdk (eEvm k)"
  let ?coins = "RawCoins (kCoins (eEvm k)) [(tpDenom pair, ceAmount msg)]"
  obtain t res es1 y where t: "tokenBalance k b ?contract sender es = Inr t"
    and call: "CallEVM k b (ModuleAddress k) ?contract True ''burnCoins'' [AbiAddress sender, AbiInt (ceAmount msg)] es = Inr (res, es1)"
    and send: "SendCoinsFromModuleToAccount ?K (e_sdk es1) erc20Module receiver ?coins = Inr y" and es': "es' = onSdk es1 y"
    and t': "tokenBalance k b ?contract sender es' = Inr (t - ceAmount msg)"
    using assms(1) by (auto simp: convertERC20NativeCoin_def convert_simps Let_def)
  show "bankEffect k es (Some (ModuleAddress k)) (Some receiver) (tpDenom pair) (ceAmount msg) es'"
    using CallEVM_frame(1) [OF call] ModuleToAccount_law [OF send] assms(2)
    by (simp add: bankEffect_def transferred_def evmOnly_def raw ModuleAddress_def at_addr_def es')
  show "esMods es' = esMods es" using CallEVM_frame(2) [OF call] by (simp add: es')
  show "tokensMoved k b ?contract sender (- ceAmount msg) es es'" using t t' by (auto simp: tokensMoved_def)
qed

lemma erc20NativeToken_effect:
  assumes "convertERC20NativeToken k b pair msg receiver sender es = Inr es'" "0 \<le> ceAmount msg"
  shows "bankEffect k es None (Some receiver) (tpDenom pair) (ceAmount msg) es'" "esMods es' = esMods es"
    "tokensMoved k b (GetERC20Contract (kEth (eEvm k)) pair) (ModuleAddress k) (ceAmount msg) es es'"
proof -
  let ?contract = "GetERC20Contract (kEth (eEvm k)) pair" and ?K = "kSdk (eEvm k)"
  let ?coins = "RawCoins (kCoins (eEvm k)) [(tpDenom pair, ceAmount msg)]"
  obtain t data res es1 x y where t: "tokenBalance k b ?contract (ModuleAddress k) es = Inr t"
    and call: "CallEVMWithData k b sender (Some ?contract) data True es = Inr (res, es1)"
    and t': "tokenBalance k b ?contract (ModuleAddress k) es1 = Inr (t + ceAmount msg)"
    and mint: "MintCoins ?K (e_sdk es1) erc20Module ?coins = Inr x"
    and send: "SendCoinsFromModuleToAccount ?K x erc20Module receiver ?coins = Inr y" and es': "es' = onSdk (onSdk es1 x) y"
    using assms(1) by (auto simp: convertERC20NativeToken_def convert_simps Let_def split: if_splits)
  show "bankEffect k es None (Some receiver) (tpDenom pair) (ceAmount msg) es'"
    using CallEVMWithData_frame(1) [OF call] MintCoins_law [OF mint] ModuleToAccount_law [OF send] assms(2)
    by (simp add: bankEffect_def transferred_def evmOnly_def raw at_addr_def es')
  show "esMods es' = esMods es" using CallEVMWithData_frame(2) [OF call] by (simp add: es')
  show "tokensMoved k b ?contract (ModuleAddress k) (ceAmount msg) es es'" using t t' by (auto simp: tokensMoved_def es')
qed

end

lemma convertPair_cases:
  assumes "convertPair k pair f g es = Inr (True, es')"
  shows "IsNativeCoin pair \<and> f es = Inr es' \<or> IsNativeERC20 pair \<and> \<not> IsNativeCoin pair \<and> g es = Inr es'"
  using assms by (auto simp: convertPair_def Let_def split: if_splits option.splits)

context erc20_module
begin

lemma burnTokens_frame:
  assumes "burnTokens k b contract tokens es = Inr (ok, es')"
  shows "evmOnly (kSdk (eEvm k)) (esEvm es) (esEvm es')" "esMods es' = esMods es"
  using assms applyCall_frame(1,2)
  by (auto simp: burnTokens_def split: sum.splits failure.splits prod.splits)

end

text \<open>What the hook may mint for a log: the tokens that an enabled external contract has transferred to the module.\<close>

definition hookCredit :: "('x, 'c, 'r Erc20Store_scheme) Erc20Keeper \<Rightarrow> 'r Erc20Store_scheme \<Rightarrow> string \<Rightarrow> Log \<Rightarrow> int" where
  "hookCredit k st d log =
     (case transferEvent k log of
        Some (tokens, _, to) \<Rightarrow>
          (case Option.bind (fmlookup (erByERC20 st) (logAddress log)) (fmlookup (erPairs st)) of
             Some pair \<Rightarrow>
               if to = ModuleAddress k \<and> tpEnabled pair \<and> tpContractOwner pair = OWNER_EXTERNAL \<and> tpDenom pair = d then tokens else 0
           | None \<Rightarrow> 0)
      | None \<Rightarrow> 0)"

lemma hookCredit_nonneg: "0 \<le> hookCredit k st d log"
  by (auto simp: hookCredit_def transferEvent_def split: option.splits list.splits sum.splits if_splits)

definition mintsAtMost :: "('x, 'c, 'w) Erc20Keeper \<Rightarrow> string \<Rightarrow> int \<Rightarrow> ('x, 'w) EvmState \<Rightarrow> ('x, 'w) EvmState \<Rightarrow> bool" where
  "mintsAtMost k d n es es' \<longleftrightarrow> esMods es' = esMods es \<and> EvmDenom (esEvm es') = EvmDenom (esEvm es) \<and>
     GetSupply (kSdk (eEvm k)) (e_sdk es) d \<le> GetSupply (kSdk (eEvm k)) (e_sdk es') d \<and>
     GetSupply (kSdk (eEvm k)) (e_sdk es') d \<le> GetSupply (kSdk (eEvm k)) (e_sdk es) d + n"

context erc20_module
begin

lemma hookSend_mints: "mintsAtMost k d n es0 es \<Longrightarrow> mintsAtMost k d n es0 (hookSend k a c es)"
  using transferred_supply [OF ModuleToAccount_law]
  by (auto simp: hookSend_def mintsAtMost_def split: sum.splits)

lemma hookTransfer_mints:
  assumes "hookTransfer k b addr from to tokens es = Inr es'" "0 < tokens" "d \<noteq> EvmDenom (esEvm es)"
  shows "mintsAtMost k d
    (case Option.bind (fmlookup (erByERC20 (esMods es)) addr) (fmlookup (erPairs (esMods es))) of
       Some pair \<Rightarrow> if to = ModuleAddress k \<and> tpEnabled pair \<and> tpContractOwner pair = OWNER_EXTERNAL \<and> tpDenom pair = d then tokens else 0
     | None \<Rightarrow> 0) es es'"
proof (cases "Option.bind (fmlookup (erByERC20 (esMods es)) addr) (fmlookup (erPairs (esMods es)))")
  case None
  then show ?thesis using assms(1) by (simp add: hookTransfer_def GetERC20Map_def GetTokenPair_def [abs_def] mintsAtMost_def)
next
  case (Some pair)
  then have pair: "Option.bind (GetERC20Map es addr) (GetTokenPair es) = Some pair" by (simp add: GetERC20Map_def GetTokenPair_def [abs_def])
  let ?n = "if to = ModuleAddress k \<and> tpEnabled pair \<and> tpContractOwner pair = OWNER_EXTERNAL \<and> tpDenom pair = d then tokens else 0"
  let ?coins = "RawCoins (kCoins (eEvm k)) [(tpDenom pair, tokens)]"
  have refl: "mintsAtMost k d ?n es es" using assms(2) by (simp add: mintsAtMost_def)
  show ?thesis
  proof (cases "to = ModuleAddress k \<and> tpEnabled pair")
    case True
    then obtain amount ok es1 where amount: "NewIntFromBigInt (kDec (eEvm k)) tokens = Inr amount"
      and first: "hookRelease k b pair addr tokens (RawCoins (kCoins (eEvm k)) [(tpDenom pair, amount)]) es = Inr (ok, es1)"
      and es': "es' = (if ok then hookSend k from (RawCoins (kCoins (eEvm k)) [(tpDenom pair, amount)]) es1 else es1)"
      using assms(1) pair by (auto simp: hookTransfer_def Let_def)
    have n: "amount = tokens" using NewInt_id [OF amount] .
    have "mintsAtMost k d ?n es es1"
    proof (cases "tpContractOwner pair")
      case OWNER_MODULE
      then show ?thesis using first burnTokens_frame [of b addr tokens es ok es1] assms(2,3) by (simp add: hookRelease_def mintsAtMost_def evmOnly_def)
    next
      case OWNER_EXTERNAL
      show ?thesis
      proof (cases "MintCoins (kSdk (eEvm k)) (e_sdk es) erc20Module ?coins")
        case (Inl e)
        then show ?thesis using first OWNER_EXTERNAL refl by (simp add: hookRelease_def hookMint_def n)
      next
        case (Inr x)
        then show ?thesis using first OWNER_EXTERNAL True MintCoins_law [OF Inr] assms(2)
          by (auto simp: hookRelease_def hookMint_def n mintsAtMost_def raw)
      qed
    qed (use first refl in \<open>simp add: hookRelease_def\<close>)
    then show ?thesis using hookSend_mints unfolding Some es' by simp
  next
    case False
    then have "es' = es" using assms(1) pair by (auto simp: hookTransfer_def split: if_splits)
    then show ?thesis using refl Some by simp
  qed
qed

lemma hookLog_mints:
  assumes "hookLog k b log es = Inr es'" "d \<noteq> EvmDenom (esEvm es)"
  shows "mintsAtMost k d (hookCredit k (esMods es) d log) es es'"
proof (cases "transferEvent k log")
  case None
  then show ?thesis using assms(1) by (simp add: hookLog_def hookCredit_def mintsAtMost_def)
next
  case (Some p)
  obtain tokens sender to where p: "p = (tokens, sender, to)" by (cases p)
  have "0 < tokens" using Some p by (auto simp: transferEvent_def split: list.splits option.splits sum.splits if_splits)
  with hookTransfer_mints [of b "logAddress log" sender to tokens es es' d] assms show ?thesis
    by (simp add: hookLog_def hookCredit_def Some p)
qed

lemma hook_mints:
  assumes "foldM (hookLog k b) ls es = Inr es'" "d \<noteq> EvmDenom (esEvm es)"
  shows "mintsAtMost k d (sum_list (map (hookCredit k (esMods es) d) ls)) es es'"
  using assms
proof (induction ls arbitrary: es)
  case Nil
  then show ?case by (simp add: mintsAtMost_def)
next
  case (Cons l ls)
  then obtain es1 where l: "hookLog k b l es = Inr es1" "foldM (hookLog k b) ls es1 = Inr es'" by auto
  from hookLog_mints [OF l(1) Cons.prems(2)] have one: "mintsAtMost k d (hookCredit k (esMods es) d l) es es1" .
  with Cons.IH [OF l(2)] Cons.prems(2) show ?case by (auto simp: mintsAtMost_def)
qed

end

section \<open>The indexes of the pairs\<close>

definition pairs_ok :: "EthLib \<Rightarrow> (string \<Rightarrow> hash) \<Rightarrow> 'r Erc20Store_scheme \<Rightarrow> bool" where
  "pairs_ok H sha st \<longleftrightarrow>
     (\<forall>pid p. fmlookup (erPairs st) pid = Some p \<longrightarrow> pid = GetID sha p \<and>
        fmlookup (erByDenom st) (tpDenom p) = Some pid \<and> fmlookup (erByERC20 st) (GetERC20Contract H p) = Some pid) \<and>
     (\<forall>d pid. fmlookup (erByDenom st) d = Some pid \<longrightarrow> (\<exists>p. fmlookup (erPairs st) pid = Some p \<and> tpDenom p = d)) \<and>
     (\<forall>a pid. fmlookup (erByERC20 st) a = Some pid \<longrightarrow> (\<exists>p. fmlookup (erPairs st) pid = Some p \<and> GetERC20Contract H p = a))"

text \<open>No stored pair has the denomination, the contract or the identifier of the pair.\<close>

definition unused :: "EthLib \<Rightarrow> (string \<Rightarrow> hash) \<Rightarrow> TokenPair \<Rightarrow> 'r Erc20Store_scheme \<Rightarrow> bool" where
  "unused H sha pair st \<longleftrightarrow> fmlookup (erPairs st) (GetID sha pair) = None \<and>
     fmlookup (erByDenom st) (tpDenom pair) = None \<and> fmlookup (erByERC20 st) (GetERC20Contract H pair) = None"

lemmas store_defs = onStore_def SetTokenPair_def SetDenomMap_def SetERC20Map_def deleteTokenPair_def deleteDenomMap_def deleteERC20Map_def

lemma addPair_store:
  "esMods (addPair k pair es) = (esMods es)
     \<lparr>erPairs := fmupd (GetID (eSha k) pair) pair (erPairs (esMods es)),
      erByDenom := fmupd (tpDenom pair) (GetID (eSha k) pair) (erByDenom (esMods es)),
      erByERC20 := fmupd (GetERC20Contract (kEth (eEvm k)) pair) (GetID (eSha k) pair) (erByERC20 (esMods es))\<rparr>"
  by (simp add: addPair_def store_defs Let_def GetERC20Contract_def)

lemma add_pairs_ok:
  assumes "pairs_ok (kEth (eEvm k)) (eSha k) (esMods es)" "unused (kEth (eEvm k)) (eSha k) pair (esMods es)"
  shows "pairs_ok (kEth (eEvm k)) (eSha k) (esMods (addPair k pair es))"
  using assms unfolding pairs_ok_def unused_def addPair_store by (fastforce split: if_splits)

lemma pairs_ok_same:
  assumes "pairs_ok H sha (esMods es)" "fmlookup (erPairs (esMods es)) pid = Some p" "fmlookup (erPairs (esMods es)) pid' = Some q"
    and "tpDenom p = tpDenom q \<or> GetERC20Contract H p = GetERC20Contract H q"
  shows "pid = pid'"
proof -
  have "fmlookup (erByDenom (esMods es)) (tpDenom p) = Some pid" "fmlookup (erByERC20 (esMods es)) (GetERC20Contract H p) = Some pid"
    "fmlookup (erByDenom (esMods es)) (tpDenom q) = Some pid'" "fmlookup (erByERC20 (esMods es)) (GetERC20Contract H q) = Some pid'"
    using assms(1-3) by (simp_all add: pairs_ok_def)
  with assms(4) show ?thesis by auto
qed

lemma pairs_ok_index:
  assumes "pairs_ok H sha st" "fmlookup (erPairs st) pid = Some p"
  shows "fmlookup (erByDenom st) d = Some pid \<Longrightarrow> tpDenom p = d" "fmlookup (erByERC20 st) a = Some pid \<Longrightarrow> GetERC20Contract H p = a"
  using assms unfolding pairs_ok_def by fastforce+

lemma delete_pairs_ok:
  assumes ok: "pairs_ok H sha (esMods es)" and p: "fmlookup (erPairs (esMods es)) pid = Some p"
  shows "pairs_ok H sha (esMods (DeleteTokenPair H sha p es))"
proof -
  let ?st = "esMods es"
  have id: "pid = GetID sha p" using ok p by (simp add: pairs_ok_def)
  have st: "esMods (DeleteTokenPair H sha p es) = ?st\<lparr>erPairs := fmdrop pid (erPairs ?st), erByDenom := fmdrop (tpDenom p) (erByDenom ?st),
      erByERC20 := fmdrop (GetERC20Contract H p) (erByERC20 ?st)\<rparr>"
    by (simp add: DeleteTokenPair_def store_defs id)
  have other: "tpDenom q \<noteq> tpDenom p \<and> GetERC20Contract H q \<noteq> GetERC20Contract H p" if "fmlookup (erPairs ?st) pid' = Some q" "pid' \<noteq> pid" for pid' q
    using pairs_ok_same [OF ok p that(1)] that(2) by metis
  note index = pairs_ok_index [OF ok p]
  show ?thesis
    unfolding pairs_ok_def st
  proof (intro conjI allI impI)
    fix d pid' assume "fmlookup (erByDenom (?st\<lparr>erPairs := fmdrop pid (erPairs ?st), erByDenom := fmdrop (tpDenom p) (erByDenom ?st),
      erByERC20 := fmdrop (GetERC20Contract H p) (erByERC20 ?st)\<rparr>)) d = Some pid'"
    then have "fmlookup (erByDenom ?st) d = Some pid'" "pid' \<noteq> pid" using index(1) by (auto split: if_splits)
    then show "\<exists>q. fmlookup (erPairs (?st\<lparr>erPairs := fmdrop pid (erPairs ?st), erByDenom := fmdrop (tpDenom p) (erByDenom ?st),
      erByERC20 := fmdrop (GetERC20Contract H p) (erByERC20 ?st)\<rparr>)) pid' = Some q \<and> tpDenom q = d"
      using ok by (simp add: pairs_ok_def)
  next
    fix a pid' assume "fmlookup (erByERC20 (?st\<lparr>erPairs := fmdrop pid (erPairs ?st), erByDenom := fmdrop (tpDenom p) (erByDenom ?st),
      erByERC20 := fmdrop (GetERC20Contract H p) (erByERC20 ?st)\<rparr>)) a = Some pid'"
    then have "fmlookup (erByERC20 ?st) a = Some pid'" "pid' \<noteq> pid" using index(2) by (auto split: if_splits)
    then show "\<exists>q. fmlookup (erPairs (?st\<lparr>erPairs := fmdrop pid (erPairs ?st), erByDenom := fmdrop (tpDenom p) (erByDenom ?st),
      erByERC20 := fmdrop (GetERC20Contract H p) (erByERC20 ?st)\<rparr>)) pid' = Some q \<and> GetERC20Contract H q = a"
      using ok by (simp add: pairs_ok_def)
  qed (use ok other in \<open>auto simp: pairs_ok_def split: if_splits\<close>)
qed

lemma toggle_pairs_ok:
  assumes "pairs_ok (kEth (eEvm k)) (eSha k) (esMods es)" "ToggleConversion k token es = Inr (pair, es')"
  shows "pairs_ok (kEth (eEvm k)) (eSha k) (esMods es')"
proof -
  let ?H = "kEth (eEvm k)" and ?st = "esMods es"
  obtain pid p where p: "fmlookup (erPairs ?st) pid = Some p"
    "es' = SetTokenPair (eSha k) (p\<lparr>tpEnabled := \<not> tpEnabled p\<rparr>) es"
    using assms(2) by (auto simp: ToggleConversion_def GetTokenPair_def Let_def split: option.splits)
  have id: "pid = GetID (eSha k) p" using assms(1) p by (simp add: pairs_ok_def)
  have same: "GetID (eSha k) (p\<lparr>tpEnabled := e\<rparr>) = pid" "GetERC20Contract ?H (p\<lparr>tpEnabled := e\<rparr>) = GetERC20Contract ?H p" for e
    by (simp_all add: GetID_def id GetERC20Contract_def)
  have "esMods es' = ?st\<lparr>erPairs := fmupd pid (p\<lparr>tpEnabled := \<not> tpEnabled p\<rparr>) (erPairs ?st)\<rparr>" by (simp add: p(2) store_defs same)
  then show ?thesis
    using assms(1) p(1) same pairs_ok_index [OF assms(1) p(1)] unfolding pairs_ok_def by (simp add: id [symmetric])
qed

context erc20_module
begin

lemma convert_mods:
  "convertCoinNativeCoin k b pair cmsg receiver sender es = Inr es' \<Longrightarrow> esMods es' = esMods es"
  "convertCoinNativeERC20 k b pair cmsg receiver sender es = Inr es' \<Longrightarrow> esMods es' = esMods es"
  "convertERC20NativeCoin k b pair emsg receiver sender es = Inr es' \<Longrightarrow> esMods es' = esMods es"
  "convertERC20NativeToken k b pair emsg receiver sender es = Inr es' \<Longrightarrow> esMods es' = esMods es"
  by (auto simp: convertCoinNativeCoin_def convertCoinNativeERC20_def convertERC20NativeCoin_def convertERC20NativeToken_def
      convert_simps Let_def dest!: CallEVM_frame(2) CallEVMWithData_frame(2) split: if_splits)

lemma convertPair_ok:
  assumes ok: "pairs_ok (kEth (eEvm k)) (eSha k) (esMods es)" and p: "fmlookup (erPairs (esMods es)) pid = Some pair"
    and run: "convertPair k pair f g es = Inr (r, es')"
    and f: "\<And>es'. f es = Inr es' \<Longrightarrow> esMods es' = esMods es" and g: "\<And>es'. g es = Inr es' \<Longrightarrow> esMods es' = esMods es"
  shows "pairs_ok (kEth (eEvm k)) (eSha k) (esMods es')"
  using run ok f g delete_pairs_ok [OF ok p] by (auto simp: convertPair_def Let_def split: if_splits option.splits)

lemma MintingEnabled_pair:
  "MintingEnabled k sender receiver token es = Inr pair \<Longrightarrow>
    \<exists>pid. GetTokenPairID (kEth (eEvm k)) es token = Some pid \<and> fmlookup (erPairs (esMods es)) pid = Some pair \<and> tpEnabled pair \<and> IsERC20Enabled es"
  by (auto simp: MintingEnabled_def GetTokenPair_def split: if_splits option.splits)

lemma ConvertCoin_ok:
  assumes "pairs_ok (kEth (eEvm k)) (eSha k) (esMods es)" "ConvertCoin k b msg es = Inr (r, es')"
  shows "pairs_ok (kEth (eEvm k)) (eSha k) (esMods es')"
proof -
  let ?receiver = "HexToAddress (kEth (eEvm k)) (ccReceiver msg)"
  obtain sender pair where m: "MintingEnabled k sender ?receiver (ccDenom msg) es = Inr pair"
    and run: "convertPair k pair (convertCoinNativeCoin k b pair msg ?receiver sender) (convertCoinNativeERC20 k b pair msg ?receiver sender) es = Inr (r, es')"
    using assms(2) by (auto simp: ConvertCoin_def Let_def)
  obtain pid where "fmlookup (erPairs (esMods es)) pid = Some pair" using MintingEnabled_pair [OF m] by blast
  from convertPair_ok [OF assms(1) this run convert_mods(1,2)] show ?thesis .
qed

lemma ConvertERC20_ok:
  assumes "pairs_ok (kEth (eEvm k)) (eSha k) (esMods es)" "ConvertERC20 k b msg es = Inr (r, es')"
  shows "pairs_ok (kEth (eEvm k)) (eSha k) (esMods es')"
proof -
  let ?sender = "HexToAddress (kEth (eEvm k)) (ceSender msg)"
  obtain receiver pair where m: "MintingEnabled k ?sender receiver (ceContractAddress msg) es = Inr pair"
    and run: "convertPair k pair (convertERC20NativeCoin k b pair msg receiver ?sender) (convertERC20NativeToken k b pair msg receiver ?sender) es = Inr (r, es')"
    using assms(2) by (auto simp: ConvertERC20_def Let_def)
  obtain pid where "fmlookup (erPairs (esMods es)) pid = Some pair" using MintingEnabled_pair [OF m] by blast
  from convertPair_ok [OF assms(1) this run convert_mods(3,4)] show ?thesis .
qed

lemma FromPacket_ok:
  assumes "pairs_ok (kEth (eEvm k)) (eSha k) (esMods es)" "ConvertCoinToERC20FromPacket k b T data es = Inr es'"
  shows "pairs_ok (kEth (eEvm k)) (eSha k) (esMods es')"
  using assms ConvertCoin_ok [OF assms(1)]
  by (auto simp: ConvertCoinToERC20FromPacket_def Let_def split: if_splits option.splits)

lemma convertReceived_ok:
  assumes ok: "pairs_ok (kEth (eEvm k)) (eSha k) (esMods es)" and run: "convertReceived k b denom recipient es = Inr (ack, es')"
  shows "pairs_ok (kEth (eEvm k)) (eSha k) (esMods es')"
  using run ok ConvertCoin_ok [OF ok]
  by (auto simp: convertReceived_def Let_def split: if_splits option.splits sum.splits failure.splits prod.splits)

lemma OnRecv_ok:
  assumes ok: "pairs_ok (kEth (eEvm k)) (eSha k) (esMods es)" and run: "er_OnRecvPacket k b T cp packet es = Inr (ack, es')"
  shows "pairs_ok (kEth (eEvm k)) (eSha k) (esMods es')"
  using run ok convertReceived_ok [OF ok]
  by (auto simp: er_OnRecvPacket_def split: if_splits sum.splits prod.splits)

lemma hook_ok:
  assumes "pairs_ok (kEth (eEvm k)) (eSha k) (esMods es)" "er_PostTxProcessing k b msg receipt es = (rc, Inr es')"
  shows "pairs_ok (kEth (eEvm k)) (eSha k) (esMods es')"
proof -
  obtain d where d: "d \<noteq> EvmDenom (esEvm es)" by (metis list.distinct(1))
  show ?thesis
    using assms hook_mints [OF _ d, of b "rcLogs receipt" es'] by (auto simp: er_PostTxProcessing_def mintsAtMost_def split: if_splits)
qed

lemma RegisterCoin_mods:
  assumes "RegisterCoin k b md es = Inr (pair, es')"
  shows "\<exists>es1. esMods es1 = esMods es \<and> es' = addPair k pair es1 \<and> tpDenom pair = mdBase md"
proof -
  obtain es1 where es1: "verifyMetadata k md es = Inr es1"
    and run: "rbind (DeployERC20Contract k b md es1) (\<lambda>(addr, es).
      let pair = NewTokenPair (kEth (eEvm k)) addr (mdBase md) OWNER_MODULE in Inr (pair, addPair k pair es)) = Inr (pair, es')"
    using assms by (auto simp: RegisterCoin_def split: if_splits sum.splits)
  have m1: "esMods es1 = esMods es" using es1 by (auto simp: verifyMetadata_def split: option.splits)
  obtain addr es2 where es2: "DeployERC20Contract k b md es1 = Inr (addr, es2)" "es' = addPair k pair es2" "tpDenom pair = mdBase md"
    using run by (auto simp: Let_def NewTokenPair_def)
  have "esMods es2 = esMods es1" using es2(1) by (auto simp: DeployERC20Contract_def Let_def dest!: CallEVMWithData_frame(2))
  with m1 es2 show ?thesis by metis
qed

lemma RegisterERC20_mods:
  assumes "RegisterERC20 k b a es = Inr (pair, es')"
  shows "\<exists>es1. esMods es1 = esMods es \<and> es' = addPair k pair es1 \<and> GetERC20Contract (kEth (eEvm k)) pair = a \<and>
    fmlookup (erByERC20 (esMods es)) a = None \<and> fmlookup (erByDenom (esMods es)) (tpDenom pair) = None"
proof -
  obtain md es1 where md: "CreateCoinMetadata k b a es = Inr (md, es1)" "pair = NewTokenPair (kEth (eEvm k)) a (mdName md) OWNER_EXTERNAL"
    "es' = addPair k pair es1" "\<not> IsERC20Registered es a"
    using assms by (auto simp: RegisterERC20_def Let_def split: if_splits)
  have "esMods es1 = esMods es" "\<not> IsDenomRegistered es (mdName md)"
    using md(1) by (auto simp: CreateCoinMetadata_def Let_def erc20Metadata_def split: if_splits option.splits)
  with md show ?thesis
    by (auto simp: NewTokenPair_def GetERC20Contract_def Hex_String IsERC20Registered_def GetERC20Map_def IsDenomRegistered_def GetDenomMap_def)
qed

end

end
