(* ===== verification/Erc20_Properties.thy ===== *)
theory Erc20_Properties
  imports Erc20
begin

text \<open>
  The properties of the module \<^verbatim>\<open>x/erc20\<close> and a reference instance with a machine that runs one token contract: what the
  conversions do to the bank and to the contracts, what the hook may mint, the indexes of the token pairs, the double registration of a
  coin and the shape of sanitized names.
\<close>

section \<open>Reference instance: a machine with one token contract\<close>

text \<open>
  The first byte of the data selects the method, an account is given by its last byte, and the balance of an account is its slot: 1 mints, 2 burns the
  tokens of an account, 3 transfers the caller's tokens, 4 reads a balance and 5 burns the caller's tokens.  A transfer returns \<open>[1]\<close> and logs once.
\<close>

definition ref_slot :: "8 word \<Rightarrow> hash" where "ref_slot a = ucast a"

definition ref_addTokens :: "address \<Rightarrow> 8 word \<Rightarrow> hash \<Rightarrow> 'k StateDB \<Rightarrow> 'k StateDB" where
  "ref_addTokens c a n s = (let (s1, v) = GetState s c (ref_slot a) in SetState s1 c (ref_slot a) (v + n))"

definition ref_token_call :: "VM \<Rightarrow> address \<Rightarrow> address \<Rightarrow> bytes \<Rightarrow> u64 \<Rightarrow> int \<Rightarrow> 'k StateDB \<Rightarrow> 'k VmRun" where
  "ref_token_call vm caller c data gas v s =
     (case data of
        [m, a, n] \<Rightarrow>
          if m = 1 then Inr (ref_addTokens c a (ucast n) s, [], gas div 2, None)
          else if m = 2 then Inr (ref_addTokens c a (- ucast n) s, [], gas div 2, None)
          else Inr (ref_addTokens c a (ucast n) (ref_addTokens c (ucast caller) (- ucast n) s), [1], gas div 2, None)
      | [m, a] \<Rightarrow>
          if m = 4 then (let (s1, v) = GetState s c (ref_slot a) in Inr (s1, [ucast v], gas div 2, None))
          else Inr (ref_addTokens c (ucast caller) (- ucast a) s, [], gas div 2, None)
      | _ \<Rightarrow> Inr (s, [7], gas div 2, None))"

definition ref_token_vm :: "'k Evm" where
  "ref_token_vm = \<lparr>evmCreate = (\<lambda>vm a data gas v s. Inr (s, data, gas div 2, None)), evmCall = ref_token_call\<rparr>"

lemma reaches_GetState: "reaches s (fst (GetState s c key))"
  by (rule reaches_step [of "CGetState c key" _ _ "RHash (snd (GetState s c key))"]) (simp add: answer_def case_prod_beta)

lemma reaches_SetState: "reaches s (SetState s c key v)"
  by (rule reaches_step [of "CSetState c key v"]) (simp add: finished_def)

lemma reaches_addTokens: "reaches s (ref_addTokens c a n s)"
  unfolding ref_addTokens_def case_prod_beta Let_def using reaches_GetState reaches_SetState by (rule reaches_trans)

interpretation ref_token_vm: eth_vm ref_token_vm
proof
  fix vm a and data :: bytes and gas v s s' ret left err
  assume "evmCreate ref_token_vm vm a data gas v s = Inr (s', ret, left, err)"
  then show "reaches s s' \<and> left \<le> gas" using half_le by (auto simp: ref_token_vm_def)
next
  fix vm a to and data :: bytes and gas v s s' ret left err
  assume run: "evmCall ref_token_vm vm a to data gas v s = Inr (s', ret, left, err)"
  show "reaches s s' \<and> left \<le> gas"
    using run half_le reaches_addTokens reaches_GetState [of s to] reaches_trans [OF reaches_addTokens reaches_addTokens]
    by (auto simp: ref_token_vm_def ref_token_call_def Let_def case_prod_beta split: list.splits if_splits)
qed

definition ref_pack :: "string \<Rightarrow> AbiArg list \<Rightarrow> string + bytes" where
  "ref_pack method args =
     (let m = (if method = ''mint'' then 1 else if method = ''burnCoins'' then 2 else if method = ''transfer'' then 3
         else if method = ''balanceOf'' then 4 else if method = ''burn'' then 5 else 6)
      in Inr (m # concat (map (\<lambda>a. case a of AbiAddress a \<Rightarrow> [ucast a] | AbiInt n \<Rightarrow> [word_of_int n] | AbiU8 n \<Rightarrow> [n] | AbiString s \<Rightarrow> []) args)))"

definition ref_unpackInts :: "string \<Rightarrow> bytes \<Rightarrow> string + int option list" where
  "ref_unpackInts what data = (if data = [] then Inl ''empty'' else Inr [Some (uint (hd data))])"

definition ref_unpackString :: "string \<Rightarrow> bytes \<Rightarrow> string + string" where "ref_unpackString what data = Inr ''7 Token''"
definition ref_unpackBool :: "string \<Rightarrow> bytes \<Rightarrow> string + bool" where "ref_unpackBool what data = Inr (data = [1])"
definition ref_unpackU8 :: "string \<Rightarrow> bytes \<Rightarrow> string + 8 word" where "ref_unpackU8 what data = Inr (hd data)"
definition ref_event :: "hash \<Rightarrow> string option" where "ref_event h = (if h = 1 then Some ''Transfer'' else None)"

definition ref_abi :: Erc20Abi where
  "ref_abi = \<lparr>abiPack = ref_pack, abiUnpackString = ref_unpackString, abiUnpackU8 = ref_unpackU8, abiUnpackBool = ref_unpackBool,
     abiUnpackInts = ref_unpackInts, abiEventByID = ref_event, abiBin = [9]\<rparr>"

definition ref_metadata_of :: "ledger \<Rightarrow> string \<Rightarrow> Metadata option" where "ref_metadata_of x d = None"
definition ref_set_metadata :: "ledger \<Rightarrow> Metadata \<Rightarrow> ledger" where "ref_set_metadata x md = x"

definition ref_erc20_bank :: "ledger Erc20Bank" where
  "ref_erc20_bank = \<lparr>HasSupply = (\<lambda>x d. True), IsSendEnabledCoin = (\<lambda>x d. True), GetDenomMetaData = ref_metadata_of,
     SetDenomMetaData = ref_set_metadata, ValidateMetadata = (\<lambda>_. None)\<rparr>"

text \<open>A weak hash that is enough for a few pairs.\<close>

definition ref_sha :: "string \<Rightarrow> hash" where
  "ref_sha s = fold (\<lambda>c h. 257 * h + word_of_nat (of_char c)) s 1"

definition ref_erc20 :: "(ledger, amounts, Erc20Store) Erc20Keeper" where
  "ref_erc20 = \<lparr>eEvm = (ref_module None)\<lparr>kVm := ref_token_vm\<rparr>, eAbi = ref_abi, eErrors = ref_vm_errors, eParsedChainID = Inr 9000,
     eSha = ref_sha, eBank = ref_erc20_bank, eBech = ref_codec, eIsModuleAccount = (\<lambda>_. False)\<rparr>"

interpretation ref_erc20: erc20_module ref_erc20
proof -
  have "evm_module ((ref_module None)\<lparr>kVm := ref_token_vm\<rparr> :: (ledger, amounts, Erc20Store) EvmKeeper)"
    unfolding evm_module_def evm_module_axioms_def ref_module_def
    by (simp add: ref_keepers.sdk_keepers_axioms ref_dec.sdk_dec_axioms ref_eth.eth_lib_axioms ref_token_vm.eth_vm_axioms ref_core_def)
  then show "erc20_module ref_erc20"
    unfolding erc20_module_def erc20_module_axioms_def by (simp add: ref_erc20_def ref_erc20_bank_def ref_set_metadata_def)
qed

text \<open>The contract 77 with the coin \<open>''atom''\<close> of the module, and the contract 78 whose coin is minted by the module.\<close>

definition ref_coin_pair :: TokenPair where
  "ref_coin_pair = \<lparr>tpErc20Address = ref_encode 77, tpDenom = ''atom'', tpEnabled = True, tpContractOwner = OWNER_MODULE\<rparr>"

definition ref_token_pair :: TokenPair where
  "ref_token_pair = \<lparr>tpErc20Address = ref_encode 78, tpDenom = ''erc20/78'', tpEnabled = True, tpContractOwner = OWNER_EXTERNAL\<rparr>"

definition ref_erc20_store :: Erc20Store where
  "ref_erc20_store = \<lparr>erEnabled = True, erHook = True,
     erPairs = fmupd (ref_sha (ref_encode 78 @ ''|erc20/78'')) ref_token_pair (fmupd (ref_sha (ref_encode 77 @ ''|atom'')) ref_coin_pair fmempty),
     erByERC20 = fmupd 78 (ref_sha (ref_encode 78 @ ''|erc20/78'')) (fmupd 77 (ref_sha (ref_encode 77 @ ''|atom'')) fmempty),
     erByDenom = fmupd ''erc20/78'' (ref_sha (ref_encode 78 @ ''|erc20/78'')) (fmupd ''atom'' (ref_sha (ref_encode 77 @ ''|atom'')) fmempty)\<rparr>"

definition ref_erc20_account :: "address \<Rightarrow> hash \<Rightarrow> amounts AccountI" where
  "ref_erc20_account a h = EthAcc \<lparr>ethBase = \<lparr>baAddress = a, PubKey = None, AccountNumber = 1, Sequence = 1\<rparr>, ethCodeHash = h\<rparr>"

definition ref_erc20_ledger :: ledger where
  "ref_erc20_ledger =
     \<lparr>lAccounts = (\<lambda>a. if a = 77 \<or> a = 78 then Some (ref_erc20_account a 5) else if a = 3 then Some (ref_erc20_account a 0)
        else if a = ref_module_address erc20Module then Some (OtherAcc emptyBaseAccount) else None),
      lBalances = (\<lambda>a. if a = 3 then [(''atom'', 10)] else []), lSupply = (\<lambda>d. if d = ''atom'' then 10 else 0), lNumber = 0\<rparr>"

definition ref_erc20_state :: "(ledger, Erc20Store) EvmState" where
  "ref_erc20_state =
     \<lparr>esEvm = \<lparr>sdkState = ref_erc20_ledger, storageStore = fmupd (78, 3) 9 fmempty, codeStore = fmempty, EvmDenom = ''aevmos''\<rparr>,
      esParams = Some (ev_DefaultParams ref_eth ''aevmos''), esLegacyParams = ev_DefaultParams ref_eth ''aevmos'',
      esFm = (ref_market 0)\<lparr>fmParams := Some (ref_fees\<lparr>BaseFee := Some 1, MinGasPrice := Some dec_one\<rparr>)\<rparr>, esBloom = fmempty,
      esTxIndex = None, esLogSize = None, esGasUsed = None, esGasMeter = 0, esMods = ref_erc20_store\<rparr>"

definition ref_erc20_block :: EvmBlock where
  "ref_erc20_block = ref_evm_block\<lparr>bMaxGas := Some (Some 21000)\<rparr>"

definition ref_convert_coin :: MsgConvertCoin where
  "ref_convert_coin = \<lparr>ccDenom = ''atom'', ccAmount = Some 4, ccReceiver = ref_encode 3, ccSender = ref_encode 3\<rparr>"

definition ref_convert_erc20 :: MsgConvertERC20 where
  "ref_convert_erc20 = \<lparr>ceContractAddress = ref_encode 78, ceAmount = 4, ceReceiver = ref_encode 3, ceSender = ref_encode 3\<rparr>"

lemma ref_convert_runs:
  "case ConvertCoin ref_erc20 ref_erc20_block ref_convert_coin ref_erc20_state of Inl _ \<Rightarrow> False | Inr (r, _) \<Rightarrow> r"
  by code_simp

section \<open>Properties\<close>

text \<open>
  C13.  Converting coins.  A successful conversion of a positive amount of a coin other than that of the EVM found an enabled pair.  For a pair of a
  native coin the amount moved from the sender to the module account; for a pair of an external token it left the sender and the supply.  No other
  balance and supply of such a coin changed, the stores of the modules are untouched, and the contract shows the amount more for the receiver.
\<close>

theorem coins_become_tokens:
  assumes "erc20_module k" "ConvertCoin k b msg es = Inr (True, es')" "ccAmount msg = Some n" "0 < n"
  shows "\<exists>sender pair. AccAddressFromBech32 (eBech k) (ccSender msg) = Inr sender \<and>
    MintingEnabled k sender (HexToAddress (kEth (eEvm k)) (ccReceiver msg)) (ccDenom msg) es = Inr pair \<and> tpEnabled pair \<and>
    bankEffect k es (Some sender) (if IsNativeCoin pair then Some (ModuleAddress k) else None) (ccDenom msg) n es' \<and> esMods es' = esMods es \<and>
    tokensMoved k b (GetERC20Contract (kEth (eEvm k)) pair) (HexToAddress (kEth (eEvm k)) (ccReceiver msg)) n es es'"
proof -
  let ?receiver = "HexToAddress (kEth (eEvm k)) (ccReceiver msg)"
  obtain sender pair where m: "AccAddressFromBech32 (eBech k) (ccSender msg) = Inr sender"
      "MintingEnabled k sender ?receiver (ccDenom msg) es = Inr pair"
    and run: "convertPair k pair (convertCoinNativeCoin k b pair msg ?receiver sender) (convertCoinNativeERC20 k b pair msg ?receiver sender) es = Inr (True, es')"
    using assms(2) by (auto simp: ConvertCoin_def Let_def)
  have "tpEnabled pair" using m(2) by (auto simp: MintingEnabled_def split: if_splits option.splits)
  with m convertPair_cases [OF run] erc20_module.nativeCoin_effect [OF assms(1) _ assms(3), of b pair ?receiver sender es es']
    erc20_module.nativeERC20_effect [OF assms(1) _ assms(3), of b pair ?receiver sender es es'] assms(4)
  show ?thesis by auto
qed

theorem coins_become_tokens_witness:
  "\<exists>es'. ConvertCoin ref_erc20 ref_erc20_block ref_convert_coin ref_erc20_state = Inr (True, es') \<and>
    BankBalance (kSdk (eEvm ref_erc20)) (e_sdk es') 3 ''atom'' + BankBalance (kSdk (eEvm ref_erc20)) (e_sdk es') (ModuleAddress ref_erc20) ''atom'' =
    BankBalance (kSdk (eEvm ref_erc20)) (e_sdk ref_erc20_state) 3 ''atom'' + BankBalance (kSdk (eEvm ref_erc20)) (e_sdk ref_erc20_state) (ModuleAddress ref_erc20) ''atom''"
proof -
  obtain es' where run: "ConvertCoin ref_erc20 ref_erc20_block ref_convert_coin ref_erc20_state = Inr (True, es')"
    using ref_convert_runs by (auto split: sum.splits prod.splits)
  have n: "ccAmount ref_convert_coin = Some 4" "ccDenom ref_convert_coin = ''atom''" by (simp_all add: ref_convert_coin_def)
  have "\<exists>sender pair. MintingEnabled ref_erc20 sender (HexToAddress (kEth (eEvm ref_erc20)) (ccReceiver ref_convert_coin)) ''atom'' ref_erc20_state = Inr pair \<and>
      AccAddressFromBech32 (eBech ref_erc20) (ccSender ref_convert_coin) = Inr sender \<and>
      bankEffect ref_erc20 ref_erc20_state (Some sender) (if IsNativeCoin pair then Some (ModuleAddress ref_erc20) else None) ''atom'' 4 es'"
    using coins_become_tokens [OF ref_erc20.erc20_module_axioms run n(1)] unfolding n(2) by (simp only: zero_less_numeral simp_thms) blast
  moreover have "AccAddressFromBech32 (eBech ref_erc20) (ccSender ref_convert_coin) = Inr 3"
    "case MintingEnabled ref_erc20 3 (HexToAddress (kEth (eEvm ref_erc20)) (ccReceiver ref_convert_coin)) ''atom'' ref_erc20_state of Inl _ \<Rightarrow> False | Inr p \<Rightarrow> IsNativeCoin p"
    "ModuleAddress ref_erc20 \<noteq> 3" by code_simp+
  ultimately have "bankEffect ref_erc20 ref_erc20_state (Some 3) (Some (ModuleAddress ref_erc20)) ''atom'' 4 es'" "ModuleAddress ref_erc20 \<noteq> 3" by auto
  moreover have "EvmDenom (esEvm ref_erc20_state) = ''aevmos''" by (simp add: ref_erc20_state_def)
  ultimately show ?thesis using run by (intro exI [of _ es']) (simp add: bankEffect_def at_addr_def)
qed

text \<open>
  C14.  Converting tokens.  A successful conversion of a positive amount of tokens whose coin is not that of the EVM gives the receiver this amount of the coin: from
  the module account for a pair of a native coin, and newly minted for a pair of an external token.  No other balance and supply of such a coin changed
  and the stores of the modules are untouched.  The contract shows the amount less for the sender, or more for the module account.
\<close>

theorem tokens_become_coins:
  assumes "erc20_module k" "ConvertERC20 k b msg es = Inr (True, es')" "0 < ceAmount msg"
  shows "\<exists>receiver pair. AccAddressFromBech32 (eBech k) (ceReceiver msg) = Inr receiver \<and>
    MintingEnabled k (HexToAddress (kEth (eEvm k)) (ceSender msg)) receiver (ceContractAddress msg) es = Inr pair \<and> tpEnabled pair \<and>
    bankEffect k es (if IsNativeCoin pair then Some (ModuleAddress k) else None) (Some receiver) (tpDenom pair) (ceAmount msg) es' \<and> esMods es' = esMods es \<and>
    (if IsNativeCoin pair
     then tokensMoved k b (GetERC20Contract (kEth (eEvm k)) pair) (HexToAddress (kEth (eEvm k)) (ceSender msg)) (- ceAmount msg) es es'
     else tokensMoved k b (GetERC20Contract (kEth (eEvm k)) pair) (ModuleAddress k) (ceAmount msg) es es')"
proof -
  let ?sender = "HexToAddress (kEth (eEvm k)) (ceSender msg)"
  obtain receiver pair where m: "AccAddressFromBech32 (eBech k) (ceReceiver msg) = Inr receiver"
      "MintingEnabled k ?sender receiver (ceContractAddress msg) es = Inr pair"
    and run: "convertPair k pair (convertERC20NativeCoin k b pair msg receiver ?sender) (convertERC20NativeToken k b pair msg receiver ?sender) es = Inr (True, es')"
    using assms(2) by (auto simp: ConvertERC20_def Let_def)
  have "tpEnabled pair" using m(2) by (auto simp: MintingEnabled_def split: if_splits option.splits)
  with m convertPair_cases [OF run] erc20_module.erc20NativeCoin_effect [OF assms(1), of b pair msg receiver ?sender es es']
    erc20_module.erc20NativeToken_effect [OF assms(1), of b pair msg receiver ?sender es es'] assms(3)
  show ?thesis by auto
qed

lemma ref_convert_tokens_runs:
  "case ConvertERC20 ref_erc20 ref_erc20_block ref_convert_erc20 ref_erc20_state of Inl _ \<Rightarrow> False | Inr (r, _) \<Rightarrow> r"
  by code_simp

theorem tokens_become_coins_witness:
  "\<exists>es'. ConvertERC20 ref_erc20 ref_erc20_block ref_convert_erc20 ref_erc20_state = Inr (True, es') \<and>
    BankBalance (kSdk (eEvm ref_erc20)) (e_sdk es') 3 ''erc20/78'' = BankBalance (kSdk (eEvm ref_erc20)) (e_sdk ref_erc20_state) 3 ''erc20/78'' + 4 \<and>
    GetSupply (kSdk (eEvm ref_erc20)) (e_sdk es') ''erc20/78'' = GetSupply (kSdk (eEvm ref_erc20)) (e_sdk ref_erc20_state) ''erc20/78'' + 4"
proof -
  obtain es' where run: "ConvertERC20 ref_erc20 ref_erc20_block ref_convert_erc20 ref_erc20_state = Inr (True, es')"
    using ref_convert_tokens_runs by (auto split: sum.splits prod.splits)
  have n: "ceAmount ref_convert_erc20 = 4" by (simp add: ref_convert_erc20_def)
  have "\<exists>receiver pair. AccAddressFromBech32 (eBech ref_erc20) (ceReceiver ref_convert_erc20) = Inr receiver \<and>
      MintingEnabled ref_erc20 (HexToAddress (kEth (eEvm ref_erc20)) (ceSender ref_convert_erc20)) receiver (ceContractAddress ref_convert_erc20) ref_erc20_state = Inr pair \<and>
      bankEffect ref_erc20 ref_erc20_state (if IsNativeCoin pair then Some (ModuleAddress ref_erc20) else None) (Some receiver) (tpDenom pair) 4 es'"
    using tokens_become_coins [OF ref_erc20.erc20_module_axioms run] unfolding n by (simp only: zero_less_numeral simp_thms) blast
  moreover have "AccAddressFromBech32 (eBech ref_erc20) (ceReceiver ref_convert_erc20) = Inr 3"
    "case MintingEnabled ref_erc20 (HexToAddress (kEth (eEvm ref_erc20)) (ceSender ref_convert_erc20)) 3 (ceContractAddress ref_convert_erc20) ref_erc20_state of
       Inl _ \<Rightarrow> False | Inr p \<Rightarrow> \<not> IsNativeCoin p \<and> tpDenom p = ''erc20/78''" by code_simp+
  ultimately have "bankEffect ref_erc20 ref_erc20_state None (Some 3) ''erc20/78'' 4 es'" by auto
  moreover have "EvmDenom (esEvm ref_erc20_state) = ''aevmos''" by (simp add: ref_erc20_state_def)
  ultimately show ?thesis using run by (intro exI [of _ es']) (simp add: bankEffect_def at_addr_def)
qed

text \<open>
  C15.  The hook mints only what the module received.  When the hook of the module returns after a transaction, the supply of a coin other than that of the EVM has not
  fallen, and it has grown by at most the tokens that the logs of the transaction show as transferred to the module account by enabled external contracts paired with
  this coin.  The stores of the modules are untouched.
\<close>

theorem hook_mints_received:
  assumes "erc20_module k" "er_PostTxProcessing k b msg receipt es = (rc, Inr es')" "d \<noteq> EvmDenom (esEvm es)"
  shows "rc = receipt \<and> esMods es' = esMods es \<and> GetSupply (kSdk (eEvm k)) (e_sdk es) d \<le> GetSupply (kSdk (eEvm k)) (e_sdk es') d \<and>
    GetSupply (kSdk (eEvm k)) (e_sdk es') d \<le>
      GetSupply (kSdk (eEvm k)) (e_sdk es) d + sum_list (map (hookCredit k (esMods es) d) (rcLogs receipt))"
  using assms(2) erc20_module.hook_mints [OF assms(1) _ assms(3), of b "rcLogs receipt" es']
    sum_list_nonneg [of "map (hookCredit k (esMods es) d) (rcLogs receipt)"] hookCredit_nonneg
  by (auto simp: er_PostTxProcessing_def mintsAtMost_def split: if_splits)

definition ref_transfer_receipt :: Receipt where
  "ref_transfer_receipt =
     \<lparr>rcType = 0, rcStatus = True, rcCumulativeGasUsed = 0, rcBloom = 0,
      rcLogs = [\<lparr>logAddress = 78, logTopics = [1, 3, ucast (ModuleAddress ref_erc20)], logData = [6], logTxHash = 0, logBlockHash = 0, logTxIndex = 0,
        logIndex = 0, logBlockNumber = 5, logRemoved = False\<rparr>],
      rcTxHash = 0, rcContractAddress = 0, rcGasUsed = 0, rcBlockHash = 0, rcBlockNumber = 5, rcTransactionIndex = 0\<rparr>"

lemma ref_hook_runs:
  "case er_PostTxProcessing ref_erc20 ref_erc20_block msg ref_transfer_receipt ref_erc20_state of
     (_, Inl _) \<Rightarrow> False | (_, Inr es') \<Rightarrow> GetSupply (kSdk (eEvm ref_erc20)) (e_sdk es') ''erc20/78'' = 6"
  by code_simp

theorem hook_mints_received_witness:
  "\<exists>es'. er_PostTxProcessing ref_erc20 ref_erc20_block (undefined :: Message) ref_transfer_receipt ref_erc20_state = (ref_transfer_receipt, Inr es') \<and>
    GetSupply (kSdk (eEvm ref_erc20)) (e_sdk es') ''erc20/78'' = 6 \<and> sum_list (map (hookCredit ref_erc20 ref_erc20_store ''erc20/78'') (rcLogs ref_transfer_receipt)) = 6 \<and>
    GetSupply (kSdk (eEvm ref_erc20)) (e_sdk es') ''atom'' = GetSupply (kSdk (eEvm ref_erc20)) (e_sdk ref_erc20_state) ''atom''"
proof -
  obtain rc es' where run: "er_PostTxProcessing ref_erc20 ref_erc20_block (undefined :: Message) ref_transfer_receipt ref_erc20_state = (rc, Inr es')"
    "GetSupply (kSdk (eEvm ref_erc20)) (e_sdk es') ''erc20/78'' = 6"
    using ref_hook_runs [of undefined]
    by (cases "er_PostTxProcessing ref_erc20 ref_erc20_block (undefined :: Message) ref_transfer_receipt ref_erc20_state") (auto split: sum.splits)
  have credit: "sum_list (map (hookCredit ref_erc20 ref_erc20_store ''erc20/78'') (rcLogs ref_transfer_receipt)) = 6"
    "sum_list (map (hookCredit ref_erc20 ref_erc20_store ''atom'') (rcLogs ref_transfer_receipt)) = 0" by code_simp+
  have d: "''atom'' \<noteq> EvmDenom (esEvm ref_erc20_state)" "esMods ref_erc20_state = ref_erc20_store" by (simp_all add: ref_erc20_state_def)
  from hook_mints_received [OF ref_erc20.erc20_module_axioms run(1) d(1)] credit run d(2)
  show ?thesis by (intro exI [of _ es']) simp
qed

text \<open>
  The steps of the module: proposals, messages, the hook, IBC callbacks, changes of parameters, and whatever other modules do to their own state.  The
  identifier of a new pair does not collide with a stored one.  \<^verbatim>\<open>RegisterCoin\<close> looks up the name of the metadata and not the denomination it then
  registers, so the rule requires what the code means to check: that the denomination and the deployed contract have no pair.
\<close>

inductive er_step :: "('x, 'c, 'r Erc20Store_scheme) Erc20Keeper \<Rightarrow> ('x, 'r) Erc20State \<Rightarrow> ('x, 'r) Erc20State \<Rightarrow> bool"
  for k :: "('x, 'c, 'r Erc20Store_scheme) Erc20Keeper" where
  StepRegisterCoin: "er_step k es es'" if "RegisterCoin k b md es = Inr (pair, es')" "unused (kEth (eEvm k)) (eSha k) pair (esMods es)"
| StepRegisterERC20: "er_step k es es'" if "RegisterERC20 k b a es = Inr (pair, es')" "fmlookup (erPairs (esMods es)) (GetID (eSha k) pair) = None"
| StepToggle: "er_step k es es'" if "ToggleConversion k token es = Inr (pair, es')"
| StepConvertCoin: "er_step k es es'" if "ConvertCoin k b cmsg es = Inr (r, es')"
| StepConvertERC20: "er_step k es es'" if "ConvertERC20 k b emsg es = Inr (r, es')"
| StepHook: "er_step k es es'" if "er_PostTxProcessing k b msg receipt es = (rc, Inr es')"
| StepRecv: "er_step k es es'" if "er_OnRecvPacket k b T cp packet es = Inr (ack, es')"
| StepAck: "er_step k es es'" if "er_OnAcknowledgementPacket k b T data failed es = Inr es'"
| StepTimeout: "er_step k es es'" if "er_OnTimeoutPacket k b T data es = Inr es'"
| StepParams: "er_step k es es'" if "er_UpdateParams authority reqAuthority params es = Inr es'"
| StepOther: "er_step k es es'" if "erPairs (esMods es') = erPairs (esMods es)" "erByERC20 (esMods es') = erByERC20 (esMods es)"
    "erByDenom (esMods es') = erByDenom (esMods es)"

lemma pairs_ok_cong:
  "erPairs st' = erPairs st \<Longrightarrow> erByERC20 st' = erByERC20 st \<Longrightarrow> erByDenom st' = erByDenom st \<Longrightarrow> pairs_ok H sha st' = pairs_ok H sha st"
  by (simp add: pairs_ok_def)

lemma er_step_pairs_ok:
  assumes k: "erc20_module k" and step: "er_step k es es'" and ok: "pairs_ok (kEth (eEvm k)) (eSha k) (esMods es)"
  shows "pairs_ok (kEth (eEvm k)) (eSha k) (esMods es')"
  using step
proof cases
  case (StepRegisterCoin b md pair)
  then obtain es1 where "esMods es1 = esMods es" "es' = addPair k pair es1" using erc20_module.RegisterCoin_mods [OF k] by blast
  then show ?thesis using add_pairs_ok [of k es1 pair] StepRegisterCoin(2) ok by simp
next
  case (StepRegisterERC20 b a pair)
  then obtain es1 where es1: "esMods es1 = esMods es" "es' = addPair k pair es1" "GetERC20Contract (kEth (eEvm k)) pair = a"
    "fmlookup (erByERC20 (esMods es)) a = None" "fmlookup (erByDenom (esMods es)) (tpDenom pair) = None"
    using erc20_module.RegisterERC20_mods [OF k] by blast
  then have "unused (kEth (eEvm k)) (eSha k) pair (esMods es1)" using StepRegisterERC20(2) by (simp add: unused_def)
  then show ?thesis using add_pairs_ok [of k es1 pair] es1 ok by simp
next
  case (StepParams authority reqAuthority params)
  then show ?thesis
    using ok pairs_ok_cong [of "esMods es'" "esMods es"]
    by (auto simp: er_UpdateParams_def er_SetParams_def setERC20Enabled_def setEnableEVMHook_def onStore_def split: if_splits)
next
  case (StepAck b T data failed)
  then show ?thesis using ok erc20_module.FromPacket_ok [OF k ok] by (auto simp: er_OnAcknowledgementPacket_def split: if_splits)
next
  case StepTimeout
  then show ?thesis using erc20_module.FromPacket_ok [OF k ok] by (auto simp: er_OnTimeoutPacket_def)
next
  case StepOther
  then show ?thesis using ok pairs_ok_cong by blast
qed (use ok in \<open>blast intro: toggle_pairs_ok erc20_module.ConvertCoin_ok [OF k] erc20_module.ConvertERC20_ok [OF k] erc20_module.hook_ok [OF k]
    erc20_module.OnRecv_ok [OF k]\<close>)+


lemma ref_pairs_ok: "pairs_ok (kEth (eEvm ref_erc20)) (eSha ref_erc20) ref_erc20_store"
proof -
  have "ref_sha (ref_encode 78 @ ''|erc20/78'') \<noteq> ref_sha (ref_encode 77 @ ''|atom'')" by code_simp
  moreover have "HexToAddress ref_eth (ref_encode a) = a" for a by (simp add: ref_eth_def ref_decode_encode)
  ultimately show ?thesis
    by (auto simp: pairs_ok_def ref_erc20_def ref_erc20_store_def ref_module_def GetID_def GetERC20Contract_def ref_coin_pair_def ref_token_pair_def split: if_splits)
qed



definition ref_ibc_metadata :: Metadata where
  "ref_ibc_metadata = \<lparr>mdDescription = '''', mdDenomUnits = [], mdBase = ''ibc/A'', mdDisplay = '''', mdName = ''osmo'', mdSymbol = ''OSMO''\<rparr>"

definition ref_twice :: "failure + TokenPair \<times> (ledger, Erc20Store) EvmState \<times> TokenPair \<times> (ledger, Erc20Store) EvmState" where
  "ref_twice = rbind (RegisterCoin ref_erc20 ref_erc20_block ref_ibc_metadata ref_erc20_state) (\<lambda>(p, es1).
     rbind (RegisterCoin ref_erc20 ref_erc20_block ref_ibc_metadata es1) (\<lambda>(q, es2). Inr (p, es1, q, es2)))"

lemma ref_twice_runs:
  "case ref_twice of Inl _ \<Rightarrow> False | Inr (p, es1, q, es2) \<Rightarrow> GetID ref_sha p \<noteq> GetID ref_sha q \<and> GetERC20Contract ref_eth p \<noteq> GetERC20Contract ref_eth q"
  by code_simp


text \<open>
  C38.  Sanitized names.  The display name derived from the name of a token is a well-formed denomination: it consists of letters, digits, slashes and hyphens, has at most 128
  characters and begins with neither of the prefixes of IBC vouchers and of paired tokens.
\<close>

theorem sanitized_name_type:
  "list_all isDenomChar (SanitizeERC20Name name) \<and> length (SanitizeERC20Name name) \<le> 128 \<and>
   take 4 (SanitizeERC20Name name) \<noteq> ''ibc/'' \<and> take 6 (SanitizeERC20Name name) \<noteq> ''erc20/''"
proof -
  have special: "list_all isDenomChar (removeSpecialChars s)" for s
    by (cases s) (auto simp: removeSpecialChars_def isDenomChar_def list_all_iff)
  have prefixes: "(\<exists>n. removeInvalidPrefixes s = drop n s) \<and> take 4 (removeInvalidPrefixes s) \<noteq> ''ibc/'' \<and> take 6 (removeInvalidPrefixes s) \<noteq> ''erc20/''" for s
  proof (induction s rule: removeInvalidPrefixes.induct)
    case (1 s)
    consider (ibc) "take 4 s = ''ibc/''" | (erc20) "take 4 s \<noteq> ''ibc/''" "take 6 s = ''erc20/''" | (none) "take 4 s \<noteq> ''ibc/''" "take 6 s \<noteq> ''erc20/''" by blast
    then show ?case
    proof cases
      case ibc
      then have "removeInvalidPrefixes s = removeInvalidPrefixes (drop 4 s)" by (simp add: removeInvalidPrefixes.simps [of s])
      with 1(1) [OF ibc] show ?thesis by auto
    next
      case erc20
      then have "removeInvalidPrefixes s = removeInvalidPrefixes (drop 6 s)" by (simp add: removeInvalidPrefixes.simps [of s])
      with 1(2) [OF erc20] show ?thesis by auto
    next
      case none
      then have "removeInvalidPrefixes s = s" by (simp add: removeInvalidPrefixes.simps [of s])
      with none show ?thesis by (metis drop0)
    qed
  qed
  let ?s = "let s = removeSpecialChars (removeLeadingNumbers name) in if length s > 128 then take 128 s else s"
  have "list_all isDenomChar ?s" "length ?s \<le> 128"
    using special [of "removeLeadingNumbers name"] by (auto simp: Let_def list_all_iff dest: in_set_takeD)
  moreover obtain n where n: "SanitizeERC20Name name = drop n ?s" using prefixes [of ?s] by (auto simp: SanitizeERC20Name_def Let_def)
  moreover have "take 4 (SanitizeERC20Name name) \<noteq> ''ibc/''" "take 6 (SanitizeERC20Name name) \<noteq> ''erc20/''"
    using prefixes [of ?s] by (simp_all add: SanitizeERC20Name_def Let_def)
  ultimately show ?thesis by (auto simp: list_all_iff dest: in_set_dropD)
qed

end
