(* ===== verification/Spec2Isabelle.thy ===== *)
theory Spec2Isabelle
  imports Evm_Keeper Vesting_Keeper Feemarket Inflation Revenue Claims Cosmos_Ante Erc20_Properties
begin

text \<open>
  Verification of the Akkad chain, an Evmos v12 application: a Cosmos SDK chain with an Ethereum virtual machine.  This library models the modules of the
  repository as HOL functions and proves what makes them correct.  Paths below are relative to \<^verbatim>\<open>src/\<close>.

  \<^bold>\<open>How the parts interact.\<close>  A transaction first passes the ante handler (\<^verbatim>\<open>app/ante\<close>), which routes it by its extension option to the
  handler of Ethereum or of Cosmos transactions, checks it, deducts fees and raises sequences.  An Ethereum message then runs in the state transition of
  \<^verbatim>\<open>x/evm/keeper\<close>: the interpreter of go-ethereum works on a \<open>StateDB\<close> (\<^verbatim>\<open>x/evm/statedb\<close>), which is committed to the store, the hooks of
  \<^verbatim>\<open>x/erc20\<close> and \<^verbatim>\<open>x/revenue\<close> run, and unused gas is refunded.  The fee market sets the base fee of the next block.  At block boundaries
  \<^verbatim>\<open>x/epochs\<close> advances its timers and calls \<^verbatim>\<open>x/inflation\<close>.  \<^verbatim>\<open>x/vesting\<close> holds accounts whose coins vest, \<^verbatim>\<open>x/claims\<close> pays an
  airdrop from an escrow, and \<^verbatim>\<open>x/claims\<close> and \<^verbatim>\<open>x/erc20\<close> react to packets of IBC transfers.

  \<^bold>\<open>Conventions.\<close>  Addresses and hashes are words of 160 and 256 bits, a \<^verbatim>\<open>uint64\<close> is a 64-bit word that wraps around, an \<^verbatim>\<open>int64\<close> is an integer with
  the wrap-around written out, \<^verbatim>\<open>big.Int\<close> and \<^verbatim>\<open>sdk.Int\<close> are integers, a nil-able value is an option, a KV store is a finite map iterated in the order
  of its keys, and a time is an integer of nanoseconds.  A panic is a value of \<open>panic\<close>, an error is a string, and a call that can do both returns
  \<open>failure + 'a\<close>; state is passed explicitly and an error drops it, as the SDK reverts a failed message.  Error texts are shortened.

  \<^bold>\<open>Code outside the repository\<close> is a record of functions with a locale that states its documented behaviour: coins and account, bank, distribution and
  staking keepers (\<^verbatim>\<open>Sdk\<close>, \<^verbatim>\<open>Sdk_Keepers\<close>: \<open>sdk_coins\<close>, \<open>sdk_keepers\<close>), decimals (\<^verbatim>\<open>Sdk_Dec\<close>: \<open>sdk_dec\<close>), address codecs (\<^verbatim>\<open>Addresses\<close>:
  \<open>bech32\<close>, \<open>eth_lib\<close>), ibc-go (\<^verbatim>\<open>Ibc_Utils\<close>), the interpreter (\<^verbatim>\<open>Evm_Transition\<close>: \<open>eth_vm\<close>, \<open>evm_module\<close>), decorators and signatures
  (\<^verbatim>\<open>Evm_Ante\<close>, \<^verbatim>\<open>Cosmos_Ante\<close>), the ABI and bank metadata (\<^verbatim>\<open>Erc20\<close>: \<open>erc20_module\<close>).  Every locale is interpreted on a complete reference instance, and
  every property with hypotheses has a witness that evaluates the code on it.

  \<^bold>\<open>The theories.\<close>
  \<^item> \<^verbatim>\<open>Prelude\<close>: results, loops over slices, \<^verbatim>\<open>sort.Search\<close>, facts on finite maps.
  \<^item> \<^verbatim>\<open>Access_List\<close>, \<^verbatim>\<open>State_DB\<close>: \<^verbatim>\<open>x/evm/statedb\<close>; the record \<open>StateDB\<close> has the fields of the struct and each method is one definition.
    \<^verbatim>\<open>State_DB_Spec\<close>, \<^verbatim>\<open>State_DB_Undo\<close>, \<^verbatim>\<open>State_DB_Refine\<close>, \<^verbatim>\<open>State_DB_Sim\<close>: a specification in which a snapshot is a copy of the world, and the simulation
    that any sequence of calls behaves like it.  \<^verbatim>\<open>State_DB_Commit\<close>, \<^verbatim>\<open>Evm_Keeper\<close> (\<^verbatim>\<open>x/evm/keeper/statedb.go\<close>): what a commit leaves in the store.
  \<^item> \<^verbatim>\<open>Evm_Params\<close>, \<^verbatim>\<open>Evm_Tx\<close>: parameters, logs, transactions and messages of \<^verbatim>\<open>x/evm/types\<close>.  \<^verbatim>\<open>Evm_Transition\<close>: \<^verbatim>\<open>state_transition.go\<close>,
    \<^verbatim>\<open>gas.go\<close>, \<^verbatim>\<open>fees.go\<close>, \<^verbatim>\<open>hooks.go\<close> and \<^verbatim>\<open>msg_server.go\<close> of the keeper over the state \<open>EvmState\<close>; the gas charged, the price of a failed
    transaction, the counters of a block.  \<^verbatim>\<open>Evm_Query\<close>: \<^verbatim>\<open>tx_args.go\<close>, \<^verbatim>\<open>grpc_query.go\<close>, genesis; the estimate returns and executes, the genesis restores the
    stores.
  \<^item> \<^verbatim>\<open>Evm_Ante\<close>, \<^verbatim>\<open>Cosmos_Ante\<close>: \<^verbatim>\<open>app/ante\<close>; sequences, fees, replay, which messages pass which handler, delegations of vesting accounts.
  \<^item> \<^verbatim>\<open>Feemarket\<close>, \<^verbatim>\<open>Epochs\<close>, \<^verbatim>\<open>Inflation\<close>, \<^verbatim>\<open>Revenue\<close>, \<^verbatim>\<open>Claims\<close>: one module each, with its store as a record, every handler, and invariants
    along step relations.
  \<^item> \<^verbatim>\<open>Vesting_Schedule\<close>, \<^verbatim>\<open>Vesting_Account\<close>, \<^verbatim>\<open>Vesting_Keeper\<close>: schedules and their reading as step functions, clawback accounts, messages.
  \<^item> \<^verbatim>\<open>Erc20\<close>, \<^verbatim>\<open>Erc20_Properties\<close>: token pairs, conversions over the modelled EVM, the hook and the IBC callbacks of \<^verbatim>\<open>x/erc20\<close>.
  \<^item> This theory: the composition of ante handler and state transition.

  \<^bold>\<open>Bounds and loops.\<close>  All loops are structural recursions or \<^verbatim>\<open>function\<close>s with a termination proof, except the binary search for gas, whose midpoint
  wraps around in 64 bits: it is a partial function into \<open>option\<close>, proved to return for caps up to \<open>2 ^ 63\<close> and shown not to return for larger ones when every
  execution succeeds.  No fuel is used.

  \<^bold>\<open>Not modelled.\<close>  \<^verbatim>\<open>x/incentives\<close>, \<^verbatim>\<open>x/recovery\<close> and \<^verbatim>\<open>x/ibc/transfer\<close>; the tracing queries; store migrations; events, logging, telemetry and gas metering of the
  KV store; encodings (protobuf, amino, JSON, EIP-712) and cryptography, which enter as parameters; wiring of the application, RPC server, indexer and command
  line, which are I/O.
\<close>

section \<open>A transaction from the mempool to the store\<close>

text \<open>
  C4.  The price of a failed transaction.  A transaction with one validated Ethereum message is accepted by the ante handler in a
  block and then executed with hooks set, and the execution or a hook fails.  Then the sender recovered from the signature has
  paid exactly the gas used times the effective gas price of the message, the fee collector has got exactly that,
  no other balance, no storage and no code has changed, and the sequence of the sender has grown by one.
\<close>

theorem failed_tx_costs_gas_used:
  assumes "eth_messages k L"
    and "newEVMAnteHandler L k b maxGas cx tx es = Inr (cx', tx', es')" "\<not> acCheckTx cx" "\<not> acReCheckTx cx"
    and "txMsgs tx = [EthMsg m0]" "me_ValidateBasic (kEth k) (kTx k) m0 = Inr ()" "\<forall>f. anteBaseFee k b es = Some f \<longrightarrow> 0 \<le> f"
    and "0 \<le> GetMinGasMultiplier es" "GetMinGasMultiplier es \<le> dec_one" "accountOf k es (collector k) \<noteq> None"
    and "txMsgs tx' = [EthMsg m]" "EthereumTx k b m es' = Inr (res, es'')" "kHooks k \<noteq> None" "res_Failed res"
  shows "\<exists>a n price. recoverSender k b es m0 = Inr m \<and> me_GetFrom (kEth k) m = Some a \<and> seqOf k es a = Some n \<and>
    seqOf k es'' a = Some (n + 1) \<and> storageStore (esEvm es'') = storageStore (esEvm es) \<and> codeStore (esEvm es'') = codeStore (esEvm es) \<and>
    (\<forall>d. meData m0 = Some d \<longrightarrow> innerPrice (anteBaseFee k b es) (td_AsEthereumData (kEth k) d) = Some price) \<and>
    uint (resGasUsed res) \<le> uint (me_GetGas m0) \<and>
    (\<forall>z e. balanceOf k es'' z e = balanceOf k es z e +
      (if e = pEvmDenom (ev_GetParams es)
       then at_addr (collector k) z (uint (resGasUsed res) * price) - at_addr a z (uint (resGasUsed res) * price) else 0))"
  using eth_messages.failed_tx_price [OF assms(1-6) _ assms(8-14)] assms(7) by blast

lemma ref_failed_run:
  "case ref_ante_run of Inl _ \<Rightarrow> False
   | Inr (_, tx, es) \<Rightarrow>
       (case txMsgs tx of
          [EthMsg m] \<Rightarrow>
            (case EthereumTx ref_keeper ref_evm_block m es of Inl _ \<Rightarrow> False | Inr (res, _) \<Rightarrow> res_Failed res \<and> resGasUsed res = 36)
        | _ \<Rightarrow> False)"
  by code_simp

theorem failed_tx_costs_gas_used_witness:
  "\<exists>cx' tx' es' m res es''. ref_ante_run = Inr (cx', tx', es') \<and> EthereumTx ref_keeper ref_evm_block m es' = Inr (res, es'') \<and>
    balanceOf ref_keeper es'' 3 ''aevmos'' = 150 - 36 * 2 \<and> seqOf ref_keeper es'' 3 = Some 5"
proof -
  obtain cx' tx' es' where ante: "ref_ante_run = Inr (cx', tx', es')" using ref_ante_accepts by (metis isl_def obj_sumE prod.exhaust)
  obtain x xs where msgs: "txMsgs tx' = x # xs" using ref_failed_run by (cases "txMsgs tx'") (simp_all add: ante)
  obtain m where x: "x = EthMsg m" using ref_failed_run by (cases x) (simp_all add: ante msgs)
  have xs: "xs = []" using ref_failed_run by (cases xs) (simp_all add: ante msgs x)
  obtain res es'' where tx: "EthereumTx ref_keeper ref_evm_block m es' = Inr (res, es'')" "res_Failed res" "resGasUsed res = 36"
    using ref_failed_run by (cases "EthereumTx ref_keeper ref_evm_block m es'") (auto simp add: ante msgs x xs)
  have run: "ref_ante_run = Inr (cx', tx', es')" "txMsgs tx' = [EthMsg m]"
    "EthereumTx ref_keeper ref_evm_block m es' = Inr (res, es'')" "res_Failed res" "resGasUsed res = 36"
    using ante msgs x xs tx by simp_all
  have base: "anteBaseFee ref_keeper ref_evm_block ref_evm_state = Some 1"
    and init: "balanceOf ref_keeper ref_evm_state 3 ''aevmos'' = 150" "seqOf ref_keeper ref_evm_state 3 = Some 4"
      "pEvmDenom (ev_GetParams ref_evm_state) = ''aevmos''"
    and price: "innerPrice (Some 1) (td_AsEthereumData (kEth ref_keeper) (the (meData (ref_eth_msg 4 [0])))) = Some 2"
    by code_simp+
  have hooks: "kHooks ref_keeper \<noteq> None" by (simp add: ref_module_def)
  have mult: "GetMinGasMultiplier ref_evm_state = 50 * 10 ^ 16"
    by (simp add: GetMinGasMultiplier_def ref_evm_state_def ref_market_def fm_GetParams_def ref_fees_def fm_NewParams_def)
  have "\<exists>a n price. recoverSender ref_keeper ref_evm_block ref_evm_state (ref_eth_msg 4 [0]) = Inr m \<and>
      me_GetFrom (kEth ref_keeper) m = Some a \<and> seqOf ref_keeper ref_evm_state a = Some n \<and>
      seqOf ref_keeper es'' a = Some (n + 1) \<and> storageStore (esEvm es'') = storageStore (esEvm ref_evm_state) \<and>
      codeStore (esEvm es'') = codeStore (esEvm ref_evm_state) \<and>
      (\<forall>d. meData (ref_eth_msg 4 [0]) = Some d \<longrightarrow> innerPrice (anteBaseFee ref_keeper ref_evm_block ref_evm_state)
        (td_AsEthereumData (kEth ref_keeper) d) = Some price) \<and>
      uint (resGasUsed res) \<le> uint (me_GetGas (ref_eth_msg 4 [0])) \<and>
      (\<forall>z e. balanceOf ref_keeper es'' z e = balanceOf ref_keeper ref_evm_state z e +
        (if e = pEvmDenom (ev_GetParams ref_evm_state)
         then at_addr (collector ref_keeper) z (uint (resGasUsed res) * price) - at_addr a z (uint (resGasUsed res) * price) else 0))"
    by (rule failed_tx_costs_gas_used [OF ref_messages.eth_messages_axioms run(1) ref_mode _ ref_eth_msg_valid _ _ _
        ref_collector(1) run(2,3) hooks run(4)])
      (simp_all add: ref_ante_tx_def base mult dec_one_def)
  then obtain a price where a: "recoverSender ref_keeper ref_evm_block ref_evm_state (ref_eth_msg 4 [0]) = Inr m"
    "me_GetFrom (kEth ref_keeper) m = Some a" "\<exists>n. seqOf ref_keeper ref_evm_state a = Some n \<and> seqOf ref_keeper es'' a = Some (n + 1)"
    "\<forall>d. meData (ref_eth_msg 4 [0]) = Some d \<longrightarrow> innerPrice (anteBaseFee ref_keeper ref_evm_block ref_evm_state)
        (td_AsEthereumData (kEth ref_keeper) d) = Some price"
    "\<forall>z e. balanceOf ref_keeper es'' z e = balanceOf ref_keeper ref_evm_state z e +
        (if e = pEvmDenom (ev_GetParams ref_evm_state)
         then at_addr (collector ref_keeper) z (uint (resGasUsed res) * price) - at_addr a z (uint (resGasUsed res) * price) else 0)"
    by blast
  have m: "m = (ref_eth_msg 4 [0])\<lparr>meFrom := ref_encode 3\<rparr>" using a(1) by (simp add: ref_recover)
  have "a = 3" using a(2) by (simp add: m ref_module_def)
  moreover have "price = 2" using a(4) price by (simp add: base ref_eth_msg_def)
  ultimately show ?thesis using run(1,3,5) a(3,5) init ref_collector(2)
    by (intro exI [of _ cx'] exI [of _ tx'] exI [of _ es'] exI [of _ m] exI [of _ res] exI [of _ es''])
      (simp add: at_addr_def)
qed

end
